(* ===== verification/Prelude.thy ===== *)
theory Prelude
  imports Main "HOL-Library.Word"
begin

section \<open>Prelude: exceptions, results, byte strings, ordered maps\<close>

text \<open>
  What every component of the development shares.  A C++ \<open>std::string\<close> is a list of
  bytes and is modelled by HOL's \<open>string\<close> (a \<open>char\<close> has exactly 256 values); a C++
  exception is a value of the datatype \<open>exn\<close>; a function that may throw returns
  \<open>exn + 'a\<close>, with \<open>Inl\<close> for the exception; \<open>std::map\<close> is a list of pairs sorted
  by key.  The collection \<open>result_simps\<close> holds the laws of the result type, the
  collection \<open>string_simps\<close> the laws of the string operations.
\<close>

named_theorems result_simps
named_theorems string_simps

subsection \<open>Exceptions and results\<close>

text \<open>
  The exception classes the modelled code throws or lets through.  The payload is the
  message where the source builds one that the model needs, otherwise nothing.
\<close>

datatype exn =
    RuntimeError string
  | LogicError string
  | InvalidArgument
  | OutOfRange
  | JsonParseException
  | JsonTypeMismatch
  | JsonMemberMissing
  | JsonConversion
  | JsonOutOfBounds
  | PgNonSingleRow
  | PgFieldValueIsNull
  | PgNarrowingOverflow
  | PgInvalidInputBufferSize
  | PgInvalidTupleSize
  | PgNonSingleColumn
  | PgFieldNameDoesntExist
  | PgFieldIndexOutOfBounds
  | PgRowIndexOutOfBounds
  | PgError string

type_synonym 'a result = "exn + 'a"

definition rbind :: "'a result \<Rightarrow> ('a \<Rightarrow> 'b result) \<Rightarrow> 'b result" where
  "rbind r f = (case r of Inl e \<Rightarrow> Inl e | Inr x \<Rightarrow> f x)"

definition is_ok :: "'a result \<Rightarrow> bool" where
  "is_ok r = (case r of Inl _ \<Rightarrow> False | Inr _ \<Rightarrow> True)"

lemma rbind_simps [simp, result_simps]:
  "rbind (Inl e) f = Inl e"
  "rbind (Inr x) f = f x"
  by (simp_all add: rbind_def)

lemma is_ok_simps [simp, result_simps]:
  "\<not> is_ok (Inl e)"
  "is_ok (Inr x)"
  by (simp_all add: is_ok_def)

lemma is_ok_iff: "is_ok r \<longleftrightarrow> (\<exists>x. r = Inr x)"
  by (cases r) auto

lemma rbind_eq_Inr [result_simps]:
  "rbind r f = Inr y \<longleftrightarrow> (\<exists>x. r = Inr x \<and> f x = Inr y)"
  by (cases r) auto

lemma rbind_eq_Inl:
  "rbind r f = Inl e \<longleftrightarrow> r = Inl e \<or> (\<exists>x. r = Inr x \<and> f x = Inl e)"
  by (cases r) auto

lemma is_ok_rbindI: "is_ok r \<Longrightarrow> (\<And>x. r = Inr x \<Longrightarrow> is_ok (f x)) \<Longrightarrow> is_ok (rbind r f)"
  by (cases r) auto

lemma rbind_assoc: "rbind (rbind r f) g = rbind r (\<lambda>x. rbind (f x) g)"
  by (cases r) auto

text \<open>A loop whose body may throw: the state threads through until the first exception.\<close>

fun foldr_result :: "('a \<Rightarrow> 's \<Rightarrow> 's result) \<Rightarrow> 'a list \<Rightarrow> 's \<Rightarrow> 's result" where
  "foldr_result f [] s = Inr s"
| "foldr_result f (x # xs) s = rbind (f x s) (foldr_result f xs)"

fun map_result :: "('a \<Rightarrow> 'b result) \<Rightarrow> 'a list \<Rightarrow> 'b list result" where
  "map_result f [] = Inr []"
| "map_result f (x # xs) = rbind (f x) (\<lambda>y. rbind (map_result f xs) (\<lambda>ys. Inr (y # ys)))"

lemma foldr_result_invariant:
  assumes "\<And>x s s'. x \<in> set xs \<Longrightarrow> P s \<Longrightarrow> f x s = Inr s' \<Longrightarrow> P s'"
    and "P s" and "foldr_result f xs s = Inr s'"
  shows "P s'"
  using assms
proof (induction xs arbitrary: s)
  case Nil
  then show ?case by simp
next
  case (Cons x xs)
  from Cons.prems(3) obtain s1 where s1: "f x s = Inr s1" "foldr_result f xs s1 = Inr s'"
    by (auto simp: rbind_eq_Inr)
  have "P s1" using Cons.prems(1)[of x s s1] Cons.prems(2) s1(1) by simp
  then show ?case using Cons.IH[of s1] Cons.prems(1) s1(2) by auto
qed

lemma map_result_Inr_length: "map_result f xs = Inr ys \<Longrightarrow> length ys = length xs"
  by (induction xs arbitrary: ys) (auto simp: rbind_eq_Inr)

lemma map_result_Inr_iff:
  "map_result f xs = Inr ys \<longleftrightarrow> list_all2 (\<lambda>x y. f x = Inr y) xs ys"
  by (induction xs arbitrary: ys) (auto simp: rbind_eq_Inr list_all2_Cons1)

lemma map_result_pure: "(\<And>x. x \<in> set xs \<Longrightarrow> f x = Inr (g x)) \<Longrightarrow> map_result f xs = Inr (map g xs)"
  by (induction xs) auto

subsection \<open>Actions: state with exceptions\<close>

text \<open>
  A member function that changes its object and may throw: the state it leaves behind is
  kept also when it throws.  \<open>act_try\<close> is a \<open>try\<close> block with one handler.  The type of the
  exceptions is a parameter, because a request handler may throw more than an \<open>exn\<close>.
\<close>

type_synonym ('e, 's, 'a) eact = "'s \<Rightarrow> ('e + 'a) \<times> 's"

type_synonym ('s, 'a) act = "(exn, 's, 'a) eact"

definition act_return :: "'a \<Rightarrow> ('e, 's, 'a) eact" where
  "act_return x s = (Inr x, s)"

definition act_throw :: "'e \<Rightarrow> ('e, 's, 'a) eact" where
  "act_throw e s = (Inl e, s)"

definition act_lift :: "'e + 'a \<Rightarrow> ('e, 's, 'a) eact" where
  "act_lift r s = (r, s)"

definition act_bind :: "('e, 's, 'a) eact \<Rightarrow> ('a \<Rightarrow> ('e, 's, 'b) eact) \<Rightarrow> ('e, 's, 'b) eact" where
  "act_bind m f s = (case m s of (Inl e, s') \<Rightarrow> (Inl e, s') | (Inr x, s') \<Rightarrow> f x s')"

definition act_get :: "('s \<Rightarrow> 'a) \<Rightarrow> ('e, 's, 'a) eact" where
  "act_get g s = (Inr (g s), s)"

definition act_modify :: "('s \<Rightarrow> 's) \<Rightarrow> ('e, 's, unit) eact" where
  "act_modify f s = (Inr (), f s)"

definition act_then :: "('e, 's, 'a) eact \<Rightarrow> ('e, 's, 'b) eact \<Rightarrow> ('e, 's, 'b) eact" where
  "act_then m n = act_bind m (\<lambda>_. n)"

definition act_try :: "('e, 's, 'a) eact \<Rightarrow> ('e \<Rightarrow> ('e, 's, 'a) eact) \<Rightarrow> ('e, 's, 'a) eact" where
  "act_try m h s = (case m s of (Inl e, s') \<Rightarrow> h e s' | (Inr x, s') \<Rightarrow> (Inr x, s'))"

fun act_each :: "('a \<Rightarrow> ('e, 's, unit) eact) \<Rightarrow> 'a list \<Rightarrow> ('e, 's, unit) eact" where
  "act_each f [] = act_return ()"
| "act_each f (x # xs) = act_then (f x) (act_each f xs)"

lemmas act_defs = act_return_def act_throw_def act_lift_def act_bind_def act_get_def act_modify_def
  act_then_def act_try_def

lemma act_bind_simps [simp]:
  "m s = (Inr x, s') \<Longrightarrow> act_bind m f s = f x s'"
  "m s = (Inl e, s') \<Longrightarrow> act_bind m f s = (Inl e, s')"
  by (simp_all add: act_bind_def)

lemma act_then_simps [simp]:
  "m s = (Inr x, s') \<Longrightarrow> act_then m n s = n s'"
  "m s = (Inl e, s') \<Longrightarrow> act_then m n s = (Inl e, s')"
  by (simp_all add: act_then_def)

lemma act_bind_eq_Inr:
  "act_bind m f s = (Inr y, s'') \<longleftrightarrow> (\<exists>x s'. m s = (Inr x, s') \<and> f x s' = (Inr y, s''))"
  by (auto simp: act_bind_def split: prod.splits sum.splits)

lemma act_then_eq_Inr:
  "act_then m n s = (Inr y, s'') \<longleftrightarrow> (\<exists>x s'. m s = (Inr x, s') \<and> n s' = (Inr y, s''))"
  by (simp add: act_then_def act_bind_eq_Inr)

text \<open>An action that keeps a predicate of the state, whether it throws or not.\<close>

definition preserves :: "('s \<Rightarrow> bool) \<Rightarrow> ('e, 's, 'a) eact \<Rightarrow> bool" where
  "preserves P m \<longleftrightarrow> (\<forall>s. P s \<longrightarrow> P (snd (m s)))"

lemma preservesD: "preserves P m \<Longrightarrow> P s \<Longrightarrow> m s = (r, s') \<Longrightarrow> P s'"
  by (metis preserves_def snd_conv)

lemma preserves_simple [intro]:
  "preserves P (act_return x)" "preserves P (act_throw e)" "preserves P (act_lift r)" "preserves P (act_get g)"
  by (simp_all add: preserves_def act_defs)

lemma preserves_modify: "(\<And>s. P s \<Longrightarrow> P (f s)) \<Longrightarrow> preserves P (act_modify f)"
  by (simp add: preserves_def act_defs)

lemma preserves_bind: "preserves P m \<Longrightarrow> (\<And>x. preserves P (f x)) \<Longrightarrow> preserves P (act_bind m f)"
proof -
  assume m: "preserves P m" and f: "\<And>x. preserves P (f x)"
  have "P (snd (act_bind m f s))" if "P s" for s
  proof -
    obtain r s' where r: "m s = (r, s')" by fastforce
    then have "P s'" using m that by (rule_tac preservesD)
    then show ?thesis using r f by (cases r) (auto simp: act_bind_def preserves_def)
  qed
  then show ?thesis by (simp add: preserves_def)
qed

lemma preserves_then: "preserves P m \<Longrightarrow> preserves P n \<Longrightarrow> preserves P (act_then m n)"
  by (simp add: act_then_def preserves_bind)

subsection \<open>Bytes\<close>

text \<open>
  \<open>byte c\<close> is the value of a \<open>char\<close> as C++'s \<open>unsigned char\<close>, \<open>schar c\<close> its value
  as the plain \<open>char\<close> of the target platform (signed, x86-64 and aarch64-darwin), and
  \<open>to_char\<close> is \<open>static_cast<char>\<close> of an \<open>int\<close>, which keeps the low eight bits.
\<close>

abbreviation byte :: "char \<Rightarrow> nat" where
  "byte c \<equiv> of_char c"

definition schar :: "char \<Rightarrow> int" where
  "schar c = (if byte c < 128 then int (byte c) else int (byte c) - 256)"

definition to_char :: "int \<Rightarrow> char" where
  "to_char i = char_of (nat (i mod 256))"

lemma to_char_byte [simp]: "to_char (int (byte c)) = c"
  by (simp add: to_char_def)

lemma to_char_schar [simp]: "to_char (schar c) = c"
  by (auto simp: schar_def to_char_def nat_mod_distrib)

subsection \<open>String searching: \<open>find\<close>, \<open>rfind\<close>, \<open>substr\<close>, \<open>boost::split\<close>\<close>

text \<open>
  \<open>find_pos P s\<close> is the position of the first element that satisfies \<open>P\<close>
  (\<open>None\<close> is \<open>std::string::npos\<close>), \<open>rfind_pos\<close> that of the last one, and \<open>find_sub\<close>
  the position of the first occurrence of a substring.
\<close>

fun find_pos :: "('a \<Rightarrow> bool) \<Rightarrow> 'a list \<Rightarrow> nat option" where
  "find_pos P [] = None"
| "find_pos P (x # xs) = (if P x then Some 0 else map_option Suc (find_pos P xs))"

definition rfind_pos :: "('a \<Rightarrow> bool) \<Rightarrow> 'a list \<Rightarrow> nat option" where
  "rfind_pos P s = map_option (\<lambda>i. length s - 1 - i) (find_pos P (rev s))"

fun find_sub :: "'a list \<Rightarrow> 'a list \<Rightarrow> nat option" where
  "find_sub pat [] = (if pat = [] then Some 0 else None)"
| "find_sub pat (x # xs) =
     (if take (length pat) (x # xs) = pat then Some 0 else map_option Suc (find_sub pat xs))"

definition substr :: "nat \<Rightarrow> nat \<Rightarrow> 'a list \<Rightarrow> 'a list" where
  "substr pos n s = take n (drop pos s)"

fun split_on :: "'a \<Rightarrow> 'a list \<Rightarrow> 'a list list" where
  "split_on sep [] = [[]]"
| "split_on sep (x # xs) =
     (if x = sep then [] # split_on sep xs
      else (case split_on sep xs of [] \<Rightarrow> [[x]] | p # ps \<Rightarrow> (x # p) # ps))"

fun join_with :: "'a list \<Rightarrow> 'a list list \<Rightarrow> 'a list" where
  "join_with sep [] = []"
| "join_with sep [p] = p"
| "join_with sep (p # q # ps) = p @ sep @ join_with sep (q # ps)"

lemma find_pos_None_iff [string_simps]: "find_pos P s = None \<longleftrightarrow> (\<forall>x\<in>set s. \<not> P x)"
  by (induction s) auto

lemma find_pos_Some_iff:
  "find_pos P s = Some i \<longleftrightarrow> i < length s \<and> P (s ! i) \<and> (\<forall>j<i. \<not> P (s ! j))"
proof (induction s arbitrary: i)
  case Nil
  then show ?case by simp
next
  case (Cons x xs)
  show ?case
    by (cases i) (auto simp: Cons.IH All_less_Suc2)
qed

lemma find_pos_takeWhile:
  "find_pos P s = Some i \<Longrightarrow> takeWhile (\<lambda>x. \<not> P x) s = take i s"
  by (induction s arbitrary: i) (auto split: if_splits)

lemma find_pos_dropWhile:
  "find_pos P s = Some i \<Longrightarrow> dropWhile (\<lambda>x. \<not> P x) s = drop i s"
  by (induction s arbitrary: i) (auto split: if_splits)

lemma find_pos_less: "find_pos P s = Some i \<Longrightarrow> i < length s"
  by (simp add: find_pos_Some_iff)

lemma find_pos_cong_nth:
  assumes "length xs = length ys" and "\<And>i. i < length ys \<Longrightarrow> P (xs ! i) = P (ys ! i)"
  shows "find_pos P xs = find_pos P ys"
proof (cases "find_pos P ys")
  case None
  then have "find_pos P xs = None" using assms unfolding find_pos_None_iff by (metis in_set_conv_nth)
  then show ?thesis using None by simp
next
  case (Some i)
  then have "find_pos P xs = Some i" using assms unfolding find_pos_Some_iff by auto
  then show ?thesis using Some by simp
qed

lemma find_pos_snoc:
  "find_pos P (xs @ [x]) = (case find_pos P xs of Some i \<Rightarrow> Some i | None \<Rightarrow> if P x then Some (length xs) else None)"
  by (induction xs) (auto split: option.splits)

lemma find_pos_append_miss:
  "\<forall>x\<in>set xs. \<not> P x \<Longrightarrow> find_pos P (xs @ ys) = map_option (\<lambda>i. length xs + i) (find_pos P ys)"
  by (induction xs) (cases "find_pos P ys"; auto)+

lemma find_sub_append_miss:
  assumes "pat = c # cs" and "c \<notin> set xs"
  shows "find_sub pat (xs @ ys) = map_option (\<lambda>i. length xs + i) (find_sub pat ys)"
  using assms(2)
proof (induction xs)
  case Nil
  show ?case by (cases "find_sub pat ys") auto
next
  case (Cons x xs)
  then have "take (length pat) (x # xs @ ys) \<noteq> pat" using assms(1) by auto
  with Cons show ?case by (cases "find_sub pat ys") auto
qed

lemma split_on_not_Nil [simp]: "split_on sep s \<noteq> []"
  by (cases s) (auto split: list.splits)

lemma join_split_on [simp]: "join_with [sep] (split_on sep s) = s"
proof (induction s)
  case Nil
  show ?case by simp
next
  case (Cons x xs)
  obtain p ps where p: "split_on sep xs = p # ps"
    by (cases "split_on sep xs") auto
  with Cons show ?case by (cases ps) auto
qed

lemma split_on_sep_free: "p \<in> set (split_on sep s) \<Longrightarrow> sep \<notin> set p"
proof (induction s arbitrary: p)
  case Nil
  then show ?case by simp
next
  case (Cons x xs)
  then show ?case by (fastforce split: if_splits list.splits)
qed

lemma split_on_single: "sep \<notin> set p \<Longrightarrow> split_on sep p = [p]"
  by (induction p) auto

lemma split_on_append_sep: "sep \<notin> set p \<Longrightarrow> split_on sep (p @ sep # s) = p # split_on sep s"
  by (induction p) auto

lemma split_on_join:
  "ps \<noteq> [] \<Longrightarrow> (\<forall>p\<in>set ps. sep \<notin> set p) \<Longrightarrow> split_on sep (join_with [sep] ps) = ps"
  by (induction "[sep]" ps rule: join_with.induct) (auto simp: split_on_single split_on_append_sep)

lemma length_split_on: "length (split_on sep s) = Suc (count_list s sep)"
  by (induction s) (auto split: list.splits)

subsection \<open>Ordered maps (\<open>std::map\<close>)\<close>

text \<open>
  A \<open>std::map\<close> is the list of its entries in increasing order of the key, which is the
  order its iterators visit them in.  \<open>smap_put\<close> is \<open>operator[]\<close> followed by assignment.
\<close>

type_synonym ('k, 'v) smap = "('k \<times> 'v) list"

fun smap_put :: "'k::linorder \<Rightarrow> 'v \<Rightarrow> ('k, 'v) smap \<Rightarrow> ('k, 'v) smap" where
  "smap_put k v [] = [(k, v)]"
| "smap_put k v (e # es) =
     (if fst e < k then e # smap_put k v es
      else if fst e = k then (k, v) # es
      else (k, v) # e # es)"

definition smap_wf :: "('k::linorder, 'v) smap \<Rightarrow> bool" where
  "smap_wf m \<longleftrightarrow> sorted_wrt (<) (map fst m)"

lemma smap_wf_simps [simp]:
  "smap_wf []"
  "smap_wf (e # es) \<longleftrightarrow> (\<forall>k\<in>fst ` set es. fst e < k) \<and> smap_wf es"
  by (auto simp: smap_wf_def)

lemma smap_put_keys: "fst ` set (smap_put k v m) = insert k (fst ` set m)"
  by (induction m) auto

lemma smap_put_wf [simp]: "smap_wf m \<Longrightarrow> smap_wf (smap_put k v m)"
  by (induction m) (auto simp: smap_put_keys simp del: image_insert)

lemma smap_put_get: "map_of (smap_put k v m) = (map_of m)(k \<mapsto> v)"
  by (induction m) (auto simp: fun_eq_iff)

lemma smap_wf_distinct: "smap_wf m \<Longrightarrow> distinct (map fst m)"
  by (induction m) auto

lemma smap_put_set: "smap_wf m \<Longrightarrow> set (smap_put k v m) = insert (k, v) {e \<in> set m. fst e \<noteq> k}"
  by (induction m) auto

subsection \<open>Decimal printing of integers (\<open>std::to_string\<close>, \<open>fmt\<close>'s \<open>{}\<close>)\<close>

fun dec :: "nat \<Rightarrow> string" where
  "dec n = (if n < 10 then [char_of (48 + n)] else dec (n div 10) @ [char_of (48 + n mod 10)])"

declare dec.simps [simp del]

definition dec_int :: "int \<Rightarrow> string" where
  "dec_int i = (if i < 0 then CHR ''-'' # dec (nat (- i)) else dec (nat i))"

definition is_digit :: "char \<Rightarrow> bool" where
  "is_digit c \<longleftrightarrow> 48 \<le> byte c \<and> byte c \<le> 57"

definition undec :: "string \<Rightarrow> nat" where
  "undec s = foldl (\<lambda>n c. 10 * n + (byte c - 48)) 0 s"

lemma dec_digits: "c \<in> set (dec n) \<Longrightarrow> is_digit c"
proof (induction n rule: dec.induct)
  case (1 n)
  show ?case
  proof (cases "n < 10")
    case True
    with 1(2) show ?thesis by (simp add: dec.simps [of n] is_digit_def)
  next
    case False
    with 1 show ?thesis by (auto simp: dec.simps [of n] is_digit_def)
  qed
qed

lemma dec_not_Nil [simp]: "dec n \<noteq> []"
  by (simp add: dec.simps [of n])

lemma undec_dec [simp]: "undec (dec n) = n"
proof (induction n rule: dec.induct)
  case (1 n)
  show ?case
  proof (cases "n < 10")
    case True
    then show ?thesis by (simp add: dec.simps [of n] undec_def)
  next
    case False
    with 1 have "foldl (\<lambda>n c. 10 * n + (byte c - 48)) 0 (dec (n div 10)) = n div 10"
      by (simp add: undec_def)
    with False show ?thesis by (simp add: dec.simps [of n] undec_def)
  qed
qed

lemma dec_inject [simp]: "dec m = dec n \<longleftrightarrow> m = n"
  by (metis undec_dec)

subsection \<open>The interface of an encoding\<close>

text \<open>
  What a client of an encoder and its decoder relies on: decoding what was encoded succeeds
  and gives the value back.  Interpreted by the percent encoding with each of its two
  decoders, by the hexadecimal encoding and by the tables of names.
\<close>

locale text_codec =
  fixes encode :: "'a \<Rightarrow> 'b" and decode :: "'b \<Rightarrow> 'a result"
  assumes decode_encode: "decode (encode x) = Inr x"
begin

lemma encode_inject: "encode x = encode y \<longleftrightarrow> x = y"
  by (metis decode_encode sum.inject(2))

lemma encode_inj: "inj encode"
  by (simp add: inj_def encode_inject)

lemma map_decode_encode: "map_result decode (map encode xs) = Inr xs"
  by (induction xs) (simp_all add: decode_encode)

lemma decode_of_image: "b \<in> range encode \<Longrightarrow> \<exists>x. decode b = Inr x \<and> encode x = b"
  using decode_encode by auto

end

end
