(* ===== verification/Http_Types.thy ===== *)
theory Http_Types
  imports Prelude
begin

section \<open>HTTP methods, status codes and handler error codes\<close>

text \<open>
  The enumerations the server, the handlers and the services share, with their conversions:
  \<open>server::http::HttpMethod\<close> (\<open>http_method.cpp\<close>, \<open>handler_methods.hpp\<close>),
  \<open>http::StatusCode\<close> (\<open>status_code.hpp\<close>, \<open>status_code.cpp\<close>), \<open>HandlerErrorCode\<close> and its
  translation to a status (\<open>exceptions.cpp\<close>, \<open>http_error.cpp\<close>), the fallback handlers and
  the parsing of a handler's method list (\<open>http_handler_base.cpp\<close>).
\<close>

subsection \<open>HttpMethod\<close>

datatype HttpMethod =
  kDelete | kGet | kHead | kPost | kPut | kPatch | kConnect | kOptions | kUnknown

text \<open>\<open>static_cast<size_t>(method)\<close>: the position of the enumerator.\<close>

primrec method_index :: "HttpMethod \<Rightarrow> nat" where
  "method_index kDelete = 0"
| "method_index kGet = 1"
| "method_index kHead = 2"
| "method_index kPost = 3"
| "method_index kPut = 4"
| "method_index kPatch = 5"
| "method_index kConnect = 6"
| "method_index kOptions = 7"
| "method_index kUnknown = 8"

primrec HttpMethod_ToString :: "HttpMethod \<Rightarrow> string" where
  "HttpMethod_ToString kDelete = ''DELETE''"
| "HttpMethod_ToString kGet = ''GET''"
| "HttpMethod_ToString kHead = ''HEAD''"
| "HttpMethod_ToString kPost = ''POST''"
| "HttpMethod_ToString kPut = ''PUT''"
| "HttpMethod_ToString kConnect = ''CONNECT''"
| "HttpMethod_ToString kPatch = ''PATCH''"
| "HttpMethod_ToString kOptions = ''OPTIONS''"
| "HttpMethod_ToString kUnknown = ''unknown''"

definition HttpMethodFromString :: "string \<Rightarrow> HttpMethod result" where
  "HttpMethodFromString s =
     (let res =
        (if 3 \<le> length s then
           (if s ! 0 = CHR ''D'' then (if s = ''DELETE'' then kDelete else kUnknown)
            else if s ! 0 = CHR ''G'' then (if s = ''GET'' then kGet else kUnknown)
            else if s ! 0 = CHR ''H'' then (if s = ''HEAD'' then kHead else kUnknown)
            else if s ! 0 = CHR ''P'' then
              (if s ! 1 = CHR ''A'' then (if s = ''PATCH'' then kPatch else kUnknown)
               else if s ! 1 = CHR ''O'' then (if s = ''POST'' then kPost else kUnknown)
               else if s ! 1 = CHR ''U'' then (if s = ''PUT'' then kPut else kUnknown)
               else kUnknown)
            else if s ! 0 = CHR ''C'' then (if s = ''CONNECT'' then kConnect else kUnknown)
            else if s ! 0 = CHR ''O'' then (if s = ''OPTIONS'' then kOptions else kUnknown)
            else kUnknown)
         else kUnknown)
      in if res = kUnknown
         then Inl (RuntimeError (''can'' @ [CHR 0x27] @ ''t parse HttpMethod from string '' @ [CHR 0x27] @ s @ [CHR 0x27]))
         else Inr res)"

definition kHandlerMethods :: "HttpMethod list" where
  "kHandlerMethods = [kGet, kHead, kPost, kPut, kDelete, kPatch, kOptions, kUnknown]"

definition kHandlerMethodsMax :: nat where
  "kHandlerMethodsMax = Max (set (map method_index kHandlerMethods))"

definition InitHandlerMethodsArray :: "bool list" where
  "InitHandlerMethodsArray =
     fold (\<lambda>m a. a[method_index m := True]) kHandlerMethods (replicate (Suc kHandlerMethodsMax) False)"

definition IsHandlerMethod :: "HttpMethod \<Rightarrow> bool" where
  "IsHandlerMethod m =
     (let index = method_index m
      in index \<le> kHandlerMethodsMax \<and> InitHandlerMethodsArray ! index)"

text \<open>The list of methods of a handler's static config, \<open>"GET,POST"\<close>.\<close>

definition InitAllowedMethods :: "string \<Rightarrow> HttpMethod list result" where
  "InitAllowedMethods config_method =
     map_result (\<lambda>method_str.
         rbind (HttpMethodFromString method_str) (\<lambda>method.
           if \<not> IsHandlerMethod method
           then Inl (RuntimeError (method_str @ '' is not supported in method list''))
           else Inr method))
       (split_on (CHR '','') config_method)"

lemma method_index_inject [simp]: "method_index a = method_index b \<longleftrightarrow> a = b"
  by (cases a; cases b) simp_all

lemma kHandlerMethodsMax_eq [simp]: "kHandlerMethodsMax = 8"
  by (simp add: kHandlerMethodsMax_def kHandlerMethods_def)

lemma IsHandlerMethod_iff [simp]: "IsHandlerMethod m \<longleftrightarrow> m \<noteq> kConnect"
  by (cases m) (simp_all add: IsHandlerMethod_def InitHandlerMethodsArray_def kHandlerMethods_def
      eval_nat_numeral)

lemma HttpMethodFromString_ToString:
  "m \<noteq> kUnknown \<Longrightarrow> HttpMethodFromString (HttpMethod_ToString m) = Inr m"
  by (cases m) (simp_all add: HttpMethodFromString_def)

lemma HttpMethodFromString_Inr:
  "HttpMethodFromString s = Inr m \<Longrightarrow> s = HttpMethod_ToString m \<and> m \<noteq> kUnknown"
  by (auto simp: HttpMethodFromString_def Let_def split: if_splits)

lemma HttpMethod_ToString_no_comma: "CHR '','' \<notin> set (HttpMethod_ToString m)"
  by (cases m) simp_all


subsection \<open>StatusCode\<close>

text \<open>
  \<open>enum StatusCode : uint16_t\<close>: any 16-bit value is a status, the enumerators are the
  named ones.  \<open>kStatusStrings\<close> are the cases of the switch in \<open>TryStatusCodeString\<close>.
\<close>

type_synonym StatusCode = "16 word"

abbreviation HttpStatus_kInvalid :: StatusCode where "HttpStatus_kInvalid \<equiv> 0"
abbreviation HttpStatus_kOk :: StatusCode where "HttpStatus_kOk \<equiv> 200"
abbreviation HttpStatus_kCreated :: StatusCode where "HttpStatus_kCreated \<equiv> 201"
abbreviation HttpStatus_kBadRequest :: StatusCode where "HttpStatus_kBadRequest \<equiv> 400"
abbreviation HttpStatus_kUnauthorized :: StatusCode where "HttpStatus_kUnauthorized \<equiv> 401"
abbreviation HttpStatus_kForbidden :: StatusCode where "HttpStatus_kForbidden \<equiv> 403"
abbreviation HttpStatus_kNotFound :: StatusCode where "HttpStatus_kNotFound \<equiv> 404"
abbreviation HttpStatus_kMethodNotAllowed :: StatusCode where "HttpStatus_kMethodNotAllowed \<equiv> 405"
abbreviation HttpStatus_kNotAcceptable :: StatusCode where "HttpStatus_kNotAcceptable \<equiv> 406"
abbreviation HttpStatus_kConflict :: StatusCode where "HttpStatus_kConflict \<equiv> 409"
abbreviation HttpStatus_kPayloadTooLarge :: StatusCode where "HttpStatus_kPayloadTooLarge \<equiv> 413"
abbreviation HttpStatus_kUriTooLong :: StatusCode where "HttpStatus_kUriTooLong \<equiv> 414"
abbreviation HttpStatus_kUnsupportedMediaType :: StatusCode where "HttpStatus_kUnsupportedMediaType \<equiv> 415"
abbreviation HttpStatus_kTooManyRequests :: StatusCode where "HttpStatus_kTooManyRequests \<equiv> 429"
abbreviation HttpStatus_kRequestHeaderFieldsTooLarge :: StatusCode where "HttpStatus_kRequestHeaderFieldsTooLarge \<equiv> 431"
abbreviation HttpStatus_kDeadlineExpired :: StatusCode where "HttpStatus_kDeadlineExpired \<equiv> 498"
abbreviation HttpStatus_kNginxClientClosedRequest :: StatusCode where "HttpStatus_kNginxClientClosedRequest \<equiv> 499"
abbreviation HttpStatus_kInternalServerError :: StatusCode where "HttpStatus_kInternalServerError \<equiv> 500"
abbreviation HttpStatus_kBadGateway :: StatusCode where "HttpStatus_kBadGateway \<equiv> 502"
abbreviation HttpStatus_kServiceUnavailable :: StatusCode where "HttpStatus_kServiceUnavailable \<equiv> 503"
abbreviation HttpStatus_kGatewayTimeout :: StatusCode where "HttpStatus_kGatewayTimeout \<equiv> 504"
abbreviation HttpStatus_kNoContent :: StatusCode where "HttpStatus_kNoContent \<equiv> 204"

definition kStatusStrings :: "(StatusCode \<times> string) list" where
  "kStatusStrings = [
     (0, ''Invalid''),
     (100, ''Continue''),
     (101, ''Switching Protocols''),
     (102, ''Processing''),
     (103, ''Early Hints''),
     (200, ''OK''),
     (201, ''Created''),
     (202, ''Accepted''),
     (203, ''Non-Authoritative Information''),
     (204, ''No Content''),
     (205, ''Reset Content''),
     (206, ''Partial Content''),
     (207, ''Multi-Status''),
     (208, ''Already Reported''),
     (218, ''This is Fine''),
     (226, ''IM Used''),
     (300, ''Multiple Choices''),
     (301, ''Moved Permanently''),
     (302, ''Found''),
     (303, ''See Other''),
     (304, ''Not Modified''),
     (305, ''Use Proxy''),
     (306, ''Switch Proxy''),
     (307, ''Temporary Redirect''),
     (308, ''Permanent Redirect''),
     (400, ''Bad Request''),
     (401, ''Unauthorized''),
     (402, ''Payment Required''),
     (403, ''Forbidden''),
     (404, ''Not Found''),
     (405, ''Method Not Allowed''),
     (406, ''Not Acceptable''),
     (407, ''Proxy Authentication Required''),
     (408, ''Request Timeout''),
     (409, ''Conflict''),
     (410, ''Gone''),
     (411, ''Length Required''),
     (412, ''Precondition Failed''),
     (413, ''Payload Too Large''),
     (414, ''URI Too Long''),
     (415, ''Unsupported Media Type''),
     (416, ''Range Not Satisfiable''),
     (417, ''Expectation Failed''),
     (418, ''I'' @ [CHR 0x27] @ ''m a teapot''),
     (419, ''Page Expired''),
     (420, ''Method Failure''),
     (421, ''Misdirected Request''),
     (422, ''Unprocessable Entity''),
     (423, ''Locked''),
     (424, ''Failed Dependency''),
     (425, ''Too Early''),
     (426, ''Upgrade Required''),
     (428, ''Precondition Required''),
     (429, ''Too Many Requests''),
     (431, ''Request Header Fields Too Large''),
     (444, ''Nginx No Response''),
     (451, ''Unavailable For Legal Reasons''),
     (494, ''Nginx Request Header Too Large''),
     (495, ''Nginx SSL Certificate Error''),
     (496, ''Nginx SSL Certificate Required''),
     (497, ''Nginx HTTP Request Sent to HTTPS Port''),
     (498, ''Deadline Expired''),
     (499, ''Nginx Client Closed Request''),
     (500, ''Internal Server Error''),
     (501, ''Not Implemented''),
     (502, ''Bad Gateway''),
     (503, ''Service Unavailable''),
     (504, ''Gateway Timeout''),
     (505, ''HTTP Version Not Supported''),
     (506, ''Variant Also Negotiates''),
     (507, ''Insufficient Storage''),
     (508, ''Loop Detected''),
     (509, ''Bandwidth Limit Exceeded''),
     (510, ''Not Extended''),
     (511, ''Network Authentication Required''),
     (520, ''Web Server Is Down''),
     (522, ''Connection Timed Out''),
     (523, ''Origin Is Unreachable''),
     (524, ''Timeout Occurred''),
     (525, ''SSL Handshake Failed''),
     (526, ''Invalid SSL Certificate'')]"

definition TryStatusCodeString :: "StatusCode \<Rightarrow> string option" where
  "TryStatusCodeString status = map_of kStatusStrings status"

definition StatusCodeString :: "StatusCode \<Rightarrow> string" where
  "StatusCodeString status =
     (case TryStatusCodeString status of Some str \<Rightarrow> str | None \<Rightarrow> ''Unknown status'')"

text \<open>\<open>fmt::formatter<StatusCode>::format\<close>: what \<open>{}\<close> prints for a status.\<close>

definition format_StatusCode :: "StatusCode \<Rightarrow> string" where
  "format_StatusCode status = dec (unat status) @ '' '' @ StatusCodeString status"

definition StatusCode_ToString :: "StatusCode \<Rightarrow> string" where
  "StatusCode_ToString status = format_StatusCode status @ '' '' @ StatusCodeString status"

text \<open>
  \<open>operator<<(std::ostream&, StatusCode)\<close>.  For \<open>kInvalid\<close> the source prints the status
  with the very same operator, so the definition is a partial function: \<open>None\<close> is a call
  that does not return.
\<close>

partial_function (option) StatusCode_print :: "string \<Rightarrow> StatusCode \<Rightarrow> string option" where
  "StatusCode_print os s =
     (case TryStatusCodeString s of
        Some str \<Rightarrow>
          (if s = HttpStatus_kInvalid
           then Option.bind (StatusCode_print os s) (\<lambda>os'. Some (os' @ str))
           else Some (os @ str))
      | None \<Rightarrow> Some (os @ dec (unat s)))"

subsection \<open>HandlerErrorCode\<close>

datatype HandlerErrorCode =
  E_kUnknownError |
  E_kClientError |
  E_kRequestParseError |
  E_kUnauthorized |
  E_kForbidden |
  E_kResourceNotFound |
  E_kInvalidUsage |
  E_kNotAcceptable |
  E_kConflictState |
  E_kPayloadTooLarge |
  E_kTooManyRequests |
  E_kServerSideError |
  E_kBadGateway |
  E_kGatewayTimeout |
  E_kUnsupportedMediaType

primrec error_code_index :: "HandlerErrorCode \<Rightarrow> nat" where
  "error_code_index E_kUnknownError = 0"
| "error_code_index E_kClientError = 1"
| "error_code_index E_kRequestParseError = 2"
| "error_code_index E_kUnauthorized = 3"
| "error_code_index E_kForbidden = 4"
| "error_code_index E_kResourceNotFound = 5"
| "error_code_index E_kInvalidUsage = 6"
| "error_code_index E_kNotAcceptable = 7"
| "error_code_index E_kConflictState = 8"
| "error_code_index E_kPayloadTooLarge = 9"
| "error_code_index E_kTooManyRequests = 10"
| "error_code_index E_kServerSideError = 11"
| "error_code_index E_kBadGateway = 12"
| "error_code_index E_kGatewayTimeout = 13"
| "error_code_index E_kUnsupportedMediaType = 14"

lemma error_code_index_inject [simp]: "error_code_index a = error_code_index b \<longleftrightarrow> a = b"
  by (cases a; cases b) simp_all

text \<open>The comparison \<open>code < kServerSideError\<close> is the order of the enumerators.\<close>

instantiation HandlerErrorCode :: linorder
begin

definition less_eq_HandlerErrorCode :: "HandlerErrorCode \<Rightarrow> HandlerErrorCode \<Rightarrow> bool" where
  "less_eq_HandlerErrorCode a b \<longleftrightarrow> error_code_index a \<le> error_code_index b"

definition less_HandlerErrorCode :: "HandlerErrorCode \<Rightarrow> HandlerErrorCode \<Rightarrow> bool" where
  "less_HandlerErrorCode a b \<longleftrightarrow> error_code_index a < error_code_index b"

instance
  by standard (auto simp: less_eq_HandlerErrorCode_def less_HandlerErrorCode_def)

end

definition kCodeDescriptions :: "(HandlerErrorCode \<times> string) list" where
  "kCodeDescriptions = [
     (E_kUnknownError, ''Unknown error''),
     (E_kClientError, ''Client error''),
     (E_kRequestParseError, ''Bad request''),
     (E_kUnauthorized, ''Unauthorized''),
     (E_kForbidden, ''Forbidden''),
     (E_kResourceNotFound, ''Not found''),
     (E_kInvalidUsage, ''Invalid usage''),
     (E_kNotAcceptable, ''Not acceptable''),
     (E_kConflictState, ''Conflict''),
     (E_kPayloadTooLarge, ''Payload too large''),
     (E_kTooManyRequests, ''Too many requests''),
     (E_kServerSideError, ''Internal server error''),
     (E_kBadGateway, ''Bad gateway''),
     (E_kGatewayTimeout, ''Gateway Timeout'')]"

definition kFallbackServiceCodes :: "(HandlerErrorCode \<times> string) list" where
  "kFallbackServiceCodes = [
     (E_kUnknownError, ''unknown''),
     (E_kClientError, ''client_error''),
     (E_kRequestParseError, ''bad_request''),
     (E_kUnauthorized, ''unauthorized''),
     (E_kForbidden, ''forbidden''),
     (E_kResourceNotFound, ''not_found''),
     (E_kInvalidUsage, ''invalid_usage''),
     (E_kNotAcceptable, ''not_acceptable''),
     (E_kConflictState, ''conflict''),
     (E_kPayloadTooLarge, ''payload_too_large''),
     (E_kTooManyRequests, ''too_many_requests''),
     (E_kServerSideError, ''internal_server_error''),
     (E_kBadGateway, ''bad_gateway''),
     (E_kGatewayTimeout, ''gateway_timeout'')]"

definition GetCodeDescription :: "HandlerErrorCode \<Rightarrow> string" where
  "GetCodeDescription code =
     (case map_of kCodeDescriptions code of
        Some d \<Rightarrow> d | None \<Rightarrow> the (map_of kCodeDescriptions E_kUnknownError))"

definition GetFallbackServiceCode :: "HandlerErrorCode \<Rightarrow> string" where
  "GetFallbackServiceCode code =
     (case map_of kFallbackServiceCodes code of
        Some d \<Rightarrow> d | None \<Rightarrow> the (map_of kFallbackServiceCodes E_kUnknownError))"

definition kCustomHandlerStatusToHttp :: "(HandlerErrorCode \<times> StatusCode) list" where
  "kCustomHandlerStatusToHttp = [
     (E_kClientError, HttpStatus_kBadRequest),
     (E_kUnauthorized, HttpStatus_kUnauthorized),
     (E_kForbidden, HttpStatus_kForbidden),
     (E_kResourceNotFound, HttpStatus_kNotFound),
     (E_kInvalidUsage, HttpStatus_kMethodNotAllowed),
     (E_kNotAcceptable, HttpStatus_kNotAcceptable),
     (E_kConflictState, HttpStatus_kConflict),
     (E_kPayloadTooLarge, HttpStatus_kPayloadTooLarge),
     (E_kTooManyRequests, HttpStatus_kTooManyRequests),
     (E_kServerSideError, HttpStatus_kInternalServerError),
     (E_kBadGateway, HttpStatus_kBadGateway),
     (E_kGatewayTimeout, HttpStatus_kGatewayTimeout),
     (E_kUnsupportedMediaType, HttpStatus_kUnsupportedMediaType)]"

definition GetHttpStatus :: "HandlerErrorCode \<Rightarrow> StatusCode" where
  "GetHttpStatus code =
     (case map_of kCustomHandlerStatusToHttp code of
        Some status \<Rightarrow> status
      | None \<Rightarrow> if code < E_kServerSideError then HttpStatus_kBadRequest
                else HttpStatus_kInternalServerError)"

text \<open>
  \<open>handlers::CustomHandlerException\<close> carries an error code; the subclass
  \<open>http::CustomHandlerException\<close> carries an explicit status too.
\<close>

record CustomHandlerException =
  che_code :: HandlerErrorCode
  che_service_code :: string
  che_http_status :: "StatusCode option"
  che_external_body :: string
  che_body_formatted :: bool
  che_extra_headers :: "(string \<times> string) list"

definition GetHttpStatus_exception :: "CustomHandlerException \<Rightarrow> StatusCode" where
  "GetHttpStatus_exception ex =
     (case che_http_status ex of Some status \<Rightarrow> status | None \<Rightarrow> GetHttpStatus (che_code ex))"

subsection \<open>Log level of a response, fallback handlers, trailing slashes\<close>

datatype Level = kTrace | kDebug | kInfo | kWarning | kError | kCritical | kNone

definition GetLogLevelForResponseStatus :: "(int \<Rightarrow> Level option) \<Rightarrow> StatusCode \<Rightarrow> Level" where
  "GetLogLevelForResponseStatus log_level_for_status_codes status =
     (let status_code = uint status in
      case log_level_for_status_codes status_code of
        Some level \<Rightarrow> level
      | None \<Rightarrow>
          if 400 \<le> status_code \<and> status_code \<le> 499 then kWarning
          else if 500 \<le> status_code \<and> status_code \<le> 599 then kError
          else kInfo)"

datatype FallbackHandler = kImplicitOptions

definition FallbackHandler_ToString :: "FallbackHandler \<Rightarrow> string" where
  "FallbackHandler_ToString fallback =
     (case fallback of kImplicitOptions \<Rightarrow> ''implicit-http-options'')"

definition FallbackHandlerFromString :: "string \<Rightarrow> FallbackHandler result" where
  "FallbackHandlerFromString fallback_str =
     (if fallback_str = ''implicit-http-options'' then Inr kImplicitOptions
      else Inl (RuntimeError (''can'' @ [CHR 0x27] @ ''t parse FallbackHandler from string '' @ [CHR 0x27]
             @ fallback_str @ [CHR 0x27])))"

datatype UrlTrailingSlashOption = kBoth | kStrictMatch

definition CutTrailingSlash :: "string \<Rightarrow> UrlTrailingSlashOption \<Rightarrow> string" where
  "CutTrailingSlash meta_type trailing_slash =
     (if trailing_slash = kBoth \<and> 1 < length meta_type \<and> last meta_type = CHR ''/''
      then butlast meta_type else meta_type)"


subsection \<open>Properties\<close>

lemma InitAllowedMethods_parse_one:
  "rbind (HttpMethodFromString s) (\<lambda>m.
      if \<not> IsHandlerMethod m then Inl (RuntimeError (s @ '' is not supported in method list'')) else Inr m)
    = Inr m
   \<longleftrightarrow> s = HttpMethod_ToString m \<and> m \<noteq> kUnknown \<and> m \<noteq> kConnect"
proof (cases "HttpMethodFromString s")
  case (Inl e)
  then show ?thesis using HttpMethodFromString_ToString [of m] by (cases "m = kUnknown") auto
next
  case (Inr m')
  then have s: "s = HttpMethod_ToString m'" "m' \<noteq> kUnknown"
    using HttpMethodFromString_Inr by blast+
  have "HttpMethod_ToString m' = HttpMethod_ToString m \<longleftrightarrow> m' = m"
    by (cases m'; cases m) simp_all
  with Inr s show ?thesis by auto
qed

lemma list_all2_map_eq:
  "list_all2 (\<lambda>x y. x = f y \<and> P y) xs ys \<longleftrightarrow> xs = map f ys \<and> list_all P ys"
proof (induction xs arbitrary: ys)
  case Nil
  show ?case by (cases ys) simp_all
next
  case (Cons x xs)
  then show ?case by (cases ys) auto
qed

lemma InitAllowedMethods_via_split:
  "InitAllowedMethods cfg = Inr ms \<longleftrightarrow>
     split_on (CHR '','') cfg = map HttpMethod_ToString ms
       \<and> list_all (\<lambda>m. m \<noteq> kUnknown \<and> m \<noteq> kConnect) ms"
  by (simp only: InitAllowedMethods_def map_result_Inr_iff InitAllowedMethods_parse_one list_all2_map_eq)

lemma StatusCode_print_returns:
  assumes "StatusCode_print os s = Some r"
  shows "s \<noteq> HttpStatus_kInvalid"
proof (rule StatusCode_print.raw_induct [where P = "\<lambda>os s r. s \<noteq> HttpStatus_kInvalid", OF _ assms])
  fix f :: "string \<Rightarrow> StatusCode \<Rightarrow> string option" and os s r
  assume IH: "\<And>os s r. f os s = Some r \<Longrightarrow> s \<noteq> HttpStatus_kInvalid"
    and eq: "(case TryStatusCodeString s of
        Some str \<Rightarrow>
          (if s = HttpStatus_kInvalid
           then Option.bind (f os s) (\<lambda>os'. Some (os' @ str)) else Some (os @ str))
      | None \<Rightarrow> Some (os @ dec (unat s))) = Some r"
  show "s \<noteq> HttpStatus_kInvalid"
  proof
    assume s: "s = HttpStatus_kInvalid"
    then have "TryStatusCodeString s = Some ''Invalid''"
      by (simp add: TryStatusCodeString_def kStatusStrings_def)
    with eq s obtain os' where "f os s = Some os'" by (auto simp: bind_eq_Some_conv)
    then show False using IH s by blast
  qed
qed

text \<open>
  Parsing a method name succeeds exactly on the names that \<open>ToString\<close> prints for the
  eight real methods, and gives the method back; \<open>kUnknown\<close> is never a result.
\<close>

theorem http_method_roundtrip:
  "HttpMethodFromString s = Inr m \<longleftrightarrow> m \<noteq> kUnknown \<and> s = HttpMethod_ToString m"
  using HttpMethodFromString_Inr HttpMethodFromString_ToString by blast

text \<open>
  A handler's \<open>method\<close> option is accepted exactly when it is a non-empty
  comma-separated list of names of methods a handler may serve (\<open>CONNECT\<close> and the unknown
  method are refused), and then gives these methods in the order of the list.
\<close>

theorem init_allowed_methods_iff:
  "InitAllowedMethods cfg = Inr ms \<longleftrightarrow>
     ms \<noteq> [] \<and> cfg = join_with '','' (map HttpMethod_ToString ms)
       \<and> list_all (\<lambda>m. m \<noteq> kUnknown \<and> m \<noteq> kConnect) ms"
proof -
  have "split_on (CHR '','') cfg = map HttpMethod_ToString ms
      \<longleftrightarrow> ms \<noteq> [] \<and> cfg = join_with '','' (map HttpMethod_ToString ms)"
  proof
    assume eq: "split_on (CHR '','') cfg = map HttpMethod_ToString ms"
    have "cfg = join_with '','' (split_on (CHR '','') cfg)" by simp
    with eq show "ms \<noteq> [] \<and> cfg = join_with '','' (map HttpMethod_ToString ms)"
      using split_on_not_Nil [of "CHR '',''" cfg] by auto
  next
    assume "ms \<noteq> [] \<and> cfg = join_with '','' (map HttpMethod_ToString ms)"
    then show "split_on (CHR '','') cfg = map HttpMethod_ToString ms"
      by (auto intro!: split_on_join simp: HttpMethod_ToString_no_comma)
  qed
  then show ?thesis by (auto simp: InitAllowedMethods_via_split)
qed

text \<open>
  Writing a status to a \<open>std::ostream\<close> appends its reason phrase, or its number when
  the code has no name; for \<open>StatusCode::kInvalid\<close> the operator calls itself with the same
  arguments and never returns.
\<close>

theorem status_print_diverges_on_invalid:
  "StatusCode_print os s =
     (if s = HttpStatus_kInvalid then None
      else Some (os @ (case TryStatusCodeString s of Some str \<Rightarrow> str | None \<Rightarrow> dec (unat s))))"
proof (cases "s = HttpStatus_kInvalid")
  case True
  then have "\<And>r. StatusCode_print os s \<noteq> Some r" using StatusCode_print_returns by blast
  with True show ?thesis by (cases "StatusCode_print os s") auto
next
  case False
  then show ?thesis by (auto simp: StatusCode_print.simps [of os s] split: option.splits)
qed

text \<open>
  Every handler error code becomes an error response: the status is in the 4xx class
  exactly for the codes declared before \<open>kServerSideError\<close> and for
  \<open>kUnsupportedMediaType\<close>, and in the 5xx class for every other code.
\<close>

theorem error_code_status_class:
  "unat (GetHttpStatus c) div 100 =
     (if c < E_kServerSideError \<or> c = E_kUnsupportedMediaType then 4 else 5)"
  by (cases c) (simp_all add: GetHttpStatus_def kCustomHandlerStatusToHttp_def
      less_HandlerErrorCode_def)

text \<open>
  Both textual descriptions of an error code tell the codes apart, except that
  \<open>kUnsupportedMediaType\<close> has no entry in either table and is reported as the unknown error.
\<close>

theorem code_description_unknown:
  "(GetCodeDescription c = GetCodeDescription E_kUnknownError
       \<longleftrightarrow> c = E_kUnknownError \<or> c = E_kUnsupportedMediaType)
   \<and> (GetFallbackServiceCode c = GetFallbackServiceCode E_kUnknownError
       \<longleftrightarrow> c = E_kUnknownError \<or> c = E_kUnsupportedMediaType)"
  by (cases c) (simp_all add: GetCodeDescription_def kCodeDescriptions_def
      GetFallbackServiceCode_def kFallbackServiceCodes_def)

end
