(* ===== verification/Http_Response.thy ===== *)
theory Http_Response
  imports Http_Types
begin

section \<open>Header maps and the HTTP response\<close>

text \<open>
  The interface of \<open>http/header_map.cpp\<close> over the list of its entries in insertion order (the hash
  table behind it is in \<open>Header_Map\<close>, which implements this list),
  \<open>core/src/server/http/http_response.cpp\<close> and \<open>response_base.cpp\<close>: the two kinds of headers, the
  checks of names and values, and the bytes that \<open>SendResponse\<close> writes.  The cached date and the
  parts of a streamed body are inputs; the text of the cookies is made in \<open>Response_Cookie\<close>.
\<close>

subsection \<open>Comparison of header names\<close>

definition to_lower :: "char \<Rightarrow> char" where
  "to_lower c = (if 65 \<le> byte c \<and> byte c \<le> 90 then char_of (byte c + 32) else c)"

definition StrIcaseEqual :: "string \<Rightarrow> string \<Rightarrow> bool" where
  "StrIcaseEqual a b \<longleftrightarrow> map to_lower a = map to_lower b"

fun StrIcaseCompareThreeWay :: "string \<Rightarrow> string \<Rightarrow> int" where
  "StrIcaseCompareThreeWay [] [] = 0"
| "StrIcaseCompareThreeWay [] (_ # _) = -1"
| "StrIcaseCompareThreeWay (_ # _) [] = 1"
| "StrIcaseCompareThreeWay (a # as) (b # bs) =
     (if a = b \<or> to_lower a = to_lower b then StrIcaseCompareThreeWay as bs
      else int (byte (to_lower a)) - int (byte (to_lower b)))"

definition StrIcaseLess :: "string \<Rightarrow> string \<Rightarrow> bool" where
  "StrIcaseLess a b \<longleftrightarrow> StrIcaseCompareThreeWay a b < 0"

subsection \<open>Header maps\<close>

type_synonym headers = "(string \<times> string) list"

text \<open>
  The map holds at most three quarters of \<open>Traits::kMaxSize\<close> positions; an insertion into a
  full map throws \<open>TooManyHeadersException\<close>, whether the key is new or not.
\<close>

definition kMaxSize :: nat where
  "kMaxSize = 2 ^ 15"

definition UsableCapacity :: "nat \<Rightarrow> nat" where
  "UsableCapacity capacity = capacity - capacity div 4"

definition too_many_headers :: exn where
  "too_many_headers = RuntimeError ''HeaderMap reached its maximum capacity''"

definition header_pos :: "string \<Rightarrow> headers \<Rightarrow> nat option" where
  "header_pos key hs = find_pos (\<lambda>e. StrIcaseEqual (fst e) key) hs"

definition headers_find :: "string \<Rightarrow> headers \<Rightarrow> string option" where
  "headers_find key hs = map_option (\<lambda>i. snd (hs ! i)) (header_pos key hs)"

definition headers_contains :: "string \<Rightarrow> headers \<Rightarrow> bool" where
  "headers_contains key hs \<longleftrightarrow> headers_find key hs \<noteq> None"

definition InsertOrModify :: "(string \<Rightarrow> string \<Rightarrow> string) \<Rightarrow> string \<Rightarrow> string \<Rightarrow> headers \<Rightarrow> headers result" where
  "InsertOrModify occupied key value hs =
     (if length hs = UsableCapacity kMaxSize then Inl too_many_headers
      else Inr (case header_pos key hs of
                  Some i \<Rightarrow> hs[i := (fst (hs ! i), occupied (snd (hs ! i)) value)]
                | None \<Rightarrow> hs @ [(key, value)]))"

definition insert_or_assign :: "string \<Rightarrow> string \<Rightarrow> headers \<Rightarrow> headers result" where
  "insert_or_assign = InsertOrModify (\<lambda>old new. new)"

definition InsertOrAppend :: "string \<Rightarrow> string \<Rightarrow> headers \<Rightarrow> headers result" where
  "InsertOrAppend = InsertOrModify (\<lambda>old new. old @ '','' @ new)"

text \<open>Erasing moves the last entry into the hole.\<close>

definition headers_erase :: "string \<Rightarrow> headers \<Rightarrow> headers" where
  "headers_erase key hs =
     (case header_pos key hs of
        None \<Rightarrow> hs
      | Some i \<Rightarrow> if Suc i \<noteq> length hs then butlast (hs[i := last hs]) else butlast hs)"

definition kCrlf :: string where
  "kCrlf = [CHR 0x0D, CHR 0x0A]"

definition OutputHeader :: "string \<Rightarrow> string \<Rightarrow> string" where
  "OutputHeader key val = key @ '': '' @ val @ kCrlf"

definition OutputInHttpFormat :: "headers \<Rightarrow> string" where
  "OutputInHttpFormat hs = concat (map (\<lambda>e. OutputHeader (fst e) (snd e)) hs)"

subsection \<open>The response\<close>

record HttpResponse =
  resp_status :: StatusCode
  resp_data :: string
  is_ready :: bool
  system_headers :: headers
  user_headers :: headers
  system_headers_ended :: bool
  headers_end :: bool
  resp_cookies :: "string list"

definition initial_response :: HttpResponse where
  "initial_response =
     \<lparr>resp_status = HttpStatus_kOk, resp_data = [], is_ready = False, system_headers = [], user_headers = [],
      system_headers_ended = False, headers_end = False, resp_cookies = []\<rparr>"

definition bad_name_char :: "char \<Rightarrow> bool" where
  "bad_name_char c \<longleftrightarrow>
     byte c < 32 \<or> 127 \<le> byte c \<or> c \<in> set (''()<>@,;:/[]?={} '' @ [CHR 0x5C, CHR 0x22, CHR 0x09])"

definition bad_value_char :: "char \<Rightarrow> bool" where
  "bad_value_char c \<longleftrightarrow> byte c < 32 \<or> byte c = 127"

definition bad_char_error :: "string \<Rightarrow> char \<Rightarrow> exn" where
  "bad_char_error what c =
     RuntimeError (''invalid character in header '' @ what @ '': '' @ [CHR 0x27, c, CHR 0x27] @ '' (#'' @ dec (byte c) @ '')'')"

definition CheckHeaderName :: "string \<Rightarrow> unit result" where
  "CheckHeaderName name =
     (case find bad_name_char name of Some c \<Rightarrow> Inl (bad_char_error ''name'' c) | None \<Rightarrow> Inr ())"

definition CheckHeaderValue :: "string \<Rightarrow> unit result" where
  "CheckHeaderValue value =
     (case find bad_value_char value of Some c \<Rightarrow> Inl (bad_char_error ''value'' c) | None \<Rightarrow> Inr ())"

definition SetHeader :: "string \<Rightarrow> string \<Rightarrow> HttpResponse \<Rightarrow> (bool \<times> HttpResponse) result" where
  "SetHeader name value r =
     (if headers_end r then Inr (False, r)
      else rbind (CheckHeaderName name) (\<lambda>_. rbind (CheckHeaderValue value) (\<lambda>_.
        if system_headers_ended r then
          (if headers_contains name (system_headers r) then Inr (False, r)
           else rbind (insert_or_assign name value (user_headers r)) (\<lambda>hs. Inr (True, r\<lparr>user_headers := hs\<rparr>)))
        else rbind (insert_or_assign name value (system_headers r)) (\<lambda>hs. Inr (True, r\<lparr>system_headers := hs\<rparr>)))))"

definition SetStatus :: "StatusCode \<Rightarrow> HttpResponse \<Rightarrow> bool \<times> HttpResponse" where
  "SetStatus status r = (if headers_end r then (False, r) else (True, r\<lparr>resp_status := status\<rparr>))"

definition ClearUserHeaders :: "HttpResponse \<Rightarrow> bool \<times> HttpResponse" where
  "ClearUserHeaders r = (if headers_end r then (False, r) else (True, r\<lparr>user_headers := []\<rparr>))"

definition SetSystemHeadersEnd :: "HttpResponse \<Rightarrow> HttpResponse" where
  "SetSystemHeadersEnd r = r\<lparr>system_headers_ended := True\<rparr>"

definition SetHeadersEnd :: "HttpResponse \<Rightarrow> HttpResponse" where
  "SetHeadersEnd r = r\<lparr>headers_end := True\<rparr>"

definition SetData :: "string \<Rightarrow> HttpResponse \<Rightarrow> HttpResponse" where
  "SetData data r = r\<lparr>resp_data := data\<rparr>"

definition SetReady :: "HttpResponse \<Rightarrow> HttpResponse" where
  "SetReady r = r\<lparr>is_ready := True\<rparr>"

definition GetHeader :: "string \<Rightarrow> HttpResponse \<Rightarrow> string" where
  "GetHeader name r =
     (case headers_find name (user_headers r) of
        Some v \<Rightarrow> v
      | None \<Rightarrow> (case headers_find name (system_headers r) of Some v \<Rightarrow> v | None \<Rightarrow> []))"

definition HasHeader :: "string \<Rightarrow> HttpResponse \<Rightarrow> bool" where
  "HasHeader name r \<longleftrightarrow> headers_contains name (user_headers r) \<or> headers_contains name (system_headers r)"

definition IsBodyForbiddenForStatus :: "StatusCode \<Rightarrow> bool" where
  "IsBodyForbiddenForStatus status \<longleftrightarrow>
     status = HttpStatus_kNoContent \<or> status = 304 \<or> 100 \<le> unat status \<and> unat status < 200"

subsection \<open>The bytes of a response\<close>

definition status_line :: "int \<Rightarrow> int \<Rightarrow> StatusCode \<Rightarrow> string" where
  "status_line major minor status =
     ''HTTP/'' @ dec_int major @ ''.'' @ dec_int minor @ '' '' @ dec (unat status) @ '' '' @ StatusCodeString status @ kCrlf"

definition kDefaultContentType :: string where
  "kDefaultContentType = ''application/octet-stream''"

definition erase_content_length :: "HttpResponse \<Rightarrow> HttpResponse" where
  "erase_content_length r =
     r\<lparr>system_headers := headers_erase ''Content-Length'' (system_headers r),
       user_headers := headers_erase ''Content-Length'' (user_headers r)\<rparr>"

definition response_head :: "string \<Rightarrow> int \<Rightarrow> int \<Rightarrow> bool \<Rightarrow> HttpResponse \<Rightarrow> string" where
  "response_head date major minor is_final r0 =
     (let r = erase_content_length r0 in
      status_line major minor (resp_status r)
      @ (if HasHeader ''Date'' r then [] else OutputHeader ''Date'' date)
      @ (if HasHeader ''Content-Type'' r then [] else OutputHeader ''Content-Type'' kDefaultContentType)
      @ OutputInHttpFormat (system_headers r) @ OutputInHttpFormat (user_headers r)
      @ (if HasHeader ''Connection'' r then []
         else OutputHeader ''Connection'' (if is_final then ''close'' else ''keep-alive''))
      @ concat (map (\<lambda>c. OutputHeader ''Set-Cookie'' c) (resp_cookies r)))"

definition SetBodyNotStreamed :: "HttpMethod \<Rightarrow> HttpResponse \<Rightarrow> string \<Rightarrow> string" where
  "SetBodyNotStreamed method r header =
     (let is_body_forbidden = IsBodyForbiddenForStatus (resp_status r);
          is_head_request = (method = kHead);
          data = resp_data r
      in header
         @ (if \<not> is_body_forbidden then OutputHeader ''Content-Length'' (dec (length data)) else [])
         @ kCrlf
         @ (if \<not> is_head_request \<and> \<not> is_body_forbidden then data else []))"

fun hex_nat :: "nat \<Rightarrow> string" where
  "hex_nat n = (if n < 16 then [''0123456789abcdef'' ! n] else hex_nat (n div 16) @ [''0123456789abcdef'' ! (n mod 16)])"

declare hex_nat.simps [simp del]

text \<open>The loop over the parts of a streamed body; empty parts are skipped.\<close>

fun stream_chunks :: "bool \<Rightarrow> string list \<Rightarrow> string" where
  "stream_chunks first_chunk_processed [] = (if first_chunk_processed then kCrlf else []) @ ''0'' @ kCrlf @ kCrlf"
| "stream_chunks first_chunk_processed (body_part # rest) =
     (if body_part = [] then stream_chunks first_chunk_processed rest
      else (if first_chunk_processed then kCrlf else []) @ hex_nat (length body_part) @ kCrlf @ body_part
           @ stream_chunks True rest)"

definition SetBodyStreamed :: "HttpResponse \<Rightarrow> string list \<Rightarrow> string \<Rightarrow> string" where
  "SetBodyStreamed r parts header =
     header @ OutputHeader ''Transfer-Encoding'' ''chunked'' @ kCrlf
     @ (if IsBodyForbiddenForStatus (resp_status r) then [] else stream_chunks False parts)"

definition SendResponse ::
  "string \<Rightarrow> HttpMethod \<Rightarrow> int \<Rightarrow> int \<Rightarrow> bool \<Rightarrow> string list option \<Rightarrow> HttpResponse \<Rightarrow> string" where
  "SendResponse date method major minor is_final body_stream r =
     (let header = response_head date major minor is_final r in
      case body_stream of
        Some parts \<Rightarrow> if resp_data r = [] then SetBodyStreamed r parts header else SetBodyNotStreamed method r header
      | None \<Rightarrow> SetBodyNotStreamed method r header)"

subsection \<open>The header map as a map\<close>

lemma StrIcaseEqual_refl [simp]: "StrIcaseEqual a a"
  by (simp add: StrIcaseEqual_def)

lemma StrIcaseEqual_sym: "StrIcaseEqual a b \<longleftrightarrow> StrIcaseEqual b a"
  by (auto simp: StrIcaseEqual_def)

lemma StrIcaseEqual_trans: "StrIcaseEqual a b \<Longrightarrow> StrIcaseEqual b c \<Longrightarrow> StrIcaseEqual a c"
  by (simp add: StrIcaseEqual_def)

definition header_names :: "headers \<Rightarrow> string list" where
  "header_names hs = map (\<lambda>e. map to_lower (fst e)) hs"

lemma header_names_Nil [simp]: "header_names [] = []"
  by (simp add: header_names_def)

lemma headers_find_map_of: "headers_find key hs = map_of (map (\<lambda>e. (map to_lower (fst e), snd e)) hs) (map to_lower key)"
  by (induction hs) (auto simp: headers_find_def header_pos_def StrIcaseEqual_def option.map_comp comp_def)

lemma headers_find_append:
  "headers_find key (hs @ hs') = (case headers_find key hs of None \<Rightarrow> headers_find key hs' | Some v \<Rightarrow> Some v)"
  by (auto simp: headers_find_map_of map_add_def split: option.splits)

lemma header_pos_Some_less: "header_pos key hs = Some i \<Longrightarrow> i < length hs"
  by (simp add: header_pos_def find_pos_less)

lemma header_pos_Some_name: "header_pos key hs = Some i \<Longrightarrow> map to_lower (fst (hs ! i)) = map to_lower key"
  by (auto simp: header_pos_def find_pos_Some_iff StrIcaseEqual_def)

lemma header_pos_None_iff: "header_pos key hs = None \<longleftrightarrow> map to_lower key \<notin> set (header_names hs)"
  unfolding header_pos_def find_pos_None_iff StrIcaseEqual_def header_names_def by (simp add: image_iff eq_commute)

lemma headers_contains_iff: "headers_contains key hs \<longleftrightarrow> map to_lower key \<in> set (header_names hs)"
  using header_pos_None_iff [of key hs] by (simp add: headers_contains_def headers_find_def)

lemma InsertOrModify_cases:
  assumes "InsertOrModify f key val hs = Inr hs'"
  obtains "header_pos key hs = None" "hs' = hs @ [(key, val)]"
  | i where "header_pos key hs = Some i" "i < length hs" "hs' = hs[i := (fst (hs ! i), f (snd (hs ! i)) val)]"
  using assms by (cases "header_pos key hs") (auto simp: InsertOrModify_def header_pos_Some_less split: if_splits)

lemma InsertOrModify_names:
  assumes "InsertOrModify f key val hs = Inr hs'"
  shows "header_names hs' = (if map to_lower key \<in> set (header_names hs) then header_names hs else header_names hs @ [map to_lower key])"
  using assms
proof (cases rule: InsertOrModify_cases)
  case 1
  then show ?thesis using header_pos_None_iff [of key hs] by (simp add: header_names_def)
next
  case (2 i)
  then have "map to_lower key \<in> set (header_names hs)" using header_pos_None_iff [of key hs] by auto
  moreover have "header_names hs' = (header_names hs)[i := header_names hs ! i]"
    using 2 by (simp add: header_names_def map_update)
  ultimately show ?thesis by simp
qed

lemma InsertOrModify_distinct:
  "distinct (header_names hs) \<Longrightarrow> InsertOrModify f key val hs = Inr hs' \<Longrightarrow> distinct (header_names hs')"
  by (auto dest!: InsertOrModify_names)

lemma InsertOrModify_set:
  assumes "InsertOrModify f key val hs = Inr hs'" and "(n, v) \<in> set hs'"
  shows "(n, v) \<in> set hs \<or> (n, v) = (key, val) \<or> (\<exists>old. (n, old) \<in> set hs \<and> v = f old val)"
  using assms(1)
proof (cases rule: InsertOrModify_cases)
  case (2 i)
  then have "(fst (hs ! i), snd (hs ! i)) \<in> set hs" by simp
  moreover have "(n, v) \<in> insert (fst (hs ! i), f (snd (hs ! i)) val) (set hs)"
    using assms(2) 2 set_update_subset_insert [of hs i] by blast
  ultimately show ?thesis by blast
qed (use assms(2) in auto)

lemma headers_find_InsertOrModify:
  assumes "InsertOrModify f key val hs = Inr hs'"
  shows "headers_find k hs' =
     (if StrIcaseEqual k key then Some (case headers_find key hs of None \<Rightarrow> val | Some old \<Rightarrow> f old val)
      else headers_find k hs)"
  using assms
proof (cases rule: InsertOrModify_cases)
  case 1
  then have none: "headers_find key hs = None" by (simp add: headers_find_def)
  moreover have "headers_find k hs = None" if "StrIcaseEqual k key"
    using none that by (simp add: headers_find_map_of StrIcaseEqual_def)
  ultimately show ?thesis using 1
    by (auto simp: headers_find_append headers_find_def [of k "[_]"] header_pos_def StrIcaseEqual_sym split: option.splits)
next
  case (2 i)
  have same: "header_pos k hs' = header_pos k hs" for k
    unfolding header_pos_def 2(3) by (rule find_pos_cong_nth) (use 2(2) in \<open>auto simp: nth_list_update\<close>)
  show ?thesis
  proof (cases "StrIcaseEqual k key")
    case True
    then have "header_pos k hs = header_pos key hs" by (simp add: header_pos_def StrIcaseEqual_def)
    then show ?thesis using 2 True same [of k] by (simp add: headers_find_def)
  next
    case False
    then have "header_pos k hs \<noteq> Some i"
      using header_pos_Some_name [of k hs i] header_pos_Some_name [OF 2(1)] by (auto simp: StrIcaseEqual_def)
    then show ?thesis using 2 False same [of k] by (cases "header_pos k hs") (auto simp: headers_find_def nth_list_update)
  qed
qed

subsection \<open>Which responses can arise\<close>

text \<open>
  The states of a response under its member functions.  In all of them the stored names and
  values have passed the checks, no name occurs twice, and a user header never has the name
  of a system header.
\<close>

inductive resp_step :: "HttpResponse \<Rightarrow> HttpResponse \<Rightarrow> bool" where
  step_header: "SetHeader name val r = Inr (b, r') \<Longrightarrow> resp_step r r'"
| step_status: "SetStatus st r = (b, r') \<Longrightarrow> resp_step r r'"
| step_clear: "ClearUserHeaders r = (b, r') \<Longrightarrow> resp_step r r'"
| step_system_end: "resp_step r (SetSystemHeadersEnd r)"
| step_headers_end: "resp_step r (SetHeadersEnd r)"
| step_data: "resp_step r (SetData d r)"
| step_ready: "resp_step r (SetReady r)"

definition clean_header :: "string \<times> string \<Rightarrow> bool" where
  "clean_header e \<longleftrightarrow> (\<forall>c\<in>set (fst e). \<not> bad_name_char c) \<and> (\<forall>c\<in>set (snd e). \<not> bad_value_char c)"

definition resp_inv :: "HttpResponse \<Rightarrow> bool" where
  "resp_inv r \<longleftrightarrow>
     (\<forall>e\<in>set (system_headers r) \<union> set (user_headers r). clean_header e)
     \<and> distinct (header_names (system_headers r)) \<and> distinct (header_names (user_headers r))
     \<and> set (header_names (system_headers r)) \<inter> set (header_names (user_headers r)) = {}
     \<and> (\<not> system_headers_ended r \<longrightarrow> user_headers r = [])"

lemma CheckHeaderName_ok: "CheckHeaderName name = Inr u \<longleftrightarrow> (\<forall>c\<in>set name. \<not> bad_name_char c)"
  by (auto simp: CheckHeaderName_def find_None_iff find_Some_iff split: option.splits)

lemma CheckHeaderValue_ok: "CheckHeaderValue val = Inr u \<longleftrightarrow> (\<forall>c\<in>set val. \<not> bad_value_char c)"
  by (auto simp: CheckHeaderValue_def find_None_iff find_Some_iff split: option.splits)

lemma SetHeader_result:
  assumes "SetHeader name val r = Inr (b, r')"
  shows "r' = r \<or> (\<not> headers_end r \<and> clean_header (name, val)
     \<and> (\<exists>hs. if system_headers_ended r
          then \<not> headers_contains name (system_headers r) \<and> insert_or_assign name val (user_headers r) = Inr hs \<and> r' = r\<lparr>user_headers := hs\<rparr>
          else insert_or_assign name val (system_headers r) = Inr hs \<and> r' = r\<lparr>system_headers := hs\<rparr>))"
  using assms
  by (auto simp: SetHeader_def rbind_eq_Inr CheckHeaderName_ok CheckHeaderValue_ok clean_header_def split: if_splits)

lemma insert_or_assign_clean:
  assumes "insert_or_assign name val hs = Inr hs'" and "clean_header (name, val)" and "\<forall>e\<in>set hs. clean_header e"
  shows "\<forall>e\<in>set hs'. clean_header e"
proof
  fix e assume "e \<in> set hs'"
  with InsertOrModify_set [of "\<lambda>old new. new" name val hs hs' "fst e" "snd e"] assms
  show "clean_header e" by (cases e) (force simp: insert_or_assign_def clean_header_def)
qed

lemma resp_inv_SetHeader:
  assumes "resp_inv r" and "SetHeader name val r = Inr (b, r')"
  shows "resp_inv r'"
  using SetHeader_result [OF assms(2)]
proof (elim disjE exE conjE)
  fix hs
  assume clean: "clean_header (name, val)"
    and "if system_headers_ended r
          then \<not> headers_contains name (system_headers r) \<and> insert_or_assign name val (user_headers r) = Inr hs \<and> r' = r\<lparr>user_headers := hs\<rparr>
          else insert_or_assign name val (system_headers r) = Inr hs \<and> r' = r\<lparr>system_headers := hs\<rparr>"
  then show "resp_inv r'"
    using assms(1) insert_or_assign_clean [OF _ clean] unfolding resp_inv_def
    by (auto simp: insert_or_assign_def headers_contains_iff InsertOrModify_distinct InsertOrModify_names header_names_Nil
        split: if_splits)
qed (use assms(1) in simp)

lemma resp_inv_step: "resp_step r r' \<Longrightarrow> resp_inv r \<Longrightarrow> resp_inv r'"
proof (induction rule: resp_step.induct)
  case (step_header name val r b r')
  then show ?case by (rule_tac resp_inv_SetHeader)
qed (auto simp: resp_inv_def SetStatus_def ClearUserHeaders_def SetSystemHeadersEnd_def SetHeadersEnd_def SetData_def
    SetReady_def header_names_def split: if_splits)

lemma resp_inv_steps: "resp_step\<^sup>*\<^sup>* r r' \<Longrightarrow> resp_inv r \<Longrightarrow> resp_inv r'"
  by (induction rule: rtranclp_induct) (auto intro: resp_inv_step)

lemma resp_inv_initial [simp]: "resp_inv initial_response"
  by (simp add: resp_inv_def initial_response_def header_names_def)

subsection \<open>Properties of responses\<close>

abbreviation LF :: char where "LF \<equiv> CHR 0x0A"
abbreviation CR :: char where "CR \<equiv> CHR 0x0D"

definition optional_line :: "bool \<Rightarrow> string \<Rightarrow> string \<Rightarrow> string list" where
  "optional_line present name val = (if present then [] else [name @ '': '' @ val])"

definition header_lines :: "string \<Rightarrow> bool \<Rightarrow> HttpResponse \<Rightarrow> string list" where
  "header_lines date is_final r =
     optional_line (HasHeader ''Date'' r) ''Date'' date
     @ optional_line (HasHeader ''Content-Type'' r) ''Content-Type'' kDefaultContentType
     @ map (\<lambda>e. fst e @ '': '' @ snd e) (system_headers r @ user_headers r)
     @ optional_line (HasHeader ''Connection'' r) ''Connection'' (if is_final then ''close'' else ''keep-alive'')
     @ map (\<lambda>c. ''Set-Cookie: '' @ c) (resp_cookies r)"

lemma head_lines:
  "response_head date major minor is_final r =
     concat (map (\<lambda>l. l @ kCrlf)
       ((''HTTP/'' @ dec_int major @ ''.'' @ dec_int minor @ '' '' @ dec (unat (resp_status r)) @ '' '' @ StatusCodeString (resp_status r))
        # header_lines date is_final (erase_content_length r)))"
  by (auto simp: response_head_def status_line_def OutputHeader_def OutputInHttpFormat_def header_lines_def optional_line_def
      Let_def erase_content_length_def comp_def)

lemma split_crlf_lines:
  "\<forall>l\<in>set ls. LF \<notin> set l \<Longrightarrow> split_on LF (concat (map (\<lambda>l. l @ kCrlf) ls)) = map (\<lambda>l. l @ [CR]) ls @ [[]]"
proof (induction ls)
  case (Cons l ls)
  then have "split_on LF ((l @ [CR]) @ LF # concat (map (\<lambda>l. l @ kCrlf) ls)) = (l @ [CR]) # split_on LF (concat (map (\<lambda>l. l @ kCrlf) ls))"
    by (intro split_on_append_sep) simp
  then show ?case using Cons by (simp add: kCrlf_def)
qed simp

lemma LF_dec: "LF \<notin> set (dec n)" "LF \<notin> set (dec_int i)"
  using dec_digits [of LF] by (auto simp: is_digit_def dec_int_def split: if_splits)

lemma LF_status: "LF \<notin> set (StatusCodeString st)"
proof (cases "map_of kStatusStrings st")
  case (Some t)
  have "\<forall>e\<in>set kStatusStrings. LF \<notin> set (snd e)" by code_simp
  then have "LF \<notin> set t" using map_of_SomeD [OF Some] by fastforce
  with Some show ?thesis by (simp add: StatusCodeString_def TryStatusCodeString_def)
qed (simp add: StatusCodeString_def TryStatusCodeString_def)

lemma headers_erase_subset: "set (headers_erase key hs) \<subseteq> set hs"
proof (cases "header_pos key hs")
  case (Some i)
  then have i: "i < length hs" by (rule header_pos_Some_less)
  then have "last hs \<in> set hs" by (intro last_in_set) auto
  then have "set (hs[i := last hs]) \<subseteq> set hs"
    using set_update_subset_insert [of hs i "last hs"] by blast
  with Some show ?thesis by (auto simp: headers_erase_def dest!: in_set_butlastD)
qed (simp add: headers_erase_def)

lemma bad_LF: "bad_name_char LF" "bad_value_char LF"
  unfolding bad_name_char_def bad_value_char_def by simp_all

lemma clean_header_LF: "clean_header e \<Longrightarrow> LF \<notin> set (fst e) \<and> LF \<notin> set (snd e)"
  using bad_LF unfolding clean_header_def by blast

lemma head_no_injection:
  assumes "resp_inv r" and "LF \<notin> set date" and "\<forall>c\<in>set (resp_cookies r). LF \<notin> set c"
  shows "split_on LF (response_head date major minor is_final r) =
     map (\<lambda>l. l @ [CR])
       ((''HTTP/'' @ dec_int major @ ''.'' @ dec_int minor @ '' '' @ dec (unat (resp_status r)) @ '' '' @ StatusCodeString (resp_status r))
        # header_lines date is_final (erase_content_length r)) @ [[]]"
proof -
  have "\<forall>e\<in>set (system_headers (erase_content_length r) @ user_headers (erase_content_length r)). LF \<notin> set (fst e) \<and> LF \<notin> set (snd e)"
    using assms(1) headers_erase_subset by (auto simp: resp_inv_def erase_content_length_def dest!: clean_header_LF)
  then have "\<forall>l\<in>set (header_lines date is_final (erase_content_length r)). LF \<notin> set l"
    using assms(2,3) unfolding header_lines_def optional_line_def
    by (auto simp: kDefaultContentType_def erase_content_length_def split_beta dest: bspec)
  then show ?thesis
    unfolding head_lines by (intro split_crlf_lines) (auto simp: LF_dec LF_status)
qed

lemma resp_steps_no_cookies: "resp_step\<^sup>*\<^sup>* initial_response r \<Longrightarrow> resp_cookies r = []"
proof (induction rule: rtranclp_induct)
  case (step r1 r2)
  then show ?case
    by (auto elim!: resp_step.cases dest!: SetHeader_result simp: SetStatus_def ClearUserHeaders_def SetSystemHeadersEnd_def
        SetHeadersEnd_def SetData_def SetReady_def split: if_splits)
qed (simp add: initial_response_def)

text \<open>
  (C16) No header injection: whatever headers a handler sets, the head of the response that
  goes to the socket consists of the status line and one line for each header and nothing
  else; no name or value can start a line of its own.
\<close>

theorem response_no_injection:
  assumes "resp_step\<^sup>*\<^sup>* initial_response r" and "LF \<notin> set date"
  shows "split_on LF (response_head date major minor is_final r) =
     map (\<lambda>l. l @ [CR])
       ((''HTTP/'' @ dec_int major @ ''.'' @ dec_int minor @ '' '' @ dec (unat (resp_status r)) @ '' '' @ StatusCodeString (resp_status r))
        # header_lines date is_final (erase_content_length r)) @ [[]]"
proof -
  have "resp_inv r" using assms(1) by (rule resp_inv_steps) simp
  then show ?thesis using assms(2) resp_steps_no_cookies [OF assms(1)] by (intro head_no_injection) simp_all
qed

text \<open>
  System headers are final: once the framework has closed them, no operation of the
  handler changes the value that the response has for such a header.
\<close>

theorem system_headers_protected:
  assumes "resp_step\<^sup>*\<^sup>* initial_response r" and "system_headers_ended r"
    and "headers_contains name (system_headers r)" and "resp_step\<^sup>*\<^sup>* r r'"
  shows "GetHeader name r' = GetHeader name r"
proof -
  have inv: "resp_inv r" using assms(1) by (rule resp_inv_steps) simp
  have "resp_inv r' \<and> system_headers_ended r' \<and> system_headers r' = system_headers r"
    using assms(4)
  proof (induction rule: rtranclp_induct)
    case (step r1 r2)
    then have "resp_inv r2" using resp_inv_step by blast
    moreover have "system_headers_ended r2 \<and> system_headers r2 = system_headers r1"
      using step by (auto elim!: resp_step.cases dest!: SetHeader_result simp: SetStatus_def ClearUserHeaders_def
          SetSystemHeadersEnd_def SetHeadersEnd_def SetData_def SetReady_def split: if_splits)
    ultimately show ?case using step by simp
  qed (use inv assms(2) in simp)
  moreover have "headers_find name (user_headers x) = None"
    if "resp_inv x" "system_headers x = system_headers r" for x
    using that assms(3) headers_contains_def [of name "user_headers x"] by (auto simp: resp_inv_def headers_contains_iff)
  ultimately show ?thesis using inv by (simp add: GetHeader_def)
qed

subsection \<open>Chunked bodies\<close>

text \<open>A reader of the chunked encoding of RFC 7230: size in hexadecimal, data, line end, until size zero.\<close>

definition hex_digit :: "char \<Rightarrow> bool" where
  "hex_digit c \<longleftrightarrow> c \<in> set ''0123456789abcdef''"

definition hex_digit_value :: "char \<Rightarrow> nat" where
  "hex_digit_value c = (if byte c \<le> 57 then byte c - 48 else byte c - 87)"

definition unhex_nat :: "string \<Rightarrow> nat" where
  "unhex_nat s = foldl (\<lambda>n c. 16 * n + hex_digit_value c) 0 s"

function dechunk :: "string \<Rightarrow> string option" where
  "dechunk s =
     (let n = unhex_nat (takeWhile hex_digit s); r = drop 2 (dropWhile hex_digit s) in
      if takeWhile hex_digit s = [] \<or> take 2 (dropWhile hex_digit s) \<noteq> kCrlf then None
      else if n = 0 then (if r = kCrlf then Some [] else None)
      else if take 2 (drop n r) \<noteq> kCrlf then None
      else map_option (\<lambda>rest. take n r @ rest) (dechunk (drop (n + 2) r)))"
  by pat_completeness auto
termination
proof (relation "measure length", goal_cases)
  case (2 s n r)
  have "s \<noteq> []" using 2(3) by auto
  moreover have "length r \<le> length s" 
    using 2(2) length_dropWhile_le [of hex_digit s] by simp
  ultimately show ?case by (cases r) auto
qed simp

declare dechunk.simps [simp del]

lemma hex_table_digit: "n < 16 \<Longrightarrow> hex_digit (''0123456789abcdef'' ! n) \<and> hex_digit_value (''0123456789abcdef'' ! n) = n"
proof -
  have "\<forall>n\<in>set [0..<16]. hex_digit (''0123456789abcdef'' ! n) \<and> hex_digit_value (''0123456789abcdef'' ! n) = n"
    by (simp add: upt_rec hex_digit_def hex_digit_value_def)
  then show "n < 16 \<Longrightarrow> ?thesis" by auto
qed

lemma hex_nat_props: "hex_nat n \<noteq> [] \<and> (\<forall>c\<in>set (hex_nat n). hex_digit c) \<and> unhex_nat (hex_nat n) = n"
proof (induction n rule: hex_nat.induct)
  case (1 n)
  show ?case
  proof (cases "n < 16")
    case True
    then show ?thesis using hex_table_digit [OF True] by (simp add: hex_nat.simps [of n] unhex_nat_def)
  next
    case False
    then show ?thesis using 1 hex_table_digit [of "n mod 16"] by (auto simp: hex_nat.simps [of n] unhex_nat_def)
  qed
qed

lemma stream_chunks_True: "stream_chunks True ps = kCrlf @ stream_chunks False ps"
  by (induction ps) auto

lemma span_hex_nat:
  "takeWhile hex_digit (hex_nat n @ kCrlf @ r) = hex_nat n"
  "dropWhile hex_digit (hex_nat n @ kCrlf @ r) = kCrlf @ r"
  using hex_nat_props [of n] by (auto simp: takeWhile_append2 dropWhile_append2 kCrlf_def hex_digit_def)

lemma hex_nat_0: "hex_nat 0 = ''0''"
  by (simp add: hex_nat.simps)

text \<open>
  A streamed body arrives as it was produced: reading the bytes that \<open>SetBodyStreamed\<close>
  writes for a sequence of parts gives their concatenation, empty parts included.
\<close>

theorem chunked_roundtrip: "dechunk (stream_chunks False parts) = Some (concat parts)"
proof (induction parts)
  case Nil
  show ?case using span_hex_nat [of 0 kCrlf]
    by (simp add: dechunk.simps hex_nat_0 Let_def kCrlf_def unhex_nat_def hex_digit_value_def hex_digit_def)
next
  case (Cons p ps)
  show ?case
  proof (cases "p = []")
    case False
    let ?r = "p @ kCrlf @ stream_chunks False ps"
    have "dechunk (hex_nat (length p) @ kCrlf @ ?r) = map_option (\<lambda>rest. p @ rest) (dechunk (stream_chunks False ps))"
      using False hex_nat_props [of "length p"] span_hex_nat [of "length p" ?r]
      by (subst dechunk.simps) (simp add: Let_def kCrlf_def)
    then show ?thesis using False Cons.IH by (simp add: stream_chunks_True)
  qed (use Cons in simp)
qed

subsection \<open>Examples\<close>

definition sample_response :: HttpResponse where
  "sample_response = initial_response\<lparr>system_headers := [(''X-YaRequestId'', ''42'')], system_headers_ended := True\<rparr>"

lemma sample_response_steps: "resp_step\<^sup>*\<^sup>* initial_response sample_response"
proof -
  let ?r = "initial_response\<lparr>system_headers := [(''X-YaRequestId'', ''42'')]\<rparr>"
  have "SetHeader ''X-YaRequestId'' ''42'' initial_response = Inr (True, ?r)"
    by (simp add: SetHeader_def initial_response_def CheckHeaderName_def CheckHeaderValue_def bad_name_char_def
        bad_value_char_def insert_or_assign_def InsertOrModify_def header_pos_def UsableCapacity_def kMaxSize_def)
  then have "resp_step initial_response ?r" by (rule step_header)
  moreover have "resp_step ?r sample_response"
    using step_system_end [of ?r] by (simp add: SetSystemHeadersEnd_def sample_response_def)
  ultimately show ?thesis by auto
qed

theorem response_no_injection_witness:
  "\<exists>ls. split_on LF (response_head ''Thu, 01 Jan 1970 00:00:00 UTC'' 1 1 True sample_response) = map (\<lambda>l. l @ [CR]) ls @ [[]]"
  using response_no_injection [OF sample_response_steps, of "''Thu, 01 Jan 1970 00:00:00 UTC''" 1 1 True]
  by (intro exI) (erule meta_mp, simp)

theorem system_headers_protected_witness:
  "GetHeader ''x-yarequestid'' (SetReady sample_response) = ''42''"
proof -
  have contains: "headers_contains ''x-yarequestid'' (system_headers sample_response)" by code_simp
  have ended: "system_headers_ended sample_response" by (simp add: sample_response_def)
  have step: "resp_step\<^sup>*\<^sup>* sample_response (SetReady sample_response)" using step_ready by (rule r_into_rtranclp)
  have "GetHeader ''x-yarequestid'' sample_response = ''42''" by code_simp
  then show ?thesis using system_headers_protected [OF sample_response_steps ended contains step] by (rule trans [rotated])
qed

end
