(* ===== verification/Multipart.thy ===== *)
theory Multipart
  imports Http_Response
begin

section \<open>Multipart bodies\<close>

text \<open>
  \<open>core/src/server/http/multipart_form_data_parser.cpp\<close>: the parser of the bodies of forms.  A
  \<open>string_view\<close> that is consumed from the front is a list; a function that consumes it and may
  fail returns the rest as an option.  The map of arguments is filled while parsing, so the whole
  parser returns it beside its verdict.  Log messages are left out.
\<close>

record FormDataArg =
  fd_value :: string
  fd_content_disposition :: string
  fd_filename :: "string option"
  fd_default_charset :: "string option"
  fd_content_type :: "string option"

definition empty_FormDataArg :: FormDataArg where
  "empty_FormDataArg =
     \<lparr>fd_value = [], fd_content_disposition = [], fd_filename = None, fd_default_charset = None, fd_content_type = None\<rparr>"

record FormDataArgInfo =
  info_name :: string
  info_arg :: FormDataArg

type_synonym FormDataArgs = "string \<rightharpoonup> FormDataArg list"

definition kCr :: char where "kCr = CHR 0x0D"

definition kLf :: char where "kLf = CHR 0x0A"

definition IsWsp :: "char \<Rightarrow> bool" where
  "IsWsp c \<longleftrightarrow> c = CHR '' '' \<or> c = CHR 0x09"

definition LtrimOws :: "string \<Rightarrow> string" where
  "LtrimOws str = (case find_pos (\<lambda>c. \<not> IsWsp c) str of None \<Rightarrow> drop (length str) str | Some i \<Rightarrow> drop i str)"

definition RtrimOws :: "string \<Rightarrow> string" where
  "RtrimOws str = (case rfind_pos (\<lambda>c. \<not> IsWsp c) str of None \<Rightarrow> take 0 str | Some i \<Rightarrow> take (i + 1) str)"

definition TrimOws :: "string \<Rightarrow> string" where
  "TrimOws str = RtrimOws (LtrimOws str)"

definition SkipSymbol :: "char \<Rightarrow> string \<Rightarrow> string option" where
  "SkipSymbol ch str = (case str of [] \<Rightarrow> None | c # rest \<Rightarrow> if c \<noteq> ch then None else Some rest)"

fun SkipCrLf :: "string \<Rightarrow> string \<Rightarrow> string option" where
  "SkipCrLf [] str = Some str"
| "SkipCrLf (c # crlf) str = (case SkipSymbol c str of None \<Rightarrow> None | Some rest \<Rightarrow> SkipCrLf crlf rest)"

definition SkipDoubleHyphen :: "string \<Rightarrow> string option" where
  "SkipDoubleHyphen str = (case SkipSymbol (CHR ''-'') str of None \<Rightarrow> None | Some rest \<Rightarrow> SkipSymbol (CHR ''-'') rest)"

fun SkipOptionalSpaces :: "string \<Rightarrow> string" where
  "SkipOptionalSpaces [] = []"
| "SkipOptionalSpaces (c # str) = (if IsWsp c then SkipOptionalSpaces str else c # str)"

text \<open>The tables of allowed bytes of \<open>ReadToken\<close> and \<open>ReadHeaderValue\<close>.\<close>

definition token_char :: "char \<Rightarrow> bool" where
  "token_char c \<longleftrightarrow>
     33 \<le> byte c \<and> byte c < 127 \<and> c \<notin> set (''()<>@,;:'' @ [CHR 0x5C, CHR 0x22] @ ''/[]?={}'')"

definition field_char :: "char \<Rightarrow> bool" where
  "field_char c \<longleftrightarrow> (byte c = 9 \<or> 32 \<le> byte c) \<and> byte c \<noteq> 127"

definition ReadToken :: "string \<Rightarrow> string \<times> string" where
  "ReadToken str = (takeWhile token_char str, dropWhile token_char str)"

definition ReadHeaderValue :: "string \<Rightarrow> string \<times> string" where
  "ReadHeaderValue str = (TrimOws (takeWhile field_char str), dropWhile field_char str)"

definition AutoDetectCrLf :: "string \<Rightarrow> string \<Rightarrow> string" where
  "AutoDetectCrLf str dflt =
     (case str of
        [] \<Rightarrow> dflt
      | c # rest \<Rightarrow>
          if (c = kCr \<or> c = kLf) \<and> (c = kLf \<or> (rest = [] \<or> hd rest \<noteq> kLf)) then [c] else dflt)"

subsection \<open>Parameters of a header\<close>

fun read_quoted :: "string \<Rightarrow> string \<Rightarrow> (string \<times> string) option" where
  "read_quoted [] v = None"
| "read_quoted (c # str) v =
     (if c = CHR 0x22 then Some (v, str)
      else if c = CHR 0x5C then (case str of [] \<Rightarrow> None | d # rest \<Rightarrow> read_quoted rest (v @ [d]))
      else read_quoted str (v @ [c]))"

definition ParseHeaderParamValue :: "string \<Rightarrow> (string \<times> string) option" where
  "ParseHeaderParamValue str0 =
     (let str = SkipOptionalSpaces str0 in
      if str \<noteq> [] \<and> hd str = CHR 0x22 then read_quoted (tl str) []
      else (case ReadToken str of (token, rest) \<Rightarrow> if token = [] then None else Some (token, rest)))"

lemma SkipSymbol_Some: "SkipSymbol ch str = Some rest \<longleftrightarrow> str = ch # rest"
  by (auto simp: SkipSymbol_def split: list.splits)

lemma SkipOptionalSpaces_dropWhile: "SkipOptionalSpaces str = dropWhile IsWsp str"
  by (induction str) simp_all

lemma SkipOptionalSpaces_length: "length (SkipOptionalSpaces str) \<le> length str"
  by (simp add: SkipOptionalSpaces_dropWhile length_dropWhile_le)

lemma ReadToken_length: "ReadToken str = (token, rest) \<Longrightarrow> length rest \<le> length str"
  by (auto simp: ReadToken_def length_dropWhile_le)

lemma read_quoted_length: "read_quoted str v = Some (v', rest) \<Longrightarrow> length rest \<le> length str"
proof (induction str v rule: read_quoted.induct)
  case (2 c str v)
  then show ?case by (cases str) (auto split: if_splits)
qed simp

lemma ParseHeaderParamValue_length: "ParseHeaderParamValue str = Some (v, rest) \<Longrightarrow> length rest \<le> length str"
  using SkipOptionalSpaces_length [of str] read_quoted_length [of "tl (SkipOptionalSpaces str)" "[]" v rest]
    ReadToken_length [of "SkipOptionalSpaces str" v rest]
  by (auto simp: ParseHeaderParamValue_def Let_def split: if_splits prod.splits)

lemma param_step_length:
  assumes "SkipSymbol (CHR '';'') str = Some str1" and "(name, str2) = ReadToken (SkipOptionalSpaces str1)"
    and "SkipSymbol (CHR ''='') (SkipOptionalSpaces str2) = Some str3" and "ParseHeaderParamValue str3 = Some (v, str4)"
  shows "length (SkipOptionalSpaces str4) < length str"
proof -
  have "length str1 < length str" "length str2 \<le> length str1" "length str3 < length str2" "length str4 \<le> length str3"
    using assms SkipOptionalSpaces_length [of str1] ReadToken_length [of "SkipOptionalSpaces str1" name str2]
      SkipOptionalSpaces_length [of str2] ParseHeaderParamValue_length [of str3 v str4]
    by (auto simp: SkipSymbol_Some)
  then show ?thesis using SkipOptionalSpaces_length [of str4] by simp
qed

text \<open>The loop over the parameters, the same in \<open>ParseContentDisposition\<close> and \<open>ParseMultipartFormData\<close>.\<close>

function param_loop :: "(string \<Rightarrow> string \<Rightarrow> 'a \<Rightarrow> 'a) \<Rightarrow> string \<Rightarrow> 'a \<Rightarrow> 'a option" where
  "param_loop assign str a =
     (if str = [] then Some a
      else (case SkipSymbol (CHR '';'') str of
              None \<Rightarrow> None
            | Some str1 \<Rightarrow>
                (case ReadToken (SkipOptionalSpaces str1) of
                   (param_name, str2) \<Rightarrow>
                     if param_name = [] then None
                     else (case SkipSymbol (CHR ''='') (SkipOptionalSpaces str2) of
                             None \<Rightarrow> None
                           | Some str3 \<Rightarrow>
                               (case ParseHeaderParamValue str3 of
                                  None \<Rightarrow> None
                                | Some (v, str4) \<Rightarrow>
                                    param_loop assign (SkipOptionalSpaces str4) (assign param_name v a))))))"
  by pat_completeness auto
termination
  by (relation "measure (\<lambda>(assign, str, a). length str)") (auto intro: param_step_length)

declare param_loop.simps [simp del]

definition assign_disposition :: "string \<Rightarrow> string \<Rightarrow> FormDataArgInfo \<Rightarrow> FormDataArgInfo" where
  "assign_disposition param_name v info =
     (if StrIcaseEqual param_name ''name'' then info\<lparr>info_name := v\<rparr>
      else if StrIcaseEqual param_name ''filename'' then info\<lparr>info_arg := (info_arg info)\<lparr>fd_filename := Some v\<rparr>\<rparr>
      else info)"

definition ParseContentDisposition :: "string \<Rightarrow> FormDataArgInfo \<Rightarrow> FormDataArgInfo option" where
  "ParseContentDisposition content_disposition info =
     (case ReadToken content_disposition of
        (v, str) \<Rightarrow>
          if \<not> StrIcaseEqual v ''form-data'' then None
          else (case param_loop assign_disposition (SkipOptionalSpaces str) info of
                  None \<Rightarrow> None
                | Some info' \<Rightarrow> if info_name info' = [] then None else Some info'))"

definition ProcessMultipartFormDataHeader :: "string \<Rightarrow> string \<Rightarrow> FormDataArgInfo \<Rightarrow> FormDataArgInfo option" where
  "ProcessMultipartFormDataHeader name v info =
     (if StrIcaseEqual name ''Content-Disposition'' then
        ParseContentDisposition v (info\<lparr>info_arg := (info_arg info)\<lparr>fd_content_disposition := v\<rparr>\<rparr>)
      else if StrIcaseEqual name ''Content-Type'' then
        Some (info\<lparr>info_arg := (info_arg info)\<lparr>fd_content_type := Some v\<rparr>\<rparr>)
      else Some info)"

subsection \<open>The parts\<close>

lemma SkipCrLf_Some: "SkipCrLf crlf str = Some rest \<longleftrightarrow> str = crlf @ rest"
  by (induction crlf arbitrary: str) (auto split: option.splits simp: SkipSymbol_def split: list.splits)

lemma header_step_length:
  assumes "(header_name, body1) = ReadToken body" and "SkipSymbol (CHR '':'') body1 = Some body2"
    and "(header_value, body3) = ReadHeaderValue body2" and "SkipCrLf crlf body3 = Some body4"
  shows "length body4 < length body"
  using assms ReadToken_length [of body header_name body1] length_dropWhile_le [of field_char body2]
  by (auto simp: ReadHeaderValue_def SkipCrLf_Some SkipSymbol_Some)

function ParseMultipartFormDataHeaders :: "string \<Rightarrow> string \<Rightarrow> FormDataArgInfo \<Rightarrow> (string \<times> FormDataArgInfo) option" where
  "ParseMultipartFormDataHeaders crlf body info =
     (if body = [] then None
      else if take (length crlf) body = crlf then map_option (\<lambda>rest. (rest, info)) (SkipCrLf crlf body)
      else (case ReadToken body of
              (header_name, body1) \<Rightarrow>
                if header_name = [] then None
                else (case SkipSymbol (CHR '':'') body1 of
                        None \<Rightarrow> None
                      | Some body2 \<Rightarrow>
                          (case ReadHeaderValue body2 of
                             (header_value, body3) \<Rightarrow>
                               (case SkipCrLf crlf body3 of
                                  None \<Rightarrow> None
                                | Some body4 \<Rightarrow>
                                    (case ProcessMultipartFormDataHeader header_name header_value info of
                                       None \<Rightarrow> None
                                     | Some info' \<Rightarrow> ParseMultipartFormDataHeaders crlf body4 info'))))))"
  by pat_completeness auto
termination
  by (relation "measure (\<lambda>(crlf, body, info). length body)") (auto intro: header_step_length)

declare ParseMultipartFormDataHeaders.simps [simp del]

text \<open>The length of the common prefix, as the innermost loop of \<open>FindBoundaryEnd\<close> computes it.\<close>

fun match_len :: "string \<Rightarrow> string \<Rightarrow> nat" where
  "match_len (b # boundary) (c # body) = (if c = b then Suc (match_len boundary body) else 0)"
| "match_len boundary body = 0"

text \<open>The line break \<open>crlf\<close> is never empty; the loop needs this to advance.\<close>

function find_boundary_from :: "string \<Rightarrow> string \<Rightarrow> string \<Rightarrow> nat \<Rightarrow> nat option" where
  "find_boundary_from body boundary crlf pos =
     (if pos < length body \<and> crlf \<noteq> [] then
        if body ! pos = hd crlf then
          if pos + length crlf < length body \<and> substr pos (length crlf) body = crlf then
            (let pos1 = pos + length crlf in
             if pos1 < length body \<and> body ! pos1 = CHR ''-'' then
               (let pos2 = pos1 + 1 in
                if pos2 < length body \<and> body ! pos2 = CHR ''-'' then
                  (let pos3 = pos2 + 1; idx = match_len boundary (drop pos3 body) in
                   if idx = length boundary then Some (pos3 + idx) else find_boundary_from body boundary crlf (pos3 + idx))
                else find_boundary_from body boundary crlf pos2)
             else find_boundary_from body boundary crlf pos1)
          else find_boundary_from body boundary crlf (pos + 1)
        else find_boundary_from body boundary crlf (pos + 1)
      else None)"
  by pat_completeness auto
termination
  by (relation "measure (\<lambda>(body, boundary, crlf, pos). length body - pos)") (auto simp: neq_Nil_conv)

declare find_boundary_from.simps [simp del]

definition FindBoundaryEnd :: "string \<Rightarrow> string \<Rightarrow> string \<Rightarrow> nat option" where
  "FindBoundaryEnd body boundary crlf = find_boundary_from body boundary crlf 0"

text \<open>One round of the loop: the hyphens and the boundary are matched like one word.\<close>

lemma match_len_nth:
  "match_len (b # bs) (drop i s) = (if i < length s \<and> s ! i = b then Suc (match_len bs (drop (Suc i) s)) else 0)"
  by (cases "i < length s") (simp_all add: Cons_nth_drop_Suc [symmetric])

lemma find_boundary_round:
  assumes "pos < length body" and "crlf \<noteq> []"
  shows "find_boundary_from body boundary crlf pos =
     (if pos + length crlf < length body \<and> substr pos (length crlf) body = crlf then
        (let k = match_len (''--'' @ boundary) (drop (pos + length crlf) body) in
         if k = length boundary + 2 then Some (pos + length crlf + k)
         else find_boundary_from body boundary crlf (pos + length crlf + k))
      else find_boundary_from body boundary crlf (pos + 1))"
proof (cases "pos + length crlf < length body \<and> substr pos (length crlf) body = crlf")
  case False
  then show ?thesis using assms by (subst find_boundary_from.simps) auto
next
  case True
  have "body ! pos = hd crlf"
    using True assms by (metis drop_eq_Nil2 hd_drop_conv_nth hd_take length_greater_0_conv not_le substr_def)
  moreover have "match_len (''--'' @ boundary) (drop (pos + length crlf) body) =
      (if body ! (pos + length crlf) = CHR ''-'' then
         Suc (if Suc (pos + length crlf) < length body \<and> body ! Suc (pos + length crlf) = CHR ''-''
              then Suc (match_len boundary (drop (pos + length crlf + 2) body)) else 0) else 0)"
    using True by (simp add: match_len_nth)
  ultimately show ?thesis
    using True assms by (subst find_boundary_from.simps) (auto simp: Let_def)
qed

lemma find_boundary_from_bound: "find_boundary_from body boundary crlf pos = Some p \<Longrightarrow> pos < p"
proof (induction "length body - pos" arbitrary: pos rule: less_induct)
  case less
  have in_range: "pos < length body" "crlf \<noteq> []" using less.prems by (auto simp: find_boundary_from.simps split: if_splits)
  have "find_boundary_from body boundary crlf q = Some p \<Longrightarrow> q < p" if "pos < q" for q
    using less.hyps [of q] that in_range by auto
  from this [of "pos + 1"] this [of "pos + length crlf + k" for k] show ?case
    using less.prems in_range unfolding find_boundary_round [OF in_range]
    by (fastforce simp: Let_def split: if_splits)
qed

text \<open>\<open>form_data_args[name].push_back(arg)\<close>.\<close>

definition add_form_arg :: "string \<Rightarrow> FormDataArg \<Rightarrow> FormDataArgs \<Rightarrow> FormDataArgs" where
  "add_form_arg name arg args = args(name \<mapsto> (case args name of None \<Rightarrow> [] | Some as \<Rightarrow> as) @ [arg])"

definition ParseMultipartFormDataValue ::
  "string \<Rightarrow> string \<Rightarrow> FormDataArgInfo \<Rightarrow> string option \<Rightarrow> FormDataArgs \<Rightarrow> string
     \<Rightarrow> (string \<times> string option \<times> FormDataArgs) option" where
  "ParseMultipartFormDataValue body boundary info charset args crlf =
     (if fd_content_disposition (info_arg info) = [] then None
      else (case FindBoundaryEnd body boundary crlf of
              None \<Rightarrow> None
            | Some pos \<Rightarrow>
                (let v = take (pos - length boundary - 2 - length crlf) body;
                     arg = (info_arg info)\<lparr>fd_value := v\<rparr>;
                     rest = SkipOptionalSpaces (drop pos body)
                 in if info_name info = ''_charset_'' then Some (rest, Some v, args)
                    else Some (rest, charset, add_form_arg (info_name info) arg args))))"

definition set_charset :: "string option \<Rightarrow> FormDataArgs \<Rightarrow> FormDataArgs" where
  "set_charset charset args =
     (\<lambda>name. map_option (map (\<lambda>arg. if charset \<noteq> None then arg\<lparr>fd_default_charset := charset\<rparr> else arg)) (args name))"

text \<open>The end of a body: the closing hyphens, spaces, and a line break if anything follows.\<close>

definition closing :: "string \<Rightarrow> string \<Rightarrow> bool" where
  "closing crlf body =
     (case SkipDoubleHyphen body of
        None \<Rightarrow> False
      | Some rest \<Rightarrow> (let rest1 = SkipOptionalSpaces rest in rest1 = [] \<or> SkipCrLf crlf rest1 \<noteq> None))"

definition new_info :: FormDataArgInfo where
  "new_info = \<lparr>info_name = [], info_arg = empty_FormDataArg\<rparr>"

lemma ParseMultipartFormDataHeaders_cases:
  assumes "ParseMultipartFormDataHeaders crlf body info = Some (rest, info')"
  obtains (blank) "body = crlf @ rest" "info' = info"
  | (header) header_name body1 body2 header_value body3 body4 info1 where
      "body \<noteq> []" "take (length crlf) body \<noteq> crlf"
      "(header_name, body1) = ReadToken body" "header_name \<noteq> []" "SkipSymbol (CHR '':'') body1 = Some body2"
      "(header_value, body3) = ReadHeaderValue body2" "SkipCrLf crlf body3 = Some body4"
      "ProcessMultipartFormDataHeader header_name header_value info = Some info1"
      "ParseMultipartFormDataHeaders crlf body4 info1 = Some (rest, info')"
  using assms ParseMultipartFormDataHeaders.simps [of crlf body info]
  by (auto simp: SkipCrLf_Some split: if_splits option.splits prod.splits)

lemma ParseMultipartFormDataHeaders_length:
  "ParseMultipartFormDataHeaders crlf body info = Some (rest, info') \<Longrightarrow> length rest \<le> length body"
proof (induction body arbitrary: info rule: length_induct)
  case (1 body)
  from "1.prems" show ?case
  proof (cases rule: ParseMultipartFormDataHeaders_cases)
    case (header header_name body1 body2 header_value body3 body4 info1)
    have "length body4 < length body" by (rule header_step_length [OF header(3,5,6,7)])
    then show ?thesis using "1.IH" header(9) by fastforce
  qed simp
qed

lemma ParseMultipartFormDataValue_length:
  assumes "ParseMultipartFormDataValue body boundary info charset args crlf = Some (rest, charset', args')"
  shows "length rest < length body"
proof -
  obtain pos where pos: "FindBoundaryEnd body boundary crlf = Some pos" "rest = SkipOptionalSpaces (drop pos body)"
    using assms by (auto simp: ParseMultipartFormDataValue_def Let_def split: if_splits option.splits)
  have "0 < pos" using pos(1) find_boundary_from_bound by (auto simp: FindBoundaryEnd_def)
  moreover have "body \<noteq> []" using pos(1) by (auto simp: FindBoundaryEnd_def find_boundary_from.simps)
  ultimately show ?thesis using SkipOptionalSpaces_length [of "drop pos body"] pos(2) by (cases body) auto
qed

lemma part_step_length:
  assumes "SkipCrLf crlf body = Some body1" and "ParseMultipartFormDataHeaders crlf body1 new_info = Some (body2, info)"
    and "ParseMultipartFormDataValue body2 boundary info charset args crlf = Some (body3, charset', args')"
  shows "length body3 < length body"
  using assms(1) ParseMultipartFormDataHeaders_length [OF assms(2)] ParseMultipartFormDataValue_length [OF assms(3)]
  by (simp add: SkipCrLf_Some)

function parts_loop :: "string \<Rightarrow> string \<Rightarrow> string \<Rightarrow> string option \<Rightarrow> FormDataArgs \<Rightarrow> bool \<times> FormDataArgs" where
  "parts_loop boundary crlf body charset args =
     (if body = [] then (False, args)
      else if hd body = CHR ''-'' then
        (if closing crlf body then (True, set_charset charset args) else (False, args))
      else (case SkipCrLf crlf body of
              None \<Rightarrow> (False, args)
            | Some body1 \<Rightarrow>
                (case ParseMultipartFormDataHeaders crlf body1 new_info of
                   None \<Rightarrow> (False, args)
                 | Some (body2, info) \<Rightarrow>
                     (case ParseMultipartFormDataValue body2 boundary info charset args crlf of
                        None \<Rightarrow> (False, args)
                      | Some (body3, charset', args') \<Rightarrow> parts_loop boundary crlf body3 charset' args'))))"
  by pat_completeness auto
termination
  by (relation "measure (\<lambda>(boundary, crlf, body, charset, args). length body)") (auto intro: part_step_length)

declare parts_loop.simps [simp del]

definition ParseMultipartFormDataBody ::
  "string \<Rightarrow> string \<Rightarrow> string \<Rightarrow> FormDataArgs \<Rightarrow> bool \<Rightarrow> bool \<times> FormDataArgs" where
  "ParseMultipartFormDataBody body0 boundary default_charset args strict_cr_lf =
     (let dflt = [kCr, kLf];
          start =
            (if length boundary + 2 \<le> length body0 \<and> body0 ! 0 = CHR ''-'' \<and> body0 ! 1 = CHR ''-''
                \<and> substr 2 (length boundary) body0 = boundary then
               (let body = drop (2 + length boundary) body0
                in Some (body, if strict_cr_lf then dflt else AutoDetectCrLf body dflt))
             else
               (let body = dropWhile (\<lambda>c. c \<noteq> kCr \<and> c \<noteq> kLf) body0;
                    crlf = (if strict_cr_lf then dflt else AutoDetectCrLf body dflt)
                in case FindBoundaryEnd body boundary crlf of
                     None \<Rightarrow> None
                   | Some pos \<Rightarrow> Some (drop pos body, crlf)))
      in case start of
           None \<Rightarrow> (False, args)
         | Some (body, crlf) \<Rightarrow>
             parts_loop boundary crlf (SkipOptionalSpaces body)
               (if default_charset \<noteq> [] then Some default_charset else None) args)"

definition IsMultipartFormDataContentType :: "string \<Rightarrow> bool" where
  "IsMultipartFormDataContentType content_type \<longleftrightarrow>
     (let k = ''multipart/form-data'' in
      StrIcaseEqual (take (length k) content_type) k
      \<and> (length content_type = length k \<or> content_type ! length k \<in> {CHR '';'', CHR '' '', CHR 0x09}))"

text \<open>The parameters \<open>boundary\<close> and \<open>charset\<close> of the content type.\<close>

definition assign_content_type :: "string \<Rightarrow> string \<Rightarrow> string \<times> string \<Rightarrow> string \<times> string" where
  "assign_content_type param_name v = (\<lambda>(boundary, charset).
     if StrIcaseEqual param_name ''boundary'' then (v, charset)
     else if StrIcaseEqual param_name ''charset'' then (boundary, v)
     else (boundary, charset))"

definition ParseMultipartFormData :: "string \<Rightarrow> string \<Rightarrow> FormDataArgs \<Rightarrow> bool \<Rightarrow> bool \<times> FormDataArgs" where
  "ParseMultipartFormData content_type body args strict_cr_lf =
     (if \<not> IsMultipartFormDataContentType content_type then (False, args)
      else (case param_loop assign_content_type
                   (SkipOptionalSpaces (drop (length ''multipart/form-data'') content_type)) ([], []) of
              None \<Rightarrow> (False, args)
            | Some (boundary, charset) \<Rightarrow>
                if boundary = [] then (False, args)
                else ParseMultipartFormDataBody body boundary charset args strict_cr_lf))"

end
