(* ===== verification/Handler_Index.thy ===== *)
theory Handler_Index
  imports Http_Types
begin

section \<open>Routing: from a method and a path to a handler\<close>

text \<open>
  \<open>core/src/server/http/\<close>: \<open>handler_method_index.cpp\<close> (handlers of one path by method),
  \<open>fixed_path_index.cpp\<close> (paths without wildcards), \<open>wildcard_path_index.cpp\<close> (a trie over
  the fixed parts of paths with wildcards and a trailing \<open>*\<close>) and
  \<open>handler_info_index.cpp\<close>, which puts them together.  Registration may throw; the model
  then returns the exception.  A match threads the \<open>MatchRequestResult\<close> the source fills in
  through all attempts, failed ones included.
\<close>

subsection \<open>Configuration of a handler\<close>

record HttpRequestConfig =
  max_url_size :: nat
  max_request_size :: nat
  max_headers_size :: nat
  request_body_size_log_limit :: nat
  request_headers_size_log_limit :: nat
  response_data_size_log_limit :: nat
  parse_args_from_body :: bool
  testing_mode :: bool
  decompress_request :: bool
  set_tracing_headers :: bool
  deadline_propagation_enabled :: bool
  deadline_expired_status_code :: StatusCode

definition default_HttpRequestConfig :: HttpRequestConfig where
  "default_HttpRequestConfig =
     \<lparr>max_url_size = 8192, max_request_size = 1024 * 1024, max_headers_size = 65536,
      request_body_size_log_limit = 512, request_headers_size_log_limit = 512,
      response_data_size_log_limit = 512, parse_args_from_body = False, testing_mode = False,
      decompress_request = False, set_tracing_headers = True,
      deadline_propagation_enabled = True, deadline_expired_status_code = 498\<rparr>"

datatype handler_path = PathString string | PathFallback FallbackHandler

text \<open>\<open>HandlerConfig\<close>, without the settings of the authentication checkers, which are opaque.\<close>

record HandlerConfig =
  hc_path :: handler_path
  hc_task_processor :: "string option"
  hc_method :: string
  hc_request_config :: HttpRequestConfig
  hc_request_body_size_log_limit :: nat
  hc_request_headers_size_log_limit :: nat
  hc_response_data_size_log_limit :: nat
  hc_url_trailing_slash :: UrlTrailingSlashOption
  hc_max_requests_in_flight :: "nat option"
  hc_max_requests_per_second :: "nat option"
  hc_decompress_request :: bool
  hc_throttling_enabled :: bool
  hc_response_body_stream :: bool
  hc_set_response_server_hostname :: "bool option"
  hc_set_tracing_headers :: bool
  hc_deadline_propagation_enabled :: bool
  hc_enable_write_statistics :: bool
  hc_deadline_expired_status_code :: StatusCode

text \<open>The member initialisers.\<close>

definition default_HandlerConfig :: "handler_path \<Rightarrow> HandlerConfig" where
  "default_HandlerConfig path =
     \<lparr>hc_path = path, hc_task_processor = None, hc_method = [], hc_request_config = default_HttpRequestConfig,
      hc_request_body_size_log_limit = 0, hc_request_headers_size_log_limit = 0, hc_response_data_size_log_limit = 0,
      hc_url_trailing_slash = kBoth, hc_max_requests_in_flight = None, hc_max_requests_per_second = None,
      hc_decompress_request = True, hc_throttling_enabled = True, hc_response_body_stream = False,
      hc_set_response_server_hostname = None, hc_set_tracing_headers = True, hc_deadline_propagation_enabled = True,
      hc_enable_write_statistics = True, hc_deadline_expired_status_code = 498\<rparr>"

record Handler =
  HandlerName :: string
  GetConfig :: HandlerConfig
  GetAllowedMethods :: "HttpMethod list"

record HandlerInfo =
  task_processor :: string
  handler :: Handler

record PathItem =
  item_index :: nat
  item_name :: string

subsection \<open>Handlers of one path, by method\<close>

record HandlerInfoData =
  handler_info :: HandlerInfo
  wildcards :: "PathItem list"

record HandlerMethodIndex =
  handler_info_holder :: "HandlerInfoData list"
  pmethods :: "HandlerInfoData option list"

definition empty_method_index :: HandlerMethodIndex where
  "empty_method_index =
     \<lparr>handler_info_holder = [], pmethods = replicate (Suc kHandlerMethodsMax) None\<rparr>"

definition path_text :: "Handler \<Rightarrow> string" where
  "path_text h = (case hc_path (GetConfig h) of PathString p \<Rightarrow> p | PathFallback _ \<Rightarrow> [])"

definition AddHandlerInfoData ::
  "HttpMethod \<Rightarrow> HandlerInfoData \<Rightarrow> HandlerMethodIndex \<Rightarrow> HandlerMethodIndex result" where
  "AddHandlerInfoData method data idx =
     (let index = method_index method in
      case pmethods idx ! index of
        Some old \<Rightarrow>
          Inl (RuntimeError (''duplicate handler method+path: method='' @ HttpMethod_ToString method
            @ '' path1='' @ path_text (handler (handler_info data))
            @ '' path2='' @ path_text (handler (handler_info old))))
      | None \<Rightarrow> Inr (idx\<lparr>pmethods := (pmethods idx)[index := Some data]\<rparr>))"

definition HandlerMethodIndex_AddHandler ::
  "Handler \<Rightarrow> string \<Rightarrow> PathItem list \<Rightarrow> HandlerMethodIndex \<Rightarrow> HandlerMethodIndex result" where
  "HandlerMethodIndex_AddHandler h tp wcs idx =
     (let data = \<lparr>handler_info = \<lparr>task_processor = tp, handler = h\<rparr>, wildcards = wcs\<rparr>;
          idx1 = idx\<lparr>handler_info_holder := handler_info_holder idx @ [data]\<rparr>
      in rbind (foldr_result (\<lambda>m. AddHandlerInfoData m data) (GetAllowedMethods h) idx1) (\<lambda>idx2.
           let get_method = pmethods idx2 ! method_index kGet;
               head_method = pmethods idx2 ! method_index kHead
           in Inr (if get_method \<noteq> None \<and> head_method = None
                   then idx2\<lparr>pmethods := (pmethods idx2)[method_index kHead := get_method]\<rparr>
                   else idx2)))"

definition IsAllowedMethod :: "HandlerMethodIndex \<Rightarrow> nat \<Rightarrow> bool" where
  "IsAllowedMethod idx i \<longleftrightarrow> i \<le> kHandlerMethodsMax \<and> pmethods idx ! i \<noteq> None"

definition GetHandlerInfoData :: "HandlerMethodIndex \<Rightarrow> HttpMethod \<Rightarrow> HandlerInfoData option" where
  "GetHandlerInfoData idx method =
     (let index = method_index method
      in if \<not> IsAllowedMethod idx index then None else pmethods idx ! index)"

subsection \<open>The result of a match\<close>

datatype MatchStatus = kHandlerNotFound | kMethodNotAllowed | kMatchOk

record MatchRequestResult =
  res_handler_info :: "HandlerInfo option"
  matched_path_length :: nat
  res_status :: MatchStatus
  args_from_path :: "(string \<times> string) list"

definition initial_match_result :: MatchRequestResult where
  "initial_match_result =
     \<lparr>res_handler_info = None, matched_path_length = 0, res_status = kHandlerNotFound,
      args_from_path = []\<rparr>"

subsection \<open>Paths without wildcards\<close>

text \<open>\<open>FastVariable\<close>: the data and the flag that refuses writes after registration.\<close>

record FixedPathIndex =
  fixed_map :: "string \<rightharpoonup> HandlerMethodIndex"
  fixed_writes_disabled :: bool

definition writes_disabled_error :: exn where
  "writes_disabled_error = LogicError ''Writes are disabled''"

definition FixedPathIndex_AddPath ::
  "string \<Rightarrow> Handler \<Rightarrow> string \<Rightarrow> FixedPathIndex \<Rightarrow> FixedPathIndex result" where
  "FixedPathIndex_AddPath path h tp fi =
     (if fixed_writes_disabled fi then Inl writes_disabled_error
      else
        let idx = (case fixed_map fi path of Some i \<Rightarrow> i | None \<Rightarrow> empty_method_index)
        in rbind (HandlerMethodIndex_AddHandler h tp [] idx) (\<lambda>idx'.
             Inr (fi\<lparr>fixed_map := (fixed_map fi)(path \<mapsto> idx')\<rparr>)))"

definition double_slash_error :: "string \<Rightarrow> exn" where
  "double_slash_error ending =
     RuntimeError (''can'' @ [CHR 0x27] @ ''t use '' @ [CHR 0x27] @ ''url_trailing_slash'' @ [CHR 0x27]
       @ '' option with path ends with '' @ [CHR 0x27] @ ending @ [CHR 0x27])"

definition FixedPathIndex_AddHandler ::
  "Handler \<Rightarrow> string \<Rightarrow> FixedPathIndex \<Rightarrow> FixedPathIndex result" where
  "FixedPathIndex_AddHandler h tp fi =
     (let path = path_text h in
      rbind (FixedPathIndex_AddPath path h tp fi) (\<lambda>fi1.
        if hc_url_trailing_slash (GetConfig h) = kBoth \<and> path \<noteq> [] then
          (if last path = CHR ''/'' then
             (if 1 < length path then
                (if path ! (length path - 2) = CHR ''/'' then Inl (double_slash_error ''//'')
                 else FixedPathIndex_AddPath (take (length path - 1) path) h tp fi1)
              else Inr fi1)
           else FixedPathIndex_AddPath (path @ ''/'') h tp fi1)
        else Inr fi1))"

definition FixedPathIndex_MatchRequest ::
  "FixedPathIndex \<Rightarrow> HttpMethod \<Rightarrow> string \<Rightarrow> MatchRequestResult \<Rightarrow> (bool \<times> MatchRequestResult) result" where
  "FixedPathIndex_MatchRequest fi method path res =
     (case fixed_map fi path of
        None \<Rightarrow> Inr (False, res)
      | Some idx \<Rightarrow>
          (case GetHandlerInfoData idx method of
             None \<Rightarrow> Inr (False, res\<lparr>res_status := kMethodNotAllowed\<rparr>)
           | Some data \<Rightarrow>
               Inr (True, res\<lparr>res_handler_info := Some (handler_info data),
                             matched_path_length := length path, res_status := kMatchOk\<rparr>)))"

subsection \<open>Paths with wildcards\<close>

text \<open>
  A node of the trie: \<open>next\<close> maps a position in the path, in increasing order, to the
  children by the text required at that position; \<open>handler_method_index_map\<close> maps the
  number of path elements to the handlers that end here.
\<close>

datatype Node = Node
  (node_next: "(nat \<times> (string \<times> Node) list) list")
  (handler_method_index_map: "(nat \<times> HandlerMethodIndex) list")

definition empty_node :: Node where
  "empty_node = Node [] []"

record WildcardPathIndex =
  root :: Node
  root_writes_disabled :: bool

definition kAnySuffixMark :: string where
  "kAnySuffixMark = ''*''"

definition SplitBySlash :: "string \<Rightarrow> string list" where
  "SplitBySlash path = split_on (CHR ''/'') path"

definition HasWildcardSpecificSymbols :: "string \<Rightarrow> bool" where
  "HasWildcardSpecificSymbols path \<longleftrightarrow> CHR ''{'' \<in> set path \<or> CHR ''}'' \<in> set path"

text \<open>
  \<open>str.substr(1, str.size() - 2)\<close>: a string that passes the check has both braces, hence at
  least two characters.
\<close>

definition ExtractWildcardName :: "string \<Rightarrow> string result" where
  "ExtractWildcardName str =
     (if str = [] \<or> hd str \<noteq> CHR ''{'' \<or> last str \<noteq> CHR ''}''
      then Inl (RuntimeError (''Incorrect wildcard '' @ [CHR 0x27] @ str @ [CHR 0x27]))
      else Inr (substr 1 (length str - 2) str))"

text \<open>
  The loop of \<open>AddHandler(path, ...)\<close> over the elements of the path: fixed elements,
  wildcards and the set of wildcard names seen so far.
\<close>

fun split_path_items ::
  "nat \<Rightarrow> string list \<Rightarrow> string list \<Rightarrow> (PathItem list \<times> PathItem list) result" where
  "split_path_items i [] names = Inr ([], [])"
| "split_path_items i (e # es) names =
     (if \<not> HasWildcardSpecificSymbols e then
        rbind (split_path_items (Suc i) es names) (\<lambda>(fixed, wcs).
          Inr (\<lparr>item_index = i, item_name = e\<rparr> # fixed, wcs))
      else
        rbind (ExtractWildcardName e) (\<lambda>name.
          if name \<noteq> [] \<and> name \<in> set names
          then Inl (RuntimeError (''duplicate wildcard name: '' @ [CHR 0x27] @ name @ [CHR 0x27]))
          else
            rbind (split_path_items (Suc i) es (if name \<noteq> [] then name # names else names))
              (\<lambda>(fixed, wcs). Inr (fixed, \<lparr>item_index = i, item_name = name\<rparr> # wcs))))"

fun children_put :: "string \<Rightarrow> 'v \<Rightarrow> (string \<times> 'v) list \<Rightarrow> (string \<times> 'v) list" where
  "children_put k v [] = [(k, v)]"
| "children_put k v (e # es) = (if fst e = k then (k, v) # es else e # children_put k v es)"

definition child :: "nat \<Rightarrow> string \<Rightarrow> Node \<Rightarrow> Node option" where
  "child i name n = (case map_of (node_next n) i of None \<Rightarrow> None | Some inner \<Rightarrow> map_of inner name)"

definition put_child :: "nat \<Rightarrow> string \<Rightarrow> Node \<Rightarrow> Node \<Rightarrow> Node" where
  "put_child i name c n =
     (let inner = (case map_of (node_next n) i of None \<Rightarrow> [] | Some inner \<Rightarrow> inner)
      in Node (smap_put i (children_put name c inner) (node_next n)) (handler_method_index_map n))"

fun AddPath ::
  "Handler \<Rightarrow> string \<Rightarrow> PathItem list \<Rightarrow> PathItem list \<Rightarrow> nat \<Rightarrow> Node \<Rightarrow> Node result" where
  "AddPath h tp [] wcs len n =
     (let idx = (case map_of (handler_method_index_map n) len of
                   Some i \<Rightarrow> i | None \<Rightarrow> empty_method_index)
      in rbind (HandlerMethodIndex_AddHandler h tp wcs idx) (\<lambda>idx'.
           Inr (Node (node_next n) (smap_put len idx' (handler_method_index_map n)))))"
| "AddPath h tp (it # its) wcs len n =
     (let c = (case child (item_index it) (item_name it) n of Some c \<Rightarrow> c | None \<Rightarrow> empty_node)
      in rbind (AddPath h tp its wcs len c) (\<lambda>c'.
           Inr (put_child (item_index it) (item_name it) c' n)))"

definition wrap_path_error :: "string \<Rightarrow> exn \<Rightarrow> exn" where
  "wrap_path_error path e =
     RuntimeError (''Failed to process handler path '' @ [CHR 0x27] @ path @ [CHR 0x27] @ '': ''
       @ (case e of RuntimeError m \<Rightarrow> m | LogicError m \<Rightarrow> m | _ \<Rightarrow> []))"

definition WildcardPathIndex_AddPath ::
  "string \<Rightarrow> Handler \<Rightarrow> string \<Rightarrow> WildcardPathIndex \<Rightarrow> WildcardPathIndex result" where
  "WildcardPathIndex_AddPath path h tp wi =
     (case split_path_items 0 (SplitBySlash path) [] of
        Inl e \<Rightarrow> Inl (wrap_path_error path e)
      | Inr (fixed, wcs) \<Rightarrow>
          if root_writes_disabled wi then Inl writes_disabled_error
          else rbind (AddPath h tp fixed wcs (length fixed + length wcs) (root wi)) (\<lambda>n.
                 Inr (wi\<lparr>root := n\<rparr>)))"

definition WildcardPathIndex_AddHandler ::
  "Handler \<Rightarrow> string \<Rightarrow> WildcardPathIndex \<Rightarrow> WildcardPathIndex result" where
  "WildcardPathIndex_AddHandler h tp wi =
     (let path = path_text h in
      rbind (WildcardPathIndex_AddPath path h tp wi) (\<lambda>wi1.
        if hc_url_trailing_slash (GetConfig h) = kBoth \<and> path \<noteq> [] then
          (if last path = CHR ''/'' then
             (if 1 < length path then
                (if path ! (length path - 2) = CHR ''/'' then Inl (double_slash_error ''//'')
                 else WildcardPathIndex_AddPath (take (length path - 1) path) h tp wi1)
              else Inr wi1)
           else if last path = CHR ''*'' then
             (if 1 < length path \<and> path ! (length path - 2) = CHR ''/'' then
                (if 2 < length path \<and> path ! (length path - 3) = CHR ''/''
                 then Inl (double_slash_error ''//*'')
                 else WildcardPathIndex_AddPath (take (length path - 2) path) h tp wi1)
              else Inl (RuntimeError (''incorrect path: '' @ [CHR 0x27] @ path @ [CHR 0x27]
                          @ '': trailing '' @ [CHR 0x27] @ ''*'' @ [CHR 0x27] @ '' allowed after ''
                          @ [CHR 0x27] @ ''/'' @ [CHR 0x27] @ '' only'')))
           else WildcardPathIndex_AddPath (path @ ''/'') h tp wi1)
        else Inr wi1))"

subsection \<open>Matching in the trie\<close>

text \<open>
  \<open>GetFromHandlerMethodIndex\<close>: with \<open>limit_path_length\<close> the handlers registered for exactly
  the number of elements of the request path, otherwise those with the largest registered
  number not above it (\<open>--upper_bound(path.size())\<close>).
\<close>

definition find_by_length ::
  "(nat \<times> HandlerMethodIndex) list \<Rightarrow> nat \<Rightarrow> bool \<Rightarrow> HandlerMethodIndex option" where
  "find_by_length index_map n limit_path_length =
     (if limit_path_length then map_of index_map n
      else (let below = takeWhile (\<lambda>e. fst e \<le> n) index_map
            in if below = [] then None else Some (snd (last below))))"

fun path_args :: "PathItem list \<Rightarrow> string list \<Rightarrow> (string \<times> string) list \<Rightarrow> (string \<times> string) list result" where
  "path_args [] path args = Inr args"
| "path_args (arg # rest) path args =
     (if length path < item_index arg
      then Inl (LogicError ''matched path from handler has length greater than path from request'')
      else path_args rest path
             (args @ [(item_name arg,
                if item_index arg = length path then [] else path ! item_index arg)]))"

definition GetFromHandlerMethodIndex ::
  "Node \<Rightarrow> HttpMethod \<Rightarrow> string list \<Rightarrow> MatchRequestResult \<Rightarrow> bool
     \<Rightarrow> (bool \<times> MatchRequestResult) result" where
  "GetFromHandlerMethodIndex node method path res limit_path_length =
     (case find_by_length (handler_method_index_map node) (length path) limit_path_length of
        None \<Rightarrow> Inr (False, res)
      | Some idx \<Rightarrow>
          (case GetHandlerInfoData idx method of
             None \<Rightarrow> Inr (False, res\<lparr>res_status := kMethodNotAllowed\<rparr>)
           | Some data \<Rightarrow>
               rbind (path_args (wildcards data) path (args_from_path res)) (\<lambda>args.
                 Inr (True, res\<lparr>res_handler_info := Some (handler_info data),
                               args_from_path := args, res_status := kMatchOk\<rparr>))))"

text \<open>A loop that tries candidates in order and returns at the first that matches.\<close>

fun first_match :: "('a \<Rightarrow> 'r \<Rightarrow> (bool \<times> 'r) result) \<Rightarrow> 'a list \<Rightarrow> 'r \<Rightarrow> (bool \<times> 'r) result" where
  "first_match f [] r = Inr (False, r)"
| "first_match f (x # xs) r =
     rbind (f x r) (\<lambda>(found, r'). if found then Inr (True, r') else first_match f xs r')"

lemma first_match_cong [fundef_cong]:
  "xs = ys \<Longrightarrow> r = r' \<Longrightarrow> (\<And>x r. x \<in> set ys \<Longrightarrow> f x r = g x r) \<Longrightarrow> first_match f xs r = first_match g ys r'"
proof (induction xs arbitrary: ys r r')
  case (Cons x xs)
  then show ?case by (cases "g x r'") (auto intro!: Cons.IH)
qed simp

definition match_star ::
  "HttpMethod \<Rightarrow> string list \<Rightarrow> nat \<times> (string \<times> Node) list \<Rightarrow> MatchRequestResult
     \<Rightarrow> (bool \<times> MatchRequestResult) result" where
  "match_star method path e res =
     (case map_of (snd e) kAnySuffixMark of
        None \<Rightarrow> Inr (False, res)
      | Some n \<Rightarrow>
          rbind (GetFromHandlerMethodIndex n method path res False) (\<lambda>(found, res').
            if found then
              (let asterisk_pos = fst e
               in Inr (True, res'\<lparr>matched_path_length := asterisk_pos + sum_list (map length (take asterisk_pos path)),
                                 args_from_path := args_from_path res' @ map (Pair []) (drop asterisk_pos path)\<rparr>))
            else Inr (False, res')))"

lemma size_child:
  assumes "e \<in> set (node_next n)" and "map_of (snd e) name = Some c"
  shows "size c < size n"
proof -
  have "(name, c) \<in> set (snd e)" using assms(2) by (rule map_of_SomeD)
  then have "size c < size_list (size_prod (\<lambda>_. 0) size) (snd e)"
    by (rule size_list_estimation) simp
  also have "\<dots> < size_list (size_prod (\<lambda>_. 0) (size_list (size_prod (\<lambda>_. 0) size))) (node_next n)"
    using assms(1) by (intro size_list_estimation [of e]) (cases e; simp)+
  also have "\<dots> < size n" by (cases n) simp
  finally show ?thesis .
qed

function MatchNode ::
  "Node \<Rightarrow> HttpMethod \<Rightarrow> string list \<Rightarrow> nat \<Rightarrow> MatchRequestResult
     \<Rightarrow> (bool \<times> MatchRequestResult) result" where
  "MatchNode node method path path_string_length res =
     rbind
       (first_match (\<lambda>e res.
            case map_of (snd e) (path ! fst e) of
              None \<Rightarrow> Inr (False, res)
            | Some c \<Rightarrow> MatchNode c method path path_string_length res)
          (takeWhile (\<lambda>e. fst e < length path) (node_next node)) res)
       (\<lambda>(found, res). if found then Inr (True, res)
         else
           rbind (GetFromHandlerMethodIndex node method path res True) (\<lambda>(found, res).
             if found then Inr (True, res\<lparr>matched_path_length := path_string_length\<rparr>)
             else
               first_match (match_star method path)
                 (rev (takeWhile (\<lambda>e. fst e < length path) (node_next node))) res))"
  by pat_completeness auto
termination
  by (relation "measure (\<lambda>(node, _). size node)")
     (auto dest: set_takeWhileD intro: size_child)

declare MatchNode.simps [simp del]

definition WildcardPathIndex_MatchRequest ::
  "WildcardPathIndex \<Rightarrow> HttpMethod \<Rightarrow> string \<Rightarrow> MatchRequestResult
     \<Rightarrow> (bool \<times> MatchRequestResult) result" where
  "WildcardPathIndex_MatchRequest wi method path res =
     MatchNode (root wi) method (SplitBySlash path) (length path) res"

subsection \<open>The index of all handlers\<close>

record HandlerInfoIndex =
  handler_list :: "Handler list"
  fixed_path_index :: FixedPathIndex
  wildcard_path_index :: WildcardPathIndex
  fallback_handlers :: "FallbackHandler \<rightharpoonup> HandlerInfo"

definition empty_HandlerInfoIndex :: HandlerInfoIndex where
  "empty_HandlerInfoIndex =
     \<lparr>handler_list = [],
      fixed_path_index = \<lparr>fixed_map = Map.empty, fixed_writes_disabled = False\<rparr>,
      wildcard_path_index = \<lparr>root = empty_node, root_writes_disabled = False\<rparr>,
      fallback_handlers = Map.empty\<rparr>"

definition Impl_AddHandler :: "Handler \<Rightarrow> string \<Rightarrow> HandlerInfoIndex \<Rightarrow> HandlerInfoIndex result" where
  "Impl_AddHandler h tp hi =
     (let path = path_text h in
      rbind
        (if \<not> HasWildcardSpecificSymbols path \<and> (path = [] \<or> last path \<noteq> CHR ''*'')
         then rbind (FixedPathIndex_AddHandler h tp (fixed_path_index hi)) (\<lambda>fi.
                Inr (hi\<lparr>fixed_path_index := fi\<rparr>))
         else rbind (WildcardPathIndex_AddHandler h tp (wildcard_path_index hi)) (\<lambda>wi.
                Inr (hi\<lparr>wildcard_path_index := wi\<rparr>)))
        (\<lambda>hi. Inr (hi\<lparr>handler_list := handler_list hi @ [h]\<rparr>)))"

definition Impl_SetFallbackHandler ::
  "FallbackHandler \<Rightarrow> Handler \<Rightarrow> string \<Rightarrow> HandlerInfoIndex \<Rightarrow> HandlerInfoIndex result" where
  "Impl_SetFallbackHandler fb h tp hi =
     (if fallback_handlers hi fb \<noteq> None
      then Inl (RuntimeError (''fallback '' @ FallbackHandler_ToString fb @ '' handler already registered''))
      else Inr (hi\<lparr>fallback_handlers := (fallback_handlers hi)(fb \<mapsto> \<lparr>task_processor = tp, handler = h\<rparr>),
                  handler_list := handler_list hi @ [h]\<rparr>))"

definition HandlerInfoIndex_AddHandler ::
  "Handler \<Rightarrow> string \<Rightarrow> HandlerInfoIndex \<Rightarrow> HandlerInfoIndex result" where
  "HandlerInfoIndex_AddHandler h tp hi =
     (case hc_path (GetConfig h) of
        PathString _ \<Rightarrow> Impl_AddHandler h tp hi
      | PathFallback fb \<Rightarrow> Impl_SetFallbackHandler fb h tp hi)"

definition SetRegistrationFinished :: "HandlerInfoIndex \<Rightarrow> HandlerInfoIndex" where
  "SetRegistrationFinished hi =
     hi\<lparr>fixed_path_index := (fixed_path_index hi)\<lparr>fixed_writes_disabled := True\<rparr>,
        wildcard_path_index := (wildcard_path_index hi)\<lparr>root_writes_disabled := True\<rparr>\<rparr>"

definition IsRegistrationFinished :: "HandlerInfoIndex \<Rightarrow> bool" where
  "IsRegistrationFinished hi \<longleftrightarrow>
     fixed_writes_disabled (fixed_path_index hi) \<and> root_writes_disabled (wildcard_path_index hi)"

definition GetFallbackHandler :: "HandlerInfoIndex \<Rightarrow> FallbackHandler \<Rightarrow> HandlerInfo option" where
  "GetFallbackHandler hi fb = fallback_handlers hi fb"

definition MatchRequest ::
  "HandlerInfoIndex \<Rightarrow> HttpMethod \<Rightarrow> string \<Rightarrow> MatchRequestResult result" where
  "MatchRequest hi method path =
     rbind (FixedPathIndex_MatchRequest (fixed_path_index hi) method path initial_match_result)
       (\<lambda>(found, res). if found then Inr res
         else rbind (WildcardPathIndex_MatchRequest (wildcard_path_index hi) method path res)
                (\<lambda>(_, res). Inr res))"

end
