(* ===== verification/Http_Request.thy ===== *)
theory Http_Request
  imports Multipart Handler_Index
begin

section \<open>The HTTP request\<close>

text \<open>
  \<open>core/src/server/http/http_request.cpp\<close> and \<open>http_request_builder.cpp\<close>: the request that a
  handler reads, with its arguments, path arguments, headers and cookies, the response it
  writes to, and the cookie parser.
\<close>

record HttpRequest =
  req_method :: HttpMethod
  http_major :: int
  http_minor :: int
  req_url :: string
  req_request_path :: string
  request_body :: string
  request_args :: "string \<rightharpoonup> string list"
  form_data_args :: FormDataArgs
  path_args :: "string list"
  path_args_by_name_index :: "string \<rightharpoonup> nat"
  req_headers :: headers
  req_cookies :: "string \<rightharpoonup> string"
  is_final :: bool
  response :: HttpResponse
  req_task_processor :: "string option"
  req_handler :: "Handler option"

definition initial_request :: HttpRequest where
  "initial_request =
     \<lparr>req_method = kUnknown, http_major = 1, http_minor = 1, req_url = [], req_request_path = [], request_body = [],
      request_args = Map.empty, form_data_args = Map.empty, path_args = [], path_args_by_name_index = Map.empty,
      req_headers = [], req_cookies = Map.empty, is_final = False, response = initial_response,
      req_task_processor = None, req_handler = None\<rparr>"

subsection \<open>Reading a request\<close>

definition GetMethod :: "HttpRequest \<Rightarrow> HttpMethod" where
  "GetMethod r = req_method r"

definition RequestBody :: "HttpRequest \<Rightarrow> string" where
  "RequestBody r = request_body r"

text \<open>\<open>ptr->at(0)\<close> of an argument vector, which every writer leaves non-empty.\<close>

definition GetArg :: "HttpRequest \<Rightarrow> string \<Rightarrow> string" where
  "GetArg r name = (case request_args r name of None \<Rightarrow> [] | Some vs \<Rightarrow> hd vs)"

definition GetArgVector :: "HttpRequest \<Rightarrow> string \<Rightarrow> string list" where
  "GetArgVector r name = (case request_args r name of None \<Rightarrow> [] | Some vs \<Rightarrow> vs)"

definition HasArg :: "HttpRequest \<Rightarrow> string \<Rightarrow> bool" where
  "HasArg r name \<longleftrightarrow> request_args r name \<noteq> None"

text \<open>The arguments of a form; \<open>ptr->at(0)\<close> throws if the list is empty.\<close>

definition GetFormDataArg :: "HttpRequest \<Rightarrow> string \<Rightarrow> FormDataArg result" where
  "GetFormDataArg r arg_name =
     (case form_data_args r arg_name of
        None \<Rightarrow> Inr empty_FormDataArg
      | Some args \<Rightarrow> (case args of [] \<Rightarrow> Inl OutOfRange | arg # _ \<Rightarrow> Inr arg))"

definition GetFormDataArgVector :: "HttpRequest \<Rightarrow> string \<Rightarrow> FormDataArg list" where
  "GetFormDataArgVector r arg_name = (case form_data_args r arg_name of None \<Rightarrow> [] | Some args \<Rightarrow> args)"

definition HasFormDataArg :: "HttpRequest \<Rightarrow> string \<Rightarrow> bool" where
  "HasFormDataArg r arg_name \<longleftrightarrow> form_data_args r arg_name \<noteq> None"

definition PathArgCount :: "HttpRequest \<Rightarrow> nat" where
  "PathArgCount r = length (path_args r)"

definition GetPathArg :: "HttpRequest \<Rightarrow> string \<Rightarrow> string" where
  "GetPathArg r name = (case path_args_by_name_index r name of None \<Rightarrow> [] | Some i \<Rightarrow> path_args r ! i)"

definition GetPathArg_index :: "HttpRequest \<Rightarrow> nat \<Rightarrow> string" where
  "GetPathArg_index r i = (if i < PathArgCount r then path_args r ! i else [])"

definition HasPathArg :: "HttpRequest \<Rightarrow> string \<Rightarrow> bool" where
  "HasPathArg r name \<longleftrightarrow> path_args_by_name_index r name \<noteq> None"

definition Request_GetHeader :: "HttpRequest \<Rightarrow> string \<Rightarrow> string" where
  "Request_GetHeader r name = (case headers_find name (req_headers r) of None \<Rightarrow> [] | Some v \<Rightarrow> v)"

definition Request_HasHeader :: "HttpRequest \<Rightarrow> string \<Rightarrow> bool" where
  "Request_HasHeader r name \<longleftrightarrow> headers_contains name (req_headers r)"

definition RemoveHeader :: "string \<Rightarrow> HttpRequest \<Rightarrow> HttpRequest" where
  "RemoveHeader name r = r\<lparr>req_headers := headers_erase name (req_headers r)\<rparr>"

definition GetCookie :: "HttpRequest \<Rightarrow> string \<Rightarrow> string" where
  "GetCookie r name = (case req_cookies r name of None \<Rightarrow> [] | Some v \<Rightarrow> v)"

definition IsBodyCompressed :: "HttpRequest \<Rightarrow> bool" where
  "IsBodyCompressed r \<longleftrightarrow>
     (let encoding = Request_GetHeader r ''Content-Encoding'' in encoding \<noteq> [] \<and> encoding \<noteq> ''identity'')"

subsection \<open>Changing a request\<close>

definition SetResponseStatus :: "StatusCode \<Rightarrow> HttpRequest \<Rightarrow> HttpRequest" where
  "SetResponseStatus status r = r\<lparr>response := snd (SetStatus status (response r))\<rparr>"

definition SetRequestBody :: "string \<Rightarrow> HttpRequest \<Rightarrow> HttpRequest" where
  "SetRequestBody body r = r\<lparr>request_body := body\<rparr>"

definition AddRequestArg :: "string \<times> string \<Rightarrow> HttpRequest \<Rightarrow> HttpRequest" where
  "AddRequestArg kv r =
     r\<lparr>request_args := (request_args r)(fst kv \<mapsto> GetArgVector r (fst kv) @ [snd kv])\<rparr>"

fun set_path_args :: "(string \<times> string) list \<Rightarrow> string list \<Rightarrow> (string \<rightharpoonup> nat) \<Rightarrow> string list \<times> (string \<rightharpoonup> nat)" where
  "set_path_args [] vs m = (vs, m)"
| "set_path_args ((name, v) # args) vs m =
     set_path_args args (vs @ [v]) (if name \<noteq> [] then m(name \<mapsto> length vs) else m)"

definition SetPathArgs :: "(string \<times> string) list \<Rightarrow> HttpRequest \<Rightarrow> HttpRequest" where
  "SetPathArgs args r =
     (let (vs, m) = set_path_args args [] Map.empty in r\<lparr>path_args := vs, path_args_by_name_index := m\<rparr>)"

definition Request_AddHeader :: "string \<Rightarrow> string \<Rightarrow> HttpRequest \<Rightarrow> HttpRequest result" where
  "Request_AddHeader header val r =
     rbind (InsertOrAppend header val (req_headers r)) (\<lambda>hs. Inr (r\<lparr>req_headers := hs\<rparr>))"

definition MarkAsInternalServerError :: "HttpRequest \<Rightarrow> HttpRequest" where
  "MarkAsInternalServerError r =
     r\<lparr>response := snd (ClearUserHeaders (SetData [] (snd (SetStatus HttpStatus_kInternalServerError (response r)))))\<rparr>"

subsection \<open>Cookies\<close>

definition isspace :: "char \<Rightarrow> bool" where
  "isspace c \<longleftrightarrow> byte c = 32 \<or> 9 \<le> byte c \<and> byte c \<le> 13"

text \<open>
  \<open>Strip\<close> moves two pointers into the text; a pair of positions here.
\<close>

function strip_begin :: "string \<Rightarrow> nat \<Rightarrow> nat \<Rightarrow> nat" where
  "strip_begin s b e = (if b < e \<and> isspace (s ! b) then strip_begin s (Suc b) e else b)"
  by pat_completeness auto
termination by (relation "measure (\<lambda>(_, b, e). e - b)") auto

function strip_end :: "string \<Rightarrow> nat \<Rightarrow> nat \<Rightarrow> nat" where
  "strip_end s b e = (if b < e \<and> isspace (s ! (e - 1)) then strip_end s b (e - 1) else e)"
  by pat_completeness auto
termination by (relation "measure (\<lambda>(_, b, e). e - b)") auto

declare strip_begin.simps [simp del] strip_end.simps [simp del]

definition Strip :: "string \<Rightarrow> nat \<times> nat \<Rightarrow> nat \<times> nat" where
  "Strip s p = (let b = strip_begin s (fst p) (snd p) in (b, strip_end s b (snd p)))"

definition subview :: "string \<Rightarrow> nat \<times> nat \<Rightarrow> string" where
  "subview s p = take (snd p - fst p) (drop (fst p) s)"

definition cookie_value :: "string \<Rightarrow> bool \<Rightarrow> nat \<Rightarrow> nat \<Rightarrow> nat \<times> nat" where
  "cookie_value s parse_key key_end ptr =
     (if parse_key then (ptr, ptr)
      else (let (b, e) = Strip s (Suc key_end, ptr)
            in if b + 2 \<le> e \<and> s ! b = CHR 0x22 \<and> s ! (e - 1) = CHR 0x22 then (Suc b, e - 1) else (b, e)))"

function ParseCookies_loop ::
  "string \<Rightarrow> nat \<Rightarrow> nat \<Rightarrow> nat \<Rightarrow> bool \<Rightarrow> (string \<rightharpoonup> string) \<Rightarrow> (string \<rightharpoonup> string)" where
  "ParseCookies_loop s ptr key_begin key_end parse_key cookies =
     (if length s < ptr then cookies
      else if ptr = length s \<or> s ! ptr = CHR '';'' then
        (let key_end = (if parse_key then ptr else key_end);
             val = cookie_value s parse_key key_end ptr;
             key = Strip s (key_begin, key_end);
             cookies = (if fst key < snd key \<and> cookies (subview s key) = None
                        then cookies(subview s key \<mapsto> subview s val) else cookies)
         in ParseCookies_loop s (Suc ptr) (Suc ptr) key_end True cookies)
      else if s ! ptr = CHR ''='' \<and> parse_key then ParseCookies_loop s (Suc ptr) key_begin ptr False cookies
      else ParseCookies_loop s (Suc ptr) key_begin key_end parse_key cookies)"
  by pat_completeness auto
termination by (relation "measure (\<lambda>(s, ptr, _). Suc (length s) - ptr)") auto

declare ParseCookies_loop.simps [simp del]

definition ParseCookies :: "HttpRequest \<Rightarrow> HttpRequest" where
  "ParseCookies r = r\<lparr>req_cookies := ParseCookies_loop (Request_GetHeader r ''Cookie'') 0 0 0 True (req_cookies r)\<rparr>"

definition Build :: "HttpRequest \<Rightarrow> HttpRequest" where
  "Build r = ParseCookies r"

subsection \<open>The cookie parser splits at semicolons\<close>

text \<open>The reference: the segments between semicolons, each cut at its first equality sign.\<close>

definition strip :: "string \<Rightarrow> string" where
  "strip x = rev (dropWhile isspace (rev (dropWhile isspace x)))"

definition unquote :: "string \<Rightarrow> string" where
  "unquote x = (if 2 \<le> length x \<and> hd x = CHR 0x22 \<and> last x = CHR 0x22 then butlast (tl x) else x)"

definition cookie_of_segment :: "string \<Rightarrow> string \<times> string" where
  "cookie_of_segment seg =
     (case find_pos (\<lambda>c. c = CHR ''='') seg of
        None \<Rightarrow> (strip seg, [])
      | Some i \<Rightarrow> (strip (take i seg), unquote (strip (drop (Suc i) seg))))"

definition add_cookie :: "string \<Rightarrow> (string \<rightharpoonup> string) \<Rightarrow> (string \<rightharpoonup> string)" where
  "add_cookie seg m =
     (let (k, v) = cookie_of_segment seg in if k \<noteq> [] \<and> m k = None then m(k \<mapsto> v) else m)"

definition cookies_spec :: "string \<Rightarrow> (string \<rightharpoonup> string) \<Rightarrow> (string \<rightharpoonup> string)" where
  "cookies_spec s m = fold add_cookie (split_on (CHR '';'') s) m"

lemma subview_Cons: "b < e \<Longrightarrow> e \<le> length s \<Longrightarrow> subview s (b, e) = s ! b # subview s (Suc b, e)"
  by (simp add: subview_def Cons_nth_drop_Suc [symmetric] take_Cons')

lemma subview_snoc: "b < e \<Longrightarrow> e \<le> length s \<Longrightarrow> subview s (b, e) = subview s (b, e - 1) @ [s ! (e - 1)]"
proof -
  assume "b < e" and "e \<le> length s"
  then obtain k where "e = Suc k" and "b \<le> k" and "k < length s" by (cases e) auto
  then show ?thesis by (simp add: subview_def Suc_diff_le take_Suc_conv_app_nth)
qed

lemma subview_empty [simp]: "subview s (b, b) = []"
  by (simp add: subview_def)

lemma subview_Nil_iff: "e \<le> length s \<Longrightarrow> subview s (b, e) = [] \<longleftrightarrow> e \<le> b"
  by (auto simp: subview_def)

lemma length_subview: "e \<le> length s \<Longrightarrow> length (subview s (b, e)) = e - b"
  by (simp add: subview_def)

lemma strip_begin_subview:
  "b \<le> e \<Longrightarrow> e \<le> length s \<Longrightarrow>
     subview s (strip_begin s b e, e) = dropWhile isspace (subview s (b, e)) \<and> b \<le> strip_begin s b e \<and> strip_begin s b e \<le> e"
proof (induction s b e rule: strip_begin.induct)
  case (1 s b e)
  show ?case
  proof (cases "b < e \<and> isspace (s ! b)")
    case True
    then show ?thesis using 1 by (auto simp: strip_begin.simps [of s b e] subview_Cons [of b e])
  next
    case False
    then have same: "strip_begin s b e = b" by (subst strip_begin.simps) auto
    show ?thesis unfolding same using 1(2,3) False by (cases "b < e") (auto simp: subview_Cons [of b e])
  qed
qed

lemma strip_end_subview:
  "b \<le> e \<Longrightarrow> e \<le> length s \<Longrightarrow>
     subview s (b, strip_end s b e) = rev (dropWhile isspace (rev (subview s (b, e)))) \<and> b \<le> strip_end s b e \<and> strip_end s b e \<le> e"
proof (induction s b e rule: strip_end.induct)
  case (1 s b e)
  show ?case
  proof (cases "b < e \<and> isspace (s ! (e - 1))")
    case True
    then have "b \<le> e - 1" "e - 1 \<le> length s" using 1(3) by auto
    from 1(1) [OF True this] show ?thesis
      using True 1(3) by (auto simp: strip_end.simps [of s b e] subview_snoc [of b e])
  next
    case False
    then have same: "strip_end s b e = e" by (subst strip_end.simps) auto
    show ?thesis unfolding same using 1(2,3) False by (cases "b < e") (auto simp: subview_snoc [of b e])
  qed
qed

lemma Strip_subview:
  assumes "b \<le> e" and "e \<le> length s"
  shows "subview s (Strip s (b, e)) = strip (subview s (b, e))"
    and "fst (Strip s (b, e)) \<le> snd (Strip s (b, e))" and "snd (Strip s (b, e)) \<le> e" and "b \<le> fst (Strip s (b, e))"
proof -
  let ?b = "strip_begin s b e"
  have b: "subview s (?b, e) = dropWhile isspace (subview s (b, e))" "b \<le> ?b" "?b \<le> e"
    using strip_begin_subview [OF assms] by auto
  have e: "subview s (?b, strip_end s ?b e) = rev (dropWhile isspace (rev (subview s (?b, e))))" "?b \<le> strip_end s ?b e"
    "strip_end s ?b e \<le> e"
    using strip_end_subview [OF b(3) assms(2)] by auto
  show "subview s (Strip s (b, e)) = strip (subview s (b, e))" using b(1) e(1) by (simp add: Strip_def Let_def strip_def)
  show "fst (Strip s (b, e)) \<le> snd (Strip s (b, e))" "snd (Strip s (b, e)) \<le> e" "b \<le> fst (Strip s (b, e))"
    using b e by (simp_all add: Strip_def Let_def)
qed

lemma subview_unquote:
  assumes "b + 2 \<le> e" and "e \<le> length s"
  shows "subview s (Suc b, e - 1) = butlast (tl (subview s (b, e)))" "hd (subview s (b, e)) = s ! b" "last (subview s (b, e)) = s ! (e - 1)"
proof -
  have "subview s (b, e) = s ! b # subview s (Suc b, e)" using assms by (intro subview_Cons) auto
  moreover have "subview s (Suc b, e) = subview s (Suc b, e - 1) @ [s ! (e - 1)]" using assms by (intro subview_snoc) auto
  ultimately show "subview s (Suc b, e - 1) = butlast (tl (subview s (b, e)))" "hd (subview s (b, e)) = s ! b"
    "last (subview s (b, e)) = s ! (e - 1)" by simp_all
qed

lemma cookie_value_unquote:
  assumes "b \<le> e" and "e \<le> length s"
  shows "subview s (if b + 2 \<le> e \<and> s ! b = CHR 0x22 \<and> s ! (e - 1) = CHR 0x22 then (Suc b, e - 1) else (b, e)) = unquote (subview s (b, e))"
proof (cases "b + 2 \<le> e")
  case True
  then have "2 \<le> length (subview s (b, e))" using assms by (simp add: length_subview)
  with True show ?thesis using subview_unquote [OF True assms(2)] by (simp add: unquote_def)
qed (use assms in \<open>auto simp: unquote_def length_subview\<close>)

text \<open>What one segment contributes, in the pointers of the loop.\<close>

lemma segment_cookie:
  assumes "kb \<le> ptr" and "ptr \<le> length s" and "seg = subview s (kb, ptr)"
    and "if pk then find_pos (\<lambda>c. c = CHR ''='') seg = None
         else find_pos (\<lambda>c. c = CHR ''='') seg = Some (ke - kb) \<and> kb \<le> ke \<and> ke < ptr"
  defines "ke' \<equiv> if pk then ptr else ke"
  shows "cookie_of_segment seg = (subview s (Strip s (kb, ke')), subview s (cookie_value s pk ke' ptr))"
proof (cases pk)
  case True
  then show ?thesis using assms Strip_subview(1) [of kb ptr s] by (simp add: cookie_of_segment_def cookie_value_def)
next
  case False
  then have ke: "find_pos (\<lambda>c. c = CHR ''='') seg = Some (ke - kb)" "kb \<le> ke" "ke < ptr" using assms(4) by auto
  obtain b e where be: "Strip s (Suc ke, ptr) = (b, e)" by fastforce
  note st = Strip_subview [of "Suc ke" ptr s, unfolded be]
  have "subview s (cookie_value s False ke ptr) = unquote (subview s (b, e))"
    using cookie_value_unquote [of b e s] st ke(3) assms(2) by (simp add: cookie_value_def be)
  moreover have "subview s (b, e) = strip (drop (Suc (ke - kb)) seg)"
    using st(1) ke assms(2,3) by (simp add: subview_def drop_take)
  moreover have "subview s (Strip s (kb, ke)) = strip (take (ke - kb) seg)"
    using Strip_subview(1) [of kb ke s] ke assms(2,3) by (simp add: subview_def min_def)
  ultimately show ?thesis using ke(1) False by (simp add: cookie_of_segment_def ke'_def)
qed

lemma Strip_nonempty:
  "b \<le> e \<Longrightarrow> e \<le> length s \<Longrightarrow> fst (Strip s (b, e)) < snd (Strip s (b, e)) \<longleftrightarrow> subview s (Strip s (b, e)) \<noteq> []"
  using Strip_subview(2,3) [of b e s] subview_Nil_iff [of "snd (Strip s (b, e))" s "fst (Strip s (b, e))"] by auto

text \<open>The part of the text up to the pointer, as the loop has classified it.\<close>

definition segment_state :: "string \<Rightarrow> nat \<Rightarrow> nat \<Rightarrow> nat \<Rightarrow> bool \<Rightarrow> bool" where
  "segment_state s ptr kb ke pk \<longleftrightarrow>
     kb \<le> ptr \<and> ptr \<le> length s \<and> CHR '';'' \<notin> set (subview s (kb, ptr))
     \<and> (if pk then find_pos (\<lambda>c. c = CHR ''='') (subview s (kb, ptr)) = None
        else find_pos (\<lambda>c. c = CHR ''='') (subview s (kb, ptr)) = Some (ke - kb) \<and> kb \<le> ke \<and> ke < ptr)"

lemma segment_add:
  assumes "segment_state s ptr kb ke pk"
  defines "ke' \<equiv> if pk then ptr else ke"
  shows "(if fst (Strip s (kb, ke')) < snd (Strip s (kb, ke')) \<and> m (subview s (Strip s (kb, ke'))) = None
          then m(subview s (Strip s (kb, ke')) \<mapsto> subview s (cookie_value s pk ke' ptr)) else m)
      = add_cookie (subview s (kb, ptr)) m"
proof -
  have "kb \<le> ke'" "ke' \<le> length s" using assms by (auto simp: segment_state_def)
  note ne = Strip_nonempty [OF this]
  have "cookie_of_segment (subview s (kb, ptr)) = (subview s (Strip s (kb, ke')), subview s (cookie_value s pk ke' ptr))"
    using assms(1) unfolding ke'_def segment_state_def by (intro segment_cookie) auto
  then show ?thesis by (simp add: add_cookie_def ne)
qed

lemma segment_state_advance:
  assumes "segment_state s ptr kb ke pk" and "ptr < length s" and "s ! ptr \<noteq> CHR '';''"
  shows "if s ! ptr = CHR ''='' \<and> pk then segment_state s (Suc ptr) kb ptr False else segment_state s (Suc ptr) kb ke pk"
proof -
  have "subview s (kb, Suc ptr) = subview s (kb, ptr) @ [s ! ptr]"
    using assms(1,2) subview_snoc [of kb "Suc ptr" s] by (simp add: segment_state_def)
  then show ?thesis using assms by (auto simp: segment_state_def find_pos_snoc length_subview)
qed

lemma ParseCookies_loop_spec:
  assumes "segment_state s ptr kb ke pk"
  shows "ParseCookies_loop s ptr kb ke pk m = cookies_spec (drop kb s) m"
  using assms
proof (induction s ptr kb ke pk m rule: ParseCookies_loop.induct)
  case (1 s ptr kb ke pk m)
  note st = 1(4)
  then have le: "kb \<le> ptr" "ptr \<le> length s" and semi: "CHR '';'' \<notin> set (subview s (kb, ptr))"
    by (auto simp: segment_state_def)
  have split: "drop kb s = subview s (kb, ptr) @ drop ptr s"
    using le by (simp add: subview_def) (metis append_take_drop_id drop_drop le_add_diff_inverse2)
  let ?m = "add_cookie (subview s (kb, ptr)) m" and ?ke = "if pk then ptr else ke"
  have step: "ParseCookies_loop s ptr kb ke pk m = ParseCookies_loop s (Suc ptr) (Suc ptr) ?ke True ?m"
    if "ptr = length s \<or> s ! ptr = CHR '';''"
    using that le segment_add [OF st, of m] by (subst ParseCookies_loop.simps) (simp add: Let_def)
  consider "ptr = length s" | "ptr < length s" "s ! ptr = CHR '';''" | "ptr < length s" "s ! ptr \<noteq> CHR '';''"
    using le by linarith
  then show ?case
  proof cases
    case 1
    have "ParseCookies_loop s (Suc ptr) (Suc ptr) ?ke True ?m = ?m"
      using 1 by (subst ParseCookies_loop.simps) simp
    then have "ParseCookies_loop s ptr kb ke pk m = ?m" using step 1 by simp
    moreover have "cookies_spec (drop kb s) m = ?m"
      using split 1 split_on_single [OF semi] by (simp add: cookies_spec_def)
    ultimately show ?thesis by simp
  next
    case 2
    have next_state: "segment_state s (Suc ptr) (Suc ptr) ?ke True" using 2(1) by (simp add: segment_state_def)
    have "ParseCookies_loop s ptr kb ke pk m = ParseCookies_loop s (Suc ptr) (Suc ptr) ?ke True ?m"
      using step 2 by simp
    also have "\<dots> = cookies_spec (drop (Suc ptr) s) ?m"
      using 1(1) [OF _ _ refl refl refl refl] 2 next_state segment_add [OF st, of m] by simp
    also have "\<dots> = cookies_spec (drop kb s) m"
      using split 2 split_on_append_sep [OF semi, of "drop (Suc ptr) s"] Cons_nth_drop_Suc [OF 2(1)]
      by (simp add: cookies_spec_def)
    finally show ?thesis .
  next
    case 3
    then show ?thesis using 1(2,3) segment_state_advance [OF st 3]
      by (subst ParseCookies_loop.simps) (auto split: if_splits)
  qed
qed

lemma ParseCookies_refines:
  "req_cookies (ParseCookies r) = cookies_spec (Request_GetHeader r ''Cookie'') (req_cookies r)"
  using ParseCookies_loop_spec [of "Request_GetHeader r ''Cookie''" 0 0 0 True] by (simp add: ParseCookies_def segment_state_def)

text \<open>
  The cookie parser, which walks over the header with two pointers, implements its
  specification: split at semicolons, cut each segment at its first equality sign, strip
  blanks, drop one pair of quotes around the value; the first cookie of a name wins.
\<close>

theorem parse_cookies_refines_split:
  "req_cookies (Build r) = fold add_cookie (split_on (CHR '';'') (Request_GetHeader r ''Cookie'')) (req_cookies r)"
  using ParseCookies_refines [of r] by (simp add: Build_def cookies_spec_def)

end
