(* ===== verification/Hex_Codec.thy ===== *)
theory Hex_Codec
  imports Prelude
begin

unbundle bit_operations_syntax

section \<open>Hexadecimal encoding\<close>

text \<open>
  \<open>universal/src/utils/encoding/hex.cpp\<close>: the digit tables, \<open>ToHex\<close> with its vectorised
  loop over eight bytes (\<open>__SSSE3__\<close>) and its scalar loop, \<open>FromHex\<close>, \<open>GetHexPart\<close> and
  \<open>IsHexData\<close>.  The properties are the equivalence of the vectorised routine with the
  scalar one, the round trip, and what \<open>FromHex\<close> does with malformed input.
\<close>

subsection \<open>Digits\<close>

definition kXdigits :: string where
  "kXdigits = ''0123456789abcdef''"

definition ToHexChar :: "int \<Rightarrow> char result" where
  "ToHexChar num =
     (if 16 \<le> num \<or> num < 0
      then Inl (RuntimeError (dec_int num @ '' is not convertible to hex char''))
      else Inr (kXdigits ! nat num))"

definition GetXDigitValue :: "char \<Rightarrow> nat" where
  "GetXDigitValue x_digit =
     (if x_digit = CHR ''0'' then 0
      else if x_digit = CHR ''1'' then 1
      else if x_digit = CHR ''2'' then 2
      else if x_digit = CHR ''3'' then 3
      else if x_digit = CHR ''4'' then 4
      else if x_digit = CHR ''5'' then 5
      else if x_digit = CHR ''6'' then 6
      else if x_digit = CHR ''7'' then 7
      else if x_digit = CHR ''8'' then 8
      else if x_digit = CHR ''9'' then 9
      else if x_digit = CHR ''a'' \<or> x_digit = CHR ''A'' then 10
      else if x_digit = CHR ''b'' \<or> x_digit = CHR ''B'' then 11
      else if x_digit = CHR ''c'' \<or> x_digit = CHR ''C'' then 12
      else if x_digit = CHR ''d'' \<or> x_digit = CHR ''D'' then 13
      else if x_digit = CHR ''e'' \<or> x_digit = CHR ''E'' then 14
      else if x_digit = CHR ''f'' \<or> x_digit = CHR ''F'' then 15
      else 255)"

definition IsXDigit :: "char \<Rightarrow> bool" where
  "IsXDigit x_digit \<longleftrightarrow> x_digit \<in> set ''0123456789aAbBcCdDeEfF''"

subsection \<open>Encoding\<close>

text \<open>
  The scalar loop: two digits per byte, \<open>(value >> 4) & 0xf\<close> and \<open>value & 0xf\<close>.
\<close>

fun ToHex_scalar :: "string \<Rightarrow> string" where
  "ToHex_scalar [] = []"
| "ToHex_scalar (value # rest) =
     kXdigits ! (byte value div 16) # kXdigits ! (byte value mod 16) # ToHex_scalar rest"

text \<open>
  The vector operations, on the eight low bytes of a register.  A load is little endian;
  \<open>_mm_srli_epi64\<close> shifts the 64-bit lane; \<open>_mm_unpacklo_epi8\<close> interleaves the bytes of two
  registers; the mask and the table lookup work byte by byte.
\<close>

definition mm_loadu_si64 :: "string \<Rightarrow> 64 word" where
  "mm_loadu_si64 bs = word_of_nat (horner_sum of_char 256 (take 8 bs))"

definition lane_byte :: "64 word \<Rightarrow> nat \<Rightarrow> nat" where
  "lane_byte w i = unat (drop_bit (8 * i) w) mod 256"

definition mm_unpacklo_epi8 :: "64 word \<Rightarrow> 64 word \<Rightarrow> nat list" where
  "mm_unpacklo_epi8 a b = concat (map (\<lambda>i. [lane_byte a i, lane_byte b i]) [0..<8])"

definition mm_shuffle_epi8 :: "string \<Rightarrow> nat list \<Rightarrow> string" where
  "mm_shuffle_epi8 table idx = map (\<lambda>i. table ! i) idx"

definition ToHex_simd_block :: "string \<Rightarrow> string" where
  "ToHex_simd_block bs =
     (let eight_bytes_of_data = mm_loadu_si64 bs;
          interleaving_hi_lo =
            map (\<lambda>b. b AND 15)
              (mm_unpacklo_epi8 (drop_bit 4 eight_bytes_of_data) eight_bytes_of_data)
      in mm_shuffle_epi8 kXdigits interleaving_hi_lo)"

fun ToHexBuffer :: "string \<Rightarrow> string" where
  "ToHexBuffer input =
     (if 8 \<le> length input
      then ToHex_simd_block (take 8 input) @ ToHexBuffer (drop 8 input)
      else ToHex_scalar input)"

declare ToHexBuffer.simps [simp del]

definition LengthInHexForm :: "nat \<Rightarrow> nat" where
  "LengthInHexForm n = n * 2"

definition ToHex :: "string \<Rightarrow> string" where
  "ToHex input = ToHexBuffer input"

subsection \<open>Decoding\<close>

text \<open>\<open>FromHex\<close> appends to \<open>out\<close> and returns how many characters it read.\<close>

fun FromHex :: "string \<Rightarrow> string \<Rightarrow> nat \<times> string" where
  "FromHex [] out = (0, out)"
| "FromHex [a] out = (0, out)"
| "FromHex (a # b # rest) out =
     (if \<not> IsXDigit a then (0, out)
      else if \<not> IsXDigit b then (0, out)
      else (let (n, out') =
              FromHex rest (out @ [to_char (int (push_bit 4 (GetXDigitValue a) OR GetXDigitValue b))])
            in (n + 2, out')))"

definition GetHexPart :: "string \<Rightarrow> string" where
  "GetHexPart encoded =
     (let length0 = length (takeWhile IsXDigit encoded);
          length1 = (if length0 mod 2 = 1 then length0 - 1 else length0)
      in take length1 encoded)"

definition IsHexData :: "string \<Rightarrow> bool" where
  "IsHexData encoded =
     (if length encoded mod 2 \<noteq> 0 then False
      else length (GetHexPart encoded) = length encoded)"

subsection \<open>Lemmas and properties\<close>

lemma hex_digit_all:
  "i < 16 \<Longrightarrow> IsXDigit (kXdigits ! i) \<and> GetXDigitValue (kXdigits ! i) = i"
proof -
  assume "i < 16"
  then have "i \<in> set [0..<16]" by simp
  moreover have "\<forall>i \<in> set [0..<16]. IsXDigit (kXdigits ! i) \<and> GetXDigitValue (kXdigits ! i) = i"
    by code_simp
  ultimately show ?thesis by blast
qed

lemma GetXDigitValue_less: "IsXDigit c \<Longrightarrow> GetXDigitValue c < 16"
  by (auto simp: IsXDigit_def GetXDigitValue_def)

lemma nibbles_or:
  assumes "h < 16" "l < 16"
  shows "push_bit 4 h OR l = 16 * h + (l::nat)"
proof -
  have "take_bit 4 l = l" using assms by (simp add: take_bit_nat_eq_self)
  then have "\<And>n. bit l n \<Longrightarrow> n < 4" by (metis bit_take_bit_iff)
  then have "push_bit 4 h OR l = push_bit 4 h + l"
    by (intro disjunctive_add [symmetric]) (force simp: bit_push_bit_iff)
  then show ?thesis by (simp add: push_bit_eq_mult)
qed

lemma horner_bound: "horner_sum of_char 256 bs < (256::nat) ^ length bs"
proof (induction bs)
  case (Cons c bs)
  have "byte c < 256" by simp
  then have "byte c + 256 * horner_sum of_char 256 bs < 256 + 256 * horner_sum of_char 256 bs" by simp
  also have "\<dots> \<le> 256 * 256 ^ length bs" using Cons by (simp add: Suc_leI flip: mult_Suc_right)
  finally show ?case by simp
qed simp
lemma horner_div: "i < length bs \<Longrightarrow> (horner_sum of_char 256 bs div (256::nat) ^ i) mod 256 = byte (bs ! i)"
proof (induction bs arbitrary: i)
  case (Cons c bs)
  show ?case
  proof (cases i)
    case 0 then show ?thesis by simp
  next
    case (Suc j)
    have "(byte c + 256 * horner_sum of_char 256 bs) div 256 = horner_sum of_char 256 bs"
      by simp
    then have "(byte c + 256 * horner_sum of_char 256 bs) div (256 * 256 ^ j) = horner_sum of_char 256 bs div 256 ^ j"
      by (simp only: div_mult2_eq)
    with Suc Cons show ?thesis by simp
  qed
qed simp

lemma unat_load:
  assumes "length bs = 8"
  shows "unat (mm_loadu_si64 bs) = horner_sum of_char 256 bs"
proof -
  have "horner_sum of_char 256 bs < (2::nat) ^ 64"
    using horner_bound [of bs] assms by simp
  then show ?thesis using assms by (simp add: mm_loadu_si64_def unat_of_nat)
qed

lemma lane_byte_eq: "lane_byte w i = unat w div 256 ^ i mod 256"
  by (simp only: lane_byte_def unat_drop_bit_eq) (simp add: drop_bit_eq_div power_mult)

lemma lane_byte_load:
  "length bs = 8 \<Longrightarrow> i < 8 \<Longrightarrow> lane_byte (mm_loadu_si64 bs) i = byte (bs ! i)"
  by (simp add: lane_byte_eq unat_load horner_div)

lemma nibble_div_mod: "(x::nat) div 16 mod 16 = x mod 256 div 16"
  using mod_mult2_eq [of x 16 16] by simp

lemma lane_byte_load_shifted:
  assumes "length bs = 8" "i < 8"
  shows "lane_byte (drop_bit 4 (mm_loadu_si64 bs)) i mod 16 = byte (bs ! i) div 16"
proof -
  let ?h = "horner_sum of_char 256 bs :: nat"
  have "lane_byte (drop_bit 4 (mm_loadu_si64 bs)) i mod 16 = ?h div 16 div 256 ^ i mod 256 mod 16"
    using assms(1) by (simp only: lane_byte_eq unat_drop_bit_eq unat_load) (simp add: drop_bit_eq_div)
  also have "\<dots> = ?h div 256 ^ i div 16 mod 16"
    by (simp add: mod_mod_cancel div_mult2_eq [symmetric] mult.commute)
  also have "\<dots> = (?h div 256 ^ i mod 256) div 16"
    by (rule nibble_div_mod)
  also have "\<dots> = byte (bs ! i) div 16" using assms by (simp add: horner_div)
  finally show ?thesis .
qed

lemma ToHex_scalar_concat:
  "ToHex_scalar s = concat (map (\<lambda>c. [kXdigits ! (byte c div 16), kXdigits ! (byte c mod 16)]) s)"
  by (induction s) auto

lemma and_15_mod: "(n::nat) AND 15 = n mod 16"
  using take_bit_eq_mod [of 4 n] take_bit_eq_mask [of 4 n] by (simp add: mask_eq_exp_minus_1)

lemma ToHex_simd_block_scalar:
  assumes "length bs = 8"
  shows "ToHex_simd_block bs = ToHex_scalar bs"
proof -
  have "ToHex_simd_block bs
      = concat (map (\<lambda>i. [kXdigits ! (byte (bs ! i) div 16), kXdigits ! (byte (bs ! i) mod 16)]) [0..<8])"
  proof -
    have "map (\<lambda>i. [kXdigits ! (lane_byte (drop_bit 4 (mm_loadu_si64 bs)) i mod 16),
                 kXdigits ! (lane_byte (mm_loadu_si64 bs) i mod 16)]) [0..<8]
       = map (\<lambda>i. [kXdigits ! (byte (bs ! i) div 16), kXdigits ! (byte (bs ! i) mod 16)]) [0..<8]"
      using assms by (intro map_cong) (simp_all add: lane_byte_load lane_byte_load_shifted del: upt_conv_Cons)
    then show ?thesis
      by (simp add: ToHex_simd_block_def mm_unpacklo_epi8_def mm_shuffle_epi8_def map_concat comp_def
        Let_def and_15_mod del: upt_conv_Cons map_eq_conv)
  qed
  also have "\<dots> = ToHex_scalar (map ((!) bs) [0..<8])"
    by (simp add: ToHex_scalar_concat comp_def)
  also have "map ((!) bs) [0..<8] = bs" using assms by (metis map_nth)
  finally show ?thesis .
qed

lemma ToHex_scalar_append: "ToHex_scalar (a @ b) = ToHex_scalar a @ ToHex_scalar b"
  by (simp add: ToHex_scalar_concat)

lemma ToHex_is_scalar: "ToHex input = ToHex_scalar input"
proof -
  have "ToHexBuffer input = ToHex_scalar input"
  proof (induction input rule: ToHexBuffer.induct)
    case (1 input)
    show ?case
    proof (cases "8 \<le> length input")
      case True
      then have "ToHexBuffer input = ToHex_scalar (take 8 input) @ ToHex_scalar (drop 8 input)"
        using 1 by (simp add: ToHexBuffer.simps [of input] ToHex_simd_block_scalar)
      then show ?thesis by (simp flip: ToHex_scalar_append)
    next
      case False
      then show ?thesis by (simp add: ToHexBuffer.simps [of input])
    qed
  qed
  then show ?thesis by (simp add: ToHex_def)
qed

text \<open>
  The encoder with its eight-bytes-at-a-time vector loop (a little-endian load, a shift
  of the whole 64-bit lane, an interleave, a mask and a table lookup) writes the same text
  as the scalar loop, on inputs of every length.
\<close>

theorem to_hex_simd_equiv: "ToHex input = ToHex_scalar input"
  by (rule ToHex_is_scalar)

lemma FromHex_scalar: "FromHex (ToHex_scalar s @ rest) out =
   (let (n, out') = FromHex rest (out @ s) in (2 * length s + n, out'))"
proof (induction s arbitrary: out)
  case Nil
  show ?case by (simp add: Let_def split: prod.splits)
next
  case (Cons c s)
  have c: "byte c div 16 < 16" "byte c mod 16 < 16"
    using of_char_mod_256 [of c, where 'a = nat] by (simp_all add: div_less_iff_less_mult)
  have "to_char (int (push_bit 4 (byte c div 16) OR byte c mod 16)) = c"
    using c by (simp add: nibbles_or)
  then show ?case using c Cons
    by (simp add: hex_digit_all Let_def split: prod.splits)
qed

lemma GetHexPart_pair:
  "GetHexPart (a # b # rest) = (if IsXDigit a \<and> IsXDigit b then a # b # GetHexPart rest else [])"
  by (cases "length (takeWhile IsXDigit rest)") (auto simp: GetHexPart_def Let_def mod_Suc)

lemma GetHexPart_short [simp]: "GetHexPart [] = []" "GetHexPart [a] = []"
  by (auto simp: GetHexPart_def)

lemma FromHex_decodes:
  "\<exists>d. FromHex s out = (length (GetHexPart s), out @ d)
     \<and> ToHex_scalar d = map (\<lambda>c. kXdigits ! GetXDigitValue c) (GetHexPart s)"
proof (induction s out rule: FromHex.induct)
  case (3 a b rest out)
  show ?case
  proof (cases "IsXDigit a \<and> IsXDigit b")
    case True
    let ?v = "push_bit 4 (GetXDigitValue a) OR GetXDigitValue b"
    have v: "?v = 16 * GetXDigitValue a + GetXDigitValue b" "?v < 256"
      using GetXDigitValue_less [of a] GetXDigitValue_less [of b] True by (auto simp: nibbles_or)
    have c: "byte (to_char (int ?v)) = ?v"
      using v(2) by (simp add: to_char_def nat_mod_distrib)
    from True 3 obtain d where d: "FromHex rest (out @ [to_char (int ?v)])
        = (length (GetHexPart rest), (out @ [to_char (int ?v)]) @ d)"
      "ToHex_scalar d = map (\<lambda>c. kXdigits ! GetXDigitValue c) (GetHexPart rest)" by blast
    have "ToHex_scalar (to_char (int ?v) # d)
        = map (\<lambda>c. kXdigits ! GetXDigitValue c) (GetHexPart (a # b # rest))"
      using True d(2) c v(1) GetXDigitValue_less [of b] by (simp add: GetHexPart_pair)
    with True d(1) show ?thesis
      by (intro exI [of _ "to_char (int ?v) # d"]) (simp add: GetHexPart_pair)
  next
    case False
    then show ?thesis by (auto simp: GetHexPart_pair)
  qed
qed auto

lemma even_length_GetHexPart: "even (length (GetHexPart s))"
proof (induction s rule: induct_list012)
  case (3 a b rest)
  then show ?case by (auto simp: GetHexPart_pair)
qed simp_all

text \<open>
  \<open>FromHex\<close> reads exactly the part of its input that \<open>GetHexPart\<close> delimits and appends
  the bytes whose hexadecimal form is that part (in lower case) to what \<open>out\<close> held before;
  \<open>IsHexData\<close> tells precisely the inputs that are read to the end.
\<close>

theorem from_hex_spec:
  "(\<exists>d. FromHex s out = (length (GetHexPart s), out @ d)
     \<and> ToHex d = map (\<lambda>c. kXdigits ! GetXDigitValue c) (GetHexPart s))
   \<and> (IsHexData s \<longleftrightarrow> fst (FromHex s out) = length s)"
proof -
  from FromHex_decodes [of s out] have "fst (FromHex s out) = length (GetHexPart s)" by auto
  moreover have "IsHexData s \<longleftrightarrow> length (GetHexPart s) = length s"
    using even_length_GetHexPart [of s] by (auto simp: IsHexData_def)
  ultimately show ?thesis using FromHex_decodes [of s out] by (simp add: ToHex_is_scalar)
qed

text \<open>
  Decoding what the encoder produced gives the original bytes back, appended to the
  output buffer, and consumes all of it.
\<close>

theorem hex_roundtrip:
  "FromHex (ToHex s) out = (2 * length s, out @ s)"
  using FromHex_scalar [of s "[]" out] by (simp add: ToHex_is_scalar)

end
