(* ===== verification/Url_Codec.thy ===== *)
theory Url_Codec
  imports Hex_Codec
begin

unbundle bit_operations_syntax

section \<open>URLs and query strings\<close>

text \<open>
  \<open>universal/src/http/url.cpp\<close> and \<open>universal/src/http/parser/http_request_parse_args.cpp\<close>:
  percent encoding, the two percent decoders (the lenient \<open>http::UrlDecode\<close> and the strict
  \<open>http::parser::UrlDecode\<close> of the server), building of query strings and URLs, parsing of
  query arguments, and the decomposition of a URL into its parts.
\<close>

subsection \<open>Percent encoding\<close>

definition isalnum :: "char \<Rightarrow> bool" where
  "isalnum c \<longleftrightarrow> is_digit c \<or> (65 \<le> byte c \<and> byte c \<le> 90) \<or> (97 \<le> byte c \<and> byte c \<le> 122)"

definition hex_upper :: "nat \<Rightarrow> char" where
  "hex_upper b = char_of (b + (if 9 < b then 65 - 10 else 48))"

fun UrlEncodeTo :: "string \<Rightarrow> string \<Rightarrow> string" where
  "UrlEncodeTo [] result = result"
| "UrlEncodeTo (symbol # rest) result =
     (if isalnum symbol then UrlEncodeTo rest (result @ [symbol])
      else if symbol \<in> set ''-_.!~*()'' \<or> symbol = CHR 0x27 then UrlEncodeTo rest (result @ [symbol])
      else UrlEncodeTo rest
             (result @ [CHR ''%'', hex_upper (byte symbol div 16), hex_upper (byte symbol mod 16)]))"

definition UrlEncode :: "string \<Rightarrow> string" where
  "UrlEncode input_string = UrlEncodeTo input_string []"

subsection \<open>Percent decoding\<close>

text \<open>One digit of the lenient decoder, in \<open>int\<close> arithmetic on the signed \<open>char\<close>.\<close>

definition lenient_digit :: "char \<Rightarrow> int" where
  "lenient_digit f = (if schar f \<ge> 65 then ((schar f AND 0xDF) - 65) + 10 else schar f - 48)"

fun UrlDecode_lenient :: "string \<Rightarrow> string" where
  "UrlDecode_lenient [] = []"
| "UrlDecode_lenient (c # cs) =
     (if c = CHR ''+'' then CHR '' '' # UrlDecode_lenient cs
      else if c = CHR ''%'' then
        (case cs of
           f # s # rest \<Rightarrow> to_char (lenient_digit f * 16 + lenient_digit s) # UrlDecode_lenient rest
         | _ \<Rightarrow> CHR ''%'' # UrlDecode_lenient cs)
      else c # UrlDecode_lenient cs)"

definition percent_error :: "string \<Rightarrow> string \<Rightarrow> exn" where
  "percent_error data at_ptr =
     (let data_short = (if 100 < length data then take 100 data @ ''<...>'' else data)
      in RuntimeError (''invalid percent-encoding sequence '' @ [CHR 0x27] @ take 3 at_ptr
           @ [CHR 0x27] @ '' in input '' @ [CHR 0x27] @ data_short @ [CHR 0x27]))"

fun UrlDecode_loop :: "string \<Rightarrow> string \<Rightarrow> string \<Rightarrow> string result" where
  "UrlDecode_loop data [] res = Inr res"
| "UrlDecode_loop data (c # cs) res =
     (if c = CHR ''%'' then
        (case cs of
           f # s # rest \<Rightarrow>
             (let (n, res') = FromHex [f, s] res
              in if n = 2 then UrlDecode_loop data rest res' else Inl (percent_error data (c # cs)))
         | _ \<Rightarrow> Inl (percent_error data (c # cs)))
      else if c = CHR ''+'' then UrlDecode_loop data cs (res @ '' '')
      else UrlDecode_loop data cs (res @ [c]))"

definition parser_UrlDecode :: "string \<Rightarrow> string result" where
  "parser_UrlDecode url =
     (if CHR ''%'' \<notin> set url \<and> CHR ''+'' \<notin> set url then Inr url
      else UrlDecode_loop url url [])"

subsection \<open>Query strings\<close>

text \<open>
  An argument container is the list of its entries in iteration order (the order of an
  \<open>std::unordered_map\<close> is whatever the container yields).
\<close>

type_synonym query_args = "(string \<times> string) list"

fun DoMakeQueryTo :: "bool \<Rightarrow> query_args \<Rightarrow> string \<Rightarrow> string" where
  "DoMakeQueryTo first [] result = result"
| "DoMakeQueryTo first ((k, v) # args) result =
     (let result1 = (if \<not> first then result @ ''&'' else result);
          result2 = UrlEncodeTo k result1 @ ''=''
      in DoMakeQueryTo False args (UrlEncodeTo v result2))"

definition MakeQuery :: "query_args \<Rightarrow> string" where
  "MakeQuery args = DoMakeQueryTo True args []"

definition MakeUrl :: "string \<Rightarrow> query_args \<Rightarrow> string" where
  "MakeUrl path args =
     (if args = [] then path else DoMakeQueryTo True args (path @ ''?''))"

text \<open>
  \<open>fmt::vformat\<close> is a parameter: \<open>None\<close> is a \<open>fmt::format_error\<close>.
\<close>

definition MakeUrlWithPathArgs ::
  "(string \<Rightarrow> query_args \<Rightarrow> string option) \<Rightarrow> string \<Rightarrow> query_args \<Rightarrow> string option" where
  "MakeUrlWithPathArgs vformat path_template path_args =
     (if path_args = [] then Some path_template
      else if (\<exists>(key, value)\<in>set path_args. key = []) then None
      else vformat path_template (map (\<lambda>(key, value). (key, UrlEncode value)) path_args))"

definition MakeUrlWithPathArgsImpl ::
  "(string \<Rightarrow> query_args \<Rightarrow> string option) \<Rightarrow> string \<Rightarrow> query_args \<Rightarrow> query_args \<Rightarrow> string option" where
  "MakeUrlWithPathArgsImpl vformat path path_args query_args =
     (case MakeUrlWithPathArgs vformat path path_args of
        None \<Rightarrow> None
      | Some built_path \<Rightarrow>
          if query_args = [] then Some built_path
          else Some (DoMakeQueryTo True query_args (built_path @ ''?'')))"

text \<open>
  The argument parser scans the text once, with a pointer to the start of the current key
  and one to its end.  Pointers are indices into \<open>args\<close>.  The consumer's effect is the list
  of pairs it has been called with; a decoding exception leaves the calls made before it.
\<close>

definition args_emit ::
  "string \<Rightarrow> bool \<Rightarrow> nat \<Rightarrow> nat \<Rightarrow> nat \<Rightarrow> (string \<times> string) option result" where
  "args_emit args parse_key key_begin key_end ptr =
     (if \<not> parse_key then
        (let value_begin = key_end + 1; value_end = ptr
         in if key_begin < key_end \<and> value_begin \<le> value_end then
              rbind (parser_UrlDecode (substr key_begin (key_end - key_begin) args)) (\<lambda>key.
              rbind (parser_UrlDecode (substr value_begin (value_end - value_begin) args)) (\<lambda>value.
              Inr (Some (key, value))))
            else Inr None)
      else
        (let key = substr key_begin (ptr - key_begin) args
         in if key \<noteq> [] then rbind (parser_UrlDecode key) (\<lambda>key'. Inr (Some (key', [])))
            else Inr None))"

function args_loop ::
  "string \<Rightarrow> nat \<Rightarrow> bool \<Rightarrow> nat \<Rightarrow> nat \<Rightarrow> query_args \<Rightarrow> query_args \<times> exn option" where
  "args_loop args ptr parse_key key_begin key_end acc =
     (if length args < ptr then (acc, None)
      else if ptr = length args \<or> args ! ptr = CHR ''&'' then
        (case args_emit args parse_key key_begin key_end ptr of
           Inl e \<Rightarrow> (acc, Some e)
         | Inr call \<Rightarrow>
             args_loop args (ptr + 1) True (ptr + 1) (if parse_key then ptr else key_end)
               (case call of None \<Rightarrow> acc | Some kv \<Rightarrow> acc @ [kv]))
      else if args ! ptr = CHR ''='' \<and> parse_key then
        args_loop args (ptr + 1) False key_begin ptr acc
      else args_loop args (ptr + 1) parse_key key_begin key_end acc)"
  by pat_completeness auto
termination
  by (relation "measure (\<lambda>(args, ptr, _). Suc (length args) - ptr)") auto

declare args_loop.simps [simp del]

definition ParseAndConsumeArgs :: "string \<Rightarrow> query_args \<times> exn option" where
  "ParseAndConsumeArgs args = args_loop args 0 True 0 0 []"

text \<open>\<open>ParseArgs\<close> groups the values of a key; a key keeps its values in order.\<close>

definition ParseArgs ::
  "string \<Rightarrow> (string \<Rightarrow> string list) \<Rightarrow> (string \<Rightarrow> string list) \<times> exn option" where
  "ParseArgs args result =
     (let (calls, err) = ParseAndConsumeArgs args
      in (fold (\<lambda>(k, v) m. m(k := m k @ [v])) calls result, err))"

subsection \<open>Parts of a URL\<close>

definition kSchemaSeparator :: string where "kSchemaSeparator = ''://''"
definition kQuerySeparator :: char where "kQuerySeparator = CHR ''?''"
definition kFragmentSeparator :: char where "kFragmentSeparator = CHR ''#''"

definition ExtractMetaTypeFromUrl :: "string \<Rightarrow> string" where
  "ExtractMetaTypeFromUrl url =
     (case find_pos ((=) kQuerySeparator) url of None \<Rightarrow> url | Some pos \<Rightarrow> take pos url)"

definition cut_scheme :: "string \<Rightarrow> string" where
  "cut_scheme url =
     (case find_sub kSchemaSeparator url of
        None \<Rightarrow> url | Some pos \<Rightarrow> drop (pos + length kSchemaSeparator) url)"

definition ExtractPath :: "string \<Rightarrow> string" where
  "ExtractPath url =
     (let tmp = cut_scheme url in
      case find_pos ((=) (CHR ''/'')) tmp of
        None \<Rightarrow> []
      | Some slash_pos \<Rightarrow>
          let tmp = drop slash_pos tmp;
              tmp = (case find_pos ((=) kFragmentSeparator) tmp of
                       Some fragment_pos \<Rightarrow> take fragment_pos tmp | None \<Rightarrow> tmp)
          in (case find_pos ((=) kQuerySeparator) tmp of
                Some query_pos \<Rightarrow> take query_pos tmp | None \<Rightarrow> tmp))"

definition ExtractPathOnly :: "string \<Rightarrow> string" where
  "ExtractPathOnly url =
     (let path = ExtractPath url in
      case find_pos ((=) (CHR ''?'')) path of Some pos \<Rightarrow> take pos path | None \<Rightarrow> path)"

definition ExtractHostname :: "string \<Rightarrow> string" where
  "ExtractHostname url =
     (let tmp = cut_scheme url;
          tmp = (case find_pos ((=) (CHR ''/'')) tmp of
                   Some slash_pos \<Rightarrow> take slash_pos tmp | None \<Rightarrow> tmp);
          tmp = (case rfind_pos ((=) (CHR ''@'')) tmp of
                   Some userinfo_pos \<Rightarrow> drop (userinfo_pos + 1) tmp | None \<Rightarrow> tmp)
      in (case find_pos ((=) (CHR '']'')) tmp of
            Some bracket_close_pos \<Rightarrow> take (bracket_close_pos + 1) tmp
          | None \<Rightarrow>
              (case find_pos ((=) (CHR '':'')) tmp of
                 Some port_pos \<Rightarrow> take port_pos tmp | None \<Rightarrow> tmp)))"

definition ExtractScheme :: "string \<Rightarrow> string" where
  "ExtractScheme url =
     (case find_sub kSchemaSeparator url of None \<Rightarrow> [] | Some pos \<Rightarrow> take pos url)"

text \<open>
  The length \<open>query_end - query_start\<close> is a \<open>size_t\<close>: it wraps around when the fragment
  separator stands before the query separator.
\<close>

definition ExtractQuery :: "string \<Rightarrow> string" where
  "ExtractQuery url =
     (case find_pos ((=) kQuerySeparator) url of
        None \<Rightarrow> []
      | Some query_start0 \<Rightarrow>
          if query_start0 + 1 \<ge> length url then []
          else
            let query_start = query_start0 + 1;
                query_end = (case find_pos ((=) kFragmentSeparator) url of
                               None \<Rightarrow> length url | Some fragment_start \<Rightarrow> fragment_start)
            in substr query_start (unat (word_of_nat query_end - word_of_nat query_start :: 64 word)) url)"

definition ExtractFragment :: "string \<Rightarrow> string" where
  "ExtractFragment url =
     (case find_pos ((=) kFragmentSeparator) url of
        None \<Rightarrow> []
      | Some pos \<Rightarrow> if pos + 1 \<ge> length url then [] else drop (pos + 1) url)"

record DecomposedUrl =
  url_scheme :: string
  url_host :: string
  url_path :: string
  url_query :: string
  url_fragment :: string

definition DecomposeUrl :: "string \<Rightarrow> DecomposedUrl" where
  "DecomposeUrl url =
     \<lparr>url_scheme = ExtractScheme url, url_host = ExtractHostname url, url_path = ExtractPath url,
      url_query = ExtractQuery url, url_fragment = ExtractFragment url\<rparr>"

subsection \<open>Lemmas on encoding and decoding\<close>

definition url_enc :: "char \<Rightarrow> string" where
  "url_enc c = UrlEncodeTo [c] []"

lemma UrlEncodeTo_concat: "UrlEncodeTo s r = r @ concat (map url_enc s)"
  by (induction s arbitrary: r) (auto simp: url_enc_def)

lemma UrlEncode_concat: "UrlEncode s = concat (map url_enc s)"
  by (simp add: UrlEncode_def UrlEncodeTo_concat)

definition url_unreserved :: "char \<Rightarrow> bool" where
  "url_unreserved c \<longleftrightarrow> isalnum c \<or> c \<in> set ''-_.!~*()'' \<or> c = CHR 0x27"

lemma url_enc_cases:
  "url_enc c = (if url_unreserved c then [c]
     else [CHR ''%'', hex_upper (byte c div 16), hex_upper (byte c mod 16)])"
  by (auto simp: url_enc_def url_unreserved_def)

lemma url_unreserved_not_special:
  "url_unreserved c \<Longrightarrow> c \<notin> {CHR ''%'', CHR ''+'', CHR ''&'', CHR ''='', CHR ''?'', CHR ''#'', CHR ''/''}"
  by (auto simp: url_unreserved_def isalnum_def is_digit_def)

lemma hex_upper_facts:
  assumes "n < 16"
  shows "lenient_digit (hex_upper n) = int n" "IsXDigit (hex_upper n)"
    "GetXDigitValue (hex_upper n) = n" "isalnum (hex_upper n)"
proof -
  have "n \<in> set [0..<16]" using assms by simp
  moreover have "\<forall>n\<in>set [0..<16]. lenient_digit (hex_upper n) = int n \<and> IsXDigit (hex_upper n)
      \<and> GetXDigitValue (hex_upper n) = n \<and> isalnum (hex_upper n)"
    by code_simp
  ultimately show "lenient_digit (hex_upper n) = int n" "IsXDigit (hex_upper n)"
    "GetXDigitValue (hex_upper n) = n" "isalnum (hex_upper n)"
    by blast+
qed

lemma byte_nibbles: "byte c div 16 < 16" "byte c mod 16 < 16"
  by (simp_all add: div_less_iff_less_mult)

lemma UrlDecode_lenient_enc: "UrlDecode_lenient (url_enc c @ rest) = c # UrlDecode_lenient rest"
proof (cases "url_unreserved c")
  case True
  then show ?thesis using url_unreserved_not_special [OF True] by (simp add: url_enc_cases)
next
  case False
  have "to_char (int (byte c div 16) * 16 + int (byte c mod 16)) = c"
    by (metis div_mult_mod_eq of_nat_add of_nat_mult of_nat_numeral to_char_byte)
  with False show ?thesis
    by (simp add: url_enc_cases hex_upper_facts byte_nibbles)
qed

lemma UrlDecode_loop_enc:
  "UrlDecode_loop data (url_enc c @ rest) res = UrlDecode_loop data rest (res @ [c])"
proof (cases "url_unreserved c")
  case True
  then show ?thesis using url_unreserved_not_special [OF True] by (simp add: url_enc_cases)
next
  case False
  have "to_char (int (push_bit 4 (byte c div 16) OR byte c mod 16)) = c"
    using byte_nibbles [of c] by (simp add: nibbles_or)
  with False show ?thesis
    by (simp add: url_enc_cases hex_upper_facts byte_nibbles)
qed

lemma parser_UrlDecode_encode: "parser_UrlDecode (UrlEncode s) = Inr s"
proof -
  have loop: "UrlDecode_loop data (UrlEncode s) res = Inr (res @ s)" for data res
    by (induction s arbitrary: res) (simp_all add: UrlEncode_concat UrlDecode_loop_enc)
  show ?thesis
  proof (cases "CHR ''%'' \<notin> set (UrlEncode s)")
    case True
    then have "\<forall>c\<in>set s. url_unreserved c" by (auto simp: UrlEncode_concat url_enc_cases split: if_splits)
    then have "UrlEncode s = s" by (induction s) (auto simp: UrlEncode_concat url_enc_cases)
    moreover have "CHR ''+'' \<notin> set s"
      using \<open>\<forall>c\<in>set s. url_unreserved c\<close> url_unreserved_not_special by blast
    ultimately show ?thesis using True by (simp add: parser_UrlDecode_def)
  next
    case False
    then show ?thesis by (simp add: parser_UrlDecode_def loop)
  qed
qed

lemma UrlDecode_lenient_encode: "UrlDecode_lenient (UrlEncode s) = s"
  by (induction s) (simp_all add: UrlEncode_concat UrlDecode_lenient_enc)

subsection \<open>The specification of the argument parser\<close>

text \<open>
  One piece between ampersands, the loop over all pieces, and the invariant of the scanning
  loop: the current piece holds no ampersand, and \<open>key_end\<close> is its first equals sign.
\<close>

definition arg_piece :: "string \<Rightarrow> (string \<times> string) option result" where
  "arg_piece piece =
     (case find_pos ((=) (CHR ''='')) piece of
        None \<Rightarrow> if piece = [] then Inr None
                else rbind (parser_UrlDecode piece) (\<lambda>key. Inr (Some (key, [])))
      | Some i \<Rightarrow>
          if i = 0 then Inr None
          else rbind (parser_UrlDecode (take i piece)) (\<lambda>key.
               rbind (parser_UrlDecode (drop (i + 1) piece)) (\<lambda>value. Inr (Some (key, value)))))"

fun args_ref :: "string list \<Rightarrow> query_args \<Rightarrow> query_args \<times> exn option" where
  "args_ref [] acc = (acc, None)"
| "args_ref (piece # pieces) acc =
     (case arg_piece piece of
        Inl e \<Rightarrow> (acc, Some e)
      | Inr None \<Rightarrow> args_ref pieces acc
      | Inr (Some kv) \<Rightarrow> args_ref pieces (acc @ [kv]))"

definition args_inv :: "string \<Rightarrow> nat \<Rightarrow> bool \<Rightarrow> nat \<Rightarrow> nat \<Rightarrow> bool" where
  "args_inv args ptr parse_key kb ke \<longleftrightarrow>
     kb \<le> ptr \<and> ptr \<le> length args \<and> CHR ''&'' \<notin> set (substr kb (ptr - kb) args)
     \<and> (if parse_key then find_pos ((=) (CHR ''='')) (substr kb (ptr - kb) args) = None
        else kb \<le> ke \<and> find_pos ((=) (CHR ''='')) (substr kb (ptr - kb) args) = Some (ke - kb))"

lemma substr_Suc: "kb \<le> ptr \<Longrightarrow> ptr < length args \<Longrightarrow>
   substr kb (Suc ptr - kb) args = substr kb (ptr - kb) args @ [args ! ptr]"
  by (simp add: substr_def Suc_diff_le take_Suc_conv_app_nth)

lemma args_emit_piece:
  assumes "args_inv args ptr parse_key kb ke"
  shows "args_emit args parse_key kb ke ptr = arg_piece (substr kb (ptr - kb) args)"
proof (cases parse_key)
  case True
  with assms show ?thesis by (simp add: args_inv_def args_emit_def arg_piece_def Let_def)
next
  case False
  let ?q = "substr kb (ptr - kb) args"
  from False assms have ke: "kb \<le> ke" "find_pos ((=) (CHR ''='')) ?q = Some (ke - kb)" "ptr \<le> length args"
    by (simp_all add: args_inv_def)
  then have lt: "ke - kb < length ?q" using find_pos_less by blast
  then have "ke < ptr" using ke(3) by (simp add: substr_def)
  have "take (ke - kb) ?q = substr kb (ke - kb) args"
    using \<open>ke < ptr\<close> by (simp add: substr_def min_def)
  moreover have "drop (ke - kb + 1) ?q = substr (ke + 1) (ptr - (ke + 1)) args"
    using \<open>ke < ptr\<close> ke(1) by (simp add: substr_def drop_take)
  ultimately show ?thesis using False ke \<open>ke < ptr\<close>
    by (simp add: args_emit_def arg_piece_def Let_def)
qed

lemma args_loop_ref:
  assumes "args_inv args ptr parse_key kb ke"
  shows "args_loop args ptr parse_key kb ke acc = args_ref (split_on (CHR ''&'') (drop kb args)) acc"
  using assms
proof (induction args ptr parse_key kb ke acc rule: args_loop.induct)
  case (1 args ptr parse_key kb ke acc)
  note inv = 1(4)
  let ?q = "substr kb (ptr - kb) args"
  have le: "kb \<le> ptr" "ptr \<le> length args" and q: "CHR ''&'' \<notin> set ?q"
    using inv by (simp_all add: args_inv_def)
  have split: "drop kb args = ?q @ drop ptr args"
    using le by (metis append_take_drop_id drop_drop le_add_diff_inverse2 substr_def)
  note emit = args_emit_piece [OF inv]
  consider (fin) "ptr = length args" | (amp) "ptr < length args" "args ! ptr = CHR ''&''"
    | (step) "ptr < length args" "args ! ptr \<noteq> CHR ''&''"
    using le by linarith
  then show ?case
  proof cases
    case fin
    then have "split_on (CHR ''&'') (drop kb args) = [?q]" using split q by (simp add: split_on_single)
    moreover have "args_loop args (ptr + 1) True (ptr + 1) k a = (a, None)" for k a
      using fin by (simp add: args_loop.simps)
    ultimately show ?thesis using fin emit
      by (simp add: args_loop.simps [of args "length args"] split: sum.splits option.splits)
  next
    case amp
    have "drop ptr args = CHR ''&'' # drop (ptr + 1) args"
      using amp by (metis Cons_nth_drop_Suc Suc_eq_plus1)
    then have sp: "split_on (CHR ''&'') (drop kb args) = ?q # split_on (CHR ''&'') (drop (ptr + 1) args)"
      using split q by (simp add: split_on_append_sep)
    have inv': "args_inv args (ptr + 1) True (ptr + 1) k" for k
      using amp by (simp add: args_inv_def substr_def)
    show ?thesis
    proof (cases "args_emit args parse_key kb ke ptr")
      case (Inl e)
      then have "arg_piece ?q = Inl e" using emit by simp
      with Inl amp sp show ?thesis by (simp add: args_loop.simps [of args ptr])
    next
      case (Inr call)
      have "args_loop args (ptr + 1) True (ptr + 1) (if parse_key then ptr else ke)
               (case call of None \<Rightarrow> acc | Some kv \<Rightarrow> acc @ [kv])
         = args_ref (split_on (CHR ''&'') (drop (ptr + 1) args))
               (case call of None \<Rightarrow> acc | Some kv \<Rightarrow> acc @ [kv])"
        using 1(1)[OF _ _ Inr inv'] amp by simp
      moreover have "arg_piece ?q = Inr call" using emit Inr by simp
      ultimately show ?thesis using amp sp Inr
        by (auto simp: args_loop.simps [of args ptr] split: option.splits)
    qed
  next
    case step
    have ext: "substr kb (ptr + 1 - kb) args = ?q @ [args ! ptr]"
      using substr_Suc le step by simp
    have len: "length ?q = ptr - kb" using le by (simp add: substr_def)
    show ?thesis
    proof (cases "args ! ptr = CHR ''='' \<and> parse_key")
      case True
      then have "args_inv args (ptr + 1) False kb ptr"
        using inv le step ext len by (auto simp: args_inv_def find_pos_snoc)
      with True step show ?thesis using 1(2) by (simp add: args_loop.simps [of args ptr])
    next
      case False
      then have "args_inv args (ptr + 1) parse_key kb ke"
        using inv le step ext by (auto simp: args_inv_def find_pos_snoc split: if_splits)
      with False step show ?thesis using 1(3) by (auto simp: args_loop.simps [of args ptr])
    qed
  qed
qed

lemma find_pos_at: "c \<notin> set xs \<Longrightarrow> find_pos ((=) c) (xs @ c # ys) = Some (length xs)"
  by (subst find_pos_append_miss) auto

lemma find_pos_absent: "c \<notin> set xs \<Longrightarrow> find_pos ((=) c) xs = None"
  by (auto simp: find_pos_None_iff)

lemma rfind_pos_absent: "c \<notin> set xs \<Longrightarrow> rfind_pos ((=) c) xs = None"
  by (simp add: rfind_pos_def find_pos_absent)

subsection \<open>Query strings and URLs\<close>

definition query_piece :: "string \<times> string \<Rightarrow> string" where
  "query_piece kv = UrlEncode (fst kv) @ CHR ''='' # UrlEncode (snd kv)"

lemma DoMakeQueryTo_join:
  "DoMakeQueryTo first args r =
     r @ (if first \<or> args = [] then [] else ''&'') @ join_with ''&'' (map query_piece args)"
proof (induction args arbitrary: first r)
  case (Cons kv args)
  obtain k v where kv: "kv = (k, v)" by force
  have "DoMakeQueryTo first (kv # args) r
      = r @ (if first then [] else ''&'') @ query_piece kv
          @ (if args = [] then [] else ''&'') @ join_with ''&'' (map query_piece args)"
    by (simp add: kv Let_def UrlEncodeTo_concat Cons.IH)
       (simp add: query_piece_def UrlEncode_concat)
  then show ?case by (cases args) auto
qed simp

lemma UrlEncode_clean:
  "c \<in> set (UrlEncode s) \<Longrightarrow> c \<notin> {CHR ''+'', CHR ''&'', CHR ''='', CHR ''?'', CHR ''#'', CHR ''/''}"
  using url_unreserved_not_special hex_upper_facts(4) [OF byte_nibbles(1)]
    hex_upper_facts(4) [OF byte_nibbles(2)]
  by (fastforce simp: UrlEncode_concat url_enc_cases url_unreserved_def split: if_splits)

lemma UrlEncode_eq_Nil [simp]: "UrlEncode s = [] \<longleftrightarrow> s = []"
  by (cases s) (auto simp: UrlEncode_concat url_enc_cases)

lemma arg_piece_query_piece:
  "arg_piece (query_piece kv) = Inr (if fst kv = [] then None else Some kv)"
proof -
  have "find_pos ((=) (CHR ''='')) (query_piece kv) = Some (length (UrlEncode (fst kv)))"
  proof -
    have "CHR ''='' \<notin> set (UrlEncode (fst kv))" using UrlEncode_clean by blast
    then show ?thesis by (simp add: query_piece_def find_pos_at)
  qed
  then show ?thesis
    by (cases kv) (auto simp: arg_piece_def query_piece_def parser_UrlDecode_encode)
qed

lemma args_ref_query_pieces:
  "args_ref (map query_piece args) acc = (acc @ filter (\<lambda>kv. fst kv \<noteq> []) args, None)"
  by (induction args arbitrary: acc) (auto simp: arg_piece_query_piece)

lemma ParseAndConsumeArgs_ref:
  "ParseAndConsumeArgs args = args_ref (split_on (CHR ''&'') args) []"
  by (simp add: ParseAndConsumeArgs_def args_loop_ref args_inv_def substr_def)

text \<open>
  The one-pass, pointer-based argument parser computes the specification: split the
  text at every ampersand, split each piece at its first equals sign, skip pieces without a
  key, percent-decode both halves, and stop at the first malformed piece with the arguments
  before it already handed over.
\<close>

theorem parse_args_refines_split:
  "ParseAndConsumeArgs args = args_ref (split_on (CHR ''&'') args) []"
  by (rule ParseAndConsumeArgs_ref)

text \<open>
  Parsing the query string built from a list of arguments gives these arguments back,
  in order and without an error; only arguments with an empty key are lost.
\<close>

theorem query_roundtrip:
  "ParseAndConsumeArgs (MakeQuery args) = (filter (\<lambda>(key, _). key \<noteq> []) args, None)"
proof (cases "args = []")
  case True
  then show ?thesis by (simp add: ParseAndConsumeArgs_ref MakeQuery_def arg_piece_def)
next
  case False
  have "CHR ''&'' \<notin> set (query_piece kv)" for kv
    using UrlEncode_clean by (fastforce simp: query_piece_def)
  then have "split_on (CHR ''&'') (MakeQuery args) = map query_piece args"
    using False by (auto simp: MakeQuery_def DoMakeQueryTo_join intro!: split_on_join)
  then show ?thesis by (simp add: ParseAndConsumeArgs_ref args_ref_query_pieces case_prod_unfold)
qed

lemma find_sub_scheme: "CHR '':'' \<notin> set xs \<Longrightarrow> find_sub kSchemaSeparator (xs @ kSchemaSeparator @ ys) = Some (length xs)"
  by (subst find_sub_append_miss [where c = "CHR '':''" and cs = "''//''"])
     (auto simp: kSchemaSeparator_def)

definition compose_url :: "string \<Rightarrow> string \<Rightarrow> string \<Rightarrow> string \<Rightarrow> string \<Rightarrow> string" where
  "compose_url scheme host path query fragment =
     scheme @ ''://'' @ host @ ''/'' @ path @ ''?'' @ query @ ''#'' @ fragment"

definition url_parts_ok :: "string \<Rightarrow> string \<Rightarrow> string \<Rightarrow> string \<Rightarrow> string \<Rightarrow> bool" where
  "url_parts_ok scheme host path query fragment \<longleftrightarrow>
     set scheme \<inter> set '':?#'' = {} \<and> set host \<inter> set ''/@]:?#'' = {} \<and> set path \<inter> set ''?#'' = {}
     \<and> CHR ''#'' \<notin> set query \<and> query \<noteq> [] \<and> fragment \<noteq> []
     \<and> length (compose_url scheme host path query fragment) < 2 ^ 64"

lemma drop_prefix: "length xs = n \<Longrightarrow> drop n (xs @ ys) = ys"
  by simp

lemma compose_url_cut:
  assumes "url_parts_ok scheme host path query fragment"
  shows "find_sub kSchemaSeparator (compose_url scheme host path query fragment) = Some (length scheme)"
    and "cut_scheme (compose_url scheme host path query fragment)
           = host @ ''/'' @ path @ ''?'' @ query @ ''#'' @ fragment"
proof -
  have "CHR '':'' \<notin> set scheme" using assms by (auto simp: url_parts_ok_def)
  from find_sub_scheme [OF this, of "host @ ''/'' @ path @ ''?'' @ query @ ''#'' @ fragment"]
  show sub: "find_sub kSchemaSeparator (compose_url scheme host path query fragment) = Some (length scheme)"
    by (simp add: kSchemaSeparator_def compose_url_def)
  show "cut_scheme (compose_url scheme host path query fragment)
           = host @ ''/'' @ path @ ''?'' @ query @ ''#'' @ fragment"
    using sub by (simp add: cut_scheme_def kSchemaSeparator_def compose_url_def)
qed

lemma compose_url_separators:
  assumes "url_parts_ok scheme host path query fragment"
  shows "find_pos ((=) (CHR ''?'')) (compose_url scheme host path query fragment)
           = Some (length scheme + length host + length path + 4)"
    and "find_pos ((=) (CHR ''#'')) (compose_url scheme host path query fragment)
           = Some (length scheme + length host + length path + length query + 5)"
    and "find_pos ((=) (CHR ''/'')) (host @ ''/'' @ path @ ''?'' @ query @ ''#'' @ fragment)
           = Some (length host)"
    and "find_pos ((=) (CHR ''#'')) (CHR ''/'' # path @ ''?'' @ query @ ''#'' @ fragment)
           = Some (length path + length query + 2)"
    and "find_pos ((=) (CHR ''?'')) (CHR ''/'' # path @ ''?'' @ query) = Some (length path + 1)"
  using assms
    find_pos_at [of "CHR ''?''" "scheme @ ''://'' @ host @ ''/'' @ path" "query @ ''#'' @ fragment"]
    find_pos_at [of "CHR ''#''" "scheme @ ''://'' @ host @ ''/'' @ path @ ''?'' @ query" fragment]
    find_pos_at [of "CHR ''#''" "CHR ''/'' # path @ ''?'' @ query" fragment]
    find_pos_at [of "CHR ''?''" "CHR ''/'' # path" query]
  by (auto simp: url_parts_ok_def compose_url_def find_pos_at)

lemma compose_url_tails:
  "drop (length scheme + length host + length path + 5) (compose_url scheme host path query fragment)
     = query @ ''#'' @ fragment"
  "drop (length scheme + length host + length path + length query + 6)
     (compose_url scheme host path query fragment) = fragment"
  using drop_prefix [of "scheme @ ''://'' @ host @ ''/'' @ path @ ''?''" _ "query @ ''#'' @ fragment"]
    drop_prefix [of "scheme @ ''://'' @ host @ ''/'' @ path @ ''?'' @ query @ ''#''" _ fragment]
  by (simp_all add: compose_url_def ac_simps)

lemma length_compose_url:
  "length (compose_url scheme host path query fragment)
     = length scheme + length host + length path + length query + length fragment + 6"
  by (simp add: compose_url_def)

lemma ExtractQuery_compose:
  assumes "url_parts_ok scheme host path query fragment"
  shows "ExtractQuery (compose_url scheme host path query fragment) = query"
proof -
  let ?n = "length scheme + length host + length path + 5"
  note len = length_compose_url [of scheme host path query fragment]
  from assms have "unat (word_of_nat (?n + length query) - word_of_nat ?n :: 64 word) = length query"
    by (simp add: unat_of_nat url_parts_ok_def len)
  moreover have "query \<noteq> []" using assms by (simp add: url_parts_ok_def)
  ultimately show ?thesis
    using compose_url_separators [OF assms] compose_url_tails(1) [of scheme host path query fragment] len
    by (simp add: ExtractQuery_def kQuerySeparator_def kFragmentSeparator_def substr_def Let_def ac_simps)
qed

text \<open>
  A URL put together from its five parts, none of which contains a delimiter of its own
  place, is taken apart into exactly these parts.
\<close>

theorem decompose_url:
  assumes "url_parts_ok scheme host path query fragment"
  shows "DecomposeUrl (compose_url scheme host path query fragment) =
     \<lparr>url_scheme = scheme, url_host = host, url_path = CHR ''/'' # path, url_query = query,
      url_fragment = fragment\<rparr>"
proof -
  let ?url = "compose_url scheme host path query fragment"
  note cut = compose_url_cut [OF assms] and sep = compose_url_separators [OF assms]
  have "ExtractScheme ?url = scheme"
    using cut(1) by (simp add: ExtractScheme_def) (simp add: compose_url_def)
  moreover have "ExtractHostname ?url = host"
    using cut(2) sep(3) assms
    by (auto simp: ExtractHostname_def Let_def rfind_pos_absent find_pos_absent url_parts_ok_def)
  moreover have "ExtractPath ?url = CHR ''/'' # path"
    using cut(2) sep(3-5) by (simp add: ExtractPath_def Let_def kFragmentSeparator_def kQuerySeparator_def)
  moreover have "ExtractFragment ?url = fragment"
    using sep(2) compose_url_tails(2) [of scheme host path query fragment] assms
    by (simp add: ExtractFragment_def kFragmentSeparator_def url_parts_ok_def length_compose_url ac_simps)
  ultimately show ?thesis using ExtractQuery_compose [OF assms] by (simp add: DecomposeUrl_def)
qed

theorem decompose_url_witness:
  "DecomposeUrl ''http://localhost/users?login=bob#top'' =
     \<lparr>url_scheme = ''http'', url_host = ''localhost'', url_path = ''/users'',
      url_query = ''login=bob'', url_fragment = ''top''\<rparr>"
  using decompose_url [of "''http''" "''localhost''" "''users''" "''login=bob''" "''top''"]
  by (simp add: url_parts_ok_def compose_url_def)

lemma unat_neg_of_nat:
  assumes "0 < n" "n < 2 ^ 64"
  shows "unat (- word_of_nat n :: 64 word) = 2 ^ 64 - n"
  using unat_sub_if' [of "0 :: 64 word" "word_of_nat n"] assms
  by (simp add: unat_of_nat split: if_splits)

text \<open>
  When the fragment contains a question mark and there is no query, the length
  \<open>query_end - query_start\<close> wraps around and the text after the question mark, which
  belongs to the fragment, is returned as the query.
\<close>

theorem extract_query_from_fragment:
  assumes "set before \<inter> set ''?#'' = {}" and "CHR ''?'' \<notin> set anchor" and "rest \<noteq> []"
    and "length (before @ ''#'' @ anchor @ ''?'' @ rest) < 2 ^ 63"
  shows "ExtractQuery (before @ ''#'' @ anchor @ ''?'' @ rest) = rest"
proof -
  let ?url = "before @ ''#'' @ anchor @ ''?'' @ rest"
  have q: "find_pos ((=) (CHR ''?'')) ?url = Some (length before + length anchor + 1)"
    using assms(1,2) find_pos_at [of "CHR ''?''" "before @ ''#'' @ anchor" rest] by auto
  have f: "find_pos ((=) (CHR ''#'')) ?url = Some (length before)"
    using assms(1) by (auto simp: find_pos_at)
  have "length rest \<le> unat (word_of_nat (length before) - word_of_nat (length before + length anchor + 2) :: 64 word)"
  proof -
    have "word_of_nat (length before) - word_of_nat (length before + length anchor + 2) = (- word_of_nat (length anchor + 2) :: 64 word)"
      by (simp add: algebra_simps)
    moreover have "unat (- word_of_nat (length anchor + 2) :: 64 word) = 2 ^ 64 - (length anchor + 2)"
      using assms(4) by (intro unat_neg_of_nat) auto
    ultimately show ?thesis using assms(4) by simp
  qed
  then show ?thesis using q f assms(3)
    by (simp add: ExtractQuery_def kQuerySeparator_def kFragmentSeparator_def substr_def Let_def)
qed

theorem extract_query_from_fragment_witness:
  "ExtractQuery ''http://host/page#section?x=1'' = ''x=1''"
  using extract_query_from_fragment [of "''http://host/page''" "''section''" "''x=1''"] by simp

interpretation url_strict: text_codec UrlEncode parser_UrlDecode
  by unfold_locales (rule parser_UrlDecode_encode)

interpretation url_lenient: text_codec UrlEncode "\<lambda>s. Inr (UrlDecode_lenient s)"
  by unfold_locales (simp add: UrlDecode_lenient_encode)

text \<open>
  Both decoders undo the percent encoding of every byte string: the strict decoder of the
  server accepts it and returns the original bytes, and so does the lenient one.
\<close>

theorem url_roundtrip:
  "parser_UrlDecode (UrlEncode s) = Inr s \<and> UrlDecode_lenient (UrlEncode s) = s"
  using url_strict.decode_encode url_lenient.decode_encode by simp

end
