(* ===== verification/Request_Constructor.thy ===== *)
theory Request_Constructor
  imports Http_Request Url_Codec
begin

section \<open>From parser callbacks to a request\<close>

text \<open>
  \<open>core/src/server/http/http_request_constructor.cpp\<close>, which accumulates the pieces of one
  request, enforces the size limits and finds the handler, and \<open>http_request_parser.cpp\<close>, the
  callbacks that the HTTP parser library drives it with.  The library itself (\<open>llhttp\<close>) is the list
  of events it reports; its URL splitter (\<open>http_parser_parse_url\<close>) is an input of the record
  \<open>ParserEnv\<close>, together with the configuration and the index of handlers.
\<close>

subsection \<open>State\<close>

datatype ConstructorStatus =
    kCtorOk | kCtorBadRequest | kCtorUriTooLong | kCtorParseUrlError | kCtorHandlerNotFound | kCtorMethodNotAllowed
  | kCtorHeadersTooLarge | kCtorRequestTooLarge | kCtorParseArgsError | kCtorParseCookiesError
  | kCtorParseMultipartFormDataError

text \<open>The two fields of \<open>http_parser_url\<close> the source reads: offset and length, when set.\<close>

record HttpParserUrl =
  uf_path :: "(nat \<times> nat) option"
  uf_query :: "(nat \<times> nat) option"

record ParserEnv =
  env_index :: HandlerInfoIndex
  env_config :: HttpRequestConfig
  http_parser_parse_url :: "string \<Rightarrow> bool \<Rightarrow> HttpParserUrl option"

record HttpRequestConstructor =
  config :: HttpRequestConfig
  parsed_url :: HttpParserUrl
  header_field :: string
  header_value :: string
  header_field_flag :: bool
  header_value_flag :: bool
  request_size :: nat
  url_size :: nat
  headers_size :: nat
  url_parsed :: bool
  ctor_status :: ConstructorStatus
  ctor_url :: string
  ctor_body :: string
  builder :: HttpRequest

definition new_constructor :: "HttpRequestConfig \<Rightarrow> HttpRequestConstructor" where
  "new_constructor cfg =
     \<lparr>config = cfg, parsed_url = \<lparr>uf_path = None, uf_query = None\<rparr>, header_field = [], header_value = [],
      header_field_flag = False, header_value_flag = False, request_size = 0, url_size = 0, headers_size = 0,
      url_parsed = False, ctor_status = kCtorOk, ctor_url = [], ctor_body = [], builder = initial_request\<rparr>"

type_synonym 'a ctor = "(HttpRequestConstructor, 'a) act"

subsection \<open>Accounting\<close>

definition SetCtorStatus :: "ConstructorStatus \<Rightarrow> HttpRequestConstructor \<Rightarrow> HttpRequestConstructor" where
  "SetCtorStatus st c = c\<lparr>ctor_status := st\<rparr>"

definition too_large_error :: exn where
  "too_large_error = RuntimeError ''request is too large''"

definition AccountRequestSize :: "nat \<Rightarrow> unit ctor" where
  "AccountRequestSize n c =
     (let c1 = c\<lparr>request_size := request_size c + n\<rparr>
      in if max_request_size (config c1) < request_size c1
         then (Inl too_large_error, SetCtorStatus kCtorRequestTooLarge c1) else (Inr (), c1))"

definition AccountUrlSize :: "nat \<Rightarrow> unit ctor" where
  "AccountUrlSize n c =
     (let c1 = c\<lparr>url_size := url_size c + n\<rparr>
      in if max_url_size (config c1) < url_size c1
         then (Inl (RuntimeError ''url is too long''), SetCtorStatus kCtorUriTooLong c1) else (Inr (), c1))"

definition AccountHeadersSize :: "nat \<Rightarrow> unit ctor" where
  "AccountHeadersSize n c =
     (let c1 = c\<lparr>headers_size := headers_size c + n\<rparr>
      in if max_headers_size (config c1) < headers_size c1
         then (Inl (RuntimeError ''headers too large''), SetCtorStatus kCtorHeadersTooLarge c1) else (Inr (), c1))"

subsection \<open>Collecting the pieces\<close>

definition StripDuplicateStartingSlashes :: "string \<Rightarrow> string" where
  "StripDuplicateStartingSlashes s =
     (if s = [] \<or> s ! 0 \<noteq> CHR ''/'' then s
      else (let non_slash_pos = (case find_pos (\<lambda>c. c \<noteq> CHR ''/'') s of Some i \<Rightarrow> i | None \<Rightarrow> length s)
            in if non_slash_pos = 1 then s else drop (non_slash_pos - 1) s))"

definition SetMethod :: "HttpMethod \<Rightarrow> HttpRequestConstructor \<Rightarrow> HttpRequestConstructor" where
  "SetMethod m c = c\<lparr>builder := (builder c)\<lparr>req_method := m\<rparr>\<rparr>"

definition SetHttpVersion :: "int \<Rightarrow> int \<Rightarrow> HttpRequestConstructor \<Rightarrow> HttpRequestConstructor" where
  "SetHttpVersion major minor c = c\<lparr>builder := (builder c)\<lparr>http_major := major, http_minor := minor\<rparr>\<rparr>"

definition AppendUrl :: "string \<Rightarrow> unit ctor" where
  "AppendUrl data =
     act_then (AccountUrlSize (length data))
    (act_then (AccountRequestSize (length data))
       (act_modify (\<lambda>c. c\<lparr>ctor_url := ctor_url c @ data\<rparr>)))"

text \<open>The middle part of \<open>ParseUrl\<close>: the handler that was found, or the status without one.\<close>

definition apply_match :: "ParserEnv \<Rightarrow> MatchRequestResult \<Rightarrow> HttpRequestConstructor \<Rightarrow> HttpRequestConstructor" where
  "apply_match env res c =
     (let fallback = (if res_handler_info res = None \<and> GetMethod (builder c) = kOptions \<and> res_status res = kMethodNotAllowed
                      then GetFallbackHandler (env_index env) kImplicitOptions else None);
          info = (case res_handler_info res of Some i \<Rightarrow> Some i | None \<Rightarrow> fallback)
      in case info of
           Some i \<Rightarrow>
             (let rc = hc_request_config (GetConfig (handler i));
                  cfg = (config c)\<lparr>max_request_size := max_request_size rc, max_headers_size := max_headers_size rc,
                                   parse_args_from_body := parse_args_from_body rc\<rparr>;
                  cfg = (if hc_decompress_request (GetConfig (handler i)) then cfg\<lparr>decompress_request := True\<rparr> else cfg)
              in c\<lparr>config := cfg,
                   builder := (builder c)\<lparr>req_task_processor := Some (task_processor i), req_handler := Some (handler i)\<rparr>\<rparr>)
         | None \<Rightarrow>
             SetCtorStatus (if res_status res = kMethodNotAllowed then kCtorMethodNotAllowed else kCtorHandlerNotFound) c)"

definition ParseUrl :: "ParserEnv \<Rightarrow> unit ctor" where
  "ParseUrl env c =
     (case http_parser_parse_url env (ctor_url c) (GetMethod (builder c) = kConnect) of
        None \<Rightarrow> (Inl (RuntimeError ''error in http_parser_parse_url()''), SetCtorStatus kCtorParseUrlError c)
      | Some pu \<Rightarrow>
          (case uf_path pu of
             None \<Rightarrow> (Inl (RuntimeError ''no path in url''), SetCtorStatus kCtorParseUrlError (c\<lparr>parsed_url := pu\<rparr>))
           | Some (off, len) \<Rightarrow>
               (let path = StripDuplicateStartingSlashes (substr off len (ctor_url c));
                    c1 = c\<lparr>parsed_url := pu, builder := (builder c)\<lparr>req_request_path := path\<rparr>\<rparr>
                in case MatchRequest (env_index env) (GetMethod (builder c1)) path of
                     Inl e \<Rightarrow> (Inl e, c1)
                   | Inr res \<Rightarrow>
                       act_then (act_modify (\<lambda>c. apply_match env res (c\<lparr>builder := SetPathArgs (args_from_path res) (builder c)\<rparr>)))
                      (act_then (AccountUrlSize 0)
                      (act_then (AccountRequestSize 0)
                         (act_modify (\<lambda>c. c\<lparr>builder := (builder c)\<lparr>req_url := ctor_url c\<rparr>, ctor_url := [], url_parsed := True\<rparr>)))) c1)))"

definition AddHeader :: "unit ctor" where
  "AddHeader c =
     (case Request_AddHeader (header_field c) (header_value c) (builder c) of
        Inl e \<Rightarrow> (Inl (RuntimeError ''HeaderMap reached its maximum capacity''), SetCtorStatus kCtorHeadersTooLarge c)
      | Inr r \<Rightarrow> (Inr (), c\<lparr>builder := r, header_field := [], header_value := []\<rparr>))"

definition AppendHeaderField :: "string \<Rightarrow> unit ctor" where
  "AppendHeaderField data c =
     act_then (if header_value_flag c then act_then AddHeader (act_modify (\<lambda>c. c\<lparr>header_value_flag := False\<rparr>)) else act_return ())
    (act_then (act_modify (\<lambda>c. c\<lparr>header_field_flag := True\<rparr>))
    (act_then (AccountHeadersSize (length data))
    (act_then (AccountRequestSize (length data))
       (act_modify (\<lambda>c. c\<lparr>header_field := header_field c @ data\<rparr>))))) c"

definition AppendHeaderValue :: "string \<Rightarrow> unit ctor" where
  "AppendHeaderValue data =
     act_then (act_modify (\<lambda>c. c\<lparr>header_value_flag := True\<rparr>))
    (act_then (AccountHeadersSize (length data))
    (act_then (AccountRequestSize (length data))
       (act_modify (\<lambda>c. c\<lparr>header_value := header_value c @ data\<rparr>))))"

definition AppendBody :: "string \<Rightarrow> unit ctor" where
  "AppendBody data =
     act_then (AccountRequestSize (length data)) (act_modify (\<lambda>c. c\<lparr>ctor_body := ctor_body c @ data\<rparr>))"

subsection \<open>Finishing a request\<close>

text \<open>\<open>ParseArgs(data, size)\<close>: the arguments consumed before an error stay added.\<close>

definition ParseArgs_text :: "string \<Rightarrow> unit ctor" where
  "ParseArgs_text text c =
     (let (calls, err) = ParseAndConsumeArgs text;
          c1 = c\<lparr>builder := fold AddRequestArg calls (builder c)\<rparr>
      in case err of None \<Rightarrow> (Inr (), c1) | Some e \<Rightarrow> (Inl e, c1))"

definition ParseArgs_url :: "unit ctor" where
  "ParseArgs_url c =
     (case uf_query (parsed_url c) of
        None \<Rightarrow> (Inr (), c)
      | Some (off, len) \<Rightarrow> ParseArgs_text (substr off len (req_url (builder c))) c)"

definition parse_multipart :: "HttpRequestConstructor \<Rightarrow> HttpRequestConstructor" where
  "parse_multipart c =
     (let content_type = Request_GetHeader (builder c) ''Content-Type'' in
      if IsMultipartFormDataContentType content_type then
        (case ParseMultipartFormData content_type (request_body (builder c)) Map.empty False of
           (False, args) \<Rightarrow> SetCtorStatus kCtorParseMultipartFormDataError c
         | (True, args) \<Rightarrow> c\<lparr>builder := (builder c)\<lparr>form_data_args := args\<rparr>\<rparr>)
      else c)"

definition FinalizeImpl :: "HttpRequestConstructor \<Rightarrow> HttpRequestConstructor" where
  "FinalizeImpl c0 =
     (let c = c0\<lparr>builder := SetRequestBody (ctor_body c0) (builder c0), ctor_body := []\<rparr> in
      if ctor_status c \<noteq> kCtorOk \<and> (\<not> testing_mode (config c) \<or> ctor_status c \<noteq> kCtorHandlerNotFound) then c
      else if \<not> url_parsed c then SetCtorStatus kCtorBadRequest c
      else
        (case act_then ParseArgs_url
                (\<lambda>c. if parse_args_from_body (config c)
                        \<and> (\<not> decompress_request (config c) \<or> \<not> IsBodyCompressed (builder c))
                     then ParseArgs_text (request_body (builder c)) c else (Inr (), c)) c of
           (Inl _, c') \<Rightarrow> SetCtorStatus kCtorParseArgsError c'
         | (Inr _, c') \<Rightarrow> parse_multipart c'))"

fun error_response :: "ConstructorStatus \<Rightarrow> (StatusCode \<times> string option) option" where
  "error_response kCtorOk = None"
| "error_response kCtorBadRequest = Some (HttpStatus_kBadRequest, Some ''bad request'')"
| "error_response kCtorUriTooLong = Some (HttpStatus_kUriTooLong, None)"
| "error_response kCtorParseUrlError = Some (HttpStatus_kBadRequest, Some ''invalid url'')"
| "error_response kCtorHandlerNotFound = Some (HttpStatus_kNotFound, None)"
| "error_response kCtorMethodNotAllowed = Some (HttpStatus_kMethodNotAllowed, None)"
| "error_response kCtorHeadersTooLarge = Some (HttpStatus_kRequestHeaderFieldsTooLarge, None)"
| "error_response kCtorRequestTooLarge = Some (HttpStatus_kPayloadTooLarge, Some ''too large request'')"
| "error_response kCtorParseArgsError = Some (HttpStatus_kBadRequest, Some ''invalid args'')"
| "error_response kCtorParseCookiesError = Some (HttpStatus_kBadRequest, Some ''invalid cookies'')"
| "error_response kCtorParseMultipartFormDataError =
     Some (HttpStatus_kBadRequest, Some ''invalid body of multipart/form-data request'')"

definition CheckStatus :: "HttpRequestConstructor \<Rightarrow> HttpRequestConstructor" where
  "CheckStatus c =
     (case error_response (ctor_status c) of
        None \<Rightarrow> c\<lparr>builder := SetResponseStatus HttpStatus_kOk (builder c)\<rparr>
      | Some (st, data) \<Rightarrow>
          (let r = SetResponseStatus st (builder c);
               resp = (case data of None \<Rightarrow> response r | Some d \<Rightarrow> SetData d (response r))
           in c\<lparr>builder := r\<lparr>response := SetReady resp\<rparr>\<rparr>))"

definition Finalize :: "HttpRequestConstructor \<Rightarrow> HttpRequest" where
  "Finalize c = Build (builder (CheckStatus (FinalizeImpl c)))"

subsection \<open>The callbacks of the parser\<close>

record HttpRequestParser =
  request_constructor :: "HttpRequestConstructor option"
  url_complete :: bool
  new_requests :: "HttpRequest list"

text \<open>What the library reports, with the method and version it has parsed so far.\<close>

datatype llhttp_event =
    OnMessageBegin
  | OnUrl HttpMethod string
  | OnHeaderField HttpMethod int int string
  | OnHeaderValue HttpMethod int int string
  | OnHeadersComplete HttpMethod int int
  | OnBody HttpMethod int int string
  | OnMessageComplete HttpMethod int int bool bool

definition CreateRequestConstructor :: "ParserEnv \<Rightarrow> HttpRequestParser \<Rightarrow> HttpRequestParser" where
  "CreateRequestConstructor env p =
     p\<lparr>request_constructor := Some (new_constructor (env_config env)), url_complete := False\<rparr>"

definition FinalizeRequest :: "ParserEnv \<Rightarrow> HttpRequestParser \<Rightarrow> HttpRequestParser" where
  "FinalizeRequest env p =
     (let c = (case request_constructor p of None \<Rightarrow> new_constructor (env_config env) | Some c \<Rightarrow> c)
      in p\<lparr>new_requests := new_requests p @ [Finalize c], request_constructor := None,
           url_complete := (request_constructor p \<noteq> None \<and> url_complete p)\<rparr>)"

text \<open>A callback body on the constructor: \<open>True\<close> is the return value 0, \<open>False\<close> is -1.\<close>

definition on_ctor :: "unit ctor \<Rightarrow> HttpRequestParser \<Rightarrow> bool \<times> HttpRequestParser" where
  "on_ctor f p =
     (case request_constructor p of
        None \<Rightarrow> (False, p)
      | Some c \<Rightarrow> (case f c of (r, c') \<Rightarrow> (is_ok r, p\<lparr>request_constructor := Some c'\<rparr>)))"

definition CheckUrlComplete :: "ParserEnv \<Rightarrow> HttpMethod \<Rightarrow> int \<Rightarrow> int \<Rightarrow> HttpRequestParser \<Rightarrow> bool \<times> HttpRequestParser" where
  "CheckUrlComplete env m major minor p =
     (if url_complete p then (True, p)
      else on_ctor (act_then (act_modify (\<lambda>c. SetHttpVersion major minor (SetMethod m c))) (ParseUrl env))
             (p\<lparr>url_complete := True\<rparr>))"

definition after_url :: "ParserEnv \<Rightarrow> HttpMethod \<Rightarrow> int \<Rightarrow> int \<Rightarrow> unit ctor \<Rightarrow> HttpRequestParser \<Rightarrow> bool \<times> HttpRequestParser" where
  "after_url env m major minor f p =
     (case CheckUrlComplete env m major minor p of
        (False, p') \<Rightarrow> (False, p')
      | (True, p') \<Rightarrow> on_ctor f p')"

fun callback :: "ParserEnv \<Rightarrow> llhttp_event \<Rightarrow> HttpRequestParser \<Rightarrow> bool \<times> HttpRequestParser" where
  "callback env OnMessageBegin p = (True, CreateRequestConstructor env p)"
| "callback env (OnUrl m data) p = on_ctor (act_then (act_modify (SetMethod m)) (AppendUrl data)) p"
| "callback env (OnHeaderField m j n data) p = after_url env m j n (AppendHeaderField data) p"
| "callback env (OnHeaderValue m j n data) p = after_url env m j n (AppendHeaderValue data) p"
| "callback env (OnHeadersComplete m j n) p = after_url env m j n (AppendHeaderField []) p"
| "callback env (OnBody m j n data) p = after_url env m j n (AppendBody data) p"
| "callback env (OnMessageComplete m j n upgrade keep_alive) p =
     (if upgrade then (True, p)
      else (case on_ctor (act_modify (\<lambda>c. c\<lparr>builder := (builder c)\<lparr>is_final := \<not> keep_alive\<rparr>\<rparr>)) p of (_, p1) \<Rightarrow>
            (case CheckUrlComplete env m j n p1 of
               (False, p2) \<Rightarrow> (False, p2)
             | (True, p2) \<Rightarrow> (True, FinalizeRequest env p2))))"

fun run_callbacks :: "ParserEnv \<Rightarrow> llhttp_event list \<Rightarrow> HttpRequestParser \<Rightarrow> bool \<times> HttpRequestParser" where
  "run_callbacks env [] p = (True, p)"
| "run_callbacks env (e # es) p =
     (case callback env e p of (True, p') \<Rightarrow> run_callbacks env es p' | (False, p') \<Rightarrow> (False, p'))"

text \<open>
  The search for an upgrade to WebSocket in the raw text: the first occurrence of the header
  name in any case, blanks, and the value with its line end strictly inside the text.
\<close>

fun find_icase :: "string \<Rightarrow> string \<Rightarrow> nat option" where
  "find_icase pat [] = (if pat = [] then Some 0 else None)"
| "find_icase pat (c # cs) =
     (if StrIcaseEqual (take (length pat) (c # cs)) pat then Some 0 else map_option Suc (find_icase pat cs))"

definition IsWebSocketUpgradeRequest :: "string \<Rightarrow> bool" where
  "IsWebSocketUpgradeRequest req =
     (case find_icase ''Upgrade:'' req of
        None \<Rightarrow> False
      | Some i \<Rightarrow>
          (let rest = drop (i + 8) req; val = dropWhile (\<lambda>c. c = CHR '' '') rest; k = ''websocket'' @ kCrlf
           in rest \<noteq> [] \<and> length k < length val \<and> StrIcaseEqual (take (length k) val) k))"

text \<open>
  \<open>Parse\<close>: the library calls back until a callback fails or its input ends, and ends with an
  error code.  After a failure, or an error of the library itself, the request is finished as
  it stands; a paused upgrade finishes the request and reports whether it was one to HTTP/2.
\<close>

datatype llhttp_errno = HPE_OK | HPE_PAUSED_UPGRADE | HPE_ERROR

definition Parse ::
  "ParserEnv \<Rightarrow> string \<Rightarrow> llhttp_event list \<Rightarrow> llhttp_errno \<Rightarrow> HttpRequestParser \<Rightarrow> bool \<times> HttpRequestParser" where
  "Parse env req events err p =
     (case run_callbacks env events p of
        (False, p') \<Rightarrow> (False, FinalizeRequest env p')
      | (True, p') \<Rightarrow>
          (case err of
             HPE_OK \<Rightarrow> (True, p')
           | HPE_PAUSED_UPGRADE \<Rightarrow> (\<not> IsWebSocketUpgradeRequest req, FinalizeRequest env p')
           | HPE_ERROR \<Rightarrow> (False, FinalizeRequest env p')))"

end
