(* ===== verification/Path_Trie.thy ===== *)
theory Path_Trie
  imports Handler_Routing
begin

section \<open>The trie over wildcard paths\<close>

text \<open>
  The trie of \<open>wildcard_path_index.cpp\<close> seen as a finite map: \<open>entry n items len\<close> is the
  method index registered for a list of fixed elements and a number of path elements.
  \<open>AddPath\<close> updates that map at one point, and \<open>MatchRequest\<close> finds exactly entries whose
  fixed elements occur in the request path; the two facts carry the correctness of routing in
  \<open>Routing_Correct\<close>.
\<close>

subsection \<open>The abstract view: a map from fixed elements to handlers\<close>

fun node_at :: "PathItem list \<Rightarrow> Node \<Rightarrow> Node option" where
  "node_at [] n = Some n"
| "node_at (it # its) n =
     (case child (item_index it) (item_name it) n of None \<Rightarrow> None | Some c \<Rightarrow> node_at its c)"

definition entry :: "Node \<Rightarrow> PathItem list \<Rightarrow> nat \<Rightarrow> HandlerMethodIndex option" where
  "entry n its len =
     (case node_at its n of None \<Rightarrow> None | Some c \<Rightarrow> map_of (handler_method_index_map c) len)"

lemma entry_simps [simp]:
  "entry n [] len = map_of (handler_method_index_map n) len"
  "entry n (it # its) len =
     (case child (item_index it) (item_name it) n of None \<Rightarrow> None | Some c \<Rightarrow> entry c its len)"
  by (auto simp: entry_def split: option.splits)

lemma entry_empty_node [simp]: "entry empty_node its len = None"
  by (cases its) (auto simp: empty_node_def child_def)

lemma children_put_get: "map_of (children_put k v m) = (map_of m)(k \<mapsto> v)"
  by (induction m) (auto simp: fun_eq_iff)

lemma child_put_child:
  "child j nm (put_child i name c n) = (if j = i \<and> nm = name then Some c else child j nm n)"
  by (auto simp: child_def put_child_def children_put_get smap_put_get Let_def split: option.splits)

lemma put_child_map [simp]: "handler_method_index_map (put_child i name c n) = handler_method_index_map n"
  by (simp add: put_child_def Let_def)

lemma PathItem_eq_iff: "(it :: PathItem) = it' \<longleftrightarrow> item_index it = item_index it' \<and> item_name it = item_name it'"
  by (cases it; cases it') simp

definition index_or_empty :: "HandlerMethodIndex option \<Rightarrow> HandlerMethodIndex" where
  "index_or_empty i = (case i of Some i \<Rightarrow> i | None \<Rightarrow> empty_method_index)"

lemma index_or_empty_simps [simp]:
  "index_or_empty None = empty_method_index" "index_or_empty (Some i) = i"
  by (simp_all add: index_or_empty_def)

lemma AddPath_entry:
  assumes "AddPath h tp its wcs len n = Inr n'"
  shows "\<exists>idx. HandlerMethodIndex_AddHandler h tp wcs (index_or_empty (entry n its len)) = Inr idx
     \<and> (\<forall>its' len'. entry n' its' len' = (if its' = its \<and> len' = len then Some idx else entry n its' len'))"
  using assms
proof (induction its arbitrary: n n')
  case Nil
  then obtain idx where idx: "HandlerMethodIndex_AddHandler h tp wcs (index_or_empty (entry n [] len)) = Inr idx"
    and n': "n' = Node (node_next n) (smap_put len idx (handler_method_index_map n))"
    by (auto simp: rbind_eq_Inr index_or_empty_def Let_def)
  have "entry n' its' len' = (if its' = [] \<and> len' = len then Some idx else entry n its' len')" for its' len'
    by (cases its') (simp_all add: n' smap_put_get child_def)
  with idx show ?case by blast
next
  case (Cons it its)
  let ?i = "item_index it" and ?nm = "item_name it"
  let ?c = "case child ?i ?nm n of Some c \<Rightarrow> c | None \<Rightarrow> empty_node"
  from Cons.prems obtain c' where c': "AddPath h tp its wcs len ?c = Inr c'" and n': "n' = put_child ?i ?nm c' n"
    by (auto simp: rbind_eq_Inr Let_def)
  from Cons.IH [OF c'] obtain idx where
    idx: "HandlerMethodIndex_AddHandler h tp wcs (index_or_empty (entry ?c its len)) = Inr idx"
    and ent: "\<And>its' len'. entry c' its' len' = (if its' = its \<and> len' = len then Some idx else entry ?c its' len')"
    by blast
  have same: "entry ?c its' len' = entry n (it # its') len'" for its' len'
    by (simp split: option.splits)
  have "entry n' its' len' = (if its' = it # its \<and> len' = len then Some idx else entry n its' len')" for its' len'
  proof (cases its')
    case (Cons it' rest)
    then show ?thesis using ent [of rest len'] same [of rest len']
      by (auto simp: n' child_put_child PathItem_eq_iff split: option.splits)
  qed (simp add: n')
  with idx same show ?case by auto
qed

lemma AddPath_ok:
  "is_ok (AddPath h tp its wcs len n) \<longleftrightarrow>
     is_ok (HandlerMethodIndex_AddHandler h tp wcs (index_or_empty (entry n its len)))"
proof (induction its arbitrary: n)
  case Nil
  show ?case by (auto simp: Let_def index_or_empty_def is_ok_iff rbind_eq_Inr)
next
  case (Cons it its)
  have "is_ok (AddPath h tp (it # its) wcs len n) \<longleftrightarrow>
     is_ok (AddPath h tp its wcs len (case child (item_index it) (item_name it) n of Some c \<Rightarrow> c | None \<Rightarrow> empty_node))"
    by (auto simp: Let_def is_ok_iff rbind_eq_Inr)
  then show ?case by (simp add: Cons.IH split: option.splits)
qed

subsection \<open>The invariant of the trie\<close>

text \<open>
  The maps of every node are sorted by their keys, and the wildcards of a handler
  registered for \<open>len\<close> path elements have positions below \<open>len\<close>.
\<close>

definition args_bound :: "nat \<Rightarrow> HandlerMethodIndex \<Rightarrow> bool" where
  "args_bound len idx \<longleftrightarrow>
     method_index_wf idx \<and> (\<forall>m d. GetHandlerInfoData idx m = Some d \<longrightarrow> (\<forall>w\<in>set (wildcards d). item_index w < len))"

inductive node_wf :: "Node \<Rightarrow> bool" where
  node_wf_intro:
    "\<lbrakk>smap_wf nx; smap_wf hm; \<And>len idx. (len, idx) \<in> set hm \<Longrightarrow> args_bound len idx;
      \<And>i inner name c. (i, inner) \<in> set nx \<Longrightarrow> (name, c) \<in> set inner \<Longrightarrow> node_wf c\<rbrakk>
     \<Longrightarrow> node_wf (Node nx hm)"

inductive_simps node_wf_Node: "node_wf (Node nx hm)"

lemma node_wf_iff:
  "node_wf n \<longleftrightarrow> smap_wf (node_next n) \<and> smap_wf (handler_method_index_map n)
     \<and> (\<forall>(len, idx)\<in>set (handler_method_index_map n). args_bound len idx)
     \<and> (\<forall>(i, inner)\<in>set (node_next n). \<forall>(name, c)\<in>set inner. node_wf c)"
  by (cases n) (auto simp: node_wf_Node)

lemma empty_node_wf [simp]: "node_wf empty_node"
  by (subst node_wf_iff) (simp add: empty_node_def)

lemma args_bound_empty [simp]: "args_bound len empty_method_index"
  by (simp add: args_bound_def)

lemma node_wf_child: "node_wf n \<Longrightarrow> child i name n = Some c \<Longrightarrow> node_wf c"
  by (subst (asm) node_wf_iff) (auto simp: child_def split: option.splits dest!: map_of_SomeD)

lemma child_of_elem: "node_wf n \<Longrightarrow> e \<in> set (node_next n) \<Longrightarrow> child (fst e) name n = map_of (snd e) name"
  by (subst (asm) node_wf_iff) (cases e; auto simp: child_def smap_wf_distinct)

lemma children_put_set: "e \<in> set (children_put k v m) \<Longrightarrow> e = (k, v) \<or> e \<in> set m"
  by (induction m) (auto split: if_splits)

lemma put_child_wf:
  assumes "node_wf n" and "node_wf c"
  shows "node_wf (put_child i name c n)"
proof -
  let ?inner = "case map_of (node_next n) i of None \<Rightarrow> [] | Some inner \<Rightarrow> inner"
  have wf: "smap_wf (node_next n)" "smap_wf (handler_method_index_map n)"
    and hm: "\<forall>(len, idx)\<in>set (handler_method_index_map n). args_bound len idx"
    and nx: "\<forall>(i, inner)\<in>set (node_next n). \<forall>(name, c)\<in>set inner. node_wf c"
    using assms(1) by (simp_all add: node_wf_iff [of n])
  have "node_wf c'" if "(nm, c') \<in> set (children_put name c ?inner)" for nm c'
  proof (cases "map_of (node_next n) i")
    case None
    then show ?thesis using children_put_set [OF that] assms(2) by auto
  next
    case (Some inner)
    then have "(i, inner) \<in> set (node_next n)" by (rule map_of_SomeD)
    then show ?thesis using children_put_set [OF that] assms(2) nx Some by auto
  qed
  moreover have "node_next (put_child i name c n) = smap_put i (children_put name c ?inner) (node_next n)"
    by (simp add: put_child_def Let_def)
  ultimately show ?thesis
    using wf hm nx by (subst node_wf_iff) (auto simp: smap_put_set)
qed

lemma methods_after_cases:
  "methods_after h d before m = Some d' \<Longrightarrow> d' = d \<or> before m = Some d' \<or> before kGet = Some d'"
  by (auto simp: methods_after_def Let_def split: if_splits)

lemma args_bound_AddHandler:
  assumes "args_bound len idx" and "HandlerMethodIndex_AddHandler h tp wcs idx = Inr idx'"
    and "\<forall>w\<in>set wcs. item_index w < len"
  shows "args_bound len idx'"
proof -
  have wf: "method_index_wf idx" using assms(1) by (simp add: args_bound_def)
  note r = HandlerMethodIndex_AddHandler_result [OF wf assms(2)]
  show ?thesis
    using r assms(1,3) unfolding args_bound_def
    by (auto dest!: methods_after_cases simp: registered_data_def)
qed

lemma AddPath_wf:
  assumes "node_wf n" and "AddPath h tp its wcs len n = Inr n'" and "\<forall>w\<in>set wcs. item_index w < len"
  shows "node_wf n'"
  using assms(1,2)
proof (induction its arbitrary: n n')
  case Nil
  then obtain idx where idx: "HandlerMethodIndex_AddHandler h tp wcs (index_or_empty (entry n [] len)) = Inr idx"
    and n': "n' = Node (node_next n) (smap_put len idx (handler_method_index_map n))"
    by (auto simp: rbind_eq_Inr index_or_empty_def Let_def)
  have "args_bound len (index_or_empty (entry n [] len))"
    using Nil.prems(1) by (subst (asm) node_wf_iff)
      (auto simp: index_or_empty_def split: option.splits dest: map_of_SomeD)
  from args_bound_AddHandler [OF this idx assms(3)] have "args_bound len idx" .
  then show ?case using Nil.prems(1) unfolding n' node_wf_iff [of n] node_wf_iff [of "Node _ _"]
    by (auto simp: smap_put_set)
next
  case (Cons it its)
  let ?c = "case child (item_index it) (item_name it) n of Some c \<Rightarrow> c | None \<Rightarrow> empty_node"
  from Cons.prems(2) obtain c' where c': "AddPath h tp its wcs len ?c = Inr c'"
    and n': "n' = put_child (item_index it) (item_name it) c' n"
    by (auto simp: rbind_eq_Inr Let_def)
  have "node_wf ?c" using Cons.prems(1) by (auto split: option.splits intro: node_wf_child)
  from Cons.IH [OF this c'] Cons.prems(1) show ?case by (simp add: n' put_child_wf)
qed


subsection \<open>Matching finds entries of the map\<close>

definition fits :: "PathItem list \<Rightarrow> string list \<Rightarrow> bool" where
  "fits its path \<longleftrightarrow> (\<forall>it\<in>set its. item_index it < length path \<and> path ! item_index it = item_name it)"

lemma fits_simps [simp]:
  "fits [] path"
  "fits (it # its) path \<longleftrightarrow> item_index it < length path \<and> path ! item_index it = item_name it \<and> fits its path"
  by (auto simp: fits_def)

definition arg_values :: "PathItem list \<Rightarrow> string list \<Rightarrow> (string \<times> string) list" where
  "arg_values wcs path = map (\<lambda>w. (item_name w, path ! item_index w)) wcs"

lemma path_args_bound:
  "\<forall>w\<in>set wcs. item_index w < length path \<Longrightarrow> path_args wcs path args = Inr (args @ arg_values wcs path)"
  by (induction wcs arbitrary: args) (auto simp: arg_values_def)

lemma find_by_length_Some:
  assumes "smap_wf hm" and "find_by_length hm n lim = Some idx"
  shows "\<exists>len. map_of hm len = Some idx \<and> len \<le> n \<and> (lim \<longrightarrow> len = n)"
proof (cases lim)
  case False
  let ?below = "takeWhile (\<lambda>e. fst e \<le> n) hm"
  have ne: "?below \<noteq> []" and idx: "idx = snd (last ?below)"
    using assms(2) False by (auto simp: find_by_length_def Let_def split: if_splits)
  then have mem: "last ?below \<in> set ?below" by simp
  then have "fst (last ?below) \<le> n" "last ?below \<in> set hm" by (auto dest: set_takeWhileD)
  then show ?thesis using assms(1) False idx
    by (metis map_of_is_SomeI prod.collapse smap_wf_distinct)
qed (use assms in \<open>auto simp: find_by_length_def\<close>)

text \<open>What a hit of \<open>GetFromHandlerMethodIndex\<close> reports, and that it never throws.\<close>

lemma GetFromHandlerMethodIndex_sound:
  assumes "node_wf n" and "GetFromHandlerMethodIndex n m path res lim = Inr (True, res')"
  shows "\<exists>len idx d. entry n [] len = Some idx \<and> GetHandlerInfoData idx m = Some d \<and> len \<le> length path
     \<and> (lim \<longrightarrow> len = length path)
     \<and> res' = res\<lparr>res_handler_info := Some (handler_info d),
                  args_from_path := args_from_path res @ arg_values (wildcards d) path, res_status := kMatchOk\<rparr>"
proof -
  from assms(2) obtain idx d args where
    find: "find_by_length (handler_method_index_map n) (length path) lim = Some idx"
    and d: "GetHandlerInfoData idx m = Some d" and args: "path_args (wildcards d) path (args_from_path res) = Inr args"
    and res': "res' = res\<lparr>res_handler_info := Some (handler_info d), args_from_path := args, res_status := kMatchOk\<rparr>"
    by (auto simp: GetFromHandlerMethodIndex_def rbind_eq_Inr split: option.splits)
  from find_by_length_Some [OF _ find] obtain len where
    len: "map_of (handler_method_index_map n) len = Some idx" "len \<le> length path" "lim \<longrightarrow> len = length path"
    using assms(1) by (auto simp: node_wf_iff [of n])
  then have "args_bound len idx"
    using assms(1) by (auto simp: node_wf_iff [of n] dest: map_of_SomeD)
  then have "\<forall>w\<in>set (wildcards d). item_index w < length path"
    using d len(2) by (fastforce simp: args_bound_def)
  from path_args_bound [OF this] args len d res' show ?thesis by auto
qed

lemma GetFromHandlerMethodIndex_total:
  assumes "node_wf n"
  shows "is_ok (GetFromHandlerMethodIndex n m path res lim)"
proof (cases "find_by_length (handler_method_index_map n) (length path) lim")
  case (Some idx)
  from find_by_length_Some [OF _ this] obtain len where
    len: "(len, idx) \<in> set (handler_method_index_map n)" "len \<le> length path"
    using assms by (auto simp: node_wf_iff [of n] dest: map_of_SomeD)
  then have "args_bound len idx" using assms by (auto simp: node_wf_iff [of n])
  then have "\<forall>d. GetHandlerInfoData idx m = Some d \<longrightarrow> (\<forall>w\<in>set (wildcards d). item_index w < length path)"
    using len(2) by (fastforce simp: args_bound_def)
  then show ?thesis using Some
    by (auto simp: GetFromHandlerMethodIndex_def path_args_bound split: option.splits)
qed (simp add: GetFromHandlerMethodIndex_def)

lemma match_star_total:
  assumes "node_wf n" and "e \<in> set (node_next n)"
  shows "is_ok (match_star m path e res)"
proof (cases "map_of (snd e) kAnySuffixMark")
  case (Some c)
  then have "node_wf c" using assms by (metis child_of_elem node_wf_child)
  from GetFromHandlerMethodIndex_total [OF this, of m path res False] Some show ?thesis
    by (auto simp: match_star_def is_ok_iff Let_def)
qed (simp add: match_star_def)

lemma first_match_total: "(\<And>x r. x \<in> set xs \<Longrightarrow> is_ok (f x r)) \<Longrightarrow> is_ok (first_match f xs r)"
proof (induction xs arbitrary: r)
  case (Cons x xs)
  then have "is_ok (f x r)" by simp
  then obtain b r1 where "f x r = Inr (b, r1)" by (auto simp: is_ok_iff)
  with Cons show ?case by simp
qed simp

lemma MatchNode_total: "node_wf n \<Longrightarrow> is_ok (MatchNode n m path len res)"
proof (induction n m path len res rule: MatchNode.induct)
  case (1 n m path len res)
  let ?xs = "takeWhile (\<lambda>e. fst e < length path) (node_next n)"
  let ?f = "\<lambda>e res. case map_of (snd e) (path ! fst e) of None \<Rightarrow> Inr (False, res)
            | Some c \<Rightarrow> MatchNode c m path len res"
  have sub: "node_wf c" if "e \<in> set ?xs" "map_of (snd e) nm = Some c" for e nm c
    using that 1(2) by (metis child_of_elem node_wf_child set_takeWhileD)
  have "is_ok (?f e r)" if "e \<in> set ?xs" for e r
    using 1(1) [OF that] sub [OF that] by (auto split: option.splits)
  then have "is_ok (first_match ?f ?xs res)" by (rule first_match_total)
  moreover have "is_ok (first_match (match_star m path) (rev ?xs) r)" for r
    by (rule first_match_total) (auto intro: match_star_total [OF 1(2)] dest: set_takeWhileD)
  moreover have "is_ok (GetFromHandlerMethodIndex n m path r True)" for r
    by (rule GetFromHandlerMethodIndex_total [OF 1(2)])
  ultimately show ?case
    by (subst MatchNode.simps) (auto intro!: is_ok_rbindI)
qed

text \<open>
  A hit in the trie comes from an entry: either all its fixed elements are at their places
  in the request path, which has the registered number of elements, or its last fixed
  element is the suffix mark and the ones before it are at their places.
\<close>

definition exact_hit ::
  "Node \<Rightarrow> HttpMethod \<Rightarrow> string list \<Rightarrow> nat \<Rightarrow> MatchRequestResult \<Rightarrow> MatchRequestResult \<Rightarrow> bool" where
  "exact_hit n m path plen res res' \<longleftrightarrow>
     (\<exists>its idx d. entry n its (length path) = Some idx \<and> GetHandlerInfoData idx m = Some d \<and> fits its path
        \<and> res_handler_info res' = Some (handler_info d) \<and> matched_path_length res' = plen
        \<and> args_from_path res' = args_from_path res @ arg_values (wildcards d) path)"

definition suffix_hit :: "Node \<Rightarrow> HttpMethod \<Rightarrow> string list \<Rightarrow> MatchRequestResult \<Rightarrow> MatchRequestResult \<Rightarrow> bool" where
  "suffix_hit n m path res res' \<longleftrightarrow>
     (\<exists>its i len idx d. entry n (its @ [\<lparr>item_index = i, item_name = kAnySuffixMark\<rparr>]) len = Some idx
        \<and> GetHandlerInfoData idx m = Some d \<and> fits its path \<and> i < length path \<and> len \<le> length path
        \<and> res_handler_info res' = Some (handler_info d)
        \<and> matched_path_length res' = i + sum_list (map length (take i path))
        \<and> args_from_path res' = args_from_path res @ arg_values (wildcards d) path @ map (Pair []) (drop i path))"

lemma exact_hit_child:
  assumes "node_wf n" and "e \<in> set (node_next n)" and "fst e < length path"
    and "map_of (snd e) (path ! fst e) = Some c" and "exact_hit c m path plen res res'"
  shows "exact_hit n m path plen res res'"
proof -
  from assms(5) obtain its idx d where e: "entry c its (length path) = Some idx" "GetHandlerInfoData idx m = Some d"
    "fits its path" "res_handler_info res' = Some (handler_info d)" "matched_path_length res' = plen"
    "args_from_path res' = args_from_path res @ arg_values (wildcards d) path"
    unfolding exact_hit_def by blast
  let ?its = "\<lparr>item_index = fst e, item_name = path ! fst e\<rparr> # its"
  have "entry n ?its (length path) = Some idx" using assms(4) e(1) child_of_elem [OF assms(1,2)] by simp
  moreover have "fits ?its path" using assms(3) e(3) by simp
  ultimately show ?thesis unfolding exact_hit_def using e by blast
qed

lemma suffix_hit_child:
  assumes "node_wf n" and "e \<in> set (node_next n)" and "fst e < length path"
    and "map_of (snd e) (path ! fst e) = Some c" and "suffix_hit c m path res res'"
  shows "suffix_hit n m path res res'"
proof -
  let ?star = "\<lambda>i. \<lparr>item_index = i, item_name = kAnySuffixMark\<rparr>"
  from assms(5) obtain its i len idx d where e: "entry c (its @ [?star i]) len = Some idx"
    "GetHandlerInfoData idx m = Some d" "fits its path" "i < length path" "len \<le> length path"
    "res_handler_info res' = Some (handler_info d)" "matched_path_length res' = i + sum_list (map length (take i path))"
    "args_from_path res' = args_from_path res @ arg_values (wildcards d) path @ map (Pair []) (drop i path)"
    unfolding suffix_hit_def by blast
  let ?its = "\<lparr>item_index = fst e, item_name = path ! fst e\<rparr> # its"
  have "entry n (?its @ [?star i]) len = Some idx" using assms(4) e(1) child_of_elem [OF assms(1,2)] by simp
  moreover have "fits ?its path" using assms(3) e(3) by simp
  ultimately show ?thesis unfolding suffix_hit_def using e(2,4-8) by blast
qed

lemma hit_after_miss:
  "miss_of res r1 \<Longrightarrow> exact_hit n m path plen r1 res' \<Longrightarrow> exact_hit n m path plen res res'"
  "miss_of res r1 \<Longrightarrow> suffix_hit n m path r1 res' \<Longrightarrow> suffix_hit n m path res res'"
  by (auto simp: miss_of_def exact_hit_def suffix_hit_def)

lemma match_star_sound:
  assumes "node_wf n" and "e \<in> set (node_next n)" and "fst e < length path"
    and "match_star m path e res = Inr (True, res')"
  shows "suffix_hit n m path res res'"
proof -
  from assms(4) obtain c r1 where c: "map_of (snd e) kAnySuffixMark = Some c"
    and r1: "GetFromHandlerMethodIndex c m path res False = Inr (True, r1)"
    and res': "res' = r1\<lparr>matched_path_length := fst e + sum_list (map length (take (fst e) path)),
        args_from_path := args_from_path r1 @ map (Pair []) (drop (fst e) path)\<rparr>"
    by (auto simp: match_star_def rbind_eq_Inr Let_def split: option.splits if_splits)
  have ch: "child (fst e) kAnySuffixMark n = Some c" using child_of_elem [OF assms(1,2)] c by simp
  then have "node_wf c" by (rule node_wf_child [OF assms(1)])
  from GetFromHandlerMethodIndex_sound [OF this r1] obtain len idx d where
    d: "entry c [] len = Some idx" "GetHandlerInfoData idx m = Some d" "len \<le> length path"
    "r1 = res\<lparr>res_handler_info := Some (handler_info d),
        args_from_path := args_from_path res @ arg_values (wildcards d) path, res_status := kMatchOk\<rparr>" by blast
  have "entry n ([] @ [\<lparr>item_index = fst e, item_name = kAnySuffixMark\<rparr>]) len = Some idx"
    using ch d(1) by simp
  with d assms(3) res' show ?thesis unfolding suffix_hit_def
    by (intro exI [of _ "[]"] exI [of _ "fst e"] exI [of _ len] exI [of _ idx] exI [of _ d]) simp
qed

lemma MatchNode_sound:
  "MatchNode n m path plen res = Inr (True, res') \<Longrightarrow> node_wf n \<Longrightarrow>
     exact_hit n m path plen res res' \<or> suffix_hit n m path res res'"
proof (induction n m path plen res arbitrary: res' rule: MatchNode.induct)
  case (1 n m path plen res)
  let ?xs = "takeWhile (\<lambda>e. fst e < length path) (node_next n)"
  let ?f = "\<lambda>e res. case map_of (snd e) (path ! fst e) of None \<Rightarrow> Inr (False, res)
            | Some c \<Rightarrow> MatchNode c m path plen res"
  note IH = 1(1) and wf = 1(3)
  have f_miss: "?f e r = Inr (False, r') \<Longrightarrow> miss_of r r'" for e r r'
    by (auto split: option.splits dest: MatchNode_miss)
  from 1(2) consider "first_match ?f ?xs res = Inr (True, res')"
    | r1 r2 where "first_match ?f ?xs res = Inr (False, r1)" "GetFromHandlerMethodIndex n m path r1 True = Inr (True, r2)"
        "res' = r2\<lparr>matched_path_length := plen\<rparr>"
    | r1 r2 where "first_match ?f ?xs res = Inr (False, r1)" "GetFromHandlerMethodIndex n m path r1 True = Inr (False, r2)"
        "first_match (match_star m path) (rev ?xs) r2 = Inr (True, res')"
    by (subst (asm) MatchNode.simps) (auto simp: rbind_eq_Inr split: if_splits)
  then show ?case
  proof cases
    case 1
    then have "\<exists>e\<in>set ?xs. \<exists>r1. miss_of res r1 \<and> ?f e r1 = Inr (True, res')"
      by (rule first_match_hit) (rule f_miss)
    then obtain e r1 c where e: "e \<in> set ?xs" "miss_of res r1" "map_of (snd e) (path ! fst e) = Some c"
      and c: "MatchNode c m path plen r1 = Inr (True, res')"
      by (auto split: option.splits)
    then have mem: "e \<in> set (node_next n)" "fst e < length path" by (auto dest: set_takeWhileD)
    then have "node_wf c" using wf e(3) by (metis child_of_elem node_wf_child)
    from IH [OF e(1) e(3) c this] show ?thesis
      using exact_hit_child [OF wf mem e(3)] suffix_hit_child [OF wf mem e(3)] hit_after_miss [OF e(2)] by blast
  next
    case 2
    have "miss_of res r1" by (rule first_match_miss [OF _ 2(1)]) (rule f_miss)
    moreover from GetFromHandlerMethodIndex_sound [OF wf 2(2)] have "exact_hit n m path plen r1 res'"
      unfolding exact_hit_def 2(3) by (auto intro!: exI [of _ "[]"])
    ultimately show ?thesis using hit_after_miss by blast
  next
    case 3
    then have "\<exists>e\<in>set (rev ?xs). \<exists>r3. miss_of r2 r3 \<and> match_star m path e r3 = Inr (True, res')"
      by (intro first_match_hit) (auto intro: match_star_miss)
    then obtain e r3 where e: "e \<in> set ?xs" "miss_of r2 r3" "match_star m path e r3 = Inr (True, res')" by auto
    then have "suffix_hit n m path r3 res'"
      by (intro match_star_sound [OF wf]) (auto dest: set_takeWhileD)
    moreover have "miss_of res r1" by (rule first_match_miss [OF _ 3(1)]) (rule f_miss)
    moreover have "miss_of r1 r2" using 3(2) by (rule GetFromHandlerMethodIndex_miss)
    ultimately show ?thesis using hit_after_miss(2) e(2) miss_of_trans by blast
  qed
qed

text \<open>
  Conversely an entry whose fixed elements are at their places makes the match succeed,
  whatever else is registered and whichever alternative is tried first.
\<close>

lemma first_match_found:
  assumes "\<And>x r. x \<in> set xs \<Longrightarrow> is_ok (f x r)" and "x \<in> set xs"
    and "\<And>r. \<exists>r'. f x r = Inr (True, r')"
  shows "\<exists>r'. first_match f xs r = Inr (True, r')"
  using assms(1,2)
proof (induction xs arbitrary: r)
  case (Cons y ys)
  then have "is_ok (f y r)" by simp
  then obtain b r1 where y: "f y r = Inr (b, r1)" by (auto simp: is_ok_iff)
  show ?case
  proof (cases b)
    case False
    then have "x \<noteq> y" using y assms(3) [of r] by auto
    then show ?thesis using Cons y False by auto
  qed (simp add: y)
qed simp

lemma takeWhile_smap: "smap_wf xs \<Longrightarrow> e \<in> set xs \<Longrightarrow> fst e < (k :: nat) \<Longrightarrow> e \<in> set (takeWhile (\<lambda>e. fst e < k) xs)"
  by (induction xs) (auto dest: order.strict_trans)

lemma child_Some_elem:
  assumes "child i name n = Some c"
  shows "\<exists>e\<in>set (node_next n). fst e = i \<and> map_of (snd e) name = Some c"
proof -
  from assms obtain inner where "map_of (node_next n) i = Some inner" "map_of inner name = Some c"
    by (auto simp: child_def split: option.splits)
  then show ?thesis by (intro bexI [of _ "(i, inner)"]) (auto dest: map_of_SomeD)
qed

lemma GetFromHandlerMethodIndex_found:
  assumes "node_wf n" and "entry n [] (length path) = Some idx" and "GetHandlerInfoData idx m \<noteq> None"
  shows "\<exists>r'. GetFromHandlerMethodIndex n m path r True = Inr (True, r')"
  using GetFromHandlerMethodIndex_total [OF assms(1), of m path r True] assms(2,3)
  by (auto simp: GetFromHandlerMethodIndex_def find_by_length_def is_ok_iff rbind_eq_Inr split: option.splits)

lemma MatchNode_complete:
  "node_wf n \<Longrightarrow> entry n its (length path) = Some idx \<Longrightarrow> GetHandlerInfoData idx m \<noteq> None \<Longrightarrow> fits its path
    \<Longrightarrow> \<exists>res'. MatchNode n m path plen res = Inr (True, res')"
proof (induction its arbitrary: n res)
  case Nil
  let ?xs = "takeWhile (\<lambda>e. fst e < length path) (node_next n)"
  let ?f = "\<lambda>e res. case map_of (snd e) (path ! fst e) of None \<Rightarrow> Inr (False, res)
            | Some c \<Rightarrow> MatchNode c m path plen res"
  have "is_ok (?f e r)" if "e \<in> set ?xs" for e r
    using that Nil.prems(1) by (auto split: option.splits dest!: set_takeWhileD)
      (metis MatchNode_total child_of_elem node_wf_child)
  then have "is_ok (first_match ?f ?xs res)" by (rule first_match_total)
  then obtain b r1 where r1: "first_match ?f ?xs res = Inr (b, r1)" by (auto simp: is_ok_iff)
  from GetFromHandlerMethodIndex_found [OF Nil.prems(1-3), of r1] r1 show ?case
    by (subst MatchNode.simps) auto
next
  case (Cons it its)
  let ?xs = "takeWhile (\<lambda>e. fst e < length path) (node_next n)"
  let ?f = "\<lambda>e res. case map_of (snd e) (path ! fst e) of None \<Rightarrow> Inr (False, res)
            | Some c \<Rightarrow> MatchNode c m path plen res"
  from Cons.prems(2) obtain c where c: "child (item_index it) (item_name it) n = Some c"
    and ent: "entry c its (length path) = Some idx" by (auto split: option.splits)
  from child_Some_elem [OF c] obtain e where e: "e \<in> set (node_next n)" "fst e = item_index it"
    "map_of (snd e) (item_name it) = Some c" by blast
  have ok: "is_ok (?f e r)" if "e \<in> set ?xs" for e r
    using that Cons.prems(1) by (auto split: option.splits dest!: set_takeWhileD)
      (metis MatchNode_total child_of_elem node_wf_child)
  have "smap_wf (node_next n)" using Cons.prems(1) by (simp add: node_wf_iff [of n])
  then have mem: "e \<in> set ?xs" using e Cons.prems(4) by (intro takeWhile_smap) auto
  have hit: "\<exists>r'. ?f e r = Inr (True, r')" for r
    using e Cons.IH [OF node_wf_child [OF Cons.prems(1) c] ent Cons.prems(3)] Cons.prems(4) by simp
  have "\<exists>r'. first_match ?f ?xs res = Inr (True, r')" 
    by (rule first_match_found [where f = ?f and xs = ?xs and x = e]) (erule ok, rule mem, rule hit)
  then show ?case
    by (subst MatchNode.simps) auto
qed

end
