(* ===== verification/Routing_Correct.thy ===== *)
theory Routing_Correct
  imports Path_Trie
begin

section \<open>Correctness of the handler index\<close>

text \<open>
  The states of \<open>HandlerInfoIndex\<close> that registration can reach, the invariant that ties the
  two path indices to the list of registered handlers, and the properties of routing: it
  never throws, every handler it returns is registered for the method and for a path that
  fits the request, and a request that fits a registered path gets a handler.
\<close>

subsection \<open>Which request paths a registered path stands for\<close>

definition fixed_path :: "string \<Rightarrow> bool" where
  "fixed_path path \<longleftrightarrow> \<not> HasWildcardSpecificSymbols path \<and> (path = [] \<or> last path \<noteq> CHR ''*'')"

definition path_variants :: "Handler \<Rightarrow> string list" where
  "path_variants h =
     (let path = path_text h in
      path # (if hc_url_trailing_slash (GetConfig h) = kBoth \<and> path \<noteq> [] then
                (if last path = CHR ''/'' then (if 1 < length path then [butlast path] else [])
                 else if last path = CHR ''*'' then [butlast (butlast path)]
                 else [path @ ''/''])
              else []))"

definition elem_fits :: "string \<Rightarrow> string \<Rightarrow> bool" where
  "elem_fits pe re \<longleftrightarrow> HasWildcardSpecificSymbols pe \<or> pe = re"

definition exact_fits :: "string \<Rightarrow> string \<Rightarrow> bool" where
  "exact_fits p path \<longleftrightarrow> list_all2 elem_fits (SplitBySlash p) (SplitBySlash path)"

definition suffix_fits_at :: "nat \<Rightarrow> string list \<Rightarrow> string list \<Rightarrow> bool" where
  "suffix_fits_at i ps rs \<longleftrightarrow>
     i < length ps \<and> ps ! i = kAnySuffixMark \<and> length ps \<le> length rs
     \<and> list_all2 elem_fits (take i ps) (take i rs) \<and> list_all HasWildcardSpecificSymbols (drop (Suc i) ps)"

definition pattern_args :: "string list \<Rightarrow> string list \<Rightarrow> (string \<times> string) list" where
  "pattern_args ps rs =
     map (\<lambda>(pe, re). (butlast (tl pe), re)) (filter (\<lambda>(pe, re). HasWildcardSpecificSymbols pe) (zip ps rs))"

definition serves :: "Handler \<Rightarrow> HttpMethod \<Rightarrow> bool" where
  "serves h m \<longleftrightarrow> m \<in> set (GetAllowedMethods h) \<or> m = kHead \<and> kGet \<in> set (GetAllowedMethods h)"

text \<open>The items that the source extracts from a registered path.\<close>

lemma split_path_items_fixed:
  "split_path_items i es names = Inr (fixed, wcs) \<Longrightarrow>
     fixed = map (\<lambda>(j, e). \<lparr>item_index = j, item_name = e\<rparr>)
       (filter (\<lambda>(j, e). \<not> HasWildcardSpecificSymbols e) (enumerate i es))"
  by (induction es arbitrary: i names fixed wcs)
     (auto simp: rbind_eq_Inr split: if_splits)

lemma ExtractWildcardName_result:
  assumes "ExtractWildcardName e = Inr name"
  shows "name = butlast (tl e)"
proof -
  have "e \<noteq> []" using assms by (auto simp: ExtractWildcardName_def split: if_splits)
  then show ?thesis using assms
    by (cases e) (auto simp: ExtractWildcardName_def substr_def butlast_conv_take split: if_splits)
qed

lemma split_path_items_wildcards:
  "split_path_items i es names = Inr (fixed, wcs) \<Longrightarrow>
     wcs = map (\<lambda>(j, e). \<lparr>item_index = j, item_name = butlast (tl e)\<rparr>)
       (filter (\<lambda>(j, e). HasWildcardSpecificSymbols e) (enumerate i es))"
  by (induction es arbitrary: i names fixed wcs)
     (auto simp: rbind_eq_Inr split: if_splits dest: ExtractWildcardName_result)

lemma split_path_items_length:
  "split_path_items i es names = Inr (fixed, wcs) \<Longrightarrow> length fixed + length wcs = length es"
  by (induction es arbitrary: i names fixed wcs)
     (fastforce simp: rbind_eq_Inr split: if_splits)+

lemma split_items_mem:
  assumes "split_path_items 0 es [] = Inr (fixed, wcs)"
  shows "it \<in> set fixed \<longleftrightarrow>
     item_index it < length es \<and> item_name it = es ! item_index it \<and> \<not> HasWildcardSpecificSymbols (es ! item_index it)"
    and "w \<in> set wcs \<Longrightarrow> item_index w < length es"
  unfolding split_path_items_fixed [OF assms] split_path_items_wildcards [OF assms]
  by (cases it) (auto simp: in_set_enumerate_eq image_iff)

lemma split_items_sorted:
  assumes "split_path_items 0 es [] = Inr (fixed, wcs)"
  shows "sorted_wrt (<) (map item_index fixed)"
proof -
  have "sorted_wrt (<) (map fst (enumerate 0 es))" by simp
  then have "sorted_wrt (\<lambda>a b. fst a < fst b) (enumerate 0 es)" by (simp only: sorted_wrt_map)
  then have "sorted_wrt (\<lambda>a b. fst a < fst b) (filter (\<lambda>(j, e). \<not> HasWildcardSpecificSymbols e) (enumerate 0 es))"
    by (rule sorted_wrt_filter)
  then show ?thesis unfolding split_path_items_fixed [OF assms]
    by (simp add: sorted_wrt_map case_prod_beta)
qed

lemma fits_exact_iff:
  assumes "split_path_items 0 es [] = Inr (fixed, wcs)" and "length rs = length es"
  shows "fits fixed rs \<longleftrightarrow> list_all2 elem_fits es rs"
proof -
  have "fits fixed rs \<longleftrightarrow> (\<forall>i<length es. \<not> HasWildcardSpecificSymbols (es ! i) \<longrightarrow> rs ! i = es ! i)"
  proof
    assume l: "fits fixed rs"
    show "\<forall>i<length es. \<not> HasWildcardSpecificSymbols (es ! i) \<longrightarrow> rs ! i = es ! i"
      using l split_items_mem(1) [OF assms(1), of "\<lparr>item_index = i, item_name = es ! i\<rparr>" for i]
      by (fastforce simp: fits_def)
  qed (simp add: fits_def split_items_mem(1) [OF assms(1)] assms(2))
  then show ?thesis using assms(2) by (auto simp: list_all2_conv_all_nth elem_fits_def)
qed

lemma fits_suffix:
  assumes s: "split_path_items 0 es [] = Inr (its @ [\<lparr>item_index = i, item_name = kAnySuffixMark\<rparr>], wcs)"
    and "fits its rs" and "length es \<le> length rs"
  shows "suffix_fits_at i es rs"
proof -
  let ?star = "\<lparr>item_index = i, item_name = kAnySuffixMark\<rparr>"
  note mem = split_items_mem(1) [OF s]
  have i: "i < length es" "es ! i = kAnySuffixMark" using mem [of ?star] by simp_all
  have below: "\<forall>it\<in>set its. item_index it < i"
    using split_items_sorted [OF s] by (simp add: sorted_wrt_append)
  have item: "\<lparr>item_index = j, item_name = es ! j\<rparr> \<in> set its"
    if "j < length es" "j \<noteq> i" "\<not> HasWildcardSpecificSymbols (es ! j)" for j
    using mem [of "\<lparr>item_index = j, item_name = es ! j\<rparr>"] that by simp
  have "elem_fits (es ! j) (rs ! j)" if "j < i" for j
    using item [of j] that i(1) assms(2) by (fastforce simp: elem_fits_def fits_def)
  moreover have "HasWildcardSpecificSymbols (es ! j)" if "i < j" "j < length es" for j
    using item [of j] that below by fastforce
  ultimately show ?thesis using i assms(3)
    by (auto simp: suffix_fits_at_def list_all2_conv_all_nth list_all_length)
qed

lemma arg_values_pattern:
  assumes "split_path_items 0 es [] = Inr (fixed, wcs)" and "length es \<le> length rs"
  shows "arg_values wcs rs = pattern_args es rs"
proof -
  have "map (\<lambda>w. (item_name w, (pre @ rs) ! item_index w))
      (map (\<lambda>(j, e). \<lparr>item_index = j, item_name = butlast (tl e)\<rparr>)
        (filter (\<lambda>(j, e). HasWildcardSpecificSymbols e) (enumerate (length pre) es))) = pattern_args es rs"
    if "length es \<le> length rs" for pre :: "string list"
    using that
  proof (induction es arbitrary: pre rs)
    case (Cons e es)
    then obtain r rs' where rs: "rs = r # rs'" by (cases rs) auto
    from Cons.IH [of rs' "pre @ [r]"] Cons.prems show ?case
      by (auto simp: rs pattern_args_def nth_append)
  qed (simp add: pattern_args_def)
  from this [of "[]"] assms show ?thesis
    by (simp add: arg_values_def split_path_items_wildcards [OF assms(1)])
qed

subsection \<open>What one registration changes\<close>

definition lookup_fixed :: "FixedPathIndex \<Rightarrow> string \<Rightarrow> HttpMethod \<Rightarrow> HandlerInfoData option" where
  "lookup_fixed fi p m = GetHandlerInfoData (index_or_empty (fixed_map fi p)) m"

definition lookup_trie :: "Node \<Rightarrow> PathItem list \<Rightarrow> nat \<Rightarrow> HttpMethod \<Rightarrow> HandlerInfoData option" where
  "lookup_trie n its len m = GetHandlerInfoData (index_or_empty (entry n its len)) m"

definition fixed_wf :: "FixedPathIndex \<Rightarrow> bool" where
  "fixed_wf fi \<longleftrightarrow> (\<forall>p. method_index_wf (index_or_empty (fixed_map fi p)))"

lemma registration_keeps:
  assumes "method_index_wf idx" and "HandlerMethodIndex_AddHandler h tp wcs idx = Inr idx'"
    and "GetHandlerInfoData idx m = Some d"
  shows "GetHandlerInfoData idx' m = Some d"
proof -
  have "is_ok (HandlerMethodIndex_AddHandler h tp wcs idx)" using assms(2) by simp
  then have "m \<notin> set (GetAllowedMethods h)"
    using HandlerMethodIndex_AddHandler_ok [OF assms(1)] assms(3) by auto
  then show ?thesis
    using HandlerMethodIndex_AddHandler_result(2) [OF assms(1,2), of m] assms(3)
    by (auto simp: methods_after_def Let_def)
qed

lemma registration_adds:
  assumes "method_index_wf idx" and "HandlerMethodIndex_AddHandler h tp wcs idx = Inr idx'"
    and "m \<in> set (GetAllowedMethods h)"
  shows "GetHandlerInfoData idx' m = Some (registered_data h tp wcs)"
  using HandlerMethodIndex_AddHandler_result(2) [OF assms(1,2), of m] assms(3)
  by (auto simp: methods_after_def Let_def)

lemma registration_source:
  assumes "method_index_wf idx" and "HandlerMethodIndex_AddHandler h tp wcs idx = Inr idx'"
    and "GetHandlerInfoData idx' m = Some d"
  shows "GetHandlerInfoData idx m = Some d \<or> m = kHead \<and> GetHandlerInfoData idx kGet = Some d
     \<or> serves h m \<and> d = registered_data h tp wcs"
  using HandlerMethodIndex_AddHandler_result(2) [OF assms(1,2), of m] assms(3)
  by (auto simp: methods_after_def Let_def serves_def split: if_splits)

lemma FixedPathIndex_AddPath_result:
  assumes "fixed_wf fi" and "FixedPathIndex_AddPath p h tp fi = Inr fi'"
  shows "fixed_wf fi'"
    and "lookup_fixed fi q m = Some d \<Longrightarrow> lookup_fixed fi' q m = Some d"
    and "m \<in> set (GetAllowedMethods h) \<Longrightarrow> lookup_fixed fi' p m = Some (registered_data h tp [])"
    and "lookup_fixed fi' q m = Some d \<Longrightarrow> lookup_fixed fi q m = Some d
        \<or> q = p \<and> (m = kHead \<and> lookup_fixed fi q kGet = Some d \<or> serves h m \<and> d = registered_data h tp [])"
proof -
  let ?idx = "index_or_empty (fixed_map fi p)"
  from assms(2) obtain idx' where add: "HandlerMethodIndex_AddHandler h tp [] ?idx = Inr idx'"
    and fi': "fi' = fi\<lparr>fixed_map := (fixed_map fi)(p \<mapsto> idx')\<rparr>"
    by (auto simp: FixedPathIndex_AddPath_def Let_def rbind_eq_Inr index_or_empty_def split: if_splits)
  have wf: "method_index_wf ?idx" using assms(1) by (simp add: fixed_wf_def)
  show "fixed_wf fi'"
    using assms(1) HandlerMethodIndex_AddHandler_result(1) [OF wf add] by (simp add: fixed_wf_def fi')
  show "lookup_fixed fi' q m = Some d" if "lookup_fixed fi q m = Some d"
    using that registration_keeps [OF wf add, of m d] by (auto simp: lookup_fixed_def fi')
  show "lookup_fixed fi' p m = Some (registered_data h tp [])" if "m \<in> set (GetAllowedMethods h)"
    using registration_adds [OF wf add that] by (simp add: lookup_fixed_def fi')
  show "lookup_fixed fi q m = Some d
        \<or> q = p \<and> (m = kHead \<and> lookup_fixed fi q kGet = Some d \<or> serves h m \<and> d = registered_data h tp [])"
    if "lookup_fixed fi' q m = Some d"
    using that registration_source [OF wf add, of m d]
    by (auto simp: lookup_fixed_def fi' split: if_splits)
qed

lemma entry_args_bound:
  "node_wf n \<Longrightarrow> args_bound len (index_or_empty (entry n its len))"
proof (induction its arbitrary: n)
  case Nil
  then show ?case by (subst (asm) node_wf_iff) (auto simp: index_or_empty_def split: option.splits dest: map_of_SomeD)
next
  case (Cons it its)
  then show ?case by (auto split: option.splits dest: node_wf_child)
qed

lemma AddPath_result:
  assumes "node_wf n" and "AddPath h tp its wcs len n = Inr n'"
  shows "lookup_trie n jts k m = Some d \<Longrightarrow> lookup_trie n' jts k m = Some d"
    and "m \<in> set (GetAllowedMethods h) \<Longrightarrow> lookup_trie n' its len m = Some (registered_data h tp wcs)"
    and "lookup_trie n' jts k m = Some d \<Longrightarrow> lookup_trie n jts k m = Some d
        \<or> jts = its \<and> k = len \<and> (m = kHead \<and> lookup_trie n jts k kGet = Some d \<or> serves h m \<and> d = registered_data h tp wcs)"
proof -
  from AddPath_entry [OF assms(2)] obtain idx where
    add: "HandlerMethodIndex_AddHandler h tp wcs (index_or_empty (entry n its len)) = Inr idx"
    and ent: "\<And>jts k. entry n' jts k = (if jts = its \<and> k = len then Some idx else entry n jts k)" by blast
  have wf: "method_index_wf (index_or_empty (entry n its len))"
    using entry_args_bound [OF assms(1)] by (simp add: args_bound_def)
  show "lookup_trie n' jts k m = Some d" if "lookup_trie n jts k m = Some d"
    using that registration_keeps [OF wf add, of m d] by (auto simp: lookup_trie_def ent)
  show "lookup_trie n' its len m = Some (registered_data h tp wcs)" if "m \<in> set (GetAllowedMethods h)"
    using registration_adds [OF wf add that] by (simp add: lookup_trie_def ent)
  show "lookup_trie n jts k m = Some d
        \<or> jts = its \<and> k = len \<and> (m = kHead \<and> lookup_trie n jts k kGet = Some d \<or> serves h m \<and> d = registered_data h tp wcs)"
    if "lookup_trie n' jts k m = Some d"
    using that registration_source [OF wf add, of m d]
    by (auto simp: lookup_trie_def ent split: if_splits)
qed

subsection \<open>Registration adds every variant of the path\<close>

lemma take_last_butlast: "take (length path - Suc 0) path = butlast path"
  by (simp add: butlast_conv_take)

lemma take_last_two: "take (length path - 2) path = butlast (butlast path)"
  by (simp add: butlast_conv_take take_butlast numeral_2_eq_2)

lemma fixed_AddHandler_variants:
  assumes "fixed_path (path_text h)" and "FixedPathIndex_AddHandler h tp fi = Inr fi'"
  shows "foldr_result (\<lambda>p. FixedPathIndex_AddPath p h tp) (path_variants h) fi = Inr fi'"
  using assms
  by (auto simp: FixedPathIndex_AddHandler_def path_variants_def fixed_path_def Let_def rbind_eq_Inr
      take_last_butlast split: if_splits)

lemma wildcard_AddHandler_variants:
  assumes "WildcardPathIndex_AddHandler h tp wi = Inr wi'"
  shows "foldr_result (\<lambda>p. WildcardPathIndex_AddPath p h tp) (path_variants h) wi = Inr wi'"
  using assms
  by (auto simp: WildcardPathIndex_AddHandler_def path_variants_def Let_def rbind_eq_Inr
      take_last_butlast take_last_two split: if_splits)

text \<open>A loop that establishes a fact for its element and keeps the facts of the others.\<close>

lemma foldr_result_all:
  assumes "\<And>x s s'. x \<in> set xs \<Longrightarrow> I s \<Longrightarrow> f x s = Inr s' \<Longrightarrow>
      I s' \<and> (\<forall>k. E x k \<longrightarrow> P k s') \<and> (\<forall>k. P k s \<longrightarrow> P k s')"
    and "I s" and "foldr_result f xs s = Inr s'"
  shows "I s' \<and> (\<forall>x\<in>set xs. \<forall>k. E x k \<longrightarrow> P k s') \<and> (\<forall>k. P k s \<longrightarrow> P k s')"
  using assms
proof (induction xs arbitrary: s)
  case (Cons x xs)
  from Cons.prems(3) obtain s1 where s1: "f x s = Inr s1" "foldr_result f xs s1 = Inr s'"
    by (auto simp: rbind_eq_Inr)
  have 1: "I s1 \<and> (\<forall>k. E x k \<longrightarrow> P k s1) \<and> (\<forall>k. P k s \<longrightarrow> P k s1)"
    using Cons.prems(1) [of x s s1] Cons.prems(2) s1(1) by simp
  then have "I s' \<and> (\<forall>x\<in>set xs. \<forall>k. E x k \<longrightarrow> P k s') \<and> (\<forall>k. P k s1 \<longrightarrow> P k s')"
    using s1(2) by (intro Cons.IH; (elim conjE)?) (erule (2) Cons.prems(1) [OF list.set_intros(2)])
  with 1 show ?case by simp
qed simp

subsection \<open>The states registration reaches, and their invariant\<close>

inductive registered :: "HandlerInfoIndex \<Rightarrow> bool" where
  registered_empty: "registered empty_HandlerInfoIndex"
| registered_add: "registered hi \<Longrightarrow> HandlerInfoIndex_AddHandler h tp hi = Inr hi' \<Longrightarrow> registered hi'"
| registered_finish: "registered hi \<Longrightarrow> registered (SetRegistrationFinished hi)"

definition origin :: "Handler list \<Rightarrow> HttpMethod \<Rightarrow> HandlerInfoData \<Rightarrow> string \<Rightarrow> bool" where
  "origin hl m d p \<longleftrightarrow>
     (let h = handler (handler_info d)
      in h \<in> set hl \<and> (\<exists>q. hc_path (GetConfig h) = PathString q) \<and> p \<in> set (path_variants h) \<and> serves h m)"

lemma origin_head: "origin hl kGet d p \<Longrightarrow> origin hl kHead d p"
  by (auto simp: origin_def Let_def serves_def)

lemma origin_more: "origin hl m d p \<Longrightarrow> origin (hl @ hs) m d p"
  by (auto simp: origin_def Let_def)

definition fixed_inv :: "Handler list \<Rightarrow> FixedPathIndex \<Rightarrow> bool" where
  "fixed_inv hl fi \<longleftrightarrow> fixed_wf fi
     \<and> (\<forall>p m d. lookup_fixed fi p m = Some d \<longrightarrow> origin hl m d p \<and> \<not> HasWildcardSpecificSymbols p)"

definition trie_inv :: "Handler list \<Rightarrow> Node \<Rightarrow> bool" where
  "trie_inv hl n \<longleftrightarrow> node_wf n
     \<and> (\<forall>its len m d. lookup_trie n its len m = Some d \<longrightarrow>
          (\<exists>p. origin hl m d p \<and> split_path_items 0 (SplitBySlash p) [] = Inr (its, wildcards d)
             \<and> len = length (SplitBySlash p)))"

text \<open>Where a registered handler is stored for one variant of its path and one method.\<close>

definition stored_fixed :: "Handler \<Rightarrow> HttpMethod \<Rightarrow> string \<Rightarrow> FixedPathIndex \<Rightarrow> bool" where
  "stored_fixed h m p fi \<longleftrightarrow> (\<exists>d. lookup_fixed fi p m = Some d \<and> handler (handler_info d) = h)"

definition stored_trie :: "Handler \<Rightarrow> HttpMethod \<Rightarrow> string \<Rightarrow> Node \<Rightarrow> bool" where
  "stored_trie h m p n \<longleftrightarrow>
     (\<exists>its wcs d. split_path_items 0 (SplitBySlash p) [] = Inr (its, wcs)
        \<and> lookup_trie n its (length (SplitBySlash p)) m = Some d \<and> handler (handler_info d) = h)"

definition stored :: "HandlerInfoIndex \<Rightarrow> Handler \<Rightarrow> bool" where
  "stored hi h \<longleftrightarrow> (\<forall>p\<in>set (path_variants h). \<forall>m\<in>set (GetAllowedMethods h).
     if fixed_path (path_text h) then stored_fixed h m p (fixed_path_index hi)
     else stored_trie h m p (root (wildcard_path_index hi)))"

definition index_inv :: "HandlerInfoIndex \<Rightarrow> bool" where
  "index_inv hi \<longleftrightarrow> fixed_inv (handler_list hi) (fixed_path_index hi)
     \<and> trie_inv (handler_list hi) (root (wildcard_path_index hi))
     \<and> (\<forall>h\<in>set (handler_list hi). (\<exists>q. hc_path (GetConfig h) = PathString q) \<longrightarrow> stored hi h)"

lemma fixed_path_variants:
  "fixed_path (path_text h) \<Longrightarrow> p \<in> set (path_variants h) \<Longrightarrow> \<not> HasWildcardSpecificSymbols p"
  by (auto simp: fixed_path_def path_variants_def HasWildcardSpecificSymbols_def Let_def
      split: if_splits dest: in_set_butlastD)

lemma fixed_AddPath_step:
  assumes "hc_path (GetConfig h) = PathString q" and "fixed_path (path_text h)" and "p \<in> set (path_variants h)"
    and "fixed_inv (hl @ [h]) fi" and "FixedPathIndex_AddPath p h tp fi = Inr fi'"
  shows "fixed_inv (hl @ [h]) fi' \<and> (\<forall>m\<in>set (GetAllowedMethods h). stored_fixed h m p fi')
     \<and> (\<forall>g m q. stored_fixed g m q fi \<longrightarrow> stored_fixed g m q fi')"
proof -
  let ?src = "\<lambda>q m d. origin (hl @ [h]) m d q \<and> \<not> HasWildcardSpecificSymbols q"
  have wf: "fixed_wf fi" and src: "\<And>p m d. lookup_fixed fi p m = Some d \<Longrightarrow> ?src p m d"
    using assms(4) by (auto simp: fixed_inv_def)
  note r = FixedPathIndex_AddPath_result [OF wf assms(5)]
  have new: "serves h m \<Longrightarrow> ?src p m (registered_data h tp [])" for m
    using assms(1,3) fixed_path_variants [OF assms(2,3)] by (simp add: origin_def registered_data_def)
  have "?src q m d" if "lookup_fixed fi' q m = Some d" for q m d
    using r(4) [OF that] src new origin_head by blast
  then show ?thesis using r(1-3) unfolding fixed_inv_def stored_fixed_def
    by (auto simp: registered_data_def)
qed

lemma WildcardPathIndex_AddPath_Inr:
  assumes "WildcardPathIndex_AddPath p h tp wi = Inr wi'"
  shows "\<exists>its wcs n. split_path_items 0 (SplitBySlash p) [] = Inr (its, wcs)
     \<and> AddPath h tp its wcs (length (SplitBySlash p)) (root wi) = Inr n \<and> wi' = wi\<lparr>root := n\<rparr>"
  using assms by (auto simp: WildcardPathIndex_AddPath_def rbind_eq_Inr split_path_items_length
      split: sum.splits if_splits)

lemma trie_AddPath_step:
  assumes "hc_path (GetConfig h) = PathString q" and "p \<in> set (path_variants h)"
    and "trie_inv (hl @ [h]) (root wi)" and "WildcardPathIndex_AddPath p h tp wi = Inr wi'"
  shows "trie_inv (hl @ [h]) (root wi') \<and> (\<forall>m\<in>set (GetAllowedMethods h). stored_trie h m p (root wi'))
     \<and> (\<forall>g m q. stored_trie g m q (root wi) \<longrightarrow> stored_trie g m q (root wi'))"
proof -
  from WildcardPathIndex_AddPath_Inr [OF assms(4)] obtain its wcs n where
    items: "split_path_items 0 (SplitBySlash p) [] = Inr (its, wcs)"
    and add: "AddPath h tp its wcs (length (SplitBySlash p)) (root wi) = Inr n" and wi': "root wi' = n" by auto
  have wf: "node_wf (root wi)" using assms(3) by (simp add: trie_inv_def)
  note r = AddPath_result [OF wf add]
  let ?src = "\<lambda>its len m d. \<exists>p. origin (hl @ [h]) m d p \<and> split_path_items 0 (SplitBySlash p) [] = Inr (its, wildcards d)
             \<and> len = length (SplitBySlash p)"
  have src: "?src jts k m d" if "lookup_trie (root wi) jts k m = Some d" for jts k m d
    using assms(3) that unfolding trie_inv_def by blast
  have new: "serves h m \<Longrightarrow> ?src its (length (SplitBySlash p)) m (registered_data h tp wcs)" for m
    using assms(1,2) items by (intro exI [of _ p]) (simp add: origin_def registered_data_def)
  have "?src jts k m d" if "lookup_trie n jts k m = Some d" for jts k m d
    using r(3) [OF that] src new origin_head by blast
  moreover have "node_wf n"
    using AddPath_wf [OF wf add] split_items_mem(2) [OF items] by blast
  moreover have "\<forall>m\<in>set (GetAllowedMethods h). stored_trie h m p n"
    using r(2) items by (auto simp: stored_trie_def registered_data_def)
  moreover have "\<forall>g m q. stored_trie g m q (root wi) \<longrightarrow> stored_trie g m q n"
    using r(1) unfolding stored_trie_def by blast
  ultimately show ?thesis unfolding trie_inv_def wi' by blast
qed

text \<open>The steps of registration keep the invariant.\<close>

lemma fixed_AddHandler_step:
  assumes "hc_path (GetConfig h) = PathString q" and "fixed_path (path_text h)"
    and "fixed_inv (hl @ [h]) fi" and "FixedPathIndex_AddHandler h tp fi = Inr fi'"
  shows "fixed_inv (hl @ [h]) fi' \<and> (\<forall>p\<in>set (path_variants h). \<forall>m\<in>set (GetAllowedMethods h). stored_fixed h m p fi')
     \<and> (\<forall>g m q. stored_fixed g m q fi \<longrightarrow> stored_fixed g m q fi')"
proof -
  note loop = fixed_AddHandler_variants [OF assms(2,4)]
  let ?E = "\<lambda>x (g, m, q). g = h \<and> m \<in> set (GetAllowedMethods h) \<and> q = x"
  let ?P = "\<lambda>(g, m, q) f. stored_fixed g m q f"
  note all = foldr_result_all [OF _ _ loop, where I = "fixed_inv (hl @ [h])" and E = ?E and P = ?P]
  have "fixed_inv (hl @ [h]) fi' \<and> (\<forall>x\<in>set (path_variants h). \<forall>k. ?E x k \<longrightarrow> ?P k fi') \<and> (\<forall>k. ?P k fi \<longrightarrow> ?P k fi')"
    by (rule all, drule (2) fixed_AddPath_step [OF assms(1,2)]) (use assms(3) in auto)
  then show ?thesis by simp
qed

lemma trie_AddHandler_step:
  assumes "hc_path (GetConfig h) = PathString q"
    and "trie_inv (hl @ [h]) (root wi)" and "WildcardPathIndex_AddHandler h tp wi = Inr wi'"
  shows "trie_inv (hl @ [h]) (root wi') \<and> (\<forall>p\<in>set (path_variants h). \<forall>m\<in>set (GetAllowedMethods h). stored_trie h m p (root wi'))
     \<and> (\<forall>g m q. stored_trie g m q (root wi) \<longrightarrow> stored_trie g m q (root wi'))"
proof -
  note loop = wildcard_AddHandler_variants [OF assms(3)]
  let ?E = "\<lambda>x (g, m, q). g = h \<and> m \<in> set (GetAllowedMethods h) \<and> q = x"
  let ?P = "\<lambda>(g, m, q) f. stored_trie g m q (root f)"
  note all = foldr_result_all [OF _ _ loop, where I = "\<lambda>w. trie_inv (hl @ [h]) (root w)" and E = ?E and P = ?P]
  have "(\<lambda>w. trie_inv (hl @ [h]) (root w)) wi' \<and> (\<forall>x\<in>set (path_variants h). \<forall>k. ?E x k \<longrightarrow> ?P k wi') \<and> (\<forall>k. ?P k wi \<longrightarrow> ?P k wi')"
    by (rule all, drule (2) trie_AddPath_step [OF assms(1)]) (use assms(2) in auto)
  then show ?thesis by simp
qed

lemma inv_more:
  "fixed_inv hl fi \<Longrightarrow> fixed_inv (hl @ hs) fi"
  "trie_inv hl n \<Longrightarrow> trie_inv (hl @ hs) n"
  by (auto simp: fixed_inv_def trie_inv_def intro: origin_more) (meson origin_more)

lemma index_inv_add_path:
  assumes inv: "index_inv hi" and path: "hc_path (GetConfig h) = PathString q"
    and add: "Impl_AddHandler h tp hi = Inr hi'"
  shows "index_inv hi'"
proof (cases "fixed_path (path_text h)")
  case True
  then obtain fi where fi: "FixedPathIndex_AddHandler h tp (fixed_path_index hi) = Inr fi"
    and hi': "hi' = hi\<lparr>fixed_path_index := fi, handler_list := handler_list hi @ [h]\<rparr>"
    using add by (auto simp: Impl_AddHandler_def fixed_path_def Let_def rbind_eq_Inr split: if_splits)
  have "fixed_inv (handler_list hi @ [h]) (fixed_path_index hi)"
    using inv by (simp add: index_inv_def inv_more)
  note step = fixed_AddHandler_step [OF path True this fi]
  show ?thesis using step inv True unfolding index_inv_def hi' stored_def
    by (simp add: inv_more)
next
  case False
  then obtain wi where wi: "WildcardPathIndex_AddHandler h tp (wildcard_path_index hi) = Inr wi"
    and hi': "hi' = hi\<lparr>wildcard_path_index := wi, handler_list := handler_list hi @ [h]\<rparr>"
    using add by (auto simp: Impl_AddHandler_def fixed_path_def Let_def rbind_eq_Inr split: if_splits)
  have "trie_inv (handler_list hi @ [h]) (root (wildcard_path_index hi))"
    using inv by (simp add: index_inv_def inv_more)
  note step = trie_AddHandler_step [OF path this wi]
  show ?thesis using step inv False unfolding index_inv_def hi' stored_def
    by (simp add: inv_more)
qed

lemma index_inv_add:
  assumes "index_inv hi" and "HandlerInfoIndex_AddHandler h tp hi = Inr hi'"
  shows "index_inv hi'"
proof (cases "hc_path (GetConfig h)")
  case (PathString q)
  with assms show ?thesis by (auto simp: HandlerInfoIndex_AddHandler_def intro: index_inv_add_path)
next
  case (PathFallback fb)
  with assms show ?thesis
    by (auto simp: HandlerInfoIndex_AddHandler_def Impl_SetFallbackHandler_def index_inv_def inv_more stored_def
        split: if_splits)
qed

lemma lookup_empty [simp]:
  "lookup_fixed \<lparr>fixed_map = Map.empty, fixed_writes_disabled = b\<rparr> p m = None"
  "lookup_trie empty_node its len m = None"
  by (simp_all add: lookup_fixed_def lookup_trie_def)

lemma registered_inv: "registered hi \<Longrightarrow> index_inv hi"
proof (induction rule: registered.induct)
  case registered_empty
  show ?case by (simp add: index_inv_def fixed_inv_def trie_inv_def empty_HandlerInfoIndex_def fixed_wf_def)
next
  case (registered_finish hi)
  have "lookup_fixed (fixed_path_index (SetRegistrationFinished hi)) = lookup_fixed (fixed_path_index hi)"
    by (auto simp: SetRegistrationFinished_def lookup_fixed_def fun_eq_iff)
  then have "stored_fixed g m p (fixed_path_index (SetRegistrationFinished hi)) = stored_fixed g m p (fixed_path_index hi)"
    and "fixed_inv hl (fixed_path_index (SetRegistrationFinished hi)) = fixed_inv hl (fixed_path_index hi)" for g m p hl
    by (simp_all only: stored_fixed_def fixed_inv_def) (simp add: SetRegistrationFinished_def fixed_wf_def)
  moreover have "wildcard_path_index (SetRegistrationFinished hi) = (wildcard_path_index hi)\<lparr>root_writes_disabled := True\<rparr>"
    and "handler_list (SetRegistrationFinished hi) = handler_list hi" by (simp_all add: SetRegistrationFinished_def)
  ultimately show ?case using registered_finish.IH by (simp add: index_inv_def stored_def)
qed (rule index_inv_add)

subsection \<open>Routing\<close>

lemma index_inv_wf: "index_inv hi \<Longrightarrow> node_wf (root (wildcard_path_index hi))"
  by (simp add: index_inv_def trie_inv_def)

lemma MatchRequest_total:
  assumes "index_inv hi"
  shows "is_ok (MatchRequest hi m path)"
proof -
  have "is_ok (FixedPathIndex_MatchRequest (fixed_path_index hi) m path r)" for r
    by (simp add: FixedPathIndex_MatchRequest_def split: option.splits)
  then show ?thesis
    using MatchNode_total [OF index_inv_wf [OF assms]]
    by (auto simp: MatchRequest_def WildcardPathIndex_MatchRequest_def intro!: is_ok_rbindI)
qed

definition matched_by :: "string \<Rightarrow> string \<Rightarrow> MatchRequestResult \<Rightarrow> bool" where
  "matched_by p path res \<longleftrightarrow>
     (let ps = SplitBySlash p; rs = SplitBySlash path in
      exact_fits p path \<and> args_from_path res = pattern_args ps rs \<and> matched_path_length res = length path
      \<or> (\<exists>i<length rs. suffix_fits_at i ps rs
          \<and> args_from_path res = pattern_args ps rs @ map (Pair []) (drop i rs)
          \<and> matched_path_length res = i + sum_list (map length (take i rs))))"

lemma FixedPathIndex_MatchRequest_sound:
  assumes "fixed_inv hl fi" and "FixedPathIndex_MatchRequest fi m path initial_match_result = Inr (True, res)"
  shows "\<exists>d. lookup_fixed fi path m = Some d \<and> origin hl m d path \<and> \<not> HasWildcardSpecificSymbols path
     \<and> res = \<lparr>res_handler_info = Some (handler_info d), matched_path_length = length path, res_status = kMatchOk, args_from_path = []\<rparr>"
  using assms
  by (auto simp: FixedPathIndex_MatchRequest_def lookup_fixed_def fixed_inv_def initial_match_result_def
      split: option.splits)

lemma no_wildcards_split:
  "\<not> HasWildcardSpecificSymbols p \<Longrightarrow> e \<in> set (SplitBySlash p) \<Longrightarrow> \<not> HasWildcardSpecificSymbols e"
proof -
  have "set e \<subseteq> set p" if "e \<in> set (split_on sep p)" for e :: string and sep p
    using that
  proof (induction p arbitrary: e)
    case (Cons x xs)
    then show ?case by (fastforce split: if_splits list.splits)
  qed simp
  then show "\<not> HasWildcardSpecificSymbols p \<Longrightarrow> e \<in> set (SplitBySlash p) \<Longrightarrow> \<not> HasWildcardSpecificSymbols e"
    unfolding SplitBySlash_def HasWildcardSpecificSymbols_def by blast
qed

lemma matched_by_fixed:
  assumes "\<not> HasWildcardSpecificSymbols path" and "args_from_path res = []" and "matched_path_length res = length path"
  shows "matched_by path path res"
proof -
  have "pattern_args (SplitBySlash path) (SplitBySlash path) = []"
    using no_wildcards_split [OF assms(1)] by (auto simp: pattern_args_def filter_empty_conv dest: set_zip_leftD)
  then show ?thesis using assms
    by (simp add: matched_by_def exact_fits_def elem_fits_def list_all2_refl)
qed

lemma lookup_trie_entry: "entry n its len = Some idx \<Longrightarrow> lookup_trie n its len m = GetHandlerInfoData idx m"
  by (simp add: lookup_trie_def)

lemma trie_match_sound:
  assumes inv: "trie_inv hl (root wi)" and args: "args_from_path r = []"
    and "WildcardPathIndex_MatchRequest wi m path r = Inr (True, res)"
  shows "\<exists>d p. res_handler_info res = Some (handler_info d) \<and> origin hl m d p \<and> matched_by p path res"
proof -
  let ?rs = "SplitBySlash path"
  have src: "\<exists>p. origin hl m d p \<and> split_path_items 0 (SplitBySlash p) [] = Inr (its, wildcards d) \<and> len = length (SplitBySlash p)"
    if "entry (root wi) its len = Some idx" "GetHandlerInfoData idx m = Some d" for its len idx d
    using inv that lookup_trie_entry [OF that(1), of m] unfolding trie_inv_def by auto
  have "node_wf (root wi)" using inv by (simp add: trie_inv_def)
  from MatchNode_sound [OF assms(3) [unfolded WildcardPathIndex_MatchRequest_def] this] show ?thesis
  proof
    assume "exact_hit (root wi) m ?rs (length path) r res"
    then obtain its idx d where h: "entry (root wi) its (length ?rs) = Some idx" "GetHandlerInfoData idx m = Some d"
      "fits its ?rs" "res_handler_info res = Some (handler_info d)" "matched_path_length res = length path"
      "args_from_path res = arg_values (wildcards d) ?rs" using args by (auto simp: exact_hit_def)
    from src [OF h(1,2)] obtain p where p: "origin hl m d p"
      "split_path_items 0 (SplitBySlash p) [] = Inr (its, wildcards d)" "length ?rs = length (SplitBySlash p)" by blast
    have "matched_by p path res"
      using h fits_exact_iff [OF p(2,3)] arg_values_pattern [OF p(2), of ?rs] p(3)
      by (simp add: matched_by_def exact_fits_def)
    with p(1) h(4) show ?thesis by blast
  next
    assume "suffix_hit (root wi) m ?rs r res"
    then obtain its i len idx d where h: "entry (root wi) (its @ [\<lparr>item_index = i, item_name = kAnySuffixMark\<rparr>]) len = Some idx"
      "GetHandlerInfoData idx m = Some d" "fits its ?rs" "i < length ?rs" "len \<le> length ?rs"
      "res_handler_info res = Some (handler_info d)" "matched_path_length res = i + sum_list (map length (take i ?rs))"
      "args_from_path res = arg_values (wildcards d) ?rs @ map (Pair []) (drop i ?rs)"
      using args by (auto simp: suffix_hit_def)
    from src [OF h(1,2)] obtain p where p: "origin hl m d p" "len = length (SplitBySlash p)"
      "split_path_items 0 (SplitBySlash p) [] = Inr (its @ [\<lparr>item_index = i, item_name = kAnySuffixMark\<rparr>], wildcards d)" by blast
    have "matched_by p path res"
      using h p(2) fits_suffix [OF p(3) h(3)] arg_values_pattern [OF p(3), of ?rs]
      by (auto simp: matched_by_def Let_def)
    with p(1) h(6) show ?thesis by blast
  qed
qed

text \<open>
  However the handlers were registered, a finished match carries a handler exactly when
  its status is \<open>kOk\<close>, so the assertion of \<open>HttpRequestConstructor::ParseUrl\<close> holds; without
  a handler there are no path arguments either.
\<close>

theorem match_status_ok_iff_handler:
  assumes "MatchRequest hi m path = Inr res"
  shows "(res_handler_info res \<noteq> None \<longleftrightarrow> res_status res = kMatchOk)
     \<and> (res_handler_info res = None \<longrightarrow> args_from_path res = [])"
proof -
  from assms obtain found r1 where
    fixed: "FixedPathIndex_MatchRequest (fixed_path_index hi) m path initial_match_result = Inr (found, r1)"
    and rest: "if found then res = r1
       else \<exists>b. WildcardPathIndex_MatchRequest (wildcard_path_index hi) m path r1 = Inr (b, res)"
    by (auto simp: MatchRequest_def rbind_eq_Inr split: if_splits)
  show ?thesis
  proof (cases found)
    case True
    then show ?thesis using fixed_matcher.match_from_initial [OF fixed] rest by auto
  next
    case False
    then obtain b where b: "WildcardPathIndex_MatchRequest (wildcard_path_index hi) m path r1 = Inr (b, res)"
      using rest by auto
    have "miss_of initial_match_result r1" using fixed False fixed_matcher.match_miss by auto
    from wildcard_matcher.match_after_miss [OF b this] show ?thesis by auto
  qed
qed

text \<open>
  Routing never throws: in every state that registration reaches, \<open>MatchRequest\<close>
  returns a result for every method and every path; the \<open>logic_error\<close> of
  \<open>GetFromHandlerMethodIndex\<close> is unreachable.
\<close>

theorem routing_total:
  assumes "registered hi"
  shows "\<exists>res. MatchRequest hi m path = Inr res"
  using MatchRequest_total [OF registered_inv [OF assms]] by (simp add: is_ok_iff)

text \<open>
  (C6) Soundness of routing: a handler that a request is given was registered, it serves the
  method (a \<open>GET\<close> handler also serves \<open>HEAD\<close>), and one of the paths it was registered for
  fits the request path; the path arguments are exactly the elements at the wildcards, plus
  the elements from the suffix mark on.
\<close>

theorem routing_sound:
  assumes "registered hi" and "MatchRequest hi m path = Inr res" and "res_handler_info res = Some info"
  shows "handler info \<in> set (handler_list hi) \<and> serves (handler info) m
     \<and> (\<exists>p\<in>set (path_variants (handler info)). matched_by p path res)"
proof -
  note inv = registered_inv [OF assms(1)]
  from assms(2) obtain found r1 where
    fixed: "FixedPathIndex_MatchRequest (fixed_path_index hi) m path initial_match_result = Inr (found, r1)"
    and rest: "if found then res = r1
       else \<exists>b. WildcardPathIndex_MatchRequest (wildcard_path_index hi) m path r1 = Inr (b, res)"
    by (auto simp: MatchRequest_def rbind_eq_Inr split: if_splits)
  show ?thesis
  proof (cases found)
    case True
    then obtain d where d: "origin (handler_list hi) m d path" "\<not> HasWildcardSpecificSymbols path"
      "r1 = \<lparr>res_handler_info = Some (handler_info d), matched_path_length = length path, res_status = kMatchOk, args_from_path = []\<rparr>"
      using FixedPathIndex_MatchRequest_sound inv fixed unfolding index_inv_def by metis
    then have "matched_by path path res" using rest True by (intro matched_by_fixed) auto
    then show ?thesis using d rest True assms(3) by (auto simp: origin_def Let_def)
  next
    case False
    then obtain b where b: "WildcardPathIndex_MatchRequest (wildcard_path_index hi) m path r1 = Inr (b, res)"
      using rest by auto
    have miss: "miss_of initial_match_result r1" using fixed False fixed_matcher.match_miss by auto
    then have "b" and "args_from_path r1 = []"
      using wildcard_matcher.match_after_miss [OF b miss] assms(3) by (auto simp: miss_of_def initial_match_result_def)
    with trie_match_sound [of "handler_list hi" _ r1 m path res] b inv obtain d p where
      "res_handler_info res = Some (handler_info d)" "origin (handler_list hi) m d p" "matched_by p path res"
      unfolding index_inv_def by metis
    then show ?thesis using assms(3) by (auto simp: origin_def Let_def)
  qed
qed

lemma exact_fits_fixed:
  assumes "\<not> HasWildcardSpecificSymbols p" and "exact_fits p path"
  shows "p = path"
proof -
  have "list_all2 (=) (SplitBySlash p) (SplitBySlash path)"
    using assms(2) unfolding exact_fits_def
    by (rule list.rel_mono_strong) (use no_wildcards_split [OF assms(1)] in \<open>auto simp: elem_fits_def\<close>)
  then show ?thesis by (metis SplitBySlash_def join_split_on list.rel_eq)
qed

lemma fixed_match_complete:
  assumes "lookup_fixed fi path m = Some d"
  shows "\<exists>res. FixedPathIndex_MatchRequest fi m path r = Inr (True, res) \<and> res_handler_info res = Some (handler_info d)"
  using assms by (auto simp: FixedPathIndex_MatchRequest_def lookup_fixed_def index_or_empty_def split: option.splits)

lemma trie_match_complete:
  assumes wf: "node_wf (root wi)" and "stored_trie h m p (root wi)" and "exact_fits p path"
  shows "\<exists>res. WildcardPathIndex_MatchRequest wi m path r = Inr (True, res)"
proof -
  let ?rs = "SplitBySlash path"
  from assms(2) obtain its wcs d where items: "split_path_items 0 (SplitBySlash p) [] = Inr (its, wcs)"
    and d: "lookup_trie (root wi) its (length (SplitBySlash p)) m = Some d" by (auto simp: stored_trie_def)
  have len: "length ?rs = length (SplitBySlash p)"
    using assms(3) by (auto simp: exact_fits_def dest: list_all2_lengthD)
  obtain idx where "entry (root wi) its (length ?rs) = Some idx" "GetHandlerInfoData idx m \<noteq> None"
    using d len by (cases "entry (root wi) its (length ?rs)") (auto simp: lookup_trie_def)
  moreover have "fits its ?rs" using fits_exact_iff [OF items len] assms(3) by (simp add: exact_fits_def)
  ultimately show ?thesis
    unfolding WildcardPathIndex_MatchRequest_def using MatchNode_complete [OF wf] by blast
qed

text \<open>
  (C7) Completeness of routing: a request that fits, element by element, a path of a
  registered handler and has one of its methods gets a handler; for a path without
  wildcards it gets that very handler, whatever else is registered.
\<close>

theorem routing_complete:
  assumes "registered hi" and "h \<in> set (handler_list hi)" and "hc_path (GetConfig h) = PathString q"
    and "m \<in> set (GetAllowedMethods h)" and "p \<in> set (path_variants h)" and "exact_fits p path"
  shows "\<exists>res info. MatchRequest hi m path = Inr res \<and> res_handler_info res = Some info
     \<and> (fixed_path (path_text h) \<longrightarrow> handler info = h)"
proof -
  note inv = registered_inv [OF assms(1)]
  then have st: "stored hi h" using assms(2,3) by (auto simp: index_inv_def)
  show ?thesis
  proof (cases "fixed_path (path_text h)")
    case True
    then have "p = path" using fixed_path_variants [OF True assms(5)] assms(6) by (rule_tac exact_fits_fixed)
    then obtain d where "lookup_fixed (fixed_path_index hi) path m = Some d" "handler (handler_info d) = h"
      using st True assms(4,5) by (auto simp: stored_def stored_fixed_def)
    then show ?thesis using fixed_match_complete [of "fixed_path_index hi" path m d initial_match_result]
      by (auto simp: MatchRequest_def)
  next
    case False
    have "is_ok (FixedPathIndex_MatchRequest (fixed_path_index hi) m path initial_match_result)"
      by (simp add: FixedPathIndex_MatchRequest_def split: option.splits)
    then obtain b r1 where r1: "FixedPathIndex_MatchRequest (fixed_path_index hi) m path initial_match_result = Inr (b, r1)"
      by (auto simp: is_ok_iff)
    have "stored_trie h m p (root (wildcard_path_index hi))" using st False assms(4,5) by (simp add: stored_def)
    from trie_match_complete [OF index_inv_wf [OF inv] this assms(6), of r1] obtain res where
      res: "WildcardPathIndex_MatchRequest (wildcard_path_index hi) m path r1 = Inr (True, res)" by blast
    show ?thesis
      using r1 res False fixed_matcher.match_hit [of _ _ _ _ r1] wildcard_matcher.match_hit [OF res]
      by (cases b) (auto simp: MatchRequest_def hit_def)
  qed
qed

text \<open>
  When registration of a handler for a path is refused: exactly when its own list of
  methods has a repetition or another handler of the path already serves one of them.
\<close>

theorem add_handler_ok_iff:
  assumes "method_index_wf idx"
  shows "is_ok (HandlerMethodIndex_AddHandler h tp wcs idx) \<longleftrightarrow>
     distinct (GetAllowedMethods h) \<and> (\<forall>m\<in>set (GetAllowedMethods h). GetHandlerInfoData idx m = None)"
  using assms by (rule HandlerMethodIndex_AddHandler_ok)

text \<open>
  After \<open>SetRegistrationFinished\<close> no handler with a path can be added any more; a
  fallback handler still can, as long as its slot is free.
\<close>

theorem registration_closed:
  "is_ok (HandlerInfoIndex_AddHandler h tp (SetRegistrationFinished hi)) \<longleftrightarrow>
     (\<exists>fb. hc_path (GetConfig h) = PathFallback fb \<and> GetFallbackHandler hi fb = None)"
proof (cases "hc_path (GetConfig h)")
  case (PathString q)
  have "\<not> is_ok (WildcardPathIndex_AddPath p h tp wi)" if "root_writes_disabled wi" for p wi
    using that by (auto simp: WildcardPathIndex_AddPath_def split: sum.splits)
  then have "\<not> is_ok (WildcardPathIndex_AddHandler h tp wi)" if "root_writes_disabled wi" for wi
    using that by (auto simp: WildcardPathIndex_AddHandler_def is_ok_iff rbind_eq_Inr Let_def)
  moreover have "\<not> is_ok (FixedPathIndex_AddHandler h tp fi)" if "fixed_writes_disabled fi" for fi
    using that by (auto simp: FixedPathIndex_AddHandler_def FixedPathIndex_AddPath_def)
  ultimately have "\<not> is_ok (Impl_AddHandler h tp (SetRegistrationFinished hi))"
    by (auto simp: Impl_AddHandler_def SetRegistrationFinished_def is_ok_iff rbind_eq_Inr Let_def)
  then show ?thesis using PathString by (simp add: HandlerInfoIndex_AddHandler_def)
next
  case (PathFallback fb)
  then show ?thesis
    by (auto simp: HandlerInfoIndex_AddHandler_def Impl_SetFallbackHandler_def SetRegistrationFinished_def
        GetFallbackHandler_def)
qed

subsection \<open>An index of concrete handlers\<close>

definition sample_config :: "string \<Rightarrow> UrlTrailingSlashOption \<Rightarrow> HandlerConfig" where
  "sample_config path slash =
     (default_HandlerConfig (PathString path))\<lparr>hc_url_trailing_slash := slash, hc_decompress_request := False\<rparr>"

definition sample_handler :: "string \<Rightarrow> string \<Rightarrow> HttpMethod list \<Rightarrow> Handler" where
  "sample_handler name path methods =
     \<lparr>HandlerName = name, GetConfig = sample_config path kBoth, GetAllowedMethods = methods\<rparr>"

lemmas routing_eval = HandlerInfoIndex_AddHandler_def Impl_AddHandler_def FixedPathIndex_AddHandler_def
  FixedPathIndex_AddPath_def WildcardPathIndex_AddHandler_def WildcardPathIndex_AddPath_def
  HandlerMethodIndex_AddHandler_def AddHandlerInfoData_def sample_handler_def sample_config_def default_HandlerConfig_def path_text_def
  empty_method_index_def

text \<open>
  The two orders of registering a \<open>GET\<close> and a \<open>HEAD\<close> handler for one path: \<open>HEAD\<close> first
  works and keeps both, \<open>GET\<close> first makes the explicit \<open>HEAD\<close> handler a duplicate, because
  the \<open>GET\<close> handler has already been entered under \<open>HEAD\<close>.
\<close>

theorem head_get_order:
  "is_ok (rbind (HandlerInfoIndex_AddHandler (sample_handler ''head'' ''/users'' [kHead]) tp empty_HandlerInfoIndex)
      (HandlerInfoIndex_AddHandler (sample_handler ''get'' ''/users'' [kGet]) tp))
   \<and> \<not> is_ok (rbind (HandlerInfoIndex_AddHandler (sample_handler ''get'' ''/users'' [kGet]) tp empty_HandlerInfoIndex)
      (HandlerInfoIndex_AddHandler (sample_handler ''head'' ''/users'' [kHead]) tp))"
  by (simp add: routing_eval Let_def HasWildcardSpecificSymbols_def empty_HandlerInfoIndex_def)

text \<open>The handlers that the configuration of \<open>user-service\<close> registers.\<close>

definition user_service_handlers :: "Handler list" where
  "user_service_handlers =
     [sample_handler ''tests-control'' ''/tests/{action}'' [kPost],
      sample_handler ''handler-ping'' ''/ping'' [kGet],
      sample_handler ''handler-users'' ''/users'' [kGet, kPost]]"

definition user_service_index :: HandlerInfoIndex where
  "user_service_index =
     (case foldr_result (\<lambda>h. HandlerInfoIndex_AddHandler h ''main-task-processor'') user_service_handlers empty_HandlerInfoIndex of
        Inl _ \<Rightarrow> empty_HandlerInfoIndex | Inr hi \<Rightarrow> hi)"

lemma foldr_registered:
  "registered hi \<Longrightarrow> foldr_result (\<lambda>h. HandlerInfoIndex_AddHandler h tp) hs hi = Inr hi' \<Longrightarrow> registered hi'"
  by (erule foldr_result_invariant [rotated]) (auto intro: registered_add)

lemma registered_user_service: "registered user_service_index"
  by (auto simp: user_service_index_def intro: registered_empty foldr_registered split: sum.splits)

lemmas user_service_eval = user_service_index_def user_service_handlers_def empty_HandlerInfoIndex_def
  routing_eval Let_def HasWildcardSpecificSymbols_def SplitBySlash_def ExtractWildcardName_def substr_def
  empty_node_def child_def put_child_def MatchRequest_def FixedPathIndex_MatchRequest_def
  GetHandlerInfoData_def IsAllowedMethod_def initial_match_result_def WildcardPathIndex_MatchRequest_def
  GetFromHandlerMethodIndex_def find_by_length_def

lemma user_service_handler_list: "handler_list user_service_index = user_service_handlers"
  by (simp add: user_service_eval)

lemma user_service_match_head:
  "MatchRequest user_service_index kHead ''/users/'' =
     Inr \<lparr>res_handler_info = Some \<lparr>task_processor = ''main-task-processor'',
            handler = sample_handler ''handler-users'' ''/users'' [kGet, kPost]\<rparr>,
          matched_path_length = 7, res_status = kMatchOk, args_from_path = []\<rparr>"
  by (simp add: user_service_eval)

lemma user_service_match_wildcard:
  "MatchRequest user_service_index kPost ''/tests/reset'' =
     Inr \<lparr>res_handler_info = Some \<lparr>task_processor = ''main-task-processor'',
            handler = sample_handler ''tests-control'' ''/tests/{action}'' [kPost]\<rparr>,
          matched_path_length = 12, res_status = kMatchOk, args_from_path = [(''action'', ''reset'')]\<rparr>"
  by (simp add: user_service_eval MatchNode.simps)

theorem match_status_ok_iff_handler_witness:
  "\<exists>res. MatchRequest user_service_index kHead ''/users/'' = Inr res
     \<and> (res_handler_info res \<noteq> None \<longleftrightarrow> res_status res = kMatchOk)"
  using match_status_ok_iff_handler [OF user_service_match_head] user_service_match_head by blast

theorem routing_total_witness: "\<exists>res. MatchRequest user_service_index kPut ''/ping'' = Inr res"
  by (rule routing_total [OF registered_user_service])

theorem routing_sound_witness:
  "\<exists>res info. MatchRequest user_service_index kPost ''/tests/reset'' = Inr res \<and> res_handler_info res = Some info
     \<and> (\<exists>p\<in>set (path_variants (handler info)). matched_by p ''/tests/reset'' res)"
  using routing_sound [OF registered_user_service user_service_match_wildcard] user_service_match_wildcard by auto

theorem routing_complete_witness:
  "\<exists>res info. MatchRequest user_service_index kPost ''/tests/tasks'' = Inr res \<and> res_handler_info res = Some info"
proof -
  let ?h = "sample_handler ''tests-control'' ''/tests/{action}'' [kPost]"
  have "?h \<in> set (handler_list user_service_index)"
    by (simp add: user_service_handler_list user_service_handlers_def)
  moreover have "exact_fits ''/tests/{action}'' ''/tests/tasks''"
    by (simp add: exact_fits_def SplitBySlash_def elem_fits_def HasWildcardSpecificSymbols_def)
  ultimately show ?thesis
    using routing_complete [OF registered_user_service, of ?h "''/tests/{action}''" kPost "''/tests/{action}''" "''/tests/tasks''"]
    by (auto simp: sample_handler_def sample_config_def default_HandlerConfig_def path_variants_def path_text_def)
qed

theorem add_handler_ok_iff_witness:
  "is_ok (HandlerMethodIndex_AddHandler (sample_handler ''handler-users'' ''/users'' [kGet, kPost]) ''main'' [] empty_method_index)"
  using add_handler_ok_iff [OF empty_method_index_wf, of "sample_handler ''handler-users'' ''/users'' [kGet, kPost]" "''main''" "[]"]
  by (simp add: sample_handler_def)

end
