(* ===== verification/Request_Correct.thy ===== *)
theory Request_Correct
  imports Request_Constructor Routing_Correct
begin

section \<open>Correctness of request construction\<close>

text \<open>
  The parser callbacks of \<open>Request_Constructor\<close> as a transition system, its invariant, and what
  follows for the requests it hands over: limits, error responses, independence of how the
  bytes arrive, and completeness of the headers.
\<close>

subsection \<open>The invariant of the constructor\<close>

text \<open>
  The bytes of the names and values of headers.  A header without a name, which the library never
  reports, is not counted.
\<close>

definition header_bytes :: "headers \<Rightarrow> nat" where
  "header_bytes hs = (\<Sum>(k, v)\<leftarrow>hs. if k = [] then 0 else length k + length v)"

lemma header_bytes_simps [simp]:
  "header_bytes [] = 0" "header_bytes (h # hs) = (if fst h = [] then 0 else length (fst h) + length (snd h)) + header_bytes hs"
  "header_bytes (hs @ hs') = header_bytes hs + header_bytes hs'"
  by (simp_all add: header_bytes_def split_beta)

lemma header_bytes_update:
  "i < length hs \<Longrightarrow> header_bytes (hs[i := (fst (hs ! i), v)]) + (if fst (hs ! i) = [] then 0 else length (snd (hs ! i)))
     = header_bytes hs + (if fst (hs ! i) = [] then 0 else length v)"
proof (induction hs arbitrary: i)
  case (Cons h hs)
  show ?case
  proof (cases i)
    case (Suc j)
    then show ?thesis using Cons.IH [of j] Cons.prems by (cases "fst (hs ! j) = []") simp_all
  qed simp
qed simp

lemma header_bytes_append:
  assumes "InsertOrAppend k v hs = Inr hs'"
  shows "header_bytes hs' \<le> header_bytes hs + length k + length v"
  using assms unfolding InsertOrAppend_def
proof (cases rule: InsertOrModify_cases)
  case (2 i)
  have "map to_lower (fst (hs ! i)) = map to_lower k" using header_pos_Some_name [OF 2(1)] .
  then have "length (fst (hs ! i)) = length k" by (metis length_map)
  then have "fst (hs ! i) = [] \<or> 1 \<le> length k" by (cases k) auto
  then show ?thesis using header_bytes_update [OF 2(2), of "snd (hs ! i) @ '','' @ v"] 2(3)
    by (cases "fst (hs ! i) = []") auto
qed simp

definition pending_bytes :: "HttpRequestConstructor \<Rightarrow> nat" where
  "pending_bytes c = header_bytes (req_headers (builder c)) + length (header_field c) + length (header_value c)"

definition handler_limit :: "Handler \<Rightarrow> nat" where
  "handler_limit h = max_request_size (hc_request_config (GetConfig h))"

definition handler_headers_limit :: "Handler \<Rightarrow> nat" where
  "handler_headers_limit h = max_headers_size (hc_request_config (GetConfig h))"

definition handler_limits :: "HttpRequestConstructor \<Rightarrow> bool" where
  "handler_limits c \<longleftrightarrow> (\<exists>h. req_handler (builder c) = Some h \<and> max_request_size (config c) = handler_limit h
     \<and> max_headers_size (config c) = handler_headers_limit h)"

definition ctor_inv :: "ParserEnv \<Rightarrow> HttpRequestConstructor \<Rightarrow> bool" where
  "ctor_inv env c \<longleftrightarrow>
     (ctor_status c = kCtorOk \<longrightarrow> request_size c \<le> max_request_size (config c) \<and> url_size c \<le> max_url_size (config c)
        \<and> headers_size c \<le> max_headers_size (config c))
     \<and> max_url_size (config c) = max_url_size (env_config env)
     \<and> length (ctor_url c) + length (req_url (builder c)) \<le> url_size c
     \<and> pending_bytes c \<le> headers_size c
     \<and> length (ctor_url c) + length (req_url (builder c)) + pending_bytes c + length (ctor_body c) \<le> request_size c
     \<and> (url_parsed c \<and> ctor_status c = kCtorOk \<longrightarrow> handler_limits c)
     \<and> \<not> is_ready (response (builder c)) \<and> \<not> headers_end (response (builder c))"

lemmas account_defs = AccountRequestSize_def AccountUrlSize_def AccountHeadersSize_def SetCtorStatus_def Let_def

lemma new_constructor_inv [simp]: "ctor_inv env (new_constructor (env_config env))"
  by (simp add: ctor_inv_def pending_bytes_def new_constructor_def initial_request_def initial_response_def)

lemmas ctor_inv_defs = preserves_def ctor_inv_def pending_bytes_def handler_limits_def account_defs act_defs

lemma AppendUrl_inv: "preserves (ctor_inv env) (AppendUrl data)"
  by (auto simp: AppendUrl_def ctor_inv_defs split: if_splits)

lemma AppendBody_inv: "preserves (ctor_inv env) (AppendBody data)"
  by (auto simp: AppendBody_def ctor_inv_defs split: if_splits)

lemma AddHeader_inv: "preserves (ctor_inv env) AddHeader"
proof -
  have "ctor_inv env (snd (AddHeader c))" if inv: "ctor_inv env c" for c
  proof (cases "InsertOrAppend (header_field c) (header_value c) (req_headers (builder c))")
    case (Inl e)
    then show ?thesis using inv by (simp add: AddHeader_def Request_AddHeader_def ctor_inv_defs)
  next
    case (Inr hs)
    from header_bytes_append [OF Inr] show ?thesis using inv Inr
      by (auto simp: AddHeader_def Request_AddHeader_def ctor_inv_defs)
  qed
  then show ?thesis by (simp add: preserves_def)
qed

lemma AppendHeaderField_inv: "preserves (ctor_inv env) (AppendHeaderField data)"
proof -
  have "preserves (ctor_inv env)
      (act_then (if b then act_then AddHeader (act_modify (\<lambda>c. c\<lparr>header_value_flag := False\<rparr>)) else act_return ())
      (act_then (act_modify (\<lambda>c. c\<lparr>header_field_flag := True\<rparr>))
      (act_then (AccountHeadersSize (length data))
      (act_then (AccountRequestSize (length data))
         (act_modify (\<lambda>c. c\<lparr>header_field := header_field c @ data\<rparr>))))))" for b
  proof (rule preserves_then)
    show "preserves (ctor_inv env) (if b then act_then AddHeader (act_modify (\<lambda>c. c\<lparr>header_value_flag := False\<rparr>)) else act_return ())"
      by (auto intro!: preserves_then AddHeader_inv preserves_modify simp: ctor_inv_def pending_bytes_def handler_limits_def preserves_simple)
  qed (auto simp: ctor_inv_defs split: if_splits)
  then show ?thesis by (simp add: preserves_def AppendHeaderField_def)
qed

lemma AppendHeaderValue_inv: "preserves (ctor_inv env) (AppendHeaderValue data)"
  by (auto simp: AppendHeaderValue_def ctor_inv_defs split: if_splits)

text \<open>
  After the handler has been looked up, before any header has arrived, the sizes are only checked
  again, so between the two the invariant holds without its size part.
\<close>

definition ctor_inv_unchecked :: "ParserEnv \<Rightarrow> HttpRequestConstructor \<Rightarrow> bool" where
  "ctor_inv_unchecked env c \<longleftrightarrow>
     max_url_size (config c) = max_url_size (env_config env)
     \<and> length (ctor_url c) + length (req_url (builder c)) \<le> url_size c
     \<and> headers_size c = 0 \<and> pending_bytes c = 0
     \<and> length (ctor_url c) + length (req_url (builder c)) + length (ctor_body c) \<le> request_size c
     \<and> (ctor_status c = kCtorOk \<longrightarrow> handler_limits c)
     \<and> \<not> is_ready (response (builder c)) \<and> \<not> headers_end (response (builder c))"

lemma SetPathArgs_fields [simp]:
  "req_url (SetPathArgs args r) = req_url r" "response (SetPathArgs args r) = response r"
  "req_method (SetPathArgs args r) = req_method r" "req_headers (SetPathArgs args r) = req_headers r"
  by (simp_all add: SetPathArgs_def split: prod.splits)

lemma apply_match_inv:
  assumes "ctor_inv env c" and "headers_size c = 0"
  shows "ctor_inv_unchecked env (apply_match env res c)"
  using assms
  by (auto simp: apply_match_def ctor_inv_def ctor_inv_unchecked_def SetCtorStatus_def Let_def pending_bytes_def handler_limits_def
      handler_limit_def handler_headers_limit_def split: option.splits)

lemma recheck_inv:
  assumes "ctor_inv_unchecked env c"
  shows "ctor_inv env (snd (act_then (AccountUrlSize 0) (act_then (AccountRequestSize 0)
     (act_modify (\<lambda>c. c\<lparr>builder := (builder c)\<lparr>req_url := ctor_url c\<rparr>, ctor_url := [], url_parsed := True\<rparr>))) c))"
  using assms by (auto simp: ctor_inv_unchecked_def ctor_inv_defs split: if_splits)

lemma ParseUrl_inv: "ctor_inv env c \<Longrightarrow> headers_size c = 0 \<Longrightarrow> ctor_inv env (snd (ParseUrl env c))"
proof -
  show "ctor_inv env (snd (ParseUrl env c))" if inv: "ctor_inv env c" and none: "headers_size c = 0"
  proof (cases "http_parser_parse_url env (ctor_url c) (GetMethod (builder c) = kConnect)")
    case None
    then show ?thesis using inv by (simp add: ParseUrl_def ctor_inv_defs)
  next
    case (Some pu)
    show ?thesis
    proof (cases "uf_path pu")
      case None
      then show ?thesis using inv Some by (simp add: ParseUrl_def ctor_inv_defs)
    next
      case path: (Some ol)
      obtain off len where ol: "ol = (off, len)" by fastforce
      let ?path = "StripDuplicateStartingSlashes (substr off len (ctor_url c))"
      let ?c1 = "c\<lparr>parsed_url := pu, builder := (builder c)\<lparr>req_request_path := ?path\<rparr>\<rparr>"
      have c1: "ctor_inv env ?c1" using inv by (auto simp: ctor_inv_defs)
      show ?thesis
      proof (cases "MatchRequest (env_index env) (GetMethod (builder ?c1)) ?path")
        case (Inl e)
        then show ?thesis using c1 Some path ol by (simp add: ParseUrl_def)
      next
        case (Inr res)
        let ?c2 = "?c1\<lparr>builder := SetPathArgs (args_from_path res) (builder ?c1)\<rparr>"
        have "req_handler (SetPathArgs (args_from_path res) r) = req_handler r" for r by (simp add: SetPathArgs_def split: prod.splits)
        then have "ctor_inv env ?c2" using c1 by (auto simp: ctor_inv_defs)
        then have "ctor_inv_unchecked env (apply_match env res ?c2)" by (rule apply_match_inv) (simp add: none)
        from recheck_inv [OF this] show ?thesis
          using Some path ol Inr by (simp add: ParseUrl_def act_then_def [of "act_modify _"] act_bind_def [of "act_modify _"] act_modify_def)
      qed
    qed
  qed
qed

subsection \<open>The transition system of the parser\<close>

definition initial_parser :: HttpRequestParser where
  "initial_parser = \<lparr>request_constructor = None, url_complete = False, new_requests = []\<rparr>"

inductive parser_reach :: "ParserEnv \<Rightarrow> HttpRequestParser \<Rightarrow> bool" for env where
  reach_init: "parser_reach env initial_parser"
| reach_callback: "parser_reach env p \<Longrightarrow> callback env e p = (ok, p') \<Longrightarrow> parser_reach env p'"
| reach_finalize: "parser_reach env p \<Longrightarrow> parser_reach env (FinalizeRequest env p)"

lemma run_callbacks_reach: "parser_reach env p \<Longrightarrow> run_callbacks env es p = (ok, p') \<Longrightarrow> parser_reach env p'"
proof (induction es arbitrary: p)
  case (Cons e es)
  obtain b q where q: "callback env e p = (b, q)" by fastforce
  with Cons.prems have "parser_reach env q" by (auto intro: reach_callback)
  with Cons q show ?case by (cases b) auto
qed simp

lemma Parse_reach: "parser_reach env p \<Longrightarrow> Parse env req es err p = (ok, p') \<Longrightarrow> parser_reach env p'"
  using run_callbacks_reach [of env p es] reach_finalize
  by (auto simp: Parse_def split: prod.splits bool.splits llhttp_errno.splits)

subsection \<open>What a finished request looks like\<close>

lemma AddRequestArg_fields [simp]:
  "response (AddRequestArg kv r) = response r" "req_url (AddRequestArg kv r) = req_url r"
  "req_handler (AddRequestArg kv r) = req_handler r" "request_body (AddRequestArg kv r) = request_body r"
  "req_headers (AddRequestArg kv r) = req_headers r"
  by (simp_all add: AddRequestArg_def)

lemma fold_AddRequestArg_fields [simp]:
  "response (fold AddRequestArg kvs r) = response r" "req_url (fold AddRequestArg kvs r) = req_url r"
  "req_handler (fold AddRequestArg kvs r) = req_handler r" "request_body (fold AddRequestArg kvs r) = request_body r"
  "req_headers (fold AddRequestArg kvs r) = req_headers r"
  by (induction kvs arbitrary: r) simp_all

text \<open>What the parsing of arguments leaves alone.\<close>

definition same_outcome :: "HttpRequestConstructor \<Rightarrow> HttpRequestConstructor \<Rightarrow> bool" where
  "same_outcome c c' \<longleftrightarrow>
     response (builder c') = response (builder c) \<and> req_url (builder c') = req_url (builder c)
     \<and> req_handler (builder c') = req_handler (builder c) \<and> request_body (builder c') = request_body (builder c)
     \<and> req_headers (builder c') = req_headers (builder c)
     \<and> (ctor_status c' = kCtorOk \<longrightarrow> ctor_status c = kCtorOk)"

lemma same_outcome_refl [simp]: "same_outcome c c"
  by (simp add: same_outcome_def)

lemma same_outcome_trans: "same_outcome a b \<Longrightarrow> same_outcome b c \<Longrightarrow> same_outcome a c"
  by (auto simp: same_outcome_def)

lemma ParseArgs_text_outcome: "ParseArgs_text text c = (r, c') \<Longrightarrow> same_outcome c c'"
  by (auto simp: ParseArgs_text_def same_outcome_def Let_def split: prod.splits option.splits)

lemma ParseArgs_url_outcome: "ParseArgs_url c = (r, c') \<Longrightarrow> same_outcome c c'"
  by (auto simp: ParseArgs_url_def dest: ParseArgs_text_outcome split: option.splits prod.splits)

lemma parse_multipart_outcome: "same_outcome c (parse_multipart c)"
  by (auto simp: parse_multipart_def same_outcome_def SetCtorStatus_def Let_def split: prod.splits bool.splits)

lemma FinalizeImpl_outcome:
  defines "c1 c \<equiv> c\<lparr>builder := SetRequestBody (ctor_body c) (builder c), ctor_body := []\<rparr>"
  shows "same_outcome (c1 c) (FinalizeImpl c) \<and> (ctor_status (FinalizeImpl c) = kCtorOk \<longrightarrow> url_parsed c)"
proof -
  let ?c = "c1 c"
  let ?body = "\<lambda>c. if parse_args_from_body (config c) \<and> (\<not> decompress_request (config c) \<or> \<not> IsBodyCompressed (builder c))
                     then ParseArgs_text (request_body (builder c)) c else (Inr (), c)"
  have st: "ctor_status ?c = ctor_status c" "url_parsed ?c = url_parsed c" by (simp_all add: c1_def)
  obtain r c' where args: "act_then ParseArgs_url ?body ?c = (r, c')" by fastforce
  have "same_outcome ?c c'"
  proof -
    obtain r1 d where d: "ParseArgs_url ?c = (r1, d)" by fastforce
    then have "same_outcome ?c d" by (rule ParseArgs_url_outcome)
    moreover have "same_outcome d c'"
      using args d by (cases r1) (auto simp: act_then_def act_bind_def split: if_splits dest: ParseArgs_text_outcome)
    ultimately show ?thesis by (rule same_outcome_trans)
  qed
  then have "same_outcome ?c (case (r, c') of (Inl _, c') \<Rightarrow> SetCtorStatus kCtorParseArgsError c' | (Inr _, c') \<Rightarrow> parse_multipart c')"
    using parse_multipart_outcome [of c'] same_outcome_trans
    by (cases r) (auto simp: same_outcome_def SetCtorStatus_def)
  moreover have "FinalizeImpl c =
     (if ctor_status ?c \<noteq> kCtorOk \<and> (\<not> testing_mode (config ?c) \<or> ctor_status ?c \<noteq> kCtorHandlerNotFound) then ?c
      else if \<not> url_parsed ?c then SetCtorStatus kCtorBadRequest ?c
      else (case (r, c') of (Inl _, c') \<Rightarrow> SetCtorStatus kCtorParseArgsError c' | (Inr _, c') \<Rightarrow> parse_multipart c'))"
    unfolding FinalizeImpl_def Let_def args [symmetric] c1_def by (simp split: sum.splits)
  ultimately show ?thesis using st by (auto simp: same_outcome_def SetCtorStatus_def split: if_splits)
qed

definition good_request :: "ParserEnv \<Rightarrow> HttpRequest \<Rightarrow> bool" where
  "good_request env r \<longleftrightarrow>
     (if is_ready (response r) then 400 \<le> unat (resp_status (response r)) \<and> unat (resp_status (response r)) < 500
      else resp_status (response r) = HttpStatus_kOk
         \<and> (\<exists>h. req_handler r = Some h \<and> header_bytes (req_headers r) \<le> handler_headers_limit h
              \<and> length (req_url r) + header_bytes (req_headers r) + length (request_body r) \<le> handler_limit h)
         \<and> length (req_url r) \<le> max_url_size (env_config env))"

lemma error_response_4xx: "error_response st = Some (code, d) \<Longrightarrow> 400 \<le> unat code \<and> unat code < 500"
  by (cases st) auto

lemma Build_fields [simp]:
  "response (Build r) = response r" "req_handler (Build r) = req_handler r" "request_body (Build r) = request_body r"
  "req_url (Build r) = req_url r" "req_headers (Build r) = req_headers r"
  by (simp_all add: Build_def ParseCookies_def)

lemma Finalize_good:
  assumes inv: "ctor_inv env c"
  shows "good_request env (Finalize c)"
proof -
  let ?c = "FinalizeImpl c" and ?r = "builder (FinalizeImpl c)"
  have out: "response ?r = response (builder c)" "req_url ?r = req_url (builder c)" "req_handler ?r = req_handler (builder c)"
    "request_body ?r = ctor_body c" "req_headers ?r = req_headers (builder c)" and ok: "ctor_status ?c = kCtorOk \<Longrightarrow> ctor_status c = kCtorOk \<and> url_parsed c"
    using FinalizeImpl_outcome [of c] by (simp_all add: same_outcome_def SetRequestBody_def)
  have resp: "\<not> is_ready (response (builder c))" "\<not> headers_end (response (builder c))"
    using inv by (simp_all add: ctor_inv_def)
  show ?thesis
  proof (cases "error_response (ctor_status ?c)")
    case None
    then have "ctor_status ?c = kCtorOk" by (cases "ctor_status ?c") auto
    from ok [OF this] have st: "ctor_status c = kCtorOk" "url_parsed c" by simp_all
    then obtain h where h: "req_handler (builder c) = Some h" "max_request_size (config c) = handler_limit h"
        "max_headers_size (config c) = handler_headers_limit h"
      using inv by (auto simp: ctor_inv_def handler_limits_def)
    have "header_bytes (req_headers (builder c)) \<le> handler_headers_limit h" "length (req_url (builder c)) \<le> max_url_size (env_config env)"
      "length (req_url (builder c)) + header_bytes (req_headers (builder c)) + length (ctor_body c) \<le> handler_limit h"
      using inv st h(2,3) by (simp_all add: ctor_inv_def pending_bytes_def)
    then show ?thesis using None h(1) out resp
      by (simp add: good_request_def Finalize_def CheckStatus_def SetResponseStatus_def SetStatus_def)
  next
    case (Some sd)
    then obtain code d where sd: "error_response (ctor_status ?c) = Some (code, d)" by (cases sd) auto
    then show ?thesis using error_response_4xx [OF sd] out resp
      by (auto simp: good_request_def Finalize_def CheckStatus_def SetResponseStatus_def SetStatus_def SetData_def SetReady_def
          Let_def split: option.splits)
  qed
qed

definition parser_inv :: "ParserEnv \<Rightarrow> HttpRequestParser \<Rightarrow> bool" where
  "parser_inv env p \<longleftrightarrow>
     (\<forall>c. request_constructor p = Some c \<longrightarrow> ctor_inv env c \<and> (\<not> url_complete p \<longrightarrow> headers_size c = 0)) \<and> (\<forall>r\<in>set (new_requests p). good_request env r)"

lemma on_ctor_inv:
  assumes "parser_inv env p" and "preserves (ctor_inv env) f"
    and "url_complete p \<or> preserves (\<lambda>c. headers_size c = 0) f"
  shows "parser_inv env (snd (on_ctor f p))"
proof (cases "request_constructor p")
  case (Some c)
  obtain r c' where c': "f c = (r, c')" by fastforce
  have "ctor_inv env c'" using assms(1,2) Some preservesD [OF assms(2) _ c'] by (auto simp: parser_inv_def)
  moreover have "\<not> url_complete p \<Longrightarrow> headers_size c' = 0"
    using assms(1,3) Some c' by (auto simp: parser_inv_def dest: preservesD)
  ultimately show ?thesis using assms(1) Some c' by (simp add: on_ctor_def parser_inv_def)
qed (use assms(1) in \<open>simp add: on_ctor_def\<close>)

lemma modify_builder_inv:
  assumes "\<And>c. response (builder (f c)) = response (builder c) \<and> req_url (builder (f c)) = req_url (builder c)
      \<and> req_headers (builder (f c)) = req_headers (builder c) \<and> header_field (f c) = header_field c
      \<and> header_value (f c) = header_value c \<and> headers_size (f c) = headers_size c
      \<and> req_handler (builder (f c)) = req_handler (builder c) \<and> config (f c) = config c \<and> ctor_status (f c) = ctor_status c
      \<and> request_size (f c) = request_size c \<and> url_size (f c) = url_size c \<and> ctor_url (f c) = ctor_url c
      \<and> ctor_body (f c) = ctor_body c \<and> url_parsed (f c) = url_parsed c"
  shows "preserves (ctor_inv env) (act_modify f)"
proof (rule preserves_modify)
  show "ctor_inv env (f c)" if "ctor_inv env c" for c
    using that assms [of c] unfolding ctor_inv_def pending_bytes_def handler_limits_def by (elim conjE) (intro conjI; simp)
qed

lemma modify_headers_size: "(\<And>c. headers_size (f c) = headers_size c) \<Longrightarrow> preserves (\<lambda>c. headers_size c = 0) (act_modify f)"
  by (rule preserves_modify) simp

lemma AppendUrl_headers_size: "preserves (\<lambda>c. headers_size c = 0) (AppendUrl data)"
  by (auto simp: AppendUrl_def preserves_def account_defs act_defs split: if_splits)

text \<open>The URL is parsed once, before the first header.\<close>

lemma CheckUrlComplete_inv:
  assumes "parser_inv env p"
  shows "parser_inv env (snd (CheckUrlComplete env m j n p))"
    and "fst (CheckUrlComplete env m j n p) \<Longrightarrow> url_complete (snd (CheckUrlComplete env m j n p))"
proof -
  have "parser_inv env (snd (CheckUrlComplete env m j n p)) \<and> url_complete (snd (CheckUrlComplete env m j n p))"
  proof (cases "url_complete p \<or> request_constructor p = None")
    case True
    then show ?thesis using assms by (auto simp: CheckUrlComplete_def on_ctor_def parser_inv_def)
  next
    case False
    then obtain c where c: "request_constructor p = Some c" "\<not> url_complete p" by auto
    let ?c = "SetHttpVersion j n (SetMethod m c)"
    have "preserves (ctor_inv env) (act_modify (\<lambda>c. SetHttpVersion j n (SetMethod m c)))"
      by (rule modify_builder_inv) (simp add: SetHttpVersion_def SetMethod_def)
    then have inv: "ctor_inv env ?c" using c assms by (simp add: preserves_def act_modify_def parser_inv_def)
    have "headers_size ?c = 0" using c assms by (simp add: parser_inv_def SetHttpVersion_def SetMethod_def)
    obtain x c' where c': "ParseUrl env ?c = (x, c')" by fastforce
    have "ctor_inv env c'" using ParseUrl_inv [OF inv \<open>headers_size ?c = 0\<close>] c' by simp
    then show ?thesis using c c' assms
      by (simp add: CheckUrlComplete_def on_ctor_def parser_inv_def act_then_def act_bind_def act_modify_def)
  qed
  then show "parser_inv env (snd (CheckUrlComplete env m j n p))"
    "fst (CheckUrlComplete env m j n p) \<Longrightarrow> url_complete (snd (CheckUrlComplete env m j n p))" by auto
qed

lemma after_url_inv:
  assumes "parser_inv env p" and "preserves (ctor_inv env) f"
  shows "parser_inv env (snd (after_url env m j n f p))"
proof -
  obtain b q where q: "CheckUrlComplete env m j n p = (b, q)" by fastforce
  with CheckUrlComplete_inv [OF assms(1), of m j n] have inv: "parser_inv env q" "b \<Longrightarrow> url_complete q" by simp_all
  with q on_ctor_inv [OF inv(1) assms(2)] show ?thesis by (cases b) (simp_all add: after_url_def)
qed

lemma FinalizeRequest_inv: "parser_inv env p \<Longrightarrow> parser_inv env (FinalizeRequest env p)"
  by (auto simp: parser_inv_def FinalizeRequest_def Let_def Finalize_good split: option.splits)

lemma callback_inv: "parser_inv env p \<Longrightarrow> parser_inv env (snd (callback env e p))"
proof (induction env e p rule: callback.induct)
  case (1 env p)
  then show ?case by (simp add: parser_inv_def CreateRequestConstructor_def) (simp add: new_constructor_def)
next
  case (2 env m data p)
  have "preserves (\<lambda>c. headers_size c = 0) (act_then (act_modify (SetMethod m)) (AppendUrl data))"
    by (intro preserves_then modify_headers_size AppendUrl_headers_size) (simp add: SetMethod_def)
  moreover have "preserves (ctor_inv env) (act_then (act_modify (SetMethod m)) (AppendUrl data))"
    by (intro preserves_then modify_builder_inv AppendUrl_inv) (simp add: SetMethod_def)
  ultimately show ?case using 2 by (simp add: on_ctor_inv)
next
  case (7 env m j n up ka p)
  show ?case
  proof (cases up)
    case False
    let ?f = "act_modify (\<lambda>c. c\<lparr>builder := (builder c)\<lparr>is_final := \<not> ka\<rparr>\<rparr>)"
    obtain b1 p1 where p1: "on_ctor ?f p = (b1, p1)" by fastforce
    have "parser_inv env (snd (on_ctor ?f p))" using 7 by (intro on_ctor_inv modify_builder_inv) (auto intro: modify_headers_size)
    then have "parser_inv env p1" using p1 by simp
    moreover obtain b2 p2 where p2: "CheckUrlComplete env m j n p1 = (b2, p2)" by fastforce
    ultimately have "parser_inv env p2" using CheckUrlComplete_inv(1) [of env p1 m j n] by simp
    then show ?thesis using False p1 p2 FinalizeRequest_inv by (cases b2) simp_all
  qed (use 7 in simp)
qed (auto intro!: after_url_inv AppendBody_inv AppendHeaderField_inv AppendHeaderValue_inv)

lemma parser_inv_initial: "parser_inv env initial_parser"
  by (simp add: parser_inv_def initial_parser_def)

lemma parser_reach_inv: "parser_reach env p \<Longrightarrow> parser_inv env p"
proof (induction rule: parser_reach.induct)
  case (reach_callback p e ok p')
  then show ?case using callback_inv [of env p e] by simp
qed (simp_all add: parser_inv_initial FinalizeRequest_inv)

text \<open>
  (C5) Every request that the parser hands over, however the client's bytes are cut up and
  wherever an error occurs, is one of two.  It is accepted, not answered yet, with status 200 and a
  handler, and is within all limits: its headers, names and values together, are within the header
  limit of that handler, its URL, headers and body together are within the request limit of that
  handler, and its URL is within the limit of the server.  Or it is already answered with a status
  between 400 and 499.  (A header without a name, which the library never reports, is not counted.)
\<close>

theorem delivered_request_good:
  assumes "parser_reach env p" and "r \<in> set (new_requests p)"
  shows "if is_ready (response r) then 400 \<le> unat (resp_status (response r)) \<and> unat (resp_status (response r)) < 500
     else resp_status (response r) = HttpStatus_kOk
        \<and> (\<exists>h. req_handler r = Some h
             \<and> (\<Sum>(k, v)\<leftarrow>req_headers r. if k = [] then 0 else length k + length v)
                 \<le> max_headers_size (hc_request_config (GetConfig h))
             \<and> length (req_url r) + (\<Sum>(k, v)\<leftarrow>req_headers r. if k = [] then 0 else length k + length v) + length (request_body r)
                 \<le> max_request_size (hc_request_config (GetConfig h)))
        \<and> length (req_url r) \<le> max_url_size (env_config env)"
  using parser_reach_inv [OF assms(1)] assms(2)
  unfolding parser_inv_def good_request_def handler_limit_def handler_headers_limit_def header_bytes_def by blast

subsection \<open>How the bytes are cut up does not matter\<close>

lemma AccountRequestSize_ok:
  "AccountRequestSize n c = (Inr (), c') \<longleftrightarrow>
     request_size c + n \<le> max_request_size (config c) \<and> c' = c\<lparr>request_size := request_size c + n\<rparr>"
  by (auto simp: account_defs)

lemma AccountUrlSize_ok:
  "AccountUrlSize n c = (Inr (), c') \<longleftrightarrow>
     url_size c + n \<le> max_url_size (config c) \<and> c' = c\<lparr>url_size := url_size c + n\<rparr>"
  by (auto simp: account_defs)

lemma AccountHeadersSize_ok:
  "AccountHeadersSize n c = (Inr (), c') \<longleftrightarrow>
     headers_size c + n \<le> max_headers_size (config c) \<and> c' = c\<lparr>headers_size := headers_size c + n\<rparr>"
  by (auto simp: account_defs)

lemmas account_ok = AccountRequestSize_ok AccountUrlSize_ok AccountHeadersSize_ok act_then_eq_Inr act_modify_def act_return_def

lemma AppendUrl_ok:
  "AppendUrl d c = (Inr (), c') \<longleftrightarrow>
     url_size c + length d \<le> max_url_size (config c) \<and> request_size c + length d \<le> max_request_size (config c)
     \<and> c' = c\<lparr>url_size := url_size c + length d, request_size := request_size c + length d, ctor_url := ctor_url c @ d\<rparr>"
  by (auto simp: AppendUrl_def account_ok)

lemma AppendBody_ok:
  "AppendBody d c = (Inr (), c') \<longleftrightarrow>
     request_size c + length d \<le> max_request_size (config c)
     \<and> c' = c\<lparr>request_size := request_size c + length d, ctor_body := ctor_body c @ d\<rparr>"
  by (auto simp: AppendBody_def account_ok)

lemma AppendHeaderValue_ok:
  "AppendHeaderValue d c = (Inr (), c') \<longleftrightarrow>
     headers_size c + length d \<le> max_headers_size (config c) \<and> request_size c + length d \<le> max_request_size (config c)
     \<and> c' = c\<lparr>header_value_flag := True, headers_size := headers_size c + length d,
               request_size := request_size c + length d, header_value := header_value c @ d\<rparr>"
  by (auto simp: AppendHeaderValue_def account_ok)

text \<open>The part of \<open>AppendHeaderField\<close> that adds the header before, if there is one.\<close>

definition flush_header :: "unit ctor" where
  "flush_header c =
     (if header_value_flag c then act_then AddHeader (act_modify (\<lambda>c. c\<lparr>header_value_flag := False\<rparr>)) c else (Inr (), c))"

lemma flush_header_flag: "flush_header c = (Inr (), c') \<Longrightarrow> \<not> header_value_flag c'"
  by (auto simp: flush_header_def act_then_eq_Inr act_modify_def split: if_splits)

lemma flush_header_again: "\<not> header_value_flag c \<Longrightarrow> flush_header c = (Inr (), c)"
  by (simp add: flush_header_def)

lemma AppendHeaderField_ok:
  "AppendHeaderField d c = (Inr (), c') \<longleftrightarrow>
     (\<exists>c1. flush_header c = (Inr (), c1)
       \<and> headers_size c1 + length d \<le> max_headers_size (config c1) \<and> request_size c1 + length d \<le> max_request_size (config c1)
       \<and> c' = c1\<lparr>header_field_flag := True, headers_size := headers_size c1 + length d,
                 request_size := request_size c1 + length d, header_field := header_field c1 @ d\<rparr>)"
  by (cases "header_value_flag c") (auto simp: AppendHeaderField_def flush_header_def account_ok)

lemma append_twice:
  assumes "f \<in> {AppendUrl, AppendHeaderField, AppendHeaderValue, AppendBody}"
  shows "f (a @ b) c = (Inr (), c') \<longleftrightarrow> act_then (f a) (f b) c = (Inr (), c')"
proof -
  have "AppendHeaderField (a @ b) c = (Inr (), c') \<longleftrightarrow> act_then (AppendHeaderField a) (AppendHeaderField b) c = (Inr (), c')"
  proof (cases "\<exists>c1. flush_header c = (Inr (), c1)")
    case True
    then obtain c1 where c1: "flush_header c = (Inr (), c1)" by blast
    with flush_header_flag [OF c1] show ?thesis by (auto simp: AppendHeaderField_ok act_then_eq_Inr flush_header_again)
  qed (auto simp: AppendHeaderField_ok act_then_eq_Inr)
  then show ?thesis
    using assms by (auto simp: AppendUrl_ok AppendHeaderValue_ok AppendBody_ok act_then_eq_Inr)
qed

text \<open>
  (C20) The parser library may deliver the URL, a header name, a header value or the body in any
  number of pieces.  The pieces are accepted exactly when the whole text is, and they leave the
  constructor in the same state.
\<close>

theorem pieces_do_not_matter:
  assumes "f \<in> {AppendUrl, AppendHeaderField, AppendHeaderValue, AppendBody}" and "pieces \<noteq> []"
  shows "act_each f pieces c = (Inr (), c') \<longleftrightarrow> f (concat pieces) c = (Inr (), c')"
  using assms(2)
proof (induction pieces arbitrary: c rule: list_nonempty_induct)
  case (single d)
  show ?case by (auto simp: act_then_eq_Inr act_return_def)
next
  case (cons d ds)
  have "act_each f (d # ds) c = (Inr (), c') \<longleftrightarrow> act_then (f d) (f (concat ds)) c = (Inr (), c')"
    using cons.IH by (simp add: act_then_eq_Inr)
  then show ?case using append_twice [OF assms(1), of d "concat ds"] by simp
qed

theorem pieces_do_not_matter_witness:
  "act_each AppendBody [''{'', ''}''] (new_constructor (default_HttpRequestConfig\<lparr>max_request_size := 2\<rparr>))
     = (Inr (), (new_constructor (default_HttpRequestConfig\<lparr>max_request_size := 2\<rparr>))\<lparr>request_size := 2, ctor_body := ''{}''\<rparr>)"
  using pieces_do_not_matter [of AppendBody "[''{'', ''}'']" "new_constructor (default_HttpRequestConfig\<lparr>max_request_size := 2\<rparr>)"]
  by (simp add: AppendBody_ok new_constructor_def)

subsection \<open>Every header arrives\<close>

definition feed_header :: "string \<times> string \<Rightarrow> unit ctor" where
  "feed_header kv = act_then (AppendHeaderField (fst kv)) (AppendHeaderValue (snd kv))"

definition headers_length :: "(string \<times> string) list \<Rightarrow> nat" where
  "headers_length hs = sum_list (map (\<lambda>(k, v). length k + length v) hs)"

text \<open>The header that has been read and not been added yet.\<close>

definition pending :: "HttpRequestConstructor \<Rightarrow> (string \<times> string) list" where
  "pending c = (if header_value_flag c then [(header_field c, header_value c)] else [])"

definition header_wf :: "HttpRequestConstructor \<Rightarrow> bool" where
  "header_wf c \<longleftrightarrow> header_value_flag c \<or> header_field c = [] \<and> header_value c = []"

abbreviation insert_headers :: "(string \<times> string) list \<Rightarrow> headers \<Rightarrow> headers result" where
  "insert_headers hs \<equiv> foldr_result (\<lambda>(k, v). InsertOrAppend k v) hs"

lemma insert_headers_append: "insert_headers (xs @ ys) h = rbind (insert_headers xs h) (insert_headers ys)"
  by (induction xs arbitrary: h) (auto simp: rbind_def split: sum.splits)

lemma flush_header_pending:
  assumes "header_wf c" and "insert_headers (pending c) (req_headers (builder c)) = Inr h"
  shows "\<exists>c1. flush_header c = (Inr (), c1) \<and> req_headers (builder c1) = h \<and> header_field c1 = [] \<and> header_value c1 = []
    \<and> config c1 = config c \<and> request_size c1 = request_size c \<and> headers_size c1 = headers_size c"
  using assms
  by (auto simp: flush_header_def pending_def header_wf_def AddHeader_def Request_AddHeader_def act_defs rbind_eq_Inr split: if_splits)

lemma feed_headers:
  assumes "header_wf c" and "insert_headers (pending c @ hs) (req_headers (builder c)) = Inr h"
    and "headers_size c + headers_length hs \<le> max_headers_size (config c)"
    and "request_size c + headers_length hs \<le> max_request_size (config c)"
  shows "\<exists>c'. act_then (act_each feed_header hs) (AppendHeaderField []) c = (Inr (), c') \<and> req_headers (builder c') = h"
  using assms
proof (induction hs arbitrary: c)
  case Nil
  then obtain c1 where "flush_header c = (Inr (), c1)" "req_headers (builder c1) = h"
    "config c1 = config c" "request_size c1 = request_size c" "headers_size c1 = headers_size c"
    using flush_header_pending [of c h] by auto
  then show ?case using Nil.prems by (simp add: act_then_eq_Inr act_return_def AppendHeaderField_ok headers_length_def)
next
  case (Cons kv hs)
  obtain k v where kv: "kv = (k, v)" by fastforce
  from Cons.prems(2) obtain h1 where h1: "insert_headers (pending c) (req_headers (builder c)) = Inr h1"
    "insert_headers ((k, v) # hs) h1 = Inr h"
    by (auto simp: insert_headers_append rbind_eq_Inr kv)
  then obtain c1 where c1: "flush_header c = (Inr (), c1)" "req_headers (builder c1) = h1" "header_field c1 = []" "header_value c1 = []"
    "config c1 = config c" "request_size c1 = request_size c" "headers_size c1 = headers_size c"
    using flush_header_pending [OF Cons.prems(1), of h1] by auto
  have len: "headers_length (kv # hs) = length k + length v + headers_length hs" by (simp add: headers_length_def kv)
  obtain c2 where c2: "feed_header kv c = (Inr (), c2)" "pending c2 = [(k, v)]" "header_wf c2" "req_headers (builder c2) = h1"
    "config c2 = config c" "request_size c2 = request_size c + length k + length v"
    "headers_size c2 = headers_size c + length k + length v"
    using Cons.prems(3,4) c1 len
    by (auto simp: feed_header_def kv act_then_eq_Inr AppendHeaderField_ok AppendHeaderValue_ok pending_def header_wf_def)
  then show ?case
    using Cons.IH [of c2] h1(2) Cons.prems(3,4) len by (simp add: act_then_eq_Inr del: foldr_result.simps)
qed

text \<open>
  All headers of a request reach it, the last one included: a header is added when the
  next one starts, and the end of the headers starts an empty one.  Headers that are within the
  size limits and that the header map has room for are collected in the order of their arrival,
  repeated names being joined.
\<close>

theorem every_header_arrives:
  assumes "\<not> header_value_flag c" and "header_field c = []" and "header_value c = []"
    and "foldr_result (\<lambda>(k, v). InsertOrAppend k v) hs (req_headers (builder c)) = Inr h"
    and "headers_size c + headers_length hs \<le> max_headers_size (config c)"
    and "request_size c + headers_length hs \<le> max_request_size (config c)"
  shows "\<exists>c'. act_then (act_each (\<lambda>(k, v). act_then (AppendHeaderField k) (AppendHeaderValue v)) hs) (AppendHeaderField []) c
      = (Inr (), c') \<and> req_headers (builder c') = h"
proof -
  have "(\<lambda>(k, v). act_then (AppendHeaderField k) (AppendHeaderValue v)) = feed_header"
    by (auto simp: fun_eq_iff feed_header_def)
  with feed_headers [of c hs h] assms show ?thesis by (simp add: header_wf_def pending_def)
qed

theorem every_header_arrives_witness:
  "\<exists>c'. act_then (act_each (\<lambda>(k, v). act_then (AppendHeaderField k) (AppendHeaderValue v)) [(''Host'', ''a''), (''Accept'', ''b'')])
       (AppendHeaderField []) (new_constructor default_HttpRequestConfig) = (Inr (), c')
     \<and> req_headers (builder c') = [(''Host'', ''a''), (''Accept'', ''b'')]"
  by (rule every_header_arrives)
     (simp_all add: new_constructor_def default_HttpRequestConfig_def headers_length_def initial_request_def
      InsertOrAppend_def InsertOrModify_def UsableCapacity_def kMaxSize_def header_pos_def find_pos.simps StrIcaseEqual_def)

subsection \<open>A run\<close>

definition sample_env :: ParserEnv where
  "sample_env =
     \<lparr>env_index = user_service_index, env_config = default_HttpRequestConfig,
      http_parser_parse_url = (\<lambda>url is_connect. Some \<lparr>uf_path = Some (0, length url), uf_query = None\<rparr>)\<rparr>"

lemmas construct_eval = sample_env_def CreateRequestConstructor_def new_constructor_def on_ctor_def SetMethod_def
  CheckUrlComplete_def SetHttpVersion_def ParseUrl_def AppendUrl_def AppendHeaderField_def AppendBody_def apply_match_def
  FinalizeRequest_def Finalize_def FinalizeImpl_def CheckStatus_def after_url_def account_defs act_defs
  StripDuplicateStartingSlashes_def substr_def ParseArgs_url_def parse_multipart_def SetResponseStatus_def SetRequestBody_def
  SetPathArgs_def IsMultipartFormDataContentType_def SetStatus_def initial_request_def initial_response_def
  GetMethod_def Request_GetHeader_def headers_find_def header_pos_def find_pos.simps StrIcaseEqual_def
  default_HttpRequestConfig_def initial_parser_def sample_handler_def sample_config_def default_HandlerConfig_def

lemma sample_run:
  "\<exists>p r. run_callbacks sample_env
      [OnMessageBegin, OnUrl kHead ''/users'', OnUrl kHead ''/'', OnHeadersComplete kHead 1 1, OnMessageComplete kHead 1 1 False True]
      initial_parser = (True, p) \<and> new_requests p = [r] \<and> \<not> is_ready (response r)"
  by (simp add: construct_eval user_service_match_head)

theorem delivered_request_good_witness:
  "\<exists>p r. parser_reach sample_env p \<and> r \<in> set (new_requests p) \<and> \<not> is_ready (response r)
     \<and> resp_status (response r) = HttpStatus_kOk \<and> length (req_url r) \<le> 8192"
proof -
  obtain p r where run: "run_callbacks sample_env
      [OnMessageBegin, OnUrl kHead ''/users'', OnUrl kHead ''/'', OnHeadersComplete kHead 1 1, OnMessageComplete kHead 1 1 False True]
      initial_parser = (True, p)" and r: "new_requests p = [r]" "\<not> is_ready (response r)"
    using sample_run by blast
  have reach: "parser_reach sample_env p" by (rule run_callbacks_reach [OF reach_init run])
  have "r \<in> set (new_requests p)" using r by simp
  with delivered_request_good [OF reach this] r reach show ?thesis
    by (auto simp: sample_env_def default_HttpRequestConfig_def)
qed

end
