(* ===== verification/Json_Value.thy ===== *)
theory Json_Value
  imports Complex_Main Prelude
begin

section \<open>JSON values and their builder\<close>

text \<open>
  \<open>universal/src/formats/json/value.cpp\<close>, \<open>value_builder.cpp\<close> and the checks of
  \<open>serialize.cpp\<close>.  RapidJSON's document is the datatype \<open>json\<close>: a number is an integer of
  the range of \<open>int64_t\<close> or \<open>uint64_t\<close>, or a double, which is finite and therefore a rational.
  The text parser and printer of RapidJSON are parameters of their clients.  Exceptions
  carry no path.
\<close>

subsection \<open>Values\<close>

datatype json =
    JNull
  | JBool bool
  | JInt int
  | JDouble rat
  | JString string
  | JArray "json list"
  | JObject "(string \<times> json) list"

text \<open>\<open>Value\<close>: a value that is present in its document, or the result of looking up a missing member.\<close>

datatype Value = Missing | Present json

definition IsMissing :: "Value \<Rightarrow> bool" where
  "IsMissing v \<longleftrightarrow> v = Missing"

definition GetNative :: "Value \<Rightarrow> json result" where
  "GetNative v = (case v of Missing \<Rightarrow> Inl JsonMemberMissing | Present j \<Rightarrow> Inr j)"

fun IsNull :: "Value \<Rightarrow> bool" where
  "IsNull (Present JNull) = True" | "IsNull _ = False"

fun IsBool :: "Value \<Rightarrow> bool" where
  "IsBool (Present (JBool _)) = True" | "IsBool _ = False"

fun IsString :: "Value \<Rightarrow> bool" where
  "IsString (Present (JString _)) = True" | "IsString _ = False"

fun IsArray :: "Value \<Rightarrow> bool" where
  "IsArray (Present (JArray _)) = True" | "IsArray _ = False"

fun IsObject :: "Value \<Rightarrow> bool" where
  "IsObject (Present (JObject _)) = True" | "IsObject _ = False"

fun IsNumber :: "Value \<Rightarrow> bool" where
  "IsNumber (Present (JInt _)) = True" | "IsNumber (Present (JDouble _)) = True" | "IsNumber _ = False"

definition IsIntegral :: "rat \<Rightarrow> bool" where
  "IsIntegral d \<longleftrightarrow> of_int \<lfloor>d\<rfloor> = d"

text \<open>The integer types of the conversions, by the bounds of \<open>std::numeric_limits\<close>.\<close>

definition int_bounds :: "nat \<Rightarrow> bool \<Rightarrow> int \<times> int" where
  "int_bounds bits sg = (if sg then (- (2 ^ (bits - 1)), 2 ^ (bits - 1) - 1) else (0, 2 ^ bits - 1))"

definition in_int :: "nat \<Rightarrow> bool \<Rightarrow> int \<Rightarrow> bool" where
  "in_int bits sg i \<longleftrightarrow> fst (int_bounds bits sg) \<le> i \<and> i \<le> snd (int_bounds bits sg)"

text \<open>
  \<open>IsNonOverflowingIntegral\<close>: a type as wide as \<open>double\<close> is limited by the integers a double
  represents exactly, a narrower one by its own bounds.
\<close>

definition kMaxIntDouble :: int where
  "kMaxIntDouble = 2 ^ 53"

definition IsNonOverflowingIntegral :: "nat \<Rightarrow> bool \<Rightarrow> rat \<Rightarrow> bool" where
  "IsNonOverflowingIntegral bits sg d \<longleftrightarrow>
     (if 64 \<le> bits then - of_int kMaxIntDouble < d \<and> d < of_int kMaxIntDouble \<and> IsIntegral d
      else of_int (fst (int_bounds bits sg)) \<le> d \<and> d \<le> of_int (snd (int_bounds bits sg)) \<and> IsIntegral d)"

definition IsIntOf :: "nat \<Rightarrow> bool \<Rightarrow> Value \<Rightarrow> bool" where
  "IsIntOf bits sg v =
     (case v of Present (JInt i) \<Rightarrow> in_int bits sg i
      | Present (JDouble d) \<Rightarrow> IsNonOverflowingIntegral bits sg d
      | _ \<Rightarrow> False)"

abbreviation IsInt :: "Value \<Rightarrow> bool" where "IsInt \<equiv> IsIntOf 32 True"
abbreviation IsInt64 :: "Value \<Rightarrow> bool" where "IsInt64 \<equiv> IsIntOf 64 True"
abbreviation IsUInt :: "Value \<Rightarrow> bool" where "IsUInt \<equiv> IsIntOf 32 False"
abbreviation IsUInt64 :: "Value \<Rightarrow> bool" where "IsUInt64 \<equiv> IsIntOf 64 False"

subsection \<open>Checks and access\<close>

definition CheckNotMissing :: "Value \<Rightarrow> unit result" where
  "CheckNotMissing v = (if IsMissing v then Inl JsonMemberMissing else Inr ())"

definition type_mismatch :: "Value \<Rightarrow> 'a result" where
  "type_mismatch v = rbind (GetNative v) (\<lambda>_. Inl JsonTypeMismatch)"

definition CheckArrayOrNull :: "Value \<Rightarrow> unit result" where
  "CheckArrayOrNull v = (if \<not> IsNull v \<and> \<not> IsArray v then type_mismatch v else Inr ())"

definition CheckObjectOrNull :: "Value \<Rightarrow> unit result" where
  "CheckObjectOrNull v = (if \<not> IsNull v \<and> \<not> IsObject v then type_mismatch v else Inr ())"

definition CheckArray :: "Value \<Rightarrow> unit result" where
  "CheckArray v = (if \<not> IsArray v then type_mismatch v else Inr ())"

definition CheckObject :: "Value \<Rightarrow> unit result" where
  "CheckObject v = (if \<not> IsObject v then type_mismatch v else Inr ())"

definition CheckObjectOrArrayOrNull :: "Value \<Rightarrow> unit result" where
  "CheckObjectOrArrayOrNull v = (if \<not> IsNull v \<and> \<not> IsObject v \<and> \<not> IsArray v then type_mismatch v else Inr ())"

fun elements :: "Value \<Rightarrow> json list" where
  "elements (Present (JArray xs)) = xs" | "elements _ = []"

fun members :: "Value \<Rightarrow> (string \<times> json) list" where
  "members (Present (JObject ms)) = ms" | "members _ = []"

definition IsEmpty :: "Value \<Rightarrow> bool result" where
  "IsEmpty v = rbind (CheckObjectOrArrayOrNull v) (\<lambda>_.
     Inr (if IsArray v then elements v = [] else if IsObject v then members v = [] else True))"

definition GetSize :: "Value \<Rightarrow> nat result" where
  "GetSize v = rbind (CheckObjectOrArrayOrNull v) (\<lambda>_.
     Inr (if IsArray v then length (elements v) else if IsObject v then length (members v) else 0))"

definition CheckInBounds :: "nat \<Rightarrow> Value \<Rightarrow> unit result" where
  "CheckInBounds index v =
     rbind (CheckArrayOrNull v) (\<lambda>_. rbind (GetSize v) (\<lambda>n.
       if n \<le> index then Inl JsonOutOfBounds else Inr ()))"

definition Value_member :: "string \<Rightarrow> Value \<Rightarrow> Value result" where
  "Value_member key v =
     (if \<not> IsMissing v then
        rbind (CheckObjectOrNull v) (\<lambda>_.
          Inr (case map_of (members v) key of Some j \<Rightarrow> Present j | None \<Rightarrow> Missing))
      else Inr Missing)"

definition Value_element :: "nat \<Rightarrow> Value \<Rightarrow> Value result" where
  "Value_element index v =
     rbind (CheckInBounds index v) (\<lambda>_. Inr (Present (elements v ! index)))"

definition HasMember :: "string \<Rightarrow> Value \<Rightarrow> bool result" where
  "HasMember key v =
     (if IsMissing v then Inr False
      else rbind (CheckObjectOrNull v) (\<lambda>_. Inr (IsObject v \<and> map_of (members v) key \<noteq> None)))"

subsection \<open>Conversions: \<open>As<T>()\<close>\<close>

definition Parse_bool :: "Value \<Rightarrow> bool result" where
  "Parse_bool v = rbind (GetNative v) (\<lambda>j. case j of JBool b \<Rightarrow> Inr b | _ \<Rightarrow> Inl JsonTypeMismatch)"

definition Parse_string :: "Value \<Rightarrow> string result" where
  "Parse_string v = rbind (GetNative v) (\<lambda>j. case j of JString s \<Rightarrow> Inr s | _ \<Rightarrow> Inl JsonTypeMismatch)"

text \<open>The two 64-bit conversions; every narrower integer type goes through one of them.\<close>

definition Parse_int64 :: "bool \<Rightarrow> Value \<Rightarrow> int result" where
  "Parse_int64 sg v =
     rbind (GetNative v) (\<lambda>j.
       case j of
         JInt i \<Rightarrow> if in_int 64 sg i then Inr i else Inl JsonTypeMismatch
       | JDouble d \<Rightarrow>
           if IsNonOverflowingIntegral 64 sg d then Inr \<lfloor>d\<rfloor> else Inl JsonTypeMismatch
       | _ \<Rightarrow> Inl JsonTypeMismatch)"

definition NarrowToInt :: "nat \<Rightarrow> bool \<Rightarrow> int \<Rightarrow> int result" where
  "NarrowToInt bits sg x = (if in_int bits sg x then Inr x else Inl JsonParseException)"

definition As_integer :: "nat \<Rightarrow> bool \<Rightarrow> Value \<Rightarrow> int result" where
  "As_integer bits sg v = rbind (Parse_int64 sg v) (NarrowToInt bits sg)"

abbreviation As_int :: "Value \<Rightarrow> int result" where "As_int \<equiv> As_integer 32 True"

definition As_default :: "(Value \<Rightarrow> 'a result) \<Rightarrow> 'a \<Rightarrow> Value \<Rightarrow> 'a result" where
  "As_default as d v = (if IsMissing v \<or> IsNull v then Inr d else as v)"

subsection \<open>The checks of \<open>FromString\<close>\<close>

text \<open>
  \<open>CheckKeyUniqueness\<close> walks the document with an explicit stack; the walk visits a value,
  refuses an object with a repeated key, and descends into a non-empty container unless the
  nesting reaches the limit.  The parser of RapidJSON, which may fail or leave input over, is
  the argument \<open>parse\<close>.
\<close>

definition kDepthParseLimit :: nat where
  "kDepthParseLimit = 128"

lemma size_member: "m \<in> set ms \<Longrightarrow> size (snd m) < Suc (size_list (size_prod (\<lambda>_. 0) size) ms)"
  using size_list_estimation [of m ms "size (snd m)" "size_prod (\<lambda>_. 0) size"] by (cases m) simp

function CheckKeyUniqueness :: "nat \<Rightarrow> json \<Rightarrow> bool" where
  "CheckKeyUniqueness depth j =
     (case j of
        JObject ms \<Rightarrow>
          distinct (map fst ms) \<and> (ms = [] \<or> Suc depth < kDepthParseLimit \<and> (\<forall>m\<in>set ms. CheckKeyUniqueness (Suc depth) (snd m)))
      | JArray xs \<Rightarrow> xs = [] \<or> Suc depth < kDepthParseLimit \<and> (\<forall>x\<in>set xs. CheckKeyUniqueness (Suc depth) x)
      | _ \<Rightarrow> True)"
  by pat_completeness auto
termination
  by (relation "measure (\<lambda>(_, j). size j)") (auto simp: size_member size_list_estimation' less_Suc_eq_le)

declare CheckKeyUniqueness.simps [simp del]

definition FromString :: "(string \<Rightarrow> (json \<times> string) option) \<Rightarrow> string \<Rightarrow> Value result" where
  "FromString parse doc =
     (case parse doc of
        None \<Rightarrow> Inl JsonParseException
      | Some (j, rest) \<Rightarrow>
          if rest \<noteq> [] then Inl JsonParseException
          else if CheckKeyUniqueness 0 j then Inr (Present j) else Inl JsonParseException)"

subsection \<open>The builder\<close>

text \<open>
  A root builder owns its document, so its state is a \<open>json\<close> value; an empty builder holds
  null.  \<open>b[key] = v\<close> is \<open>AddMember\<close>, which finds or appends the member, and the assignment to it.
\<close>

definition builder_Value :: "json \<Rightarrow> Value" where
  "builder_Value b = Present b"

fun set_member :: "string \<Rightarrow> json \<Rightarrow> (string \<times> json) list \<Rightarrow> (string \<times> json) list" where
  "set_member key v [] = [(key, v)]"
| "set_member key v (m # ms) = (if fst m = key then (key, v) # ms else m # set_member key v ms)"

definition builder_assign :: "string \<Rightarrow> json \<Rightarrow> json \<Rightarrow> json result" where
  "builder_assign key v b =
     rbind (CheckObjectOrNull (builder_Value b)) (\<lambda>_. Inr (JObject (set_member key v (members (builder_Value b)))))"

definition EmplaceNocheck :: "string \<Rightarrow> json \<Rightarrow> json \<Rightarrow> json result" where
  "EmplaceNocheck key v b =
     rbind (CheckObjectOrNull (builder_Value b)) (\<lambda>_. Inr (JObject (members (builder_Value b) @ [(key, v)])))"

definition builder_PushBack :: "json \<Rightarrow> json \<Rightarrow> json result" where
  "builder_PushBack v b =
     rbind (CheckArrayOrNull (builder_Value b)) (\<lambda>_. Inr (JArray (elements (builder_Value b) @ [v])))"

definition builder_Resize :: "nat \<Rightarrow> json \<Rightarrow> json result" where
  "builder_Resize n b =
     rbind (CheckArrayOrNull (builder_Value b)) (\<lambda>_.
       let xs = elements (builder_Value b) in Inr (JArray (take n xs @ replicate (n - length xs) JNull)))"

definition build_object :: "(string \<times> json) list \<Rightarrow> json result" where
  "build_object kvs = foldr_result (\<lambda>(k, v). builder_assign k v) kvs JNull"

definition build_array :: "json list \<Rightarrow> json result" where
  "build_array xs = foldr_result builder_PushBack xs JNull"

subsection \<open>Lemmas\<close>

lemmas json_checks = CheckArrayOrNull_def CheckObjectOrNull_def CheckObjectOrArrayOrNull_def type_mismatch_def
  GetNative_def IsMissing_def builder_Value_def

lemma set_member_new: "key \<notin> fst ` set ms \<Longrightarrow> set_member key v ms = ms @ [(key, v)]"
  by (induction ms) auto

lemma set_member_get: "map_of (set_member key v ms) = (map_of ms)(key \<mapsto> v)"
  by (induction ms) (auto simp: fun_eq_iff)

lemma set_member_distinct: "distinct (map fst ms) \<Longrightarrow> distinct (map fst (set_member key v ms))"
proof -
  have "fst ` set (set_member key v ms) = insert key (fst ` set ms)" for ms by (induction ms) auto
  then show "distinct (map fst ms) \<Longrightarrow> distinct (map fst (set_member key v ms))"
    by (induction ms) (auto simp del: image_insert)
qed

lemma build_object_from:
  assumes "distinct (map fst kvs)" and "fst ` set kvs \<inter> fst ` set ms = {}"
  shows "foldr_result (\<lambda>(k, v). builder_assign k v) kvs (JObject ms) = Inr (JObject (ms @ kvs))"
  using assms
proof (induction kvs arbitrary: ms)
  case (Cons kv kvs)
  obtain k v where kv: "kv = (k, v)" by (cases kv)
  have new: "k \<notin> fst ` set ms" using Cons.prems(2) kv by auto
  then have "builder_assign k v (JObject ms) = Inr (JObject (ms @ [(k, v)]))"
    by (simp add: builder_assign_def json_checks set_member_new)
  then show ?case using Cons.IH [of "ms @ [(k, v)]"] Cons.prems kv by auto
qed simp

lemma build_object_distinct:
  "distinct (map fst kvs) \<Longrightarrow> build_object kvs = Inr (if kvs = [] then JNull else JObject kvs)"
proof (cases kvs)
  case (Cons kv rest)
  obtain k v where kv: "kv = (k, v)" by (cases kv)
  assume "distinct (map fst kvs)"
  then have "foldr_result (\<lambda>(k, v). builder_assign k v) rest (JObject [(k, v)]) = Inr (JObject ([(k, v)] @ rest))"
    using Cons kv by (intro build_object_from) auto
  then show ?thesis using Cons kv by (simp add: build_object_def builder_assign_def json_checks)
qed (simp add: build_object_def)

lemma build_array_from: "foldr_result builder_PushBack xs (JArray ys) = Inr (JArray (ys @ xs))"
  by (induction xs arbitrary: ys) (simp_all add: builder_PushBack_def json_checks)

lemma build_array_result: "build_array xs = Inr (if xs = [] then JNull else JArray xs)"
  by (cases xs) (simp_all add: build_array_def build_array_from builder_PushBack_def json_checks)

lemma CheckKeyUniqueness_simps [simp]:
  "CheckKeyUniqueness d JNull" "CheckKeyUniqueness d (JBool b)" "CheckKeyUniqueness d (JInt i)"
  "CheckKeyUniqueness d (JDouble q)" "CheckKeyUniqueness d (JString s)"
  "CheckKeyUniqueness d (JObject ms) \<longleftrightarrow>
     distinct (map fst ms) \<and> (ms = [] \<or> Suc d < kDepthParseLimit \<and> (\<forall>m\<in>set ms. CheckKeyUniqueness (Suc d) (snd m)))"
  "CheckKeyUniqueness d (JArray xs) \<longleftrightarrow> xs = [] \<or> Suc d < kDepthParseLimit \<and> (\<forall>x\<in>set xs. CheckKeyUniqueness (Suc d) x)"
  by (simp_all add: CheckKeyUniqueness.simps)

lemma HasMember_simps [simp]:
  "HasMember key (Present (JObject ms)) = Inr (map_of ms key \<noteq> None)"
  "HasMember key (Present JNull) = Inr False"
  by (simp_all add: HasMember_def json_checks)

lemma Value_member_simps [simp]:
  "Value_member key (Present (JObject ms)) = Inr (case map_of ms key of Some j \<Rightarrow> Present j | None \<Rightarrow> Missing)"
  "Value_member key (Present JNull) = Inr Missing"
  by (simp_all add: Value_member_def json_checks)

lemma HasMember_Inr_iff: "(\<exists>b. HasMember key v = Inr b) \<longleftrightarrow> IsMissing v \<or> IsNull v \<or> IsObject v"
  by (auto simp: HasMember_def json_checks elim!: IsNull.elims IsObject.elims split: if_splits Value.splits)

lemma Parse_string_simps [simp]: "Parse_string (Present (JString s)) = Inr s"
  by (simp add: Parse_string_def GetNative_def)

lemma Parse_string_eq_Inr: "Parse_string v = Inr s \<longleftrightarrow> v = Present (JString s)"
  by (auto simp: Parse_string_def GetNative_def rbind_eq_Inr split: Value.splits json.splits)

lemma As_int_JInt: "in_int 32 True i \<Longrightarrow> As_int (Present (JInt i)) = Inr i"
  by (auto simp: As_integer_def Parse_int64_def GetNative_def NarrowToInt_def in_int_def int_bounds_def)

text \<open>
  What \<open>As<T>()\<close> accepts for an integer type of at most 32 bits: exactly the integers
  of its range, also when the document writes them as a double; the result is that integer.
\<close>

theorem as_integer_accepts:
  assumes "0 < bits" and "bits \<le> 32"
  shows "As_integer bits sg (Present j) = Inr i \<longleftrightarrow>
     in_int bits sg i \<and> (j = JInt i \<or> j = JDouble (of_int i))"
proof -
  have pow: "(2 :: int) ^ bits \<le> 2 ^ 32" "(2 :: int) ^ (bits - 1) \<le> 2 ^ 31"
    using power_increasing [of bits 32 "2 :: int"] power_increasing [of "bits - 1" 31 "2 :: int"] assms by simp_all
  then have in64: "in_int bits sg i \<Longrightarrow> in_int 64 sg i \<and> \<bar>i\<bar> < 2 ^ 53" for i
    by (auto simp: in_int_def int_bounds_def split: if_splits)
  have dbl: "IsNonOverflowingIntegral 64 sg d \<and> \<lfloor>d\<rfloor> = i \<longleftrightarrow> d = of_int i \<and> \<bar>i\<bar> < 2 ^ 53" for d
  proof -
    have "- (2 ^ 53) < (of_int i :: rat) \<and> (of_int i :: rat) < 2 ^ 53 \<longleftrightarrow> \<bar>i\<bar> < 2 ^ 53"
      by (auto simp: abs_less_iff minus_less_iff simp flip: of_int_minus)
    then show ?thesis
      by (auto simp: IsNonOverflowingIntegral_def IsIntegral_def kMaxIntDouble_def)
  qed
  show ?thesis
    using in64 dbl
    by (cases j) (auto simp: As_integer_def Parse_int64_def GetNative_def NarrowToInt_def rbind_eq_Inr split: if_splits)
qed

theorem as_integer_accepts_witness:
  "As_integer 32 True (Present (JDouble 7)) = Inr 7 \<and> As_integer 32 True (Present (JInt (2 ^ 31))) \<noteq> Inr (2 ^ 31)"
  using as_integer_accepts [of 32 True "JDouble 7" 7] as_integer_accepts [of 32 True "JInt (2 ^ 31)" "2 ^ 31"]
  by (simp add: in_int_def int_bounds_def)

end
