(* ===== verification/Pg_Result.thy ===== *)
theory Pg_Result
  imports Json_Value
begin

section \<open>Result sets of PostgreSQL\<close>

text \<open>
  \<open>postgresql/src/storages/postgres/result_set.cpp\<close>, \<open>row.cpp\<close>, \<open>field.cpp\<close>, the integer
  format of \<open>io/integral_types.hpp\<close> and \<open>utils::numeric_cast\<close>: how a handler reads the rows of
  an answer.  The answer itself is libpq's; it is the record \<open>ResultSet\<close>, a grid of buffers in
  the binary format with the column lookup \<open>PQfnumber\<close>.
\<close>

subsection \<open>\<open>numeric_cast\<close>\<close>

text \<open>\<open>std::numeric_limits<T>::digits\<close> of an integer type of so many bits, with or without a sign.\<close>

definition digits :: "nat \<Rightarrow> bool \<Rightarrow> nat" where
  "digits bits sg = (if sg then bits - 1 else bits)"

text \<open>\<open>static_cast\<close> between integer types: the value modulo the size of the target.\<close>

definition static_cast_int :: "nat \<Rightarrow> bool \<Rightarrow> int \<Rightarrow> int" where
  "static_cast_int bits sg x =
     (let m = x mod 2 ^ bits in if sg \<and> 2 ^ (bits - 1) \<le> m then m - 2 ^ bits else m)"

definition numeric_cast :: "exn \<Rightarrow> nat \<Rightarrow> bool \<Rightarrow> nat \<Rightarrow> bool \<Rightarrow> int \<Rightarrow> int result" where
  "numeric_cast err from_bits from_sg to_bits to_sg input =
     (let check_positive_overflow = digits to_bits to_sg < digits from_bits from_sg;
          check_negative_overflow = from_sg \<and> (\<not> to_sg \<or> digits to_bits to_sg < digits from_bits from_sg);
          positive = check_positive_overflow \<and> snd (int_bounds to_bits to_sg) < input;
          negative = check_negative_overflow \<and> input < fst (int_bounds to_bits to_sg)
      in if positive \<or> negative then Inl err else Inr (static_cast_int to_bits to_sg input))"

lemma static_cast_in_range: "0 < bits \<Longrightarrow> in_int bits sg x \<Longrightarrow> static_cast_int bits sg x = x"
proof -
  assume "0 < bits" and in_range: "in_int bits sg x"
  then have pow: "(2 :: int) ^ bits = 2 * 2 ^ (bits - 1)" by (metis Suc_pred' power_Suc)
  show ?thesis
  proof (cases "0 \<le> x")
    case True
    with in_range pow have "x mod 2 ^ bits = x" "sg \<Longrightarrow> x < 2 ^ (bits - 1)"
      by (auto simp: in_int_def int_bounds_def split: if_splits)
    then show ?thesis by (auto simp: static_cast_int_def)
  next
    case False
    then have sg: "sg" and low: "- (2 ^ (bits - 1)) \<le> x" using in_range by (auto simp: in_int_def int_bounds_def split: if_splits)
    have "x mod 2 ^ bits = (x + 2 ^ bits) mod 2 ^ bits" by simp
    also have "\<dots> = x + 2 ^ bits" using False low pow by (intro mod_pos_pos_trivial) auto
    finally show ?thesis using sg low pow by (simp add: static_cast_int_def Let_def)
  qed
qed

lemma in_int_digits:
  "in_int bits sg x \<longleftrightarrow> x < 2 ^ digits bits sg \<and> (if sg then - (2 ^ digits bits sg) \<le> x else 0 \<le> x)"
  by (auto simp: in_int_def int_bounds_def digits_def)

lemma bounds_mono:
  assumes "digits from_bits from_sg \<le> digits to_bits to_sg" and "0 < from_bits" and "0 < to_bits"
    and "in_int from_bits from_sg x" and "from_sg \<longrightarrow> to_sg \<or> 0 \<le> x"
  shows "in_int to_bits to_sg x"
proof -
  have "(2 :: int) ^ digits from_bits from_sg \<le> 2 ^ digits to_bits to_sg" using assms(1) by (simp add: power_increasing)
  moreover have "(0 :: int) \<le> 2 ^ digits to_bits to_sg" by simp
  ultimately show ?thesis using assms(4,5) by (cases from_sg; cases to_sg) (auto simp: in_int_digits simp del: power_increasing_iff)
qed

lemma numeric_cast_result:
  assumes "0 < from_bits" and "0 < to_bits" and "in_int from_bits from_sg x"
  shows "numeric_cast err from_bits from_sg to_bits to_sg x = (if in_int to_bits to_sg x then Inr x else Inl err)"
proof (cases "in_int to_bits to_sg x")
  case True
  then show ?thesis
    using static_cast_in_range [OF assms(2) True] by (auto simp: numeric_cast_def Let_def in_int_def)
next
  case False
  have "digits to_bits to_sg < digits from_bits from_sg \<or> from_sg \<and> \<not> to_sg \<and> x < 0"
    using bounds_mono [OF _ assms(1,2,3), of to_sg] False by fastforce
  then show ?thesis
  proof
    assume narrower: "digits to_bits to_sg < digits from_bits from_sg"
    show ?thesis
    proof (cases "snd (int_bounds to_bits to_sg) < x")
      case True
      then show ?thesis using False narrower by (auto simp: numeric_cast_def Let_def)
    next
      case low: False
      then have "x < fst (int_bounds to_bits to_sg)" using False by (auto simp: in_int_def)
      moreover have "from_sg"
      proof (rule ccontr)
        assume "\<not> from_sg"
        then have "0 \<le> x" using assms(3) by (simp add: in_int_def int_bounds_def)
        moreover have "fst (int_bounds to_bits to_sg) \<le> 0" by (simp add: int_bounds_def)
        ultimately show False using \<open>x < fst (int_bounds to_bits to_sg)\<close> by simp
      qed
      ultimately show ?thesis using False narrower by (auto simp: numeric_cast_def Let_def)
    qed
  next
    assume "from_sg \<and> \<not> to_sg \<and> x < 0"
    then show ?thesis using False by (auto simp: numeric_cast_def Let_def int_bounds_def)
  qed
qed

text \<open>
  \<open>numeric_cast\<close> between integer types of any width and sign returns the value unchanged
  if the target type can hold it and throws otherwise, although it leaves out the comparisons
  that the types make redundant.
\<close>

theorem numeric_cast_exact:
  assumes "0 < from_bits" and "0 < to_bits" and "in_int from_bits from_sg x"
  shows "numeric_cast err from_bits from_sg to_bits to_sg x = (if in_int to_bits to_sg x then Inr x else Inl err)"
  by (rule numeric_cast_result [OF assms])

theorem numeric_cast_exact_witness:
  "numeric_cast PgNarrowingOverflow 64 True 32 True 2147483648 = Inl PgNarrowingOverflow
   \<and> numeric_cast PgNarrowingOverflow 64 True 32 True (- 2147483648) = Inr (- 2147483648)"
  using numeric_cast_exact [of 64 32 True 2147483648 PgNarrowingOverflow True]
    numeric_cast_exact [of 64 32 True "- 2147483648" PgNarrowingOverflow True]
  by (simp add: in_int_def int_bounds_def)

subsection \<open>Integers in the binary format\<close>

record FieldBuffer =
  is_null :: bool
  buffer :: string

definition be_value :: "string \<Rightarrow> int" where
  "be_value s = foldl (\<lambda>v c. 256 * v + int (byte c)) 0 s"

text \<open>\<open>memcpy\<close> of so many bytes into a signed integer, and \<open>big_to_native\<close>.\<close>

definition IntegralBySizeParser :: "nat \<Rightarrow> FieldBuffer \<Rightarrow> int" where
  "IntegralBySizeParser n buf = static_cast_int (8 * n) True (be_value (take n (buffer buf)))"

definition IntegralBinaryParser :: "nat \<Rightarrow> FieldBuffer \<Rightarrow> int result" where
  "IntegralBinaryParser bits buf =
     (if length (buffer buf) \<in> {2, 4, 8}
      then (let n = length (buffer buf) in numeric_cast PgNarrowingOverflow (8 * n) True bits True (IntegralBySizeParser n buf))
      else Inl PgInvalidInputBufferSize)"

fun be_bytes :: "nat \<Rightarrow> int \<Rightarrow> string" where
  "be_bytes 0 v = []"
| "be_bytes (Suc n) v = be_bytes n (v div 256) @ [to_char v]"

definition IntegralBinaryFormatter :: "nat \<Rightarrow> int \<Rightarrow> FieldBuffer" where
  "IntegralBinaryFormatter n v = \<lparr>is_null = False, buffer = be_bytes n v\<rparr>"

lemma be_bytes_length [simp]: "length (be_bytes n v) = n"
  by (induction n arbitrary: v) simp_all

lemma byte_to_char: "int (byte (to_char v)) = v mod 256"
  by (simp add: to_char_def)

lemma be_value_bytes: "be_value (be_bytes n v) = v mod 2 ^ (8 * n)"
proof (induction n arbitrary: v)
  case 0
  then show ?case by (simp add: be_value_def)
next
  case (Suc n)
  have "be_value (be_bytes (Suc n) v) = 256 * be_value (be_bytes n (v div 256)) + v mod 256"
    by (simp add: be_value_def byte_to_char)
  also have "\<dots> = 256 * (v div 256 mod 2 ^ (8 * n)) + v mod 256" by (simp add: Suc)
  also have "\<dots> = v mod (256 * 2 ^ (8 * n))" by (simp add: zmod_zmult2_eq)
  finally show ?case by (simp add: power_add mult.commute)
qed

lemma static_cast_mod: "static_cast_int bits sg (x mod 2 ^ bits) = static_cast_int bits sg x"
  by (simp add: static_cast_int_def)

text \<open>
  An integer column of 2, 4 or 8 bytes read back as a C++ integer of any width: the value
  that was written, or \<open>NarrowingOverflow\<close> if the C++ type is too narrow for it.  In particular
  an identifier of a \<open>BIGSERIAL\<close> column reads as \<open>int\<close> up to 2147483647 and throws beyond.
\<close>

theorem pg_integer_roundtrip:
  assumes "n \<in> {2, 4, 8}" and "0 < bits" and "in_int (8 * n) True v"
  shows "IntegralBinaryParser bits (IntegralBinaryFormatter n v)
     = (if in_int bits True v then Inr v else Inl PgNarrowingOverflow)"
proof -
  have "0 < 8 * n" using assms(1) by auto
  then have v: "IntegralBySizeParser n (IntegralBinaryFormatter n v) = v"
    using assms(3)
    by (simp add: IntegralBySizeParser_def IntegralBinaryFormatter_def be_value_bytes static_cast_mod static_cast_in_range)
  have "numeric_cast PgNarrowingOverflow (8 * n) True bits True v = (if in_int bits True v then Inr v else Inl PgNarrowingOverflow)"
    by (rule numeric_cast_result) (use assms \<open>0 < 8 * n\<close> in auto)
  then show ?thesis
    using assms(1) v by (simp add: IntegralBinaryParser_def IntegralBinaryFormatter_def)
qed

theorem pg_integer_roundtrip_witness:
  "IntegralBinaryParser 32 (IntegralBinaryFormatter 8 (- 7)) = Inr (- 7)
   \<and> IntegralBinaryParser 32 (IntegralBinaryFormatter 8 4294967296) = Inl PgNarrowingOverflow"
  using pg_integer_roundtrip [of 8 32 "- 7"] pg_integer_roundtrip [of 8 32 4294967296]
  by (simp add: in_int_def int_bounds_def)

subsection \<open>Fields, rows and result sets\<close>

record ResultSet =
  rs_columns :: nat
  PQfnumber :: "string \<Rightarrow> nat option"
  rs_rows :: "FieldBuffer list list"

definition Size :: "ResultSet \<Rightarrow> nat" where
  "Size rs = length (rs_rows rs)"

definition FieldCount :: "ResultSet \<Rightarrow> nat" where
  "FieldCount rs = rs_columns rs"

definition ResultSet_IsEmpty :: "ResultSet \<Rightarrow> bool" where
  "ResultSet_IsEmpty rs \<longleftrightarrow> Size rs = 0"

text \<open>A row is an index into its result set, a field a pair of indexes.\<close>

definition ResultSet_at :: "ResultSet \<Rightarrow> nat \<Rightarrow> nat result" where
  "ResultSet_at rs i = (if Size rs \<le> i then Inl PgRowIndexOutOfBounds else Inr i)"

definition Row_at :: "ResultSet \<Rightarrow> nat \<Rightarrow> nat \<Rightarrow> (nat \<times> nat) result" where
  "Row_at rs row i = (if FieldCount rs \<le> i then Inl PgFieldIndexOutOfBounds else Inr (row, i))"

definition Row_named :: "ResultSet \<Rightarrow> nat \<Rightarrow> string \<Rightarrow> (nat \<times> nat) result" where
  "Row_named rs row name =
     (case PQfnumber rs name of None \<Rightarrow> Inl PgFieldNameDoesntExist | Some i \<Rightarrow> Row_at rs row i)"

definition GetBuffer :: "ResultSet \<Rightarrow> nat \<times> nat \<Rightarrow> FieldBuffer" where
  "GetBuffer rs fld = rs_rows rs ! fst fld ! snd fld"

text \<open>Reading into a type that has no null value, as \<open>int\<close> and \<open>std::string\<close>.\<close>

definition Field_As :: "(FieldBuffer \<Rightarrow> 'a result) \<Rightarrow> ResultSet \<Rightarrow> nat \<times> nat \<Rightarrow> 'a result" where
  "Field_As Read rs fld =
     (let fb = GetBuffer rs fld in if is_null fb then Inl PgFieldValueIsNull else Read fb)"

definition Read_string :: "FieldBuffer \<Rightarrow> string result" where
  "Read_string fb = Inr (buffer fb)"

abbreviation Read_int :: "FieldBuffer \<Rightarrow> int result" where
  "Read_int \<equiv> IntegralBinaryParser 32"

definition Row_To_field :: "(FieldBuffer \<Rightarrow> 'a result) \<Rightarrow> ResultSet \<Rightarrow> nat \<Rightarrow> 'a result" where
  "Row_To_field Read rs row =
     (if FieldCount rs < 1 then Inl PgInvalidTupleSize
      else if 1 < FieldCount rs then Inl PgNonSingleColumn
      else rbind (Row_at rs row 0) (Field_As Read rs))"

definition AsSingleRow :: "(FieldBuffer \<Rightarrow> 'a result) \<Rightarrow> ResultSet \<Rightarrow> 'a result" where
  "AsSingleRow Read rs =
     (if Size rs \<noteq> 1 then Inl PgNonSingleRow
      else rbind (ResultSet_at rs 0) (Row_To_field Read rs))"

definition row_field :: "(FieldBuffer \<Rightarrow> 'a result) \<Rightarrow> ResultSet \<Rightarrow> string \<Rightarrow> nat \<Rightarrow> 'a result" where
  "row_field Read rs name row = rbind (Row_named rs row name) (Field_As Read rs)"

text \<open>
  The iterators of a result set: \<open>IsValid\<close> and \<open>Advance\<close> of \<open>Row\<close>, with \<open>npos\<close> the largest
  \<open>size_t\<close>, and the range-based \<open>for\<close> loop over \<open>[cbegin, cend)\<close> as the list of the rows visited.
\<close>

definition npos :: nat where
  "npos = 2 ^ 64 - 1"

definition Row_IsValid :: "ResultSet \<Rightarrow> nat \<Rightarrow> bool" where
  "Row_IsValid rs row \<longleftrightarrow> row \<le> Size rs"

definition Row_Advance :: "ResultSet \<Rightarrow> int \<Rightarrow> nat \<Rightarrow> nat" where
  "Row_Advance rs distance row =
     (if Row_IsValid rs row then
        (let target = distance + int row in if target < 0 \<or> int (Size rs) < target then npos else nat target)
      else if distance = 1 then 0
      else if distance = -1 then Size rs - 1
      else row)"

function visit_rows :: "ResultSet \<Rightarrow> nat \<Rightarrow> nat list" where
  "visit_rows rs row = (if Size rs \<le> row then [] else row # visit_rows rs (Row_Advance rs 1 row))"
  by pat_completeness auto
termination
  by (relation "measure (\<lambda>(rs, row). Size rs - row)") (auto simp: Row_Advance_def Row_IsValid_def)

declare visit_rows.simps [simp del]

lemma Row_Advance_next: "row < Size rs \<Longrightarrow> Row_Advance rs 1 row = Suc row"
  by (simp add: Row_Advance_def Row_IsValid_def nat_add_distrib)

lemma visit_rows_upt: "visit_rows rs row = [row..<Size rs]"
proof (induction rs row rule: visit_rows.induct)
  case (1 rs row)
  then show ?case
    by (cases "Size rs \<le> row") (simp_all add: visit_rows.simps [of rs row] Row_Advance_next upt_conv_Cons)
qed

subsection \<open>Result sets as tables\<close>

text \<open>A table of typed values, as the database fills a result set from it.\<close>

datatype pg_value = PgNull | PgBigint int | PgText string

fun encode_value :: "pg_value \<Rightarrow> FieldBuffer" where
  "encode_value PgNull = \<lparr>is_null = True, buffer = []\<rparr>"
| "encode_value (PgBigint i) = IntegralBinaryFormatter 8 i"
| "encode_value (PgText s) = \<lparr>is_null = False, buffer = s\<rparr>"

definition table_result :: "string list \<Rightarrow> pg_value list list \<Rightarrow> ResultSet" where
  "table_result names rows =
     \<lparr>rs_columns = length names, PQfnumber = (\<lambda>name. find_pos (\<lambda>n. n = name) names), rs_rows = map (map encode_value) rows\<rparr>"

fun value_int :: "pg_value \<Rightarrow> int result" where
  "value_int PgNull = Inl PgFieldValueIsNull"
| "value_int (PgBigint i) = (if in_int 32 True i then Inr i else Inl PgNarrowingOverflow)"
| "value_int (PgText s) = Read_int \<lparr>is_null = False, buffer = s\<rparr>"

fun value_string :: "pg_value \<Rightarrow> string result" where
  "value_string PgNull = Inl PgFieldValueIsNull"
| "value_string (PgBigint i) = Inr (be_bytes 8 i)"
| "value_string (PgText s) = Inr s"

definition value_wf :: "pg_value \<Rightarrow> bool" where
  "value_wf v \<longleftrightarrow> (case v of PgBigint i \<Rightarrow> in_int 64 True i | _ \<Rightarrow> True)"

lemma Read_bigint: "in_int 64 True i \<Longrightarrow> Read_int (IntegralBinaryFormatter 8 i) = value_int (PgBigint i)"
  by (simp add: IntegralBinaryParser_def IntegralBySizeParser_def IntegralBinaryFormatter_def be_value_bytes
      static_cast_mod [of 64, simplified] static_cast_in_range numeric_cast_result)

lemma Field_As_value:
  assumes "i < length rows" and "j < length (rows ! i)" and "rows ! i ! j = v"
  shows "Field_As Read_string (table_result names rows) (i, j) = value_string v"
    and "value_wf v \<Longrightarrow> Field_As Read_int (table_result names rows) (i, j) = value_int v"
proof -
  have "GetBuffer (table_result names rows) (i, j) = encode_value v"
    using assms by (simp add: GetBuffer_def table_result_def)
  then show "Field_As Read_string (table_result names rows) (i, j) = value_string v"
    and "value_wf v \<Longrightarrow> Field_As Read_int (table_result names rows) (i, j) = value_int v"
    by (cases v; simp add: Field_As_def Read_string_def Let_def IntegralBinaryFormatter_def;
        simp add: Read_bigint [unfolded IntegralBinaryFormatter_def] value_wf_def)+
qed

lemma row_field_value:
  assumes "find_pos (\<lambda>n. n = name) names = Some j" and "i < length rows" and "length (rows ! i) = length names"
  shows "row_field Read_string (table_result names rows) name i = value_string (rows ! i ! j)"
    and "value_wf (rows ! i ! j) \<Longrightarrow> row_field Read_int (table_result names rows) name i = value_int (rows ! i ! j)"
proof -
  have j: "j < length names" using assms(1) by (simp add: find_pos_Some_iff)
  then have "Row_named (table_result names rows) i name = Inr (i, j)"
    using assms(1) by (simp add: Row_named_def Row_at_def FieldCount_def table_result_def)
  then show "row_field Read_string (table_result names rows) name i = value_string (rows ! i ! j)"
    and "value_wf (rows ! i ! j) \<Longrightarrow> row_field Read_int (table_result names rows) name i = value_int (rows ! i ! j)"
    using Field_As_value [of i rows j _ names] j assms(2,3) by (simp_all add: row_field_def)
qed

lemma AsSingleRow_value:
  assumes "value_wf v"
  shows "AsSingleRow Read_int (table_result [name] [[v]]) = value_int v"
  using Field_As_value(2) [of 0 "[[v]]" 0 v "[name]"] assms
  by (simp add: AsSingleRow_def ResultSet_at_def Row_To_field_def FieldCount_def Row_at_def Size_def)
     (simp add: table_result_def)

lemma Size_table [simp]: "Size (table_result names rows) = length rows"
  by (simp add: Size_def table_result_def)

end
