(* ===== verification/Services.thy ===== *)
theory Services
  imports Pg_Result Http_Request
begin

section \<open>The handlers of the services\<close>

text \<open>
  \<open>auth-service/src/auth.cpp\<close>, \<open>user-service/src/users.cpp\<close>, \<open>chat-service/src/messages.cpp\<close>,
  \<open>wall-service/src/posts.cpp\<close> and the greeting every service carries.  A handler works on the
  request, whose response it changes, and on the database; it returns the body or throws, and
  what it did before it threw stays done.  The database behind \<open>Cluster::Execute\<close> and the text
  parser and printer of RapidJSON are inputs, gathered in the record \<open>SvcEnv\<close>.
\<close>

subsection \<open>State and environment\<close>

datatype ClusterHostType = kMaster | kSlave

record 'db svc =
  svc_request :: HttpRequest
  svc_db :: 'db

record 'db SvcEnv =
  Execute :: "ClusterHostType \<Rightarrow> string \<Rightarrow> pg_value list \<Rightarrow> ('db, ResultSet) act"
  json_parse :: "string \<Rightarrow> (json \<times> string) option"
  json_print :: "json \<Rightarrow> string"

type_synonym ('db, 'a) svc_act = "('db svc, 'a) act"

definition on_db :: "('db, 'a) act \<Rightarrow> ('db, 'a) svc_act" where
  "on_db m s = (case m (svc_db s) of (r, db) \<Rightarrow> (r, s\<lparr>svc_db := db\<rparr>))"

definition set_status :: "StatusCode \<Rightarrow> ('db, unit) svc_act" where
  "set_status code = act_modify (\<lambda>s. s\<lparr>svc_request := SetResponseStatus code (svc_request s)\<rparr>)"

definition reply :: "StatusCode \<Rightarrow> string \<Rightarrow> ('db, string) svc_act" where
  "reply code body = act_then (set_status code) (act_return body)"

definition get_method :: "('db, HttpMethod) svc_act" where
  "get_method = act_get (\<lambda>s. GetMethod (svc_request s))"

definition get_arg :: "string \<Rightarrow> ('db, string) svc_act" where
  "get_arg name = act_get (\<lambda>s. GetArg (svc_request s) name)"

definition parse_body :: "'db SvcEnv \<Rightarrow> ('db, Value) svc_act" where
  "parse_body env s = act_lift (FromString (json_parse env) (RequestBody (svc_request s))) s"

subsection \<open>\<open>std::stoi\<close>\<close>

text \<open>
  Base 10, the tail ignored: no digit is \<open>std::invalid_argument\<close>, a value outside the type is
  \<open>std::out_of_range\<close>; \<open>std::stoi\<close> is the case of 32 bits.
\<close>

definition sto_int :: "nat \<Rightarrow> string \<Rightarrow> int result" where
  "sto_int bits s =
     (let t = dropWhile isspace s;
          neg = (t \<noteq> [] \<and> hd t = CHR ''-'');
          u = (if t \<noteq> [] \<and> hd t \<in> {CHR ''-'', CHR ''+''} then tl t else t);
          ds = takeWhile is_digit u;
          v = (if neg then - int (undec ds) else int (undec ds))
      in if ds = [] then Inl InvalidArgument
         else if in_int bits True v then Inr v else Inl OutOfRange)"

definition stoi :: "string \<Rightarrow> int result" where
  "stoi s = sto_int 32 s"

subsection \<open>Reading and building JSON\<close>

text \<open>\<open>!json.HasMember(k1) || !json.HasMember(k2) || ...\<close>, from left to right.\<close>

fun lacks_member :: "string list \<Rightarrow> Value \<Rightarrow> bool result" where
  "lacks_member [] json = Inr False"
| "lacks_member (k # ks) json = rbind (HasMember k json) (\<lambda>b. if b then lacks_member ks json else Inr True)"

definition string_member :: "string \<Rightarrow> Value \<Rightarrow> string result" where
  "string_member key json = rbind (Value_member key json) Parse_string"

definition int_member :: "string \<Rightarrow> Value \<Rightarrow> int result" where
  "int_member key json = rbind (Value_member key json) As_int"

text \<open>A run of \<open>item[key] = value;\<close> where computing a value may throw.\<close>

fun build_item :: "(string \<times> json result) list \<Rightarrow> json \<Rightarrow> json result" where
  "build_item [] b = Inr b"
| "build_item ((k, r) # kvs) b = rbind r (\<lambda>v. rbind (builder_assign k v b) (build_item kvs))"

definition json_int :: "int result \<Rightarrow> json result" where
  "json_int r = rbind r (\<lambda>i. Inr (JInt i))"

definition json_string :: "string result \<Rightarrow> json result" where
  "json_string r = rbind r (\<lambda>s. Inr (JString s))"

text \<open>\<open>for (const auto& row : result) { ... arr.PushBack(item.ExtractValue()); }\<close>\<close>

definition push_rows :: "(ResultSet \<Rightarrow> nat \<Rightarrow> json result) \<Rightarrow> ResultSet \<Rightarrow> json \<Rightarrow> json result" where
  "push_rows item rs arr =
     foldr_result (\<lambda>row arr. rbind (item rs row) (\<lambda>j. builder_PushBack j arr)) (visit_rows rs 0) arr"

definition print_result :: "'db SvcEnv \<Rightarrow> json result \<Rightarrow> ('db, string) svc_act" where
  "print_result env r = act_lift (rbind r (\<lambda>j. Inr (json_print env j)))"

subsection \<open>Greeting\<close>

datatype UserType = kFirstTime | kKnown

definition SayHelloTo :: "string \<Rightarrow> UserType \<Rightarrow> string" where
  "SayHelloTo name type =
     (let name = (if name = [] then ''unknown user'' else name)
      in case type of
           kFirstTime \<Rightarrow> ''Hello, '' @ name @ [CHR ''!'', CHR 0x0A]
         | kKnown \<Rightarrow> ''Hi again, '' @ name @ [CHR ''!'', CHR 0x0A])"

definition Hello_HandleRequestThrow :: "('db, string) svc_act" where
  "Hello_HandleRequestThrow = act_bind (get_arg ''name'') (\<lambda>name. act_return (SayHelloTo name kFirstTime))"

subsection \<open>\<open>auth-service\<close>\<close>

definition AuthHandler_HandleRequestThrow :: "('db, string) svc_act" where
  \<open>AuthHandler_HandleRequestThrow =
     act_bind get_method (\<lambda>m.
       if m \<noteq> kPost then reply HttpStatus_kMethodNotAllowed ''{"error":"Only POST allowed"}''
       else reply HttpStatus_kOk ''{"token":"123"}'')\<close>

subsection \<open>\<open>user-service\<close>\<close>

definition sql_insert_user :: string where
  "sql_insert_user = ''INSERT INTO users(username, email, password_hash) VALUES($1, $2, $3) RETURNING id''"

definition sql_insert_profile :: string where
  "sql_insert_profile = ''INSERT INTO profiles(user_id, first_name, last_name) VALUES($1, $2, $3)''"

definition sql_select_users :: string where
  "sql_select_users =
     ''SELECT u.id, u.username, p.first_name, p.last_name FROM users u LEFT JOIN profiles p ON p.user_id = u.id '' @
     ''WHERE ($1::text = '' @ [CHR 0x27, CHR 0x27] @ '' OR u.username = $1)   AND ($2::text = '' @ [CHR 0x27, CHR 0x27] @
     '' OR p.first_name ILIKE '' @ [CHR 0x27] @ ''%'' @ [CHR 0x27] @ '' || $2 || '' @ [CHR 0x27] @ ''%'' @ [CHR 0x27] @
     ''                    OR p.last_name ILIKE '' @ [CHR 0x27] @ ''%'' @ [CHR 0x27] @ '' || $2 || '' @ [CHR 0x27] @ ''%'' @
     [CHR 0x27] @ '') ORDER BY u.id''"

definition users_post :: "'db SvcEnv \<Rightarrow> ('db, string) svc_act" where
  \<open>users_post env =
     act_bind (parse_body env) (\<lambda>json.
     act_bind (act_lift (lacks_member [''login'', ''email'', ''password'', ''first_name'', ''last_name''] json)) (\<lambda>lacks.
     if lacks then reply HttpStatus_kBadRequest ''{"error":"login, email, password, first_name, last_name are required"}''
     else
       act_bind (act_lift (string_member ''login'' json)) (\<lambda>login.
       act_bind (act_lift (string_member ''email'' json)) (\<lambda>email.
       act_bind (act_lift (string_member ''password'' json)) (\<lambda>password_hash.
       act_bind (act_lift (string_member ''first_name'' json)) (\<lambda>first_name.
       act_bind (act_lift (string_member ''last_name'' json)) (\<lambda>last_name.
       act_bind (on_db (Execute env kMaster sql_insert_user [PgText login, PgText email, PgText password_hash])) (\<lambda>user_res.
       act_bind (act_lift (AsSingleRow Read_int user_res)) (\<lambda>user_id.
       act_then (on_db (Execute env kMaster sql_insert_profile [PgBigint user_id, PgText first_name, PgText last_name]))
      (act_then (set_status HttpStatus_kCreated)
         (print_result env (build_item
            [(''id'', Inr (JInt user_id)), (''login'', Inr (JString login)), (''email'', Inr (JString email)),
             (''first_name'', Inr (JString first_name)), (''last_name'', Inr (JString last_name))] JNull))))))))))))\<close>

definition users_item :: "ResultSet \<Rightarrow> nat \<Rightarrow> json result" where
  "users_item rs row =
     build_item
       [(''id'', json_int (row_field Read_int rs ''id'' row)),
        (''login'', json_string (row_field Read_string rs ''username'' row)),
        (''first_name'', json_string (row_field Read_string rs ''first_name'' row)),
        (''last_name'', json_string (row_field Read_string rs ''last_name'' row))] JNull"

definition users_get :: "'db SvcEnv \<Rightarrow> ('db, string) svc_act" where
  "users_get env =
     act_bind (get_arg ''login'') (\<lambda>login.
     act_bind (get_arg ''name'') (\<lambda>name.
     act_bind (on_db (Execute env kSlave sql_select_users [PgText login, PgText name])) (\<lambda>result.
       print_result env (push_rows users_item result JNull))))"

definition UsersHandler_HandleRequestThrow :: "'db SvcEnv \<Rightarrow> ('db, string) svc_act" where
  \<open>UsersHandler_HandleRequestThrow env =
     act_bind get_method (\<lambda>m.
       if m = kPost then users_post env
       else if m = kGet then users_get env
       else reply HttpStatus_kMethodNotAllowed ''{"error":"Method not allowed"}'')\<close>

subsection \<open>\<open>chat-service\<close>\<close>

definition sql_select_chat :: string where
  "sql_select_chat =
     ''SELECT c.id FROM chats c JOIN chat_members cm1 ON cm1.chat_id = c.id AND cm1.user_id = $1 '' @
     ''JOIN chat_members cm2 ON cm2.chat_id = c.id AND cm2.user_id = $2 WHERE c.is_group = FALSE LIMIT 1''"

definition sql_insert_chat :: string where
  "sql_insert_chat = ''INSERT INTO chats(title, is_group) VALUES($1, FALSE) RETURNING id''"

definition sql_insert_members :: string where
  "sql_insert_members = ''INSERT INTO chat_members(chat_id, user_id) VALUES($1, $2), ($1, $3)''"

definition sql_insert_message :: string where
  "sql_insert_message = ''INSERT INTO messages(chat_id, sender_id, content) VALUES($1, $2, $3) RETURNING id''"

definition sql_select_messages :: string where
  "sql_select_messages =
     ''SELECT m.id, m.chat_id, m.sender_id, m.content FROM messages m '' @
     ''JOIN chat_members cm ON cm.chat_id = m.chat_id WHERE cm.user_id = $1 ORDER BY m.created_at DESC''"

text \<open>The private chat of two users: the one found, or a new one.\<close>

definition private_chat :: "'db SvcEnv \<Rightarrow> int \<Rightarrow> int \<Rightarrow> ('db, int) svc_act" where
  "private_chat env from to =
     act_bind (on_db (Execute env kMaster sql_select_chat [PgBigint from, PgBigint to])) (\<lambda>chat_res.
       if ResultSet_IsEmpty chat_res then
         act_bind (on_db (Execute env kMaster sql_insert_chat [PgText ''private-chat''])) (\<lambda>created_chat.
         act_bind (act_lift (AsSingleRow Read_int created_chat)) (\<lambda>chat_id.
         act_then (on_db (Execute env kMaster sql_insert_members [PgBigint chat_id, PgBigint from, PgBigint to]))
           (act_return chat_id)))
       else act_lift (AsSingleRow Read_int chat_res))"

definition messages_post :: "'db SvcEnv \<Rightarrow> ('db, string) svc_act" where
  \<open>messages_post env =
     act_bind (parse_body env) (\<lambda>json.
     act_bind (act_lift (lacks_member [''from'', ''to'', ''text''] json)) (\<lambda>lacks.
     if lacks then reply HttpStatus_kBadRequest ''{"error":"from, to, text are required"}''
     else
       act_bind (act_lift (int_member ''from'' json)) (\<lambda>from.
       act_bind (act_lift (int_member ''to'' json)) (\<lambda>to.
       act_bind (act_lift (string_member ''text'' json)) (\<lambda>text.
       act_bind (private_chat env from to) (\<lambda>chat_id.
       act_bind (on_db (Execute env kMaster sql_insert_message [PgBigint chat_id, PgBigint from, PgText text])) (\<lambda>msg_res.
       act_bind (act_lift (AsSingleRow Read_int msg_res)) (\<lambda>message_id.
       act_then (set_status HttpStatus_kCreated)
         (print_result env (build_item
            [(''id'', Inr (JInt message_id)), (''chat_id'', Inr (JInt chat_id)), (''from'', Inr (JInt from)),
             (''text'', Inr (JString text))] JNull))))))))))\<close>

definition messages_item :: "ResultSet \<Rightarrow> nat \<Rightarrow> json result" where
  "messages_item rs row =
     build_item
       [(''id'', json_int (row_field Read_int rs ''id'' row)),
        (''chat_id'', json_int (row_field Read_int rs ''chat_id'' row)),
        (''from'', json_int (row_field Read_int rs ''sender_id'' row)),
        (''text'', json_string (row_field Read_string rs ''content'' row))] JNull"

definition messages_get :: "'db SvcEnv \<Rightarrow> ('db, string) svc_act" where
  \<open>messages_get env =
     act_bind (get_arg ''user_id'') (\<lambda>user_id_arg.
       if user_id_arg = [] then reply HttpStatus_kBadRequest ''{"error":"user_id is required"}''
       else
         act_bind (act_lift (stoi user_id_arg)) (\<lambda>user_id.
         act_bind (on_db (Execute env kSlave sql_select_messages [PgBigint user_id])) (\<lambda>result.
           print_result env (push_rows messages_item result JNull))))\<close>

definition authorized :: "('db, bool) svc_act" where
  "authorized = act_get (\<lambda>s. Request_GetHeader (svc_request s) ''Authorization'' = ''Bearer 123'')"

definition MessagesHandler_HandleRequestThrow :: "'db SvcEnv \<Rightarrow> ('db, string) svc_act" where
  \<open>MessagesHandler_HandleRequestThrow env =
     act_bind authorized (\<lambda>ok.
       if \<not> ok then reply HttpStatus_kUnauthorized ''{"error":"Unauthorized"}''
       else act_bind get_method (\<lambda>m.
         if m = kPost then messages_post env
         else if m = kGet then messages_get env
         else reply HttpStatus_kMethodNotAllowed ''{"error":"Method not allowed"}''))\<close>

subsection \<open>\<open>wall-service\<close>\<close>

definition sql_insert_post :: string where
  "sql_insert_post = ''INSERT INTO posts(author_id, content) VALUES($1, $2) RETURNING id''"

definition sql_select_posts_of :: string where
  "sql_select_posts_of = ''SELECT id, author_id, content FROM posts WHERE author_id = $1 ORDER BY created_at DESC''"

definition sql_select_posts :: string where
  "sql_select_posts = ''SELECT id, author_id, content FROM posts ORDER BY created_at DESC''"

definition posts_post :: "'db SvcEnv \<Rightarrow> ('db, string) svc_act" where
  \<open>posts_post env =
     act_bind (parse_body env) (\<lambda>json.
     act_bind (act_lift (lacks_member [''user_id'', ''content''] json)) (\<lambda>lacks.
     if lacks then reply HttpStatus_kBadRequest ''{"error":"invalid data"}''
     else
       act_bind (act_lift (int_member ''user_id'' json)) (\<lambda>user_id.
       act_bind (act_lift (string_member ''content'' json)) (\<lambda>content.
       act_bind (on_db (Execute env kMaster sql_insert_post [PgBigint user_id, PgText content])) (\<lambda>result.
       act_bind (act_lift (AsSingleRow Read_int result)) (\<lambda>post_id.
       act_then (set_status HttpStatus_kCreated)
         (print_result env (build_item
            [(''id'', Inr (JInt post_id)), (''user_id'', Inr (JInt user_id)), (''content'', Inr (JString content))] JNull))))))))\<close>

definition posts_item :: "ResultSet \<Rightarrow> nat \<Rightarrow> json result" where
  "posts_item rs row =
     build_item
       [(''id'', json_int (row_field Read_int rs ''id'' row)),
        (''user_id'', json_int (row_field Read_int rs ''author_id'' row)),
        (''content'', json_string (row_field Read_string rs ''content'' row))] JNull"

definition posts_get :: "'db SvcEnv \<Rightarrow> ('db, string) svc_act" where
  "posts_get env =
     act_bind (get_arg ''user_id'') (\<lambda>user_id_arg.
     act_bind
       (if user_id_arg \<noteq> [] then
          act_bind (act_lift (stoi user_id_arg)) (\<lambda>user_id. on_db (Execute env kSlave sql_select_posts_of [PgBigint user_id]))
        else on_db (Execute env kSlave sql_select_posts [])) (\<lambda>result.
     print_result env (push_rows posts_item result JNull)))"

definition PostsHandler_HandleRequestThrow :: "'db SvcEnv \<Rightarrow> ('db, string) svc_act" where
  \<open>PostsHandler_HandleRequestThrow env =
     act_bind authorized (\<lambda>ok.
       if \<not> ok then reply HttpStatus_kUnauthorized ''{"error":"Unauthorized"}''
       else act_bind get_method (\<lambda>m.
         if m = kPost then posts_post env
         else if m = kGet then posts_get env
         else reply HttpStatus_kMethodNotAllowed ''{"error":"Method not allowed"}''))\<close>

end
