(* ===== verification/Social_Db.thy ===== *)
theory Social_Db
  imports Services
begin

section \<open>The database of the services\<close>

text \<open>
  What the handlers rely on when they talk to PostgreSQL, as the locale \<open>social_store\<close> over the
  tables of \<open>db/schema.sql\<close>, and a database with this schema that fulfils it.  The statements of
  the handlers are given by their texts; an answer carries rows, a violated constraint throws
  and changes no table.  One server answers the statements for the master and for the slave, as
  in \<open>docker-compose.yaml\<close>.
\<close>

subsection \<open>Tables and constraints\<close>

text \<open>The columns the services use; \<open>created_at\<close> orders answers and appears in none.\<close>

record Tables =
  users :: "(int \<times> string \<times> string \<times> string) set"
  profiles :: "(int \<times> string \<times> string) set"
  posts :: "(int \<times> int \<times> string) set"
  chats :: "(int \<times> bool) set"
  chat_members :: "(int \<times> int) set"
  messages :: "(int \<times> int \<times> int \<times> string) set"

definition char_length :: "string \<Rightarrow> nat" where
  "char_length s = length (filter (\<lambda>c. byte c < 128 \<or> 192 \<le> byte c) s)"

definition user_fits :: "Tables \<Rightarrow> string \<Rightarrow> string \<Rightarrow> bool" where
  "user_fits t username email \<longleftrightarrow>
     char_length username \<le> 50 \<and> char_length email \<le> 255
     \<and> (\<forall>(i, u, e, p)\<in>users t. u \<noteq> username \<and> e \<noteq> email)"

definition name_fits :: "string \<Rightarrow> bool" where
  "name_fits s \<longleftrightarrow> 0 < char_length s \<and> char_length s \<le> 100"

definition profile_fits :: "Tables \<Rightarrow> int \<Rightarrow> string \<Rightarrow> string \<Rightarrow> bool" where
  "profile_fits t uid first_name last_name \<longleftrightarrow>
     uid \<in> fst ` users t \<and> uid \<notin> fst ` profiles t \<and> name_fits first_name \<and> name_fits last_name"

definition post_fits :: "Tables \<Rightarrow> int \<Rightarrow> string \<Rightarrow> bool" where
  "post_fits t author content \<longleftrightarrow> author \<in> fst ` users t \<and> 0 < char_length content"

definition members_fit :: "Tables \<Rightarrow> int \<Rightarrow> int \<Rightarrow> int \<Rightarrow> bool" where
  "members_fit t chat a b \<longleftrightarrow>
     chat \<in> fst ` chats t \<and> a \<in> fst ` users t \<and> b \<in> fst ` users t
     \<and> a \<noteq> b \<and> (chat, a) \<notin> chat_members t \<and> (chat, b) \<notin> chat_members t"

definition message_fits :: "Tables \<Rightarrow> int \<Rightarrow> int \<Rightarrow> string \<Rightarrow> bool" where
  "message_fits t chat sender content \<longleftrightarrow>
     chat \<in> fst ` chats t \<and> sender \<in> fst ` users t \<and> 0 < char_length content"

definition serial_left :: "int \<Rightarrow> bool" where
  "serial_left i \<longleftrightarrow> i \<le> 2 ^ 63 - 1"

subsection \<open>Queries\<close>

definition users_view :: "(string \<Rightarrow> string \<Rightarrow> bool) \<Rightarrow> Tables \<Rightarrow> string \<Rightarrow> string \<Rightarrow> pg_value list set" where
  "users_view ilike t login name =
     {[PgBigint i, PgText u, PgText f, PgText l] | i u e p f l.
        (i, u, e, p) \<in> users t \<and> (i, f, l) \<in> profiles t \<and> (login = [] \<or> u = login)
        \<and> (name = [] \<or> ilike f name \<or> ilike l name)}
   \<union> {[PgBigint i, PgText u, PgNull, PgNull] | i u e p.
        (i, u, e, p) \<in> users t \<and> i \<notin> fst ` profiles t \<and> (login = [] \<or> u = login) \<and> name = []}"

definition posts_view :: "(int \<Rightarrow> bool) \<Rightarrow> Tables \<Rightarrow> pg_value list set" where
  "posts_view P t = {[PgBigint i, PgBigint a, PgText c] | i a c. (i, a, c) \<in> posts t \<and> P a}"

definition messages_view :: "Tables \<Rightarrow> int \<Rightarrow> pg_value list set" where
  "messages_view t uid =
     {[PgBigint i, PgBigint c, PgBigint s, PgText x] | i c s x. (i, c, s, x) \<in> messages t \<and> (c, uid) \<in> chat_members t}"

definition private_chats :: "Tables \<Rightarrow> int \<Rightarrow> int \<Rightarrow> int set" where
  "private_chats t a b = {c. (c, False) \<in> chats t \<and> (c, a) \<in> chat_members t \<and> (c, b) \<in> chat_members t}"

subsection \<open>What the handlers rely on\<close>

text \<open>
  \<open>next_id table\<close> is what the sequence behind a \<open>BIGSERIAL\<close> column hands out next, \<open>storable\<close>
  are the texts the server encoding accepts, and \<open>ilike s x\<close> is \<open>s ILIKE '%' || x || '%'\<close>.
\<close>

locale social_store =
  fixes Exec :: "ClusterHostType \<Rightarrow> string \<Rightarrow> pg_value list \<Rightarrow> ('db, ResultSet) act"
    and inv :: "'db \<Rightarrow> bool"
    and tables :: "'db \<Rightarrow> Tables"
    and next_id :: "string \<Rightarrow> 'db \<Rightarrow> int"
    and storable :: "string \<Rightarrow> bool"
    and ilike :: "string \<Rightarrow> string \<Rightarrow> bool"
  assumes ids_below:
      "inv db \<Longrightarrow> i \<in> fst ` users (tables db) \<Longrightarrow> 0 < i \<and> i < next_id ''users'' db"
      "inv db \<Longrightarrow> i \<in> fst ` posts (tables db) \<Longrightarrow> 0 < i \<and> i < next_id ''posts'' db"
      "inv db \<Longrightarrow> i \<in> fst ` chats (tables db) \<Longrightarrow> 0 < i \<and> i < next_id ''chats'' db"
      "inv db \<Longrightarrow> i \<in> fst ` messages (tables db) \<Longrightarrow> 0 < i \<and> i < next_id ''messages'' db"
    and ids_positive: "inv db \<Longrightarrow> table \<in> {''users'', ''posts'', ''chats'', ''messages''} \<Longrightarrow> 0 < next_id table db"
    and ids_bounded:
      "inv db \<Longrightarrow> table \<in> {''users'', ''posts'', ''chats'', ''messages''} \<Longrightarrow> next_id table db \<le> 2 ^ 63"
    and references:
      "inv db \<Longrightarrow> i \<in> fst ` profiles (tables db) \<Longrightarrow> i \<in> fst ` users (tables db)"
      "inv db \<Longrightarrow> (i, a, content) \<in> posts (tables db) \<Longrightarrow> a \<in> fst ` users (tables db)"
      "inv db \<Longrightarrow> (ch, a) \<in> chat_members (tables db) \<Longrightarrow> ch \<in> fst ` chats (tables db)"
      "inv db \<Longrightarrow> (i, ch, s, content) \<in> messages (tables db) \<Longrightarrow> ch \<in> fst ` chats (tables db) \<and> s \<in> fst ` users (tables db)"
    and insert_user:
      "inv db \<Longrightarrow> \<exists>r db'. Exec kMaster sql_insert_user [PgText u, PgText e, PgText p] db = (r, db') \<and> inv db'
         \<and> (if storable u \<and> storable e \<and> storable p \<and> user_fits (tables db) u e \<and> serial_left (next_id ''users'' db)
            then r = Inr (table_result [''id''] [[PgBigint (next_id ''users'' db)]])
              \<and> tables db' = (tables db)\<lparr>users := insert (next_id ''users'' db, u, e, p) (users (tables db))\<rparr>
            else (\<exists>x. r = Inl x) \<and> tables db' = tables db)"
    and insert_profile:
      "inv db \<Longrightarrow> \<exists>r db'. Exec kMaster sql_insert_profile [PgBigint i, PgText f, PgText l] db = (r, db') \<and> inv db'
         \<and> (if storable f \<and> storable l \<and> profile_fits (tables db) i f l
            then r = Inr (table_result [] []) \<and> tables db' = (tables db)\<lparr>profiles := insert (i, f, l) (profiles (tables db))\<rparr>
            else (\<exists>x. r = Inl x) \<and> tables db' = tables db)"
    and select_users:
      "inv db \<Longrightarrow> storable login \<Longrightarrow> storable name \<Longrightarrow>
         \<exists>rows. Exec kSlave sql_select_users [PgText login, PgText name] db
             = (Inr (table_result [''id'', ''username'', ''first_name'', ''last_name''] rows), db)
           \<and> set rows = users_view ilike (tables db) login name"
    and insert_post:
      "inv db \<Longrightarrow> \<exists>r db'. Exec kMaster sql_insert_post [PgBigint a, PgText content] db = (r, db') \<and> inv db'
         \<and> (if storable content \<and> post_fits (tables db) a content \<and> serial_left (next_id ''posts'' db)
            then r = Inr (table_result [''id''] [[PgBigint (next_id ''posts'' db)]])
              \<and> tables db' = (tables db)\<lparr>posts := insert (next_id ''posts'' db, a, content) (posts (tables db))\<rparr>
            else (\<exists>x. r = Inl x) \<and> tables db' = tables db)"
    and select_posts_of:
      "inv db \<Longrightarrow> \<exists>rows. Exec kSlave sql_select_posts_of [PgBigint a] db
             = (Inr (table_result [''id'', ''author_id'', ''content''] rows), db)
           \<and> set rows = posts_view (\<lambda>b. b = a) (tables db)"
    and select_posts:
      "inv db \<Longrightarrow> \<exists>rows. Exec kSlave sql_select_posts [] db
             = (Inr (table_result [''id'', ''author_id'', ''content''] rows), db)
           \<and> set rows = posts_view (\<lambda>b. True) (tables db)"
    and select_chat:
      "inv db \<Longrightarrow> \<exists>rows. Exec kMaster sql_select_chat [PgBigint a, PgBigint b] db = (Inr (table_result [''id''] rows), db)
         \<and> (if private_chats (tables db) a b = {} then rows = []
            else \<exists>c\<in>private_chats (tables db) a b. rows = [[PgBigint c]])"
    and insert_chat:
      "inv db \<Longrightarrow> \<exists>r db'. Exec kMaster sql_insert_chat [PgText ''private-chat''] db = (r, db') \<and> inv db'
         \<and> (if serial_left (next_id ''chats'' db)
            then r = Inr (table_result [''id''] [[PgBigint (next_id ''chats'' db)]])
              \<and> tables db' = (tables db)\<lparr>chats := insert (next_id ''chats'' db, False) (chats (tables db))\<rparr> \<and> next_id ''messages'' db' = next_id ''messages'' db
            else (\<exists>x. r = Inl x) \<and> tables db' = tables db)"
    and insert_members:
      "inv db \<Longrightarrow> \<exists>r db'. Exec kMaster sql_insert_members [PgBigint ch, PgBigint a, PgBigint b] db = (r, db') \<and> inv db'
         \<and> (if members_fit (tables db) ch a b
            then r = Inr (table_result [] [])
              \<and> tables db' = (tables db)\<lparr>chat_members := insert (ch, a) (insert (ch, b) (chat_members (tables db)))\<rparr> \<and> next_id ''messages'' db' = next_id ''messages'' db
            else (\<exists>x. r = Inl x) \<and> tables db' = tables db)"
    and insert_message:
      "inv db \<Longrightarrow> \<exists>r db'. Exec kMaster sql_insert_message [PgBigint ch, PgBigint s, PgText content] db = (r, db') \<and> inv db'
         \<and> (if storable content \<and> message_fits (tables db) ch s content \<and> serial_left (next_id ''messages'' db)
            then r = Inr (table_result [''id''] [[PgBigint (next_id ''messages'' db)]])
              \<and> tables db' = (tables db)\<lparr>messages := insert (next_id ''messages'' db, ch, s, content) (messages (tables db))\<rparr>
            else (\<exists>x. r = Inl x) \<and> tables db' = tables db)"
    and select_messages:
      "inv db \<Longrightarrow> \<exists>rows. Exec kSlave sql_select_messages [PgBigint uid] db
             = (Inr (table_result [''id'', ''chat_id'', ''sender_id'', ''content''] rows), db)
           \<and> set rows = messages_view (tables db) uid"

subsection \<open>A database with this schema\<close>

record SocialDb =
  users_rows :: "(int \<times> string \<times> string \<times> string) list"
  profiles_rows :: "(int \<times> string \<times> string) list"
  posts_rows :: "(int \<times> int \<times> string) list"
  chats_rows :: "(int \<times> bool) list"
  members_rows :: "(int \<times> int) list"
  messages_rows :: "(int \<times> int \<times> int \<times> string) list"
  users_seq :: int
  posts_seq :: int
  chats_seq :: int
  messages_seq :: int

definition db_tables :: "SocialDb \<Rightarrow> Tables" where
  "db_tables db =
     \<lparr>users = set (users_rows db), profiles = set (profiles_rows db), posts = set (posts_rows db),
      chats = set (chats_rows db), chat_members = set (members_rows db), messages = set (messages_rows db)\<rparr>"

definition db_next_id :: "string \<Rightarrow> SocialDb \<Rightarrow> int" where
  "db_next_id table db =
     (if table = ''users'' then users_seq db else if table = ''posts'' then posts_seq db
      else if table = ''chats'' then chats_seq db else messages_seq db)"

definition db_storable :: "string \<Rightarrow> bool" where
  "db_storable s \<longleftrightarrow> CHR 0x00 \<notin> set s"

text \<open>\<open>ILIKE\<close> with \<open>%\<close> at both ends, without the wildcards a user may put inside.\<close>

definition db_ilike :: "string \<Rightarrow> string \<Rightarrow> bool" where
  "db_ilike s x \<longleftrightarrow> (\<exists>i\<in>set [0..<Suc (length s)]. StrIcaseEqual (take (length x) (drop i s)) x)"

definition violation :: "SocialDb \<Rightarrow> ResultSet result \<times> SocialDb" where
  "violation db = (Inl (PgError ''constraint violation''), db)"

definition serial_row :: "int \<Rightarrow> ResultSet" where
  "serial_row i = table_result [''id''] [[PgBigint i]]"

definition db_insert_user :: "string \<Rightarrow> string \<Rightarrow> string \<Rightarrow> SocialDb \<Rightarrow> ResultSet result \<times> SocialDb" where
  "db_insert_user u e p db =
     (let i = users_seq db in
      if \<not> serial_left i then violation db
      else if db_storable u \<and> db_storable e \<and> db_storable p \<and> user_fits (db_tables db) u e
      then (Inr (serial_row i), db\<lparr>users_rows := users_rows db @ [(i, u, e, p)], users_seq := i + 1\<rparr>)
      else violation (db\<lparr>users_seq := i + 1\<rparr>))"

definition db_insert_profile :: "int \<Rightarrow> string \<Rightarrow> string \<Rightarrow> SocialDb \<Rightarrow> ResultSet result \<times> SocialDb" where
  "db_insert_profile i f l db =
     (if db_storable f \<and> db_storable l \<and> profile_fits (db_tables db) i f l
      then (Inr (table_result [] []), db\<lparr>profiles_rows := profiles_rows db @ [(i, f, l)]\<rparr>)
      else violation db)"

definition db_insert_post :: "int \<Rightarrow> string \<Rightarrow> SocialDb \<Rightarrow> ResultSet result \<times> SocialDb" where
  "db_insert_post a c db =
     (let i = posts_seq db in
      if \<not> serial_left i then violation db
      else if db_storable c \<and> post_fits (db_tables db) a c
      then (Inr (serial_row i), db\<lparr>posts_rows := posts_rows db @ [(i, a, c)], posts_seq := i + 1\<rparr>)
      else violation (db\<lparr>posts_seq := i + 1\<rparr>))"

definition db_insert_chat :: "SocialDb \<Rightarrow> ResultSet result \<times> SocialDb" where
  "db_insert_chat db =
     (let i = chats_seq db in
      if \<not> serial_left i then violation db
      else (Inr (serial_row i), db\<lparr>chats_rows := chats_rows db @ [(i, False)], chats_seq := i + 1\<rparr>))"

definition db_insert_members :: "int \<Rightarrow> int \<Rightarrow> int \<Rightarrow> SocialDb \<Rightarrow> ResultSet result \<times> SocialDb" where
  "db_insert_members c a b db =
     (if members_fit (db_tables db) c a b
      then (Inr (table_result [] []), db\<lparr>members_rows := members_rows db @ [(c, a), (c, b)]\<rparr>)
      else violation db)"

definition db_insert_message :: "int \<Rightarrow> int \<Rightarrow> string \<Rightarrow> SocialDb \<Rightarrow> ResultSet result \<times> SocialDb" where
  "db_insert_message c s x db =
     (let i = messages_seq db in
      if \<not> serial_left i then violation db
      else if db_storable x \<and> message_fits (db_tables db) c s x
      then (Inr (serial_row i), db\<lparr>messages_rows := messages_rows db @ [(i, c, s, x)], messages_seq := i + 1\<rparr>)
      else violation (db\<lparr>messages_seq := i + 1\<rparr>))"

text \<open>The rows come newest first, users in the order of their identifiers.\<close>

definition db_user_rows :: "SocialDb \<Rightarrow> string \<Rightarrow> string \<Rightarrow> int \<times> string \<times> string \<times> string \<Rightarrow> pg_value list list" where
  "db_user_rows db login name row =
     (case row of (i, u, e, p) \<Rightarrow>
        if login = [] \<or> u = login then
          (case filter (\<lambda>q. fst q = i) (profiles_rows db) of
             [] \<Rightarrow> if name = [] then [[PgBigint i, PgText u, PgNull, PgNull]] else []
           | qs \<Rightarrow> map (\<lambda>(_, f, l). [PgBigint i, PgText u, PgText f, PgText l])
                    (filter (\<lambda>(_, f, l). name = [] \<or> db_ilike f name \<or> db_ilike l name) qs))
        else [])"

definition db_select_users :: "string \<Rightarrow> string \<Rightarrow> SocialDb \<Rightarrow> ResultSet" where
  "db_select_users login name db =
     table_result [''id'', ''username'', ''first_name'', ''last_name'']
       (concat (map (db_user_rows db login name) (sort_key fst (users_rows db))))"

definition db_select_posts :: "(int \<Rightarrow> bool) \<Rightarrow> SocialDb \<Rightarrow> ResultSet" where
  "db_select_posts P db =
     table_result [''id'', ''author_id'', ''content'']
       (map (\<lambda>(i, a, c). [PgBigint i, PgBigint a, PgText c]) (filter (\<lambda>(i, a, c). P a) (rev (posts_rows db))))"

definition db_select_messages :: "int \<Rightarrow> SocialDb \<Rightarrow> ResultSet" where
  "db_select_messages uid db =
     table_result [''id'', ''chat_id'', ''sender_id'', ''content'']
       (map (\<lambda>(i, c, s, x). [PgBigint i, PgBigint c, PgBigint s, PgText x])
         (filter (\<lambda>(i, c, s, x). (c, uid) \<in> set (members_rows db)) (rev (messages_rows db))))"

definition db_select_chat :: "int \<Rightarrow> int \<Rightarrow> SocialDb \<Rightarrow> ResultSet" where
  "db_select_chat a b db =
     table_result [''id'']
       (case find (\<lambda>(c, g). \<not> g \<and> (c, a) \<in> set (members_rows db) \<and> (c, b) \<in> set (members_rows db)) (chats_rows db) of
          None \<Rightarrow> [] | Some (c, g) \<Rightarrow> [[PgBigint c]])"

definition social_execute :: "ClusterHostType \<Rightarrow> string \<Rightarrow> pg_value list \<Rightarrow> (SocialDb, ResultSet) act" where
  "social_execute host sql params db =
     (case params of
        [PgText a, PgText b, PgText c] \<Rightarrow> if sql = sql_insert_user then db_insert_user a b c db else violation db
      | [PgBigint i, PgText f, PgText l] \<Rightarrow> if sql = sql_insert_profile then db_insert_profile i f l db else violation db
      | [PgText a, PgText b] \<Rightarrow> if sql = sql_select_users then (Inr (db_select_users a b db), db) else violation db
      | [PgBigint a, PgText c] \<Rightarrow> if sql = sql_insert_post then db_insert_post a c db else violation db
      | [PgBigint a] \<Rightarrow>
          if sql = sql_select_posts_of then (Inr (db_select_posts (\<lambda>b. b = a) db), db)
          else if sql = sql_select_messages then (Inr (db_select_messages a db), db) else violation db
      | [] \<Rightarrow> if sql = sql_select_posts then (Inr (db_select_posts (\<lambda>b. True) db), db) else violation db
      | [PgBigint a, PgBigint b] \<Rightarrow> if sql = sql_select_chat then (Inr (db_select_chat a b db), db) else violation db
      | [PgText title] \<Rightarrow> if sql = sql_insert_chat then db_insert_chat db else violation db
      | [PgBigint c, PgBigint a, PgBigint b] \<Rightarrow> if sql = sql_insert_members then db_insert_members c a b db else violation db
      | [PgBigint c, PgBigint s, PgText x] \<Rightarrow> if sql = sql_insert_message then db_insert_message c s x db else violation db
      | _ \<Rightarrow> violation db)"

subsection \<open>It fulfils the contract\<close>

definition db_inv :: "SocialDb \<Rightarrow> bool" where
  "db_inv db \<longleftrightarrow>
     (\<forall>i\<in>fst ` set (users_rows db). 0 < i \<and> i < users_seq db)
     \<and> (\<forall>i\<in>fst ` set (posts_rows db). 0 < i \<and> i < posts_seq db)
     \<and> (\<forall>i\<in>fst ` set (chats_rows db). 0 < i \<and> i < chats_seq db)
     \<and> (\<forall>i\<in>fst ` set (messages_rows db). 0 < i \<and> i < messages_seq db)
     \<and> (\<forall>n\<in>{users_seq db, posts_seq db, chats_seq db, messages_seq db}. 0 < n \<and> n \<le> 2 ^ 63)
     \<and> fst ` set (profiles_rows db) \<subseteq> fst ` set (users_rows db)
     \<and> (\<forall>(i, a, c)\<in>set (posts_rows db). a \<in> fst ` set (users_rows db))
     \<and> (\<forall>(c, a)\<in>set (members_rows db). c \<in> fst ` set (chats_rows db))
     \<and> (\<forall>(i, c, s, x)\<in>set (messages_rows db). c \<in> fst ` set (chats_rows db) \<and> s \<in> fst ` set (users_rows db))"

lemmas db_defs = db_inv_def db_tables_def db_next_id_def violation_def serial_row_def serial_left_def Let_def

lemma db_insert_user_inv: "db_inv db \<Longrightarrow> db_inv (snd (db_insert_user u e p db))"
  by (auto simp: db_insert_user_def db_defs)

lemma db_insert_profile_inv: "db_inv db \<Longrightarrow> db_inv (snd (db_insert_profile i f l db))"
  by (auto simp: db_insert_profile_def db_defs profile_fits_def)

lemma db_insert_post_inv: "db_inv db \<Longrightarrow> db_inv (snd (db_insert_post a c db))"
  by (auto simp: db_insert_post_def db_defs post_fits_def)

lemma db_insert_chat_inv: "db_inv db \<Longrightarrow> db_inv (snd (db_insert_chat db))"
  by (auto simp: db_insert_chat_def db_defs)

lemma db_insert_members_inv: "db_inv db \<Longrightarrow> db_inv (snd (db_insert_members c a b db))"
  by (auto simp: db_insert_members_def db_defs members_fit_def)

lemma db_insert_message_inv: "db_inv db \<Longrightarrow> db_inv (snd (db_insert_message c s x db))"
  by (auto simp: db_insert_message_def db_defs message_fits_def)

lemma db_user_rows_set:
  "set (db_user_rows db login name (i, u, e, p)) =
     {[PgBigint i, PgText u, PgText f, PgText l] | f l. (i, f, l) \<in> set (profiles_rows db) \<and> (login = [] \<or> u = login)
        \<and> (name = [] \<or> db_ilike f name \<or> db_ilike l name)}
   \<union> (if i \<notin> fst ` set (profiles_rows db) \<and> (login = [] \<or> u = login) \<and> name = []
      then {[PgBigint i, PgText u, PgNull, PgNull]} else {})"
proof (cases "filter (\<lambda>q. fst q = i) (profiles_rows db)")
  case Nil
  then have none: "i \<notin> fst ` set (profiles_rows db)" by (auto simp: filter_empty_conv)
  then have "\<not> (i, f, l) \<in> set (profiles_rows db)" for f l by (metis fst_conv image_eqI)
  with Nil none show ?thesis by (auto simp: db_user_rows_def)
next
  case (Cons q qs)
  then have some: "i \<in> fst ` set (profiles_rows db)" by (metis (mono_tags) filter_eq_ConsD image_eqI in_set_conv_decomp)
  have qs: "set (q # qs) = {r \<in> set (profiles_rows db). fst r = i}" using Cons by (metis set_filter)
  let ?P = "\<lambda>(_, f, l). name = [] \<or> db_ilike f name \<or> db_ilike l name"
  let ?g = "\<lambda>(_, f, l). [PgBigint i, PgText u, PgText f, PgText l]"
  have "db_user_rows db login name (i, u, e, p) = (if login = [] \<or> u = login then map ?g (filter ?P (q # qs)) else [])"
    by (simp only: db_user_rows_def Cons prod.case list.case)
  then have "set (db_user_rows db login name (i, u, e, p)) = (if login = [] \<or> u = login then ?g ` {r \<in> set (q # qs). ?P r} else {})"
    by (simp only: set_map set_filter list.set(1) split: if_split) simp
  then show ?thesis unfolding qs using some by (auto simp: image_iff)
qed

lemma db_select_users_view:
  "set (concat (map (db_user_rows db login name) (sort_key fst (users_rows db)))) = users_view db_ilike (db_tables db) login name"
proof -
  have "set (concat (map (db_user_rows db login name) (sort_key fst (users_rows db))))
      = (\<Union>(i, u, e, p)\<in>set (users_rows db). set (db_user_rows db login name (i, u, e, p)))" by auto
  then show ?thesis unfolding db_user_rows_set users_view_def db_tables_def by (auto split: if_splits)
qed

lemma ex_outcome: "(\<exists>r s. p = (r, s) \<and> P r s) \<longleftrightarrow> P (fst p) (snd p)"
  by (cases p) simp

lemmas db_step_defs = ex_outcome social_execute_def db_tables_def db_next_id_def violation_def serial_row_def serial_left_def Let_def

lemma social_insert_user:
  "db_inv db \<Longrightarrow> \<exists>r db'. social_execute kMaster sql_insert_user [PgText u, PgText e, PgText p] db = (r, db') \<and> db_inv db'
     \<and> (if db_storable u \<and> db_storable e \<and> db_storable p \<and> user_fits (db_tables db) u e \<and> serial_left (db_next_id ''users'' db)
        then r = Inr (table_result [''id''] [[PgBigint (db_next_id ''users'' db)]])
          \<and> db_tables db' = (db_tables db)\<lparr>users := insert (db_next_id ''users'' db, u, e, p) (users (db_tables db))\<rparr>
        else (\<exists>x. r = Inl x) \<and> db_tables db' = db_tables db)"
  using db_insert_user_inv [of db u e p] by (auto simp: db_step_defs db_insert_user_def)

lemma social_insert_profile:
  "db_inv db \<Longrightarrow> \<exists>r db'. social_execute kMaster sql_insert_profile [PgBigint i, PgText f, PgText l] db = (r, db') \<and> db_inv db'
     \<and> (if db_storable f \<and> db_storable l \<and> profile_fits (db_tables db) i f l
        then r = Inr (table_result [] []) \<and> db_tables db' = (db_tables db)\<lparr>profiles := insert (i, f, l) (profiles (db_tables db))\<rparr>
        else (\<exists>x. r = Inl x) \<and> db_tables db' = db_tables db)"
  using db_insert_profile_inv [of db i f l] by (auto simp: db_step_defs db_insert_profile_def)

lemma social_insert_post:
  "db_inv db \<Longrightarrow> \<exists>r db'. social_execute kMaster sql_insert_post [PgBigint a, PgText content] db = (r, db') \<and> db_inv db'
     \<and> (if db_storable content \<and> post_fits (db_tables db) a content \<and> serial_left (db_next_id ''posts'' db)
        then r = Inr (table_result [''id''] [[PgBigint (db_next_id ''posts'' db)]])
          \<and> db_tables db' = (db_tables db)\<lparr>posts := insert (db_next_id ''posts'' db, a, content) (posts (db_tables db))\<rparr>
        else (\<exists>x. r = Inl x) \<and> db_tables db' = db_tables db)"
  using db_insert_post_inv [of db a content] by (auto simp: db_step_defs db_insert_post_def)

lemma social_insert_chat:
  "db_inv db \<Longrightarrow> \<exists>r db'. social_execute kMaster sql_insert_chat [PgText ''private-chat''] db = (r, db') \<and> db_inv db'
     \<and> (if serial_left (db_next_id ''chats'' db)
        then r = Inr (table_result [''id''] [[PgBigint (db_next_id ''chats'' db)]])
          \<and> db_tables db' = (db_tables db)\<lparr>chats := insert (db_next_id ''chats'' db, False) (chats (db_tables db))\<rparr> \<and> db_next_id ''messages'' db' = db_next_id ''messages'' db
        else (\<exists>x. r = Inl x) \<and> db_tables db' = db_tables db)"
  using db_insert_chat_inv [of db] by (auto simp: db_step_defs db_insert_chat_def)

lemma social_insert_members:
  "db_inv db \<Longrightarrow> \<exists>r db'. social_execute kMaster sql_insert_members [PgBigint ch, PgBigint a, PgBigint b] db = (r, db') \<and> db_inv db'
     \<and> (if members_fit (db_tables db) ch a b
        then r = Inr (table_result [] [])
          \<and> db_tables db' = (db_tables db)\<lparr>chat_members := insert (ch, a) (insert (ch, b) (chat_members (db_tables db)))\<rparr> \<and> db_next_id ''messages'' db' = db_next_id ''messages'' db
        else (\<exists>x. r = Inl x) \<and> db_tables db' = db_tables db)"
  using db_insert_members_inv [of db ch a b] by (auto simp: db_step_defs db_insert_members_def)

lemma social_insert_message:
  "db_inv db \<Longrightarrow> \<exists>r db'. social_execute kMaster sql_insert_message [PgBigint ch, PgBigint s, PgText content] db = (r, db') \<and> db_inv db'
     \<and> (if db_storable content \<and> message_fits (db_tables db) ch s content \<and> serial_left (db_next_id ''messages'' db)
        then r = Inr (table_result [''id''] [[PgBigint (db_next_id ''messages'' db)]])
          \<and> db_tables db' = (db_tables db)\<lparr>messages := insert (db_next_id ''messages'' db, ch, s, content) (messages (db_tables db))\<rparr>
        else (\<exists>x. r = Inl x) \<and> db_tables db' = db_tables db)"
  using db_insert_message_inv [of db ch s content] by (auto simp: db_step_defs db_insert_message_def)

lemma social_select_users:
  "\<exists>rows. social_execute kSlave sql_select_users [PgText login, PgText name] db
        = (Inr (table_result [''id'', ''username'', ''first_name'', ''last_name''] rows), db)
      \<and> set rows = users_view db_ilike (db_tables db) login name"
proof (intro exI conjI)
  show "social_execute kSlave sql_select_users [PgText login, PgText name] db
      = (Inr (table_result [''id'', ''username'', ''first_name'', ''last_name'']
          (concat (map (db_user_rows db login name) (sort_key fst (users_rows db))))), db)"
    by (simp add: social_execute_def db_select_users_def)
qed (rule db_select_users_view)

lemma social_select_posts_of:
  "\<exists>rows. social_execute kSlave sql_select_posts_of [PgBigint a] db
        = (Inr (table_result [''id'', ''author_id'', ''content''] rows), db) \<and> set rows = posts_view (\<lambda>b. b = a) (db_tables db)"
  by (simp add: social_execute_def db_select_posts_def) (force simp: posts_view_def db_tables_def)

lemma social_select_posts:
  "\<exists>rows. social_execute kSlave sql_select_posts [] db
        = (Inr (table_result [''id'', ''author_id'', ''content''] rows), db) \<and> set rows = posts_view (\<lambda>b. True) (db_tables db)"
  by (simp add: social_execute_def db_select_posts_def) (force simp: posts_view_def db_tables_def)

lemma sql_select_distinct: "sql_select_messages \<noteq> sql_select_posts_of"
  by (simp add: sql_select_messages_def sql_select_posts_of_def)

lemma social_select_messages:
  "\<exists>rows. social_execute kSlave sql_select_messages [PgBigint uid] db
        = (Inr (table_result [''id'', ''chat_id'', ''sender_id'', ''content''] rows), db) \<and> set rows = messages_view (db_tables db) uid"
  by (simp add: social_execute_def db_select_messages_def sql_select_distinct) (force simp: messages_view_def db_tables_def)

lemma social_select_chat:
  "\<exists>rows. social_execute kMaster sql_select_chat [PgBigint a, PgBigint b] db = (Inr (table_result [''id''] rows), db)
     \<and> (if private_chats (db_tables db) a b = {} then rows = []
        else \<exists>c\<in>private_chats (db_tables db) a b. rows = [[PgBigint c]])"
proof (cases "find (\<lambda>(c, g). \<not> g \<and> (c, a) \<in> set (members_rows db) \<and> (c, b) \<in> set (members_rows db)) (chats_rows db)")
  case None
  then have "private_chats (db_tables db) a b = {}" by (auto simp: find_None_iff private_chats_def db_tables_def)
  with None show ?thesis by (simp add: social_execute_def db_select_chat_def)
next
  case (Some cg)
  obtain c g where cg: "cg = (c, g)" by fastforce
  have "c \<in> private_chats (db_tables db) a b"
    using Some cg by (auto simp: find_Some_iff private_chats_def db_tables_def) (metis (full_types) nth_mem)+
  with Some cg show ?thesis by (auto simp: social_execute_def db_select_chat_def)
qed

lemma social_ids:
  "db_inv db \<Longrightarrow> i \<in> fst ` users (db_tables db) \<Longrightarrow> 0 < i \<and> i < db_next_id ''users'' db"
  "db_inv db \<Longrightarrow> i \<in> fst ` posts (db_tables db) \<Longrightarrow> 0 < i \<and> i < db_next_id ''posts'' db"
  "db_inv db \<Longrightarrow> i \<in> fst ` chats (db_tables db) \<Longrightarrow> 0 < i \<and> i < db_next_id ''chats'' db"
  "db_inv db \<Longrightarrow> i \<in> fst ` messages (db_tables db) \<Longrightarrow> 0 < i \<and> i < db_next_id ''messages'' db"
  "db_inv db \<Longrightarrow> table \<in> {''users'', ''posts'', ''chats'', ''messages''} \<Longrightarrow> 0 < db_next_id table db"
  "db_inv db \<Longrightarrow> table \<in> {''users'', ''posts'', ''chats'', ''messages''} \<Longrightarrow> db_next_id table db \<le> 2 ^ 63"
  by (auto simp: db_inv_def db_tables_def db_next_id_def)

lemma social_references:
  "db_inv db \<Longrightarrow> i \<in> fst ` profiles (db_tables db) \<Longrightarrow> i \<in> fst ` users (db_tables db)"
  "db_inv db \<Longrightarrow> (i, a, content) \<in> posts (db_tables db) \<Longrightarrow> a \<in> fst ` users (db_tables db)"
  "db_inv db \<Longrightarrow> (ch, a) \<in> chat_members (db_tables db) \<Longrightarrow> ch \<in> fst ` chats (db_tables db)"
  "db_inv db \<Longrightarrow> (i, ch, s, content) \<in> messages (db_tables db) \<Longrightarrow>
     ch \<in> fst ` chats (db_tables db) \<and> s \<in> fst ` users (db_tables db)"
  unfolding db_inv_def db_tables_def by (simp_all) (blast | fastforce)+

interpretation social: social_store social_execute db_inv db_tables db_next_id db_storable db_ilike
  by unfold_locales
     (rule social_ids social_references social_insert_user social_insert_profile social_insert_post social_insert_chat
       social_insert_members social_insert_message social_select_users social_select_posts_of social_select_posts
       social_select_messages social_select_chat; assumption)+

end
