(* ===== verification/Services_Correct.thy ===== *)
theory Services_Correct
  imports Social_Db
begin

section \<open>Correctness of the handlers\<close>

text \<open>
  What a handler answers and what it leaves in the database, on every database that fulfils
  \<open>social_store\<close>; the properties are stated for the database of \<open>Social_Db\<close>.
\<close>

subsection \<open>Helper lemmas\<close>

lemmas svc_defs = act_bind_def act_then_def act_lift_def act_return_def act_get_def act_modify_def reply_def set_status_def
  get_method_def get_arg_def authorized_def parse_body_def on_db_def

lemma sto_int_dec: "in_int bits True i \<Longrightarrow> sto_int bits (dec_int i) = Inr i"
proof -
  have head: "is_digit (hd (dec n))" for n using dec_digits [of "hd (dec n)" n] by (simp add: list.set_sel)
  have nsp: "\<not> isspace c" "c \<noteq> CHR ''-''" "c \<noteq> CHR ''+''" if "is_digit c" for c
    using that by (auto simp: isspace_def is_digit_def)
  have all: "takeWhile is_digit (dec n) = dec n" for n using dec_digits by (simp add: takeWhile_eq_all_conv)
  have drop: "dropWhile isspace (dec n) = dec n" for n
    using head [of n] nsp by (cases "dec n") auto
  assume "in_int bits True i"
  then show "sto_int bits (dec_int i) = Inr i"
    using nsp [OF head] by (cases "i < 0") (simp_all add: sto_int_def dec_int_def Let_def all drop isspace_def [of "CHR ''-''"])
qed

lemma stoi_dec: "in_int 32 True i \<Longrightarrow> stoi (dec_int i) = Inr i"
  unfolding stoi_def by (rule sto_int_dec)

lemma foldr_result_push:
  assumes "\<And>i. i \<in> set rows \<Longrightarrow> item i = Inr (g i)"
  shows "foldr_result (\<lambda>row arr. rbind (item row) (\<lambda>j. builder_PushBack j arr)) rows arr
    = foldr_result builder_PushBack (map g rows) arr"
  using assms
proof (induction rows arbitrary: arr)
  case (Cons r rows)
  then have "foldr_result (\<lambda>row arr. rbind (item row) (\<lambda>j. builder_PushBack j arr)) rows
      = foldr_result builder_PushBack (map g rows)" by (auto simp: fun_eq_iff)
  with Cons.prems show ?case by simp
qed simp

lemma push_rows_items:
  assumes "\<And>i. i < Size rs \<Longrightarrow> item rs i = Inr (g i)"
  shows "push_rows item rs JNull = Inr (if Size rs = 0 then JNull else JArray (map g [0..<Size rs]))"
proof -
  have "push_rows item rs JNull = build_array (map g [0..<Size rs])"
    unfolding push_rows_def build_array_def visit_rows_upt using assms by (intro foldr_result_push) auto
  then show ?thesis by (simp add: build_array_result)
qed

lemma push_rows_table:
  assumes "\<And>k. k < length rows \<Longrightarrow> item (table_result names rows) k = Inr (g (rows ! k))"
  shows "push_rows item (table_result names rows) JNull = Inr (if rows = [] then JNull else JArray (map g rows))"
proof -
  have "map (\<lambda>k. g (rows ! k)) [0..<length rows] = map g rows" by (rule nth_equalityI) auto
  then show ?thesis using push_rows_items [of "table_result names rows" item "\<lambda>k. g (rows ! k)"] assms by auto
qed

lemma foldr_result_fails:
  assumes "x \<in> set xs" and "\<And>s. \<exists>e. f x s = Inl e"
  shows "\<exists>e. foldr_result f xs s = Inl e"
  using assms
proof (induction xs arbitrary: s)
  case (Cons y ys)
  obtain e where "f x s = Inl e" using Cons.prems(2) by blast
  then show ?case using Cons by (cases "f y s") auto
qed simp

lemma push_rows_fails:
  assumes "i < Size rs" and "item rs i = Inl e"
  shows "\<exists>e. push_rows item rs arr = Inl e"
  unfolding push_rows_def visit_rows_upt by (rule foldr_result_fails [of i]) (use assms in auto)

lemma dec_int_not_Nil [simp]: "dec_int i \<noteq> []"
  by (simp add: dec_int_def)

lemma in_int_32_64: "in_int 32 True i \<Longrightarrow> in_int 64 True i"
  by (simp add: in_int_def int_bounds_def)

lemma value_int_bigint [simp]: "in_int 32 True i \<Longrightarrow> value_int (PgBigint i) = Inr i"
  by simp

lemma nth_in_set: "set rows = S \<Longrightarrow> i < length rows \<Longrightarrow> rows ! i \<in> S"
  by auto

subsection \<open>Authorization\<close>

text \<open>
  (C13) Without the token a request to the chat or the wall changes nothing: whatever the
  database is and whatever the request asks for, the answer is 401 and no statement is executed.
\<close>

theorem token_required:
  assumes "Request_GetHeader (svc_request s) ''Authorization'' \<noteq> ''Bearer 123''"
    and "\<not> headers_end (response (svc_request s))"
    and "H \<in> {MessagesHandler_HandleRequestThrow env, PostsHandler_HandleRequestThrow env}"
  shows \<open>\<exists>r. H s = (Inr ''{"error":"Unauthorized"}'', s\<lparr>svc_request := r\<rparr>)
     \<and> resp_status (response r) = HttpStatus_kUnauthorized\<close>
  using assms
  by (auto simp: MessagesHandler_HandleRequestThrow_def PostsHandler_HandleRequestThrow_def svc_defs SetResponseStatus_def SetStatus_def)

subsection \<open>Posts\<close>

definition post_json :: "int \<Rightarrow> int \<Rightarrow> string \<Rightarrow> json" where
  "post_json i a content = JObject [(''id'', JInt i), (''user_id'', JInt a), (''content'', JString content)]"

lemma posts_item_value:
  assumes "i < length rows" and "rows ! i = [PgBigint p, PgBigint a, PgText content]" and "in_int 32 True p" and "in_int 32 True a"
  shows "posts_item (table_result [''id'', ''author_id'', ''content''] rows) i = Inr (post_json p a content)"
  using assms row_field_value [of _ "[''id'', ''author_id'', ''content'']" _ i rows]
  by (simp add: posts_item_def json_int_def json_string_def value_wf_def in_int_32_64 builder_assign_def json_checks post_json_def)

context social_store
begin

lemma posts_post_ok:
  assumes "Execute env = Exec" and "inv (svc_db s)"
    and "FromString (json_parse env) (RequestBody (svc_request s)) = Inr (Present (JObject ms))"
    and "map_of ms ''user_id'' = Some (JInt a)" and "in_int 32 True a"
    and "map_of ms ''content'' = Some (JString content)"
    and "storable content" and "post_fits (tables (svc_db s)) a content" and "next_id ''posts'' (svc_db s) < 2 ^ 31"
  shows "\<exists>db'. posts_post env s = (Inr (json_print env (post_json (next_id ''posts'' (svc_db s)) a content)),
       s\<lparr>svc_db := db', svc_request := SetResponseStatus HttpStatus_kCreated (svc_request s)\<rparr>) \<and> inv db'
     \<and> tables db' = (tables (svc_db s))\<lparr>posts := insert (next_id ''posts'' (svc_db s), a, content) (posts (tables (svc_db s)))\<rparr>"
proof -
  let ?n = "next_id ''posts'' (svc_db s)"
  have n: "0 < ?n" using ids_positive [OF assms(2), of "''posts''"] by simp
  then have n32: "in_int 32 True ?n" using assms(9) by (simp add: in_int_def int_bounds_def)
  have left: "serial_left ?n" using assms(9) by (simp add: serial_left_def)
  obtain db' where db': "Exec kMaster sql_insert_post [PgBigint a, PgText content] (svc_db s)
      = (Inr (table_result [''id''] [[PgBigint ?n]]), db')" "inv db'"
    "tables db' = (tables (svc_db s))\<lparr>posts := insert (?n, a, content) (posts (tables (svc_db s)))\<rparr>"
    using insert_post [OF assms(2), of a content] assms(7,8) left by auto
  have id: "AsSingleRow Read_int (table_result [''id''] [[PgBigint ?n]]) = Inr ?n"
    using n32 by (simp add: AsSingleRow_value value_wf_def in_int_32_64)
  show ?thesis
    using db' assms(1,3,4,5,6) id
    by (intro exI [of _ db']) (simp add: posts_post_def svc_defs print_result_def int_member_def string_member_def As_int_JInt post_json_def
        builder_assign_def json_checks)
qed

lemma posts_listed:
  assumes "set rows = posts_view P (tables db)"
    and "\<forall>(i, a, c)\<in>posts (tables db). P a \<longrightarrow> in_int 32 True i \<and> in_int 32 True a"
  shows "\<exists>items. push_rows posts_item (table_result [''id'', ''author_id'', ''content''] rows) JNull
       = Inr (if items = [] then JNull else JArray items)
     \<and> set items = {post_json i a c | i a c. (i, a, c) \<in> posts (tables db) \<and> P a}"
proof -
  let ?rs = "table_result [''id'', ''author_id'', ''content''] rows"
  define g where "g = (\<lambda>row. case row of [PgBigint i, PgBigint a, PgText c] \<Rightarrow> post_json i a c | _ \<Rightarrow> JNull)"
  have "posts_item ?rs k = Inr (g (rows ! k))" if "k < length rows" for k
  proof -
    have "rows ! k \<in> posts_view P (tables db)" using assms(1) that by (rule nth_in_set)
    then obtain i a c where row: "rows ! k = [PgBigint i, PgBigint a, PgText c]" "(i, a, c) \<in> posts (tables db)" "P a"
      by (auto simp: posts_view_def)
    then show ?thesis using posts_item_value [OF that row(1)] assms(2) by (auto simp: g_def)
  qed
  then have "push_rows posts_item ?rs JNull = Inr (if rows = [] then JNull else JArray (map g rows))"
    by (rule push_rows_table)
  moreover have "set (map g rows) = {post_json i a c | i a c. (i, a, c) \<in> posts (tables db) \<and> P a}"
  proof -
    have "g [PgBigint i, PgBigint a, PgText c] = post_json i a c" for i a c by (simp add: g_def)
    then show ?thesis using assms(1) by (simp add: posts_view_def set_eq_iff image_iff) metis
  qed
  ultimately show ?thesis by (intro exI [of _ "map g rows"]) auto
qed

lemma posts_get_of:
  assumes "Execute env = Exec" and "inv (svc_db s)" and "GetArg (svc_request s) ''user_id'' = dec_int a" and "in_int 32 True a"
    and "\<forall>(i, b, c)\<in>posts (tables (svc_db s)). b = a \<longrightarrow> in_int 32 True i"
  shows "\<exists>items. posts_get env s = (Inr (json_print env (if items = [] then JNull else JArray items)), s)
     \<and> set items = {post_json i a c | i c. (i, a, c) \<in> posts (tables (svc_db s))}"
proof -
  obtain rows where rows: "Exec kSlave sql_select_posts_of [PgBigint a] (svc_db s)
      = (Inr (table_result [''id'', ''author_id'', ''content''] rows), svc_db s)"
    "set rows = posts_view (\<lambda>b. b = a) (tables (svc_db s))"
    using select_posts_of [OF assms(2), of a] by blast
  obtain items where "push_rows posts_item (table_result [''id'', ''author_id'', ''content''] rows) JNull
       = Inr (if items = [] then JNull else JArray items)"
    "set items = {post_json i a c | i c. (i, a, c) \<in> posts (tables (svc_db s))}"
    using posts_listed [OF rows(2)] assms(4,5) by fastforce
  then show ?thesis
    using rows(1) assms(1,3,4)
    by (intro exI [of _ items]) (simp add: posts_get_def svc_defs print_result_def stoi_dec)
qed

end

text \<open>
  (C3) A post that was accepted is there: after a successful POST to the wall, which answers
  201 with the new identifier, a GET for its author lists exactly the posts of that author, the
  new one among them.
\<close>

theorem post_then_listed:
  assumes "Execute env = social_execute" and "db_inv (svc_db s)"
    and "Request_GetHeader (svc_request s) ''Authorization'' = ''Bearer 123''" and "GetMethod (svc_request s) = kPost"
    and "FromString (json_parse env) (RequestBody (svc_request s)) = Inr (Present (JObject ms))"
    and "map_of ms ''user_id'' = Some (JInt a)" and "in_int 32 True a" and "map_of ms ''content'' = Some (JString content)"
    and "db_storable content" and "post_fits (db_tables (svc_db s)) a content" and "posts_seq (svc_db s) < 2 ^ 31"
    and "Request_GetHeader r2 ''Authorization'' = ''Bearer 123''" and "GetMethod r2 = kGet" and "GetArg r2 ''user_id'' = dec_int a"
  shows "\<exists>db' items.
     PostsHandler_HandleRequestThrow env s = (Inr (json_print env (post_json (posts_seq (svc_db s)) a content)),
       s\<lparr>svc_db := db', svc_request := SetResponseStatus HttpStatus_kCreated (svc_request s)\<rparr>)
     \<and> PostsHandler_HandleRequestThrow env \<lparr>svc_request = r2, svc_db = db'\<rparr>
       = (Inr (json_print env (JArray items)), \<lparr>svc_request = r2, svc_db = db'\<rparr>)
     \<and> post_json (posts_seq (svc_db s)) a content \<in> set items
     \<and> set items = {post_json i a c | i c. (i, a, c) \<in> posts (db_tables db')}"
proof -
  let ?n = "posts_seq (svc_db s)" and ?t = "db_tables (svc_db s)"
  have n: "db_next_id ''posts'' (svc_db s) = ?n" by (simp add: db_next_id_def)
  obtain db' where post: "posts_post env s = (Inr (json_print env (post_json ?n a content)),
       s\<lparr>svc_db := db', svc_request := SetResponseStatus HttpStatus_kCreated (svc_request s)\<rparr>)" "db_inv db'"
    and t': "db_tables db' = ?t\<lparr>posts := insert (?n, a, content) (posts ?t)\<rparr>"
    using social.posts_post_ok [OF assms(1,2,5,6,7,8,9,10)] assms(11) n by auto
  have "\<forall>(i, b, c)\<in>posts (db_tables db'). b = a \<longrightarrow> in_int 32 True i"
    using social.ids_below(2) [OF assms(2)] social.ids_positive [OF assms(2), of "''posts''"] assms(11) n
    by (fastforce simp: t' in_int_def int_bounds_def)
  then obtain items where get: "posts_get env \<lparr>svc_request = r2, svc_db = db'\<rparr>
      = (Inr (json_print env (if items = [] then JNull else JArray items)), \<lparr>svc_request = r2, svc_db = db'\<rparr>)"
    and items: "set items = {post_json i a c | i c. (i, a, c) \<in> posts (db_tables db')}"
    using social.posts_get_of [OF assms(1), of "\<lparr>svc_request = r2, svc_db = db'\<rparr>" a] post(2) assms(7,14) by auto
  have new: "post_json ?n a content \<in> set items" using items t' by auto
  then have "items \<noteq> []" by auto
  with post get items new assms(3,4,12,13) show ?thesis
    by (intro exI [of _ db'] exI [of _ items])
       (simp add: PostsHandler_HandleRequestThrow_def act_bind_def authorized_def get_method_def act_get_def)
qed

subsection \<open>Users\<close>

definition user_json :: "int \<Rightarrow> string \<Rightarrow> string \<Rightarrow> string \<Rightarrow> json" where
  "user_json i u f l = JObject [(''id'', JInt i), (''login'', JString u), (''first_name'', JString f), (''last_name'', JString l)]"

definition created_user_json :: "int \<Rightarrow> string \<Rightarrow> string \<Rightarrow> string \<Rightarrow> string \<Rightarrow> json" where
  "created_user_json i u e f l =
     JObject [(''id'', JInt i), (''login'', JString u), (''email'', JString e), (''first_name'', JString f), (''last_name'', JString l)]"

text \<open>A document with the five members that a registration needs.\<close>

definition registration :: "(string \<times> json) list \<Rightarrow> string \<Rightarrow> string \<Rightarrow> string \<Rightarrow> string \<Rightarrow> string \<Rightarrow> bool" where
  "registration ms u e p f l \<longleftrightarrow>
     map_of ms ''login'' = Some (JString u) \<and> map_of ms ''email'' = Some (JString e) \<and> map_of ms ''password'' = Some (JString p)
     \<and> map_of ms ''first_name'' = Some (JString f) \<and> map_of ms ''last_name'' = Some (JString l)"

abbreviation users_columns :: "string list" where
  "users_columns \<equiv> [''id'', ''username'', ''first_name'', ''last_name'']"

lemma users_item_value:
  assumes "i < length rows" and "rows ! i = [PgBigint p, PgText u, PgText f, PgText l]" and "in_int 32 True p"
  shows "users_item (table_result users_columns rows) i = Inr (user_json p u f l)"
  using assms row_field_value [of _ users_columns _ i rows]
  by (simp add: users_item_def json_int_def json_string_def value_wf_def in_int_32_64 builder_assign_def json_checks user_json_def)

lemma users_item_null:
  assumes "i < length rows" and "rows ! i = [PgBigint p, PgText u, PgNull, PgNull]" and "in_int 64 True p"
  shows "\<exists>e. users_item (table_result users_columns rows) i = Inl e"
  using assms row_field_value [of _ users_columns _ i rows]
  by (simp add: users_item_def json_int_def json_string_def value_wf_def builder_assign_def json_checks)

context social_store
begin

lemma users_post_inserts:
  assumes "Execute env = Exec" and "inv (svc_db s)"
    and "FromString (json_parse env) (RequestBody (svc_request s)) = Inr (Present (JObject ms))" and "registration ms u e p f l"
    and "storable u" and "storable e" and "storable p" and "user_fits (tables (svc_db s)) u e" and "next_id ''users'' (svc_db s) < 2 ^ 31"
  shows "\<exists>db'. inv db' \<and>
    (if storable f \<and> storable l \<and> name_fits f \<and> name_fits l
     then users_post env s = (Inr (json_print env (created_user_json (next_id ''users'' (svc_db s)) u e f l)),
         s\<lparr>svc_db := db', svc_request := SetResponseStatus HttpStatus_kCreated (svc_request s)\<rparr>)
       \<and> tables db' = (tables (svc_db s))\<lparr>users := insert (next_id ''users'' (svc_db s), u, e, p) (users (tables (svc_db s))),
            profiles := insert (next_id ''users'' (svc_db s), f, l) (profiles (tables (svc_db s)))\<rparr>
     else (\<exists>x. users_post env s = (Inl x, s\<lparr>svc_db := db'\<rparr>))
       \<and> tables db' = (tables (svc_db s))\<lparr>users := insert (next_id ''users'' (svc_db s), u, e, p) (users (tables (svc_db s)))\<rparr>)"
proof -
  let ?n = "next_id ''users'' (svc_db s)" and ?t = "tables (svc_db s)"
  have n: "0 < ?n" using ids_positive [OF assms(2), of "''users''"] by simp
  then have n32: "in_int 32 True ?n" using assms(9) by (simp add: in_int_def int_bounds_def)
  have left: "serial_left ?n" using assms(9) by (simp add: serial_left_def)
  obtain d where d: "Exec kMaster sql_insert_user [PgText u, PgText e, PgText p] (svc_db s)
      = (Inr (table_result [''id''] [[PgBigint ?n]]), d)" "inv d" "tables d = ?t\<lparr>users := insert (?n, u, e, p) (users ?t)\<rparr>"
    using insert_user [OF assms(2), of u e p] assms(5-8) left by auto
  have id: "AsSingleRow Read_int (table_result [''id''] [[PgBigint ?n]]) = Inr ?n"
    using n32 by (simp add: AsSingleRow_value value_wf_def in_int_32_64)
  have "?n \<notin> fst ` profiles ?t" using references(1) [OF assms(2), of ?n] ids_below(1) [OF assms(2), of ?n] by auto
  then have fits: "profile_fits (tables d) ?n f l \<longleftrightarrow> name_fits f \<and> name_fits l" by (auto simp: profile_fits_def d)
  obtain r d' where d': "Exec kMaster sql_insert_profile [PgBigint ?n, PgText f, PgText l] d = (r, d')" "inv d'"
    "if storable f \<and> storable l \<and> name_fits f \<and> name_fits l
     then r = Inr (table_result [] []) \<and> tables d' = (tables d)\<lparr>profiles := insert (?n, f, l) (profiles (tables d))\<rparr>
     else (\<exists>x. r = Inl x) \<and> tables d' = tables d"
    using insert_profile [OF d(2), of ?n f l] fits by auto
  show ?thesis
    using d d' id assms(1,3,4)
    by (intro exI [of _ d'])
       (auto simp: users_post_def svc_defs print_result_def string_member_def registration_def created_user_json_def
         builder_assign_def json_checks)
qed

lemma users_get_login:
  assumes "Execute env = Exec" and "inv (svc_db s)" and "GetArg (svc_request s) ''login'' = u" and "u \<noteq> []"
    and "GetArg (svc_request s) ''name'' = []" and "storable u" and "storable []"
    and "\<forall>(i, v, e, p)\<in>users (tables (svc_db s)). v = u \<longrightarrow> i \<in> fst ` profiles (tables (svc_db s)) \<and> in_int 32 True i"
  shows "\<exists>items. users_get env s = (Inr (json_print env (if items = [] then JNull else JArray items)), s)
     \<and> set items = {user_json i u f l | i e p f l. (i, u, e, p) \<in> users (tables (svc_db s)) \<and> (i, f, l) \<in> profiles (tables (svc_db s))}"
proof -
  let ?t = "tables (svc_db s)"
  obtain rows where rows: "Exec kSlave sql_select_users [PgText u, PgText []] (svc_db s) = (Inr (table_result users_columns rows), svc_db s)"
    "set rows = users_view ilike ?t u []"
    using select_users [OF assms(2) assms(6,7)] by blast
  define g where "g = (\<lambda>row. case row of [PgBigint i, PgText u, PgText f, PgText l] \<Rightarrow> user_json i u f l | _ \<Rightarrow> JNull)"
  have view: "users_view ilike ?t u [] = {[PgBigint i, PgText u, PgText f, PgText l] | i e p f l.
      (i, u, e, p) \<in> users ?t \<and> (i, f, l) \<in> profiles ?t}"
  proof (intro equalityI subsetI)
    fix row assume "row \<in> users_view ilike ?t u []"
    then consider (profile) i e p f l where "row = [PgBigint i, PgText u, PgText f, PgText l]" "(i, u, e, p) \<in> users ?t" "(i, f, l) \<in> profiles ?t"
      | (orphan) i e p where "(i, u, e, p) \<in> users ?t" "i \<notin> fst ` profiles ?t"
      using assms(4) by (auto simp: users_view_def)
    then show "row \<in> {[PgBigint i, PgText u, PgText f, PgText l] | i e p f l. (i, u, e, p) \<in> users ?t \<and> (i, f, l) \<in> profiles ?t}"
    proof cases
      case orphan
      then show ?thesis using assms(8) by blast
    qed blast
  qed (auto simp: users_view_def)
  have "push_rows users_item (table_result users_columns rows) JNull = Inr (if rows = [] then JNull else JArray (map g rows))"
  proof (rule push_rows_table)
    fix k assume k: "k < length rows"
    have "rows ! k \<in> users_view ilike ?t u []" by (rule nth_in_set [OF rows(2) k])
    then obtain i e p f l where row: "rows ! k = [PgBigint i, PgText u, PgText f, PgText l]" "(i, u, e, p) \<in> users ?t"
      unfolding view by blast
    then show "users_item (table_result users_columns rows) k = Inr (g (rows ! k))"
      using users_item_value [OF k row(1)] assms(8) by (auto simp: g_def)
  qed
  moreover have "set (map g rows) = {user_json i u f l | i e p f l. (i, u, e, p) \<in> users ?t \<and> (i, f, l) \<in> profiles ?t}"
  proof -
    have "g [PgBigint i, PgText u, PgText f, PgText l] = user_json i u f l" for i u f l by (simp add: g_def)
    then show ?thesis unfolding set_map rows(2) view by (simp add: set_eq_iff image_iff) metis
  qed
  ultimately show ?thesis
    using rows(1) assms(1,3,5) by (intro exI [of _ "map g rows"]) (auto simp: users_get_def svc_defs print_result_def)
qed

lemma users_get_orphan:
  assumes "Execute env = Exec" and "inv (svc_db s)" and "GetArg (svc_request s) ''login'' = []"
    and "GetArg (svc_request s) ''name'' = []" and "storable []"
    and "(i, u, e, p) \<in> users (tables (svc_db s))" and "i \<notin> fst ` profiles (tables (svc_db s))"
  shows "\<exists>x. users_get env s = (Inl x, s)"
proof -
  let ?t = "tables (svc_db s)"
  obtain rows where rows: "Exec kSlave sql_select_users [PgText [], PgText []] (svc_db s) = (Inr (table_result users_columns rows), svc_db s)"
    "set rows = users_view ilike ?t [] []"
    using select_users [OF assms(2,5,5)] by blast
  have "[PgBigint i, PgText u, PgNull, PgNull] \<in> set rows" using assms(6,7) by (auto simp: rows(2) users_view_def)
  then obtain k where k: "k < length rows" "rows ! k = [PgBigint i, PgText u, PgNull, PgNull]" by (auto simp: in_set_conv_nth)
  have "i \<in> fst ` users ?t" using assms(6) by (metis fst_conv image_eqI)
  then have "in_int 64 True i" using ids_below(1) [OF assms(2)] ids_bounded [OF assms(2), of "''users''"]
    by (force simp: in_int_def int_bounds_def)
  with k obtain x where "users_item (table_result users_columns rows) k = Inl x" using users_item_null by blast
  then obtain x where "push_rows users_item (table_result users_columns rows) JNull = Inl x"
    using push_rows_fails [of k "table_result users_columns rows" users_item _ JNull] k(1) by auto
  then show ?thesis using rows(1) assms(1,3,4) by (simp add: users_get_def svc_defs print_result_def)
qed

end

text \<open>
  (C2) A registration that fits the schema answers 201, stores the user and the profile under
  one new identifier, and a GET for that login then lists exactly this user.
\<close>

theorem registered_user_listed:
  assumes "Execute env = social_execute" and "db_inv (svc_db s)" and "GetMethod (svc_request s) = kPost"
    and "FromString (json_parse env) (RequestBody (svc_request s)) = Inr (Present (JObject ms))" and "registration ms u e p f l"
    and "db_storable u" and "db_storable e" and "db_storable p" and "db_storable f" and "db_storable l"
    and "user_fits (db_tables (svc_db s)) u e" and "name_fits f" and "name_fits l" and "users_seq (svc_db s) < 2 ^ 31"
    and "GetMethod r2 = kGet" and "GetArg r2 ''login'' = u" and "u \<noteq> []" and "GetArg r2 ''name'' = []"
  shows "\<exists>db' items.
     UsersHandler_HandleRequestThrow env s = (Inr (json_print env (created_user_json (users_seq (svc_db s)) u e f l)),
       s\<lparr>svc_db := db', svc_request := SetResponseStatus HttpStatus_kCreated (svc_request s)\<rparr>)
     \<and> UsersHandler_HandleRequestThrow env \<lparr>svc_request = r2, svc_db = db'\<rparr>
       = (Inr (json_print env (JArray items)), \<lparr>svc_request = r2, svc_db = db'\<rparr>)
     \<and> set items = {user_json (users_seq (svc_db s)) u f l}"
proof -
  let ?n = "users_seq (svc_db s)" and ?t = "db_tables (svc_db s)"
  have n: "db_next_id ''users'' (svc_db s) = ?n" by (simp add: db_next_id_def)
  obtain db' where post: "users_post env s = (Inr (json_print env (created_user_json ?n u e f l)),
       s\<lparr>svc_db := db', svc_request := SetResponseStatus HttpStatus_kCreated (svc_request s)\<rparr>)" "db_inv db'"
    and t': "db_tables db' = ?t\<lparr>users := insert (?n, u, e, p) (users ?t), profiles := insert (?n, f, l) (profiles ?t)\<rparr>"
    using social.users_post_inserts [OF assms(1,2,4,5,6,7,8,11)] assms(9,10,12-14) n by auto
  have other: "(i, u, e', p') \<in> users ?t \<longleftrightarrow> False" for i e' p' using assms(11) by (auto simp: user_fits_def)
  have n32: "in_int 32 True ?n"
    using social.ids_positive [OF assms(2), of "''users''"] assms(14) n by (simp add: in_int_def int_bounds_def)
  have new: "?n \<notin> fst ` profiles ?t"
    using social.references(1) [OF assms(2), of ?n] social.ids_below(1) [OF assms(2), of ?n] n by auto
  have known: "\<forall>(i, v, e, p)\<in>users (db_tables db'). v = u \<longrightarrow> i \<in> fst ` profiles (db_tables db') \<and> in_int 32 True i"
    using other n32 by (auto simp: t')
  obtain items where get: "users_get env \<lparr>svc_request = r2, svc_db = db'\<rparr>
      = (Inr (json_print env (if items = [] then JNull else JArray items)), \<lparr>svc_request = r2, svc_db = db'\<rparr>)"
    and "set items = {user_json i u f l | i e p f l. (i, u, e, p) \<in> users (db_tables db') \<and> (i, f, l) \<in> profiles (db_tables db')}"
    using social.users_get_login [OF assms(1), of "\<lparr>svc_request = r2, svc_db = db'\<rparr>" u] post(2) assms(6,16-18) known
    by (auto simp: db_storable_def)
  then have items: "set items = {user_json ?n u f l}"
    using other new by (auto simp: t' image_iff)
  then have "items \<noteq> []" by auto
  with post get items assms(3,15) show ?thesis
    by (intro exI [of _ db'] exI [of _ items]) (simp add: UsersHandler_HandleRequestThrow_def act_bind_def get_method_def act_get_def)
qed


subsection \<open>Messages\<close>

definition message_json :: "int \<Rightarrow> int \<Rightarrow> int \<Rightarrow> string \<Rightarrow> json" where
  "message_json i c s x = JObject [(''id'', JInt i), (''chat_id'', JInt c), (''from'', JInt s), (''text'', JString x)]"

definition letter :: "(string \<times> json) list \<Rightarrow> int \<Rightarrow> int \<Rightarrow> string \<Rightarrow> bool" where
  "letter ms a b x \<longleftrightarrow>
     map_of ms ''from'' = Some (JInt a) \<and> map_of ms ''to'' = Some (JInt b) \<and> map_of ms ''text'' = Some (JString x)
     \<and> in_int 32 True a \<and> in_int 32 True b"

definition only_pair_changed :: "Tables \<Rightarrow> Tables \<Rightarrow> int \<Rightarrow> int \<Rightarrow> bool" where
  "only_pair_changed t t' a b \<longleftrightarrow>
     (\<forall>p q. p \<noteq> q \<longrightarrow> {p, q} \<noteq> {a, b} \<longrightarrow> private_chats t' p q = private_chats t p q)"

abbreviation messages_columns :: "string list" where
  "messages_columns \<equiv> [''id'', ''chat_id'', ''sender_id'', ''content'']"

lemma messages_item_value:
  assumes "i < length rows" and "rows ! i = [PgBigint m, PgBigint c, PgBigint s, PgText x]"
    and "in_int 32 True m" and "in_int 32 True c" and "in_int 32 True s"
  shows "messages_item (table_result messages_columns rows) i = Inr (message_json m c s x)"
  using assms row_field_value [of _ messages_columns _ i rows]
  by (simp add: messages_item_def json_int_def json_string_def value_wf_def in_int_32_64 builder_assign_def json_checks message_json_def)

context social_store
begin

lemma chat_id_int:
  assumes "inv db" and "next_id ''chats'' db \<le> 2 ^ 31" and "c \<in> private_chats (tables db) a b"
  shows "in_int 32 True c"
proof -
  have "c \<in> fst ` chats (tables db)" using assms(3) by (force simp: private_chats_def)
  then show ?thesis using ids_below(3) [OF assms(1)] assms(2) by (force simp: in_int_def int_bounds_def)
qed

lemma private_chat_found:
  assumes "Execute env = Exec" and "inv (svc_db s)" and "next_id ''chats'' (svc_db s) \<le> 2 ^ 31"
    and "private_chats (tables (svc_db s)) a b \<noteq> {}"
  shows "\<exists>c\<in>private_chats (tables (svc_db s)) a b. private_chat env a b s = (Inr c, s)"
proof -
  obtain c where c: "c \<in> private_chats (tables (svc_db s)) a b"
    "Exec kMaster sql_select_chat [PgBigint a, PgBigint b] (svc_db s) = (Inr (table_result [''id''] [[PgBigint c]]), svc_db s)"
    using select_chat [OF assms(2), of a b] assms(4) by auto
  have "in_int 32 True c" by (rule chat_id_int [OF assms(2,3) c(1)])
  then have "AsSingleRow Read_int (table_result [''id''] [[PgBigint c]]) = Inr c"
    by (simp add: AsSingleRow_value value_wf_def in_int_32_64)
  with c assms(1) show ?thesis by (auto simp: private_chat_def svc_defs ResultSet_IsEmpty_def)
qed

lemma private_chat_created:
  assumes "Execute env = Exec" and "inv (svc_db s)" and "next_id ''chats'' (svc_db s) < 2 ^ 31"
    and "private_chats (tables (svc_db s)) a b = {}" and "a \<noteq> b"
    and "a \<in> fst ` users (tables (svc_db s))" and "b \<in> fst ` users (tables (svc_db s))"
  shows "\<exists>db'. private_chat env a b s = (Inr (next_id ''chats'' (svc_db s)), s\<lparr>svc_db := db'\<rparr>) \<and> inv db'
     \<and> tables db' = (tables (svc_db s))\<lparr>chats := insert (next_id ''chats'' (svc_db s), False) (chats (tables (svc_db s))),
         chat_members := insert (next_id ''chats'' (svc_db s), a) (insert (next_id ''chats'' (svc_db s), b)
           (chat_members (tables (svc_db s))))\<rparr>
     \<and> next_id ''messages'' db' = next_id ''messages'' (svc_db s)"
proof -
  let ?n = "next_id ''chats'' (svc_db s)" and ?t = "tables (svc_db s)"
  have sel: "Exec kMaster sql_select_chat [PgBigint a, PgBigint b] (svc_db s) = (Inr (table_result [''id''] []), svc_db s)"
    using select_chat [OF assms(2), of a b] assms(4) by auto
  have "0 < ?n" using ids_positive [OF assms(2), of "''chats''"] by simp
  then have n32: "in_int 32 True ?n" using assms(3) by (simp add: in_int_def int_bounds_def)
  have left: "serial_left ?n" using assms(3) by (simp add: serial_left_def)
  obtain d where d: "Exec kMaster sql_insert_chat [PgText ''private-chat''] (svc_db s)
      = (Inr (table_result [''id''] [[PgBigint ?n]]), d)" "inv d" "tables d = ?t\<lparr>chats := insert (?n, False) (chats ?t)\<rparr>"
    "next_id ''messages'' d = next_id ''messages'' (svc_db s)"
    using insert_chat [OF assms(2)] left by auto
  have id: "AsSingleRow Read_int (table_result [''id''] [[PgBigint ?n]]) = Inr ?n"
    using n32 by (simp add: AsSingleRow_value value_wf_def in_int_32_64)
  have "(?n, x) \<notin> chat_members ?t" for x using references(3) [OF assms(2), of ?n x] ids_below(3) [OF assms(2), of ?n] by auto
  then have "members_fit (tables d) ?n a b" using assms(5-7) by (simp add: members_fit_def d)
  then obtain d' where d': "Exec kMaster sql_insert_members [PgBigint ?n, PgBigint a, PgBigint b] d = (Inr (table_result [] []), d')"
    "inv d'" "tables d' = (tables d)\<lparr>chat_members := insert (?n, a) (insert (?n, b) (chat_members (tables d)))\<rparr>"
    "next_id ''messages'' d' = next_id ''messages'' d"
    using insert_members [OF d(2), of ?n a b] by auto
  show ?thesis
    using sel d d' id assms(1) by (intro exI [of _ d']) (simp add: private_chat_def svc_defs ResultSet_IsEmpty_def)
qed

lemma chat_for_pair:
  assumes "Execute env = Exec" and "inv (svc_db s)" and "next_id ''chats'' (svc_db s) < 2 ^ 31" and "a \<noteq> b"
    and "a \<in> fst ` users (tables (svc_db s))" and "b \<in> fst ` users (tables (svc_db s))"
    and "private_chats (tables (svc_db s)) a b = {} \<or> (\<exists>c. private_chats (tables (svc_db s)) a b = {c})"
  shows "\<exists>c db'. private_chat env a b s = (Inr c, s\<lparr>svc_db := db'\<rparr>) \<and> inv db' \<and> private_chats (tables db') a b = {c}
     \<and> only_pair_changed (tables (svc_db s)) (tables db') a b \<and> users (tables db') = users (tables (svc_db s))
     \<and> messages (tables db') = messages (tables (svc_db s)) \<and> (\<forall>i\<in>fst ` chats (tables db'). i < 2 ^ 31)
     \<and> next_id ''messages'' db' = next_id ''messages'' (svc_db s)"
proof (cases "private_chats (tables (svc_db s)) a b = {}")
  case True
  let ?n = "next_id ''chats'' (svc_db s)" and ?t = "tables (svc_db s)"
  obtain db' where db': "private_chat env a b s = (Inr ?n, s\<lparr>svc_db := db'\<rparr>)" "inv db'"
    "next_id ''messages'' db' = next_id ''messages'' (svc_db s)"
    and t': "tables db' = ?t\<lparr>chats := insert (?n, False) (chats ?t), chat_members := insert (?n, a) (insert (?n, b) (chat_members ?t))\<rparr>"
    using private_chat_created [OF assms(1-3) True assms(4-6)] by blast
  have fresh: "(?n, x) \<notin> chat_members ?t" "(?n, g) \<notin> chats ?t" for x g
    using references(3) [OF assms(2), of ?n x] ids_below(3) [OF assms(2), of ?n] by force+
  have "private_chats (tables db') a b = {?n}"
    using True fresh by (auto simp: private_chats_def t')
  moreover have "only_pair_changed ?t (tables db') a b"
    using fresh by (auto simp: only_pair_changed_def private_chats_def t')
  moreover have "\<forall>i\<in>fst ` chats (tables db'). i < 2 ^ 31"
    using ids_below(3) [OF assms(2)] assms(3) by (fastforce simp: t')
  ultimately show ?thesis using db' by (intro exI [of _ ?n] exI [of _ db']) (simp add: t')
next
  case False
  then obtain c where c: "private_chats (tables (svc_db s)) a b = {c}" using assms(7) by blast
  then have "private_chat env a b s = (Inr c, s)" using private_chat_found [OF assms(1,2) _ False] assms(3) by auto
  moreover have "\<forall>i\<in>fst ` chats (tables (svc_db s)). i < 2 ^ 31" using ids_below(3) [OF assms(2)] assms(3) by fastforce
  ultimately show ?thesis
    using c assms(2) by (intro exI [of _ c] exI [of _ "svc_db s"]) (simp add: only_pair_changed_def)
qed

lemma messages_post_sends:
  assumes "Execute env = Exec" and "inv db'"
    and "FromString (json_parse env) (RequestBody (svc_request s)) = Inr (Present (JObject ms))" and "letter ms a b x"
    and "private_chat env a b s = (Inr c, s\<lparr>svc_db := db'\<rparr>)"
    and "storable x" and "message_fits (tables db') c a x" and "next_id ''messages'' db' < 2 ^ 31"
  shows "\<exists>db''. messages_post env s = (Inr (json_print env (message_json (next_id ''messages'' db') c a x)),
       s\<lparr>svc_db := db'', svc_request := SetResponseStatus HttpStatus_kCreated (svc_request s)\<rparr>) \<and> inv db''
     \<and> tables db'' = (tables db')\<lparr>messages := insert (next_id ''messages'' db', c, a, x) (messages (tables db'))\<rparr>"
proof -
  let ?n = "next_id ''messages'' db'"
  have "0 < ?n" using ids_positive [OF assms(2), of "''messages''"] by simp
  then have n32: "in_int 32 True ?n" using assms(8) by (simp add: in_int_def int_bounds_def)
  have left: "serial_left ?n" using assms(8) by (simp add: serial_left_def)
  obtain d where d: "Exec kMaster sql_insert_message [PgBigint c, PgBigint a, PgText x] db'
      = (Inr (table_result [''id''] [[PgBigint ?n]]), d)" "inv d" "tables d = (tables db')\<lparr>messages := insert (?n, c, a, x) (messages (tables db'))\<rparr>"
    using insert_message [OF assms(2), of c a x] assms(6,7) left by auto
  have id: "AsSingleRow Read_int (table_result [''id''] [[PgBigint ?n]]) = Inr ?n"
    using n32 by (simp add: AsSingleRow_value value_wf_def in_int_32_64)
  have "int_member ''from'' (Present (JObject ms)) = Inr a" "int_member ''to'' (Present (JObject ms)) = Inr b"
    "string_member ''text'' (Present (JObject ms)) = Inr x" "lacks_member [''from'', ''to'', ''text''] (Present (JObject ms)) = Inr False"
    using assms(4) by (simp_all add: letter_def int_member_def string_member_def As_int_JInt)
  then show ?thesis
    using d id assms(1,3,5)
    by (intro exI [of _ d]) (simp add: messages_post_def svc_defs print_result_def message_json_def builder_assign_def json_checks)
qed

lemma messages_get_lists:
  assumes "Execute env = Exec" and "inv (svc_db s)" and "GetArg (svc_request s) ''user_id'' = dec_int uid" and "in_int 32 True uid"
    and "\<forall>i\<in>fst ` users (tables (svc_db s)). i < 2 ^ 31" and "\<forall>i\<in>fst ` chats (tables (svc_db s)). i < 2 ^ 31"
    and "\<forall>i\<in>fst ` messages (tables (svc_db s)). i < 2 ^ 31"
  shows "\<exists>items. messages_get env s = (Inr (json_print env (if items = [] then JNull else JArray items)), s)
     \<and> set items = {message_json i c a x | i c a x. (i, c, a, x) \<in> messages (tables (svc_db s)) \<and> (c, uid) \<in> chat_members (tables (svc_db s))}"
proof -
  let ?t = "tables (svc_db s)"
  obtain rows where rows: "Exec kSlave sql_select_messages [PgBigint uid] (svc_db s)
      = (Inr (table_result messages_columns rows), svc_db s)" "set rows = messages_view ?t uid"
    using select_messages [OF assms(2), of uid] by blast
  define g where "g = (\<lambda>row. case row of [PgBigint i, PgBigint c, PgBigint a, PgText x] \<Rightarrow> message_json i c a x | _ \<Rightarrow> JNull)"
  have "push_rows messages_item (table_result messages_columns rows) JNull = Inr (if rows = [] then JNull else JArray (map g rows))"
  proof (rule push_rows_table)
    fix k assume k: "k < length rows"
    have "rows ! k \<in> messages_view ?t uid" by (rule nth_in_set [OF rows(2) k])
    then obtain i c a x where row: "rows ! k = [PgBigint i, PgBigint c, PgBigint a, PgText x]" "(i, c, a, x) \<in> messages ?t"
      unfolding messages_view_def by blast
    have i: "i \<in> fst ` messages ?t" using row(2) by (metis fst_conv image_eqI)
    have ca: "c \<in> fst ` chats ?t" "a \<in> fst ` users ?t" using references(4) [OF assms(2) row(2)] by simp_all
    have "in_int 32 True i" using ids_below(4) [OF assms(2) i] bspec [OF assms(7) i] by (simp add: in_int_def int_bounds_def)
    moreover have "in_int 32 True c" using ids_below(3) [OF assms(2) ca(1)] bspec [OF assms(6) ca(1)] by (simp add: in_int_def int_bounds_def)
    moreover have "in_int 32 True a" using ids_below(1) [OF assms(2) ca(2)] bspec [OF assms(5) ca(2)] by (simp add: in_int_def int_bounds_def)
    ultimately show "messages_item (table_result messages_columns rows) k = Inr (g (rows ! k))"
      using messages_item_value [OF k row(1)] row(1) by (simp add: g_def)
  qed
  moreover have "set (map g rows) = {message_json i c a x | i c a x. (i, c, a, x) \<in> messages ?t \<and> (c, uid) \<in> chat_members ?t}"
  proof -
    have "g [PgBigint i, PgBigint c, PgBigint a, PgText x] = message_json i c a x" for i c a x by (simp add: g_def)
    then show ?thesis unfolding set_map rows(2) messages_view_def by (simp add: set_eq_iff image_iff) metis
  qed
  ultimately show ?thesis
    using rows(1) assms(1,3,4) by (intro exI [of _ "map g rows"]) (auto simp: messages_get_def svc_defs print_result_def stoi_dec)
qed

end

text \<open>The database after a message from \<open>a\<close> was put into the chat \<open>c\<close>, and what its members see.\<close>

lemma message_visible:
  assumes "Execute env = social_execute" and "db_inv db'" and "(c, uid) \<in> chat_members (db_tables db')"
    and "(m, c, a, x) \<in> messages (db_tables db')"
    and "\<forall>i\<in>fst ` users (db_tables db'). i < 2 ^ 31" and "\<forall>i\<in>fst ` chats (db_tables db'). i < 2 ^ 31"
    and "\<forall>i\<in>fst ` messages (db_tables db'). i < 2 ^ 31"
    and "Request_GetHeader r2 ''Authorization'' = ''Bearer 123''" and "GetMethod r2 = kGet"
    and "GetArg r2 ''user_id'' = dec_int uid" and "in_int 32 True uid"
  shows "\<exists>items. MessagesHandler_HandleRequestThrow env \<lparr>svc_request = r2, svc_db = db'\<rparr>
       = (Inr (json_print env (JArray items)), \<lparr>svc_request = r2, svc_db = db'\<rparr>) \<and> message_json m c a x \<in> set items"
proof -
  obtain items where get: "messages_get env \<lparr>svc_request = r2, svc_db = db'\<rparr>
      = (Inr (json_print env (if items = [] then JNull else JArray items)), \<lparr>svc_request = r2, svc_db = db'\<rparr>)"
    and items: "set items = {message_json i c a x | i c a x. (i, c, a, x) \<in> messages (db_tables db') \<and> (c, uid) \<in> chat_members (db_tables db')}"
    using social.messages_get_lists [OF assms(1), of "\<lparr>svc_request = r2, svc_db = db'\<rparr>" uid] assms(2,5,6,7,10,11) by auto
  have new: "message_json m c a x \<in> set items" using items assms(3,4) by auto
  then have "items \<noteq> []" by auto
  with get new assms(8,9) show ?thesis
    by (intro exI [of _ items]) (simp add: MessagesHandler_HandleRequestThrow_def act_bind_def authorized_def get_method_def act_get_def)
qed

text \<open>
  (C1) A message reaches its recipient.  Two different users who have no private chat or one
  have exactly one after a POST from one to the other, no other pair gets or loses a chat,
  the message is stored there, and a GET by the recipient lists it.
\<close>

theorem message_delivered:
  assumes "Execute env = social_execute" and "db_inv (svc_db s)"
    and "Request_GetHeader (svc_request s) ''Authorization'' = ''Bearer 123''" and "GetMethod (svc_request s) = kPost"
    and "FromString (json_parse env) (RequestBody (svc_request s)) = Inr (Present (JObject ms))" and "letter ms a b x" and "a \<noteq> b"
    and "a \<in> fst ` users (db_tables (svc_db s))" and "b \<in> fst ` users (db_tables (svc_db s))"
    and "db_storable x" and "0 < char_length x"
    and "private_chats (db_tables (svc_db s)) a b = {} \<or> (\<exists>c. private_chats (db_tables (svc_db s)) a b = {c})"
    and "users_seq (svc_db s) < 2 ^ 31" and "chats_seq (svc_db s) < 2 ^ 31" and "messages_seq (svc_db s) < 2 ^ 31"
    and "Request_GetHeader r2 ''Authorization'' = ''Bearer 123''" and "GetMethod r2 = kGet" and "GetArg r2 ''user_id'' = dec_int b"
  shows "\<exists>m c db' items.
     MessagesHandler_HandleRequestThrow env s = (Inr (json_print env (message_json m c a x)),
       s\<lparr>svc_db := db', svc_request := SetResponseStatus HttpStatus_kCreated (svc_request s)\<rparr>)
     \<and> private_chats (db_tables db') a b = {c} \<and> private_chats (db_tables db') b a = {c}
     \<and> (\<forall>p q. p \<noteq> q \<longrightarrow> {p, q} \<noteq> {a, b} \<longrightarrow> private_chats (db_tables db') p q = private_chats (db_tables (svc_db s)) p q)
     \<and> messages (db_tables db') = insert (m, c, a, x) (messages (db_tables (svc_db s)))
     \<and> MessagesHandler_HandleRequestThrow env \<lparr>svc_request = r2, svc_db = db'\<rparr>
       = (Inr (json_print env (JArray items)), \<lparr>svc_request = r2, svc_db = db'\<rparr>)
     \<and> message_json m c a x \<in> set items"
proof -
  let ?t = "db_tables (svc_db s)"
  note ids = social.ids_below [OF assms(2)]
  have seqs: "db_next_id ''users'' (svc_db s) < 2 ^ 31" "db_next_id ''chats'' (svc_db s) < 2 ^ 31" "db_next_id ''messages'' (svc_db s) < 2 ^ 31"
    using assms(13-15) by (simp_all add: db_next_id_def)
  obtain c d where d: "private_chat env a b s = (Inr c, s\<lparr>svc_db := d\<rparr>)" "db_inv d" "private_chats (db_tables d) a b = {c}"
    "only_pair_changed ?t (db_tables d) a b" "users (db_tables d) = users ?t" "messages (db_tables d) = messages ?t"
    "\<forall>i\<in>fst ` chats (db_tables d). i < 2 ^ 31" and m: "db_next_id ''messages'' d = db_next_id ''messages'' (svc_db s)"
    using social.chat_for_pair [OF assms(1,2) seqs(2) assms(7,8,9,12)] by blast
  let ?m = "db_next_id ''messages'' d"
  have c: "c \<in> private_chats (db_tables d) a b" using d(3) by simp
  then have "message_fits (db_tables d) c a x" using assms(8,11) d(5) by (force simp: message_fits_def private_chats_def)
  then obtain db' where db': "messages_post env s = (Inr (json_print env (message_json ?m c a x)),
       s\<lparr>svc_db := db', svc_request := SetResponseStatus HttpStatus_kCreated (svc_request s)\<rparr>)" "db_inv db'"
    "db_tables db' = (db_tables d)\<lparr>messages := insert (?m, c, a, x) (messages (db_tables d))\<rparr>"
    using social.messages_post_sends [OF assms(1) d(2) assms(5,6) d(1) assms(10)] seqs(3) m by auto
  have chats: "private_chats (db_tables db') = private_chats (db_tables d)" by (simp add: fun_eq_iff private_chats_def db'(3))
  have sym: "private_chats (db_tables d) b a = {c}" using d(3) by (auto simp: private_chats_def)
  have member: "(c, b) \<in> chat_members (db_tables db')" using c by (simp add: private_chats_def db'(3))
  have bounds: "\<forall>i\<in>fst ` users (db_tables db'). i < 2 ^ 31" "\<forall>i\<in>fst ` chats (db_tables db'). i < 2 ^ 31"
    "\<forall>i\<in>fst ` messages (db_tables db'). i < 2 ^ 31"
    using ids(1,4) seqs d(5-7) m by (auto simp: db'(3)) fastforce+
  obtain items where "MessagesHandler_HandleRequestThrow env \<lparr>svc_request = r2, svc_db = db'\<rparr>
      = (Inr (json_print env (JArray items)), \<lparr>svc_request = r2, svc_db = db'\<rparr>)" "message_json ?m c a x \<in> set items"
    using message_visible [OF assms(1) db'(2) member _ bounds assms(16-18), of ?m a x] assms(6) by (auto simp: db'(3) letter_def)
  moreover have "MessagesHandler_HandleRequestThrow env s = messages_post env s"
    using assms(3,4) by (simp add: MessagesHandler_HandleRequestThrow_def act_bind_def authorized_def get_method_def act_get_def)
  ultimately show ?thesis
    using db'(1) d(3,4) chats sym
    by (intro exI [of _ ?m] exI [of _ c] exI [of _ db'] exI [of _ items]) (simp add: only_pair_changed_def d(6) db'(3))
qed

text \<open>
  (C35) A message of a user to himself is not kept private: the search for the chat of a pair
  finds any private chat of the user, so if he has one with somebody else the message is put
  there, and the other one's GET lists it.
\<close>

theorem self_message_leaks:
  assumes "Execute env = social_execute" and "db_inv (svc_db s)"
    and "Request_GetHeader (svc_request s) ''Authorization'' = ''Bearer 123''" and "GetMethod (svc_request s) = kPost"
    and "FromString (json_parse env) (RequestBody (svc_request s)) = Inr (Present (JObject ms))" and "letter ms a a x"
    and "a \<in> fst ` users (db_tables (svc_db s))" and "db_storable x" and "0 < char_length x"
    and "private_chats (db_tables (svc_db s)) a a = {c}" and "(c, b) \<in> chat_members (db_tables (svc_db s))" and "in_int 32 True b"
    and "users_seq (svc_db s) < 2 ^ 31" and "chats_seq (svc_db s) < 2 ^ 31" and "messages_seq (svc_db s) < 2 ^ 31"
    and "Request_GetHeader r2 ''Authorization'' = ''Bearer 123''" and "GetMethod r2 = kGet" and "GetArg r2 ''user_id'' = dec_int b"
  shows "\<exists>db' items.
     MessagesHandler_HandleRequestThrow env s = (Inr (json_print env (message_json (messages_seq (svc_db s)) c a x)),
       s\<lparr>svc_db := db', svc_request := SetResponseStatus HttpStatus_kCreated (svc_request s)\<rparr>)
     \<and> MessagesHandler_HandleRequestThrow env \<lparr>svc_request = r2, svc_db = db'\<rparr>
       = (Inr (json_print env (JArray items)), \<lparr>svc_request = r2, svc_db = db'\<rparr>)
     \<and> message_json (messages_seq (svc_db s)) c a x \<in> set items"
proof -
  let ?t = "db_tables (svc_db s)" and ?m = "db_next_id ''messages'' (svc_db s)"
  note ids = social.ids_below [OF assms(2)]
  have seqs: "db_next_id ''users'' (svc_db s) < 2 ^ 31" "db_next_id ''chats'' (svc_db s) \<le> 2 ^ 31" "db_next_id ''chats'' (svc_db s) < 2 ^ 31"
    "?m < 2 ^ 31" "?m = messages_seq (svc_db s)"
    using assms(13-15) by (simp_all add: db_next_id_def)
  have "private_chats ?t a a \<noteq> {}" using assms(10) by simp
  from social.private_chat_found [OF assms(1,2) seqs(2) this] assms(10)
  have pc: "private_chat env a a s = (Inr c, s\<lparr>svc_db := svc_db s\<rparr>)" by simp
  have "message_fits ?t c a x" using assms(7,9,10) by (force simp: message_fits_def private_chats_def)
  then obtain db' where db': "messages_post env s = (Inr (json_print env (message_json ?m c a x)),
       s\<lparr>svc_db := db', svc_request := SetResponseStatus HttpStatus_kCreated (svc_request s)\<rparr>)" "db_inv db'"
    "db_tables db' = ?t\<lparr>messages := insert (?m, c, a, x) (messages ?t)\<rparr>"
    using social.messages_post_sends [OF assms(1,2,5,6) pc assms(8)] seqs(4) by auto
  have member: "(c, b) \<in> chat_members (db_tables db')" using assms(11) by (simp add: db'(3))
  have bounds: "\<forall>i\<in>fst ` users (db_tables db'). i < 2 ^ 31" "\<forall>i\<in>fst ` chats (db_tables db'). i < 2 ^ 31"
    "\<forall>i\<in>fst ` messages (db_tables db'). i < 2 ^ 31"
    using ids(1,3,4) seqs by (auto simp: db'(3)) fastforce+
  obtain items where "MessagesHandler_HandleRequestThrow env \<lparr>svc_request = r2, svc_db = db'\<rparr>
      = (Inr (json_print env (JArray items)), \<lparr>svc_request = r2, svc_db = db'\<rparr>)" "message_json ?m c a x \<in> set items"
    using message_visible [OF assms(1) db'(2) member _ bounds assms(16-18), of ?m a x] assms(12) by (auto simp: db'(3))
  moreover have "MessagesHandler_HandleRequestThrow env s = messages_post env s"
    using assms(3,4) by (simp add: MessagesHandler_HandleRequestThrow_def act_bind_def authorized_def get_method_def act_get_def)
  ultimately show ?thesis using db'(1) seqs(5) by auto
qed

subsection \<open>A small database\<close>

text \<open>Two users with one private chat, as in \<open>db/data.sql\<close>, and requests with the token.\<close>

definition sample_db :: SocialDb where
  "sample_db =
     \<lparr>users_rows = [(1, ''alice'', ''alice@mail.com'', ''hash1''), (2, ''bob'', ''bob@mail.com'', ''hash2'')],
      profiles_rows = [(1, ''Alice'', ''Smith''), (2, ''Bob'', ''Johnson'')], posts_rows = [], chats_rows = [(1, False)],
      members_rows = [(1, 1), (1, 2)], messages_rows = [],
      users_seq = 3, posts_seq = 1, chats_seq = 2, messages_seq = 1\<rparr>"

definition sample_svc :: "(string \<times> json) list \<Rightarrow> SocialDb SvcEnv" where
  "sample_svc ms = \<lparr>Execute = social_execute, json_parse = (\<lambda>_. Some (JObject ms, [])), json_print = (\<lambda>_. ''json'')\<rparr>"

definition sample_request :: "HttpMethod \<Rightarrow> (string \<rightharpoonup> string list) \<Rightarrow> HttpRequest" where
  "sample_request m args = initial_request\<lparr>req_method := m, req_headers := [(''Authorization'', ''Bearer 123'')], request_args := args\<rparr>"

abbreviation sample_state :: "HttpMethod \<Rightarrow> SocialDb svc" where
  "sample_state m \<equiv> \<lparr>svc_request = sample_request m Map.empty, svc_db = sample_db\<rparr>"

lemma sample_request_simps [simp]:
  "GetMethod (sample_request m args) = m" "Request_GetHeader (sample_request m args) ''Authorization'' = ''Bearer 123''"
  "GetArg (sample_request m args) name = (case args name of None \<Rightarrow> [] | Some vs \<Rightarrow> hd vs)"
  by (simp_all add: sample_request_def GetMethod_def Request_GetHeader_def headers_find_def header_pos_def StrIcaseEqual_def GetArg_def)

lemma sample_db_inv [simp]: "db_inv sample_db"
  by (simp add: db_inv_def sample_db_def)

lemma sample_svc_simps [simp]:
  "Execute (sample_svc ms) = social_execute" "json_print (sample_svc ms) j = ''json''"
  "distinct (map fst ms) \<Longrightarrow> \<forall>m\<in>set ms. CheckKeyUniqueness 1 (snd m) \<Longrightarrow>
     FromString (json_parse (sample_svc ms)) body = Inr (Present (JObject ms))"
  by (simp_all add: sample_svc_def FromString_def kDepthParseLimit_def)

lemmas sample_fits = user_fits_def name_fits_def post_fits_def char_length_def db_storable_def db_tables_def sample_db_def
  private_chats_def in_int_def int_bounds_def

theorem token_required_witness:
  \<open>\<exists>r. PostsHandler_HandleRequestThrow (sample_svc []) \<lparr>svc_request = initial_request, svc_db = sample_db\<rparr>
      = (Inr ''{"error":"Unauthorized"}'', \<lparr>svc_request = r, svc_db = sample_db\<rparr>)
     \<and> resp_status (response r) = HttpStatus_kUnauthorized\<close>
  using token_required [of "\<lparr>svc_request = initial_request, svc_db = sample_db\<rparr>" "PostsHandler_HandleRequestThrow (sample_svc [])" "sample_svc []"]
  by (simp add: Request_GetHeader_def headers_find_def header_pos_def initial_request_def initial_response_def)

definition sample_post :: "(string \<times> json) list" where
  "sample_post = [(''user_id'', JInt 1), (''content'', JString ''hello'')]"

theorem post_then_listed_witness:
  "\<exists>db' items. PostsHandler_HandleRequestThrow (sample_svc sample_post) (sample_state kPost)
       = (Inr ''json'', \<lparr>svc_request = SetResponseStatus HttpStatus_kCreated (sample_request kPost Map.empty), svc_db = db'\<rparr>)
     \<and> post_json 1 1 ''hello'' \<in> set items \<and> set items = {post_json i 1 c | i c. (i, 1, c) \<in> posts (db_tables db')}"
proof -
  have "in_int 32 True 1" "posts_seq sample_db = 1" "post_fits (db_tables sample_db) 1 ''hello''" "db_storable ''hello''"
    "map_of sample_post ''user_id'' = Some (JInt 1)" "map_of sample_post ''content'' = Some (JString ''hello'')"
    by (simp_all add: sample_fits sample_post_def)
  moreover have "FromString (json_parse (sample_svc sample_post)) b = Inr (Present (JObject sample_post))" for b
    by (rule sample_svc_simps) (simp_all add: sample_post_def)
  ultimately show ?thesis
    using post_then_listed [of "sample_svc sample_post" "sample_state kPost" sample_post 1 "''hello''" "sample_request kGet [''user_id'' \<mapsto> [dec_int 1]]"] by auto
qed

definition sample_registration :: "string \<Rightarrow> (string \<times> json) list" where
  "sample_registration first =
     [(''login'', JString ''carol''), (''email'', JString ''carol@mail.com''), (''password'', JString ''hash3''),
      (''first_name'', JString first), (''last_name'', JString ''Brown'')]"

lemma sample_registration_body:
  "registration (sample_registration f) ''carol'' ''carol@mail.com'' ''hash3'' f ''Brown''"
  "FromString (json_parse (sample_svc (sample_registration f))) b = Inr (Present (JObject (sample_registration f)))"
  by (simp_all add: sample_registration_def registration_def)

theorem registered_user_listed_witness:
  "\<exists>db' items. UsersHandler_HandleRequestThrow (sample_svc (sample_registration ''Carol'')) (sample_state kPost)
       = (Inr ''json'', \<lparr>svc_request = SetResponseStatus HttpStatus_kCreated (sample_request kPost Map.empty), svc_db = db'\<rparr>)
     \<and> set items = {user_json 3 ''carol'' ''Carol'' ''Brown''}"
proof -
  have "users_seq sample_db = 3" "user_fits (db_tables sample_db) ''carol'' ''carol@mail.com''" "name_fits ''Carol''" "name_fits ''Brown''"
    "db_storable ''carol''" "db_storable ''carol@mail.com''" "db_storable ''hash3''" "db_storable ''Carol''" "db_storable ''Brown''"
    by (simp_all add: sample_fits)
  moreover note sample_registration_body [of "''Carol''"]
  ultimately show ?thesis
    using registered_user_listed [of "sample_svc (sample_registration ''Carol'')" "sample_state kPost" "sample_registration ''Carol''"
      "''carol''" "''carol@mail.com''" "''hash3''" "''Carol''" "''Brown''" "sample_request kGet [''login'' \<mapsto> [''carol'']]"] by auto
qed


definition sample_letter :: "int \<Rightarrow> int \<Rightarrow> (string \<times> json) list" where
  "sample_letter a b = [(''from'', JInt a), (''to'', JInt b), (''text'', JString ''hi'')]"

theorem message_delivered_witness:
  "\<exists>m c db' items. MessagesHandler_HandleRequestThrow (sample_svc (sample_letter 1 2)) (sample_state kPost)
       = (Inr ''json'', \<lparr>svc_request = SetResponseStatus HttpStatus_kCreated (sample_request kPost Map.empty), svc_db = db'\<rparr>)
     \<and> private_chats (db_tables db') 1 2 = {c} \<and> messages (db_tables db') = {(m, c, 1, ''hi'')} \<and> message_json m c 1 ''hi'' \<in> set items"
proof -
  have seqs: "users_seq sample_db = 3" "chats_seq sample_db = 2" "messages_seq sample_db = 1" by (simp_all add: sample_db_def)
  have chats: "private_chats (db_tables sample_db) 1 2 = {1}" by (auto simp: sample_fits)
  have letter: "letter (sample_letter 1 2) 1 2 ''hi''" by (simp add: letter_def sample_letter_def in_int_def int_bounds_def)
  have empty: "messages (db_tables sample_db) = {}" by (simp add: sample_fits)
  have body: "FromString (json_parse (sample_svc (sample_letter 1 2))) b = Inr (Present (JObject (sample_letter 1 2)))" for b
    by (rule sample_svc_simps) (simp_all add: sample_letter_def)
  have "1 \<in> fst ` users (db_tables sample_db)" "2 \<in> fst ` users (db_tables sample_db)" "db_storable ''hi''" "0 < char_length ''hi''"
    by (simp_all add: sample_fits)
  with seqs chats letter empty body
    message_delivered [of "sample_svc (sample_letter 1 2)" "sample_state kPost" "sample_letter 1 2" 1 2 "''hi''"
      "sample_request kGet [''user_id'' \<mapsto> [dec_int 2]]"]
  show ?thesis by auto
qed

theorem self_message_leaks_witness:
  "\<exists>db' items. MessagesHandler_HandleRequestThrow (sample_svc (sample_letter 1 1)) (sample_state kPost)
       = (Inr ''json'', \<lparr>svc_request = SetResponseStatus HttpStatus_kCreated (sample_request kPost Map.empty), svc_db = db'\<rparr>)
     \<and> MessagesHandler_HandleRequestThrow (sample_svc (sample_letter 1 1))
         \<lparr>svc_request = sample_request kGet [''user_id'' \<mapsto> [dec_int 2]], svc_db = db'\<rparr>
       = (Inr ''json'', \<lparr>svc_request = sample_request kGet [''user_id'' \<mapsto> [dec_int 2]], svc_db = db'\<rparr>)
     \<and> message_json 1 1 1 ''hi'' \<in> set items"
proof -
  have seqs: "users_seq sample_db = 3" "chats_seq sample_db = 2" "messages_seq sample_db = 1" by (simp_all add: sample_db_def)
  have chats: "private_chats (db_tables sample_db) 1 1 = {1}" by (auto simp: sample_fits)
  have letter: "letter (sample_letter 1 1) 1 1 ''hi''" by (simp add: letter_def sample_letter_def in_int_def int_bounds_def)
  have body: "FromString (json_parse (sample_svc (sample_letter 1 1))) b = Inr (Present (JObject (sample_letter 1 1)))" for b
    by (rule sample_svc_simps) (simp_all add: sample_letter_def)
  have "1 \<in> fst ` users (db_tables sample_db)" "(1, 2) \<in> chat_members (db_tables sample_db)" "in_int 32 True 2"
    "db_storable ''hi''" "0 < char_length ''hi''"
    by (simp_all add: sample_fits)
  with seqs chats letter body
    self_message_leaks [of "sample_svc (sample_letter 1 1)" "sample_state kPost" "sample_letter 1 1" 1 "''hi''" 1 2
      "sample_request kGet [''user_id'' \<mapsto> [dec_int 2]]"]
  show ?thesis by auto
qed

end
