(* ===== verification/Token_Bucket.thy ===== *)
theory Token_Bucket
  imports Prelude
begin

section \<open>Token buckets\<close>

text \<open>
  \<open>universal/src/utils/token_bucket.cpp\<close>, the rate limiter of the server and of every handler.
  Times and durations are the 64-bit nanosecond counts of \<open>steady_clock\<close> and are kept as
  integers; token counts are \<open>size_t\<close>, with the arithmetic modulo \<open>2 ^ 64\<close> written out.  An
  operation that reads the clock takes the time as an argument.
\<close>

definition size_mod :: "nat \<Rightarrow> nat" where
  "size_mod n = n mod 2 ^ 64"

record RefillPolicy =
  amount :: nat
  interval :: int

record TokenBucket =
  max_size :: nat
  token_refill_amount :: nat
  token_refill_interval :: int
  tokens :: nat
  last_update :: int
  obtain_failed :: nat

definition kInstantRefillPolicy :: RefillPolicy where
  "kInstantRefillPolicy = \<lparr>amount = 1, interval = 0\<rparr>"

definition empty_bucket :: TokenBucket where
  "empty_bucket =
     \<lparr>max_size = 0, token_refill_amount = 0, token_refill_interval = 0, tokens = 0, last_update = 0, obtain_failed = 0\<rparr>"

text \<open>\<open>SetMinAtomic\<close>: the loop ends with the smaller of the two values.\<close>

definition SetMinAtomic :: "nat \<Rightarrow> nat \<Rightarrow> nat" where
  "SetMinAtomic dest v = (if v < dest then v else dest)"

definition SetMaxSize :: "nat \<Rightarrow> TokenBucket \<Rightarrow> TokenBucket" where
  "SetMaxSize n b =
     b\<lparr>max_size := n, tokens := (if 0 < token_refill_interval b then SetMinAtomic (tokens b) n else n)\<rparr>"

definition SetRefillPolicy :: "RefillPolicy \<Rightarrow> TokenBucket \<Rightarrow> TokenBucket result" where
  "SetRefillPolicy policy b =
     (if interval policy < 0 then Inl (RuntimeError ''TokenBucket refill interval must be non-negative'')
      else (let b1 = b\<lparr>token_refill_amount := amount policy, token_refill_interval := interval policy\<rparr>
            in Inr (if interval policy = 0 then b1\<lparr>tokens := max_size b1\<rparr> else b1)))"

definition SetInstantRefillPolicy :: "TokenBucket \<Rightarrow> TokenBucket result" where
  "SetInstantRefillPolicy = SetRefillPolicy kInstantRefillPolicy"

definition make_bucket :: "nat \<Rightarrow> RefillPolicy \<Rightarrow> TokenBucket result" where
  "make_bucket n policy = SetRefillPolicy policy (SetMaxSize n empty_bucket)"

definition MakeUnbounded :: "TokenBucket result" where
  "MakeUnbounded = make_bucket (2 ^ 64 - 1) kInstantRefillPolicy"

definition IsUnbounded :: "TokenBucket \<Rightarrow> bool" where
  "IsUnbounded b \<longleftrightarrow>
     token_refill_amount b = amount kInstantRefillPolicy \<and> token_refill_interval b = interval kInstantRefillPolicy"

text \<open>
  The heart of \<open>Update\<close>: how many tokens to add after so many ticks, and the new time stamp.
  The comparison by division avoids the overflow of the product.
\<close>

definition refill :: "nat \<Rightarrow> nat \<Rightarrow> int \<Rightarrow> int \<Rightarrow> int \<Rightarrow> nat \<Rightarrow> nat \<times> int" where
  "refill msize amt ival update_tp now tok =
     (let ticks = nat ((now - update_tp) div ival);
          space_left = (if tok < msize then msize - tok else 0)
      in if space_left div ticks < amt then (space_left, now)
         else (size_mod (amt * ticks), update_tp + ival * int ticks))"

definition Update :: "int \<Rightarrow> TokenBucket \<Rightarrow> TokenBucket" where
  "Update now b =
     (if max_size b = 0 \<or> token_refill_amount b = 0 \<or> token_refill_interval b = 0 then b
      else if now < last_update b then b\<lparr>last_update := now\<rparr>
      else if now = last_update b then b
      else if (now - last_update b) div token_refill_interval b = 0 then b
      else (case refill (max_size b) (token_refill_amount b) (token_refill_interval b) (last_update b) now (tokens b) of
              (add, tp) \<Rightarrow> b\<lparr>last_update := tp, tokens := size_mod (tokens b + add)\<rparr>))"

definition GetTokensApprox :: "int \<Rightarrow> TokenBucket \<Rightarrow> nat \<times> TokenBucket" where
  "GetTokensApprox now b = (let b1 = Update now b in (tokens b1, b1))"

definition fail_obtain :: "nat \<Rightarrow> TokenBucket \<Rightarrow> bool \<times> TokenBucket" where
  "fail_obtain n b = (False, b\<lparr>obtain_failed := size_mod (obtain_failed b + n)\<rparr>)"

definition ObtainAll :: "nat \<Rightarrow> int \<Rightarrow> TokenBucket \<Rightarrow> bool \<times> TokenBucket" where
  "ObtainAll n now b =
     (if max_size b < n then fail_obtain n b
      else (let b1 = Update now b in
            if n = 0 \<or> token_refill_interval b1 = 0 \<and> token_refill_amount b1 \<noteq> 0 then (True, b1)
            else if tokens b1 < n then fail_obtain n b1
            else (True, b1\<lparr>tokens := tokens b1 - n\<rparr>)))"

definition Obtain :: "int \<Rightarrow> TokenBucket \<Rightarrow> bool \<times> TokenBucket" where
  "Obtain = ObtainAll 1"

subsection \<open>The invariant\<close>

definition bucket_wf :: "TokenBucket \<Rightarrow> bool" where
  "bucket_wf b \<longleftrightarrow>
     tokens b \<le> max_size b \<and> max_size b < 2 ^ 64 \<and> token_refill_amount b < 2 ^ 64 \<and> 0 \<le> token_refill_interval b"

text \<open>The operations of a bucket that its owner and its clients call.\<close>

datatype bucket_op = OpSetMaxSize nat | OpSetRefillPolicy RefillPolicy | OpUpdate int | OpObtainAll nat int

fun bucket_step :: "bucket_op \<Rightarrow> TokenBucket \<Rightarrow> TokenBucket" where
  "bucket_step (OpSetMaxSize n) b = SetMaxSize n b"
| "bucket_step (OpSetRefillPolicy p) b = (case SetRefillPolicy p b of Inl _ \<Rightarrow> b | Inr b' \<Rightarrow> b')"
| "bucket_step (OpUpdate now) b = Update now b"
| "bucket_step (OpObtainAll n now) b = snd (ObtainAll n now b)"

fun op_sized :: "bucket_op \<Rightarrow> bool" where
  "op_sized (OpSetMaxSize n) \<longleftrightarrow> n < 2 ^ 64"
| "op_sized (OpSetRefillPolicy p) \<longleftrightarrow> amount p < 2 ^ 64"
| "op_sized _ \<longleftrightarrow> True"

text \<open>What \<open>Update\<close> does, without the guards against overflow.\<close>

definition ticks_until :: "int \<Rightarrow> TokenBucket \<Rightarrow> nat" where
  "ticks_until now b = nat ((now - last_update b) div token_refill_interval b)"

lemma refill_add:
  assumes "0 < ticks" and "msize < 2 ^ 64" and "tok \<le> msize" and "ticks = nat ((now - tp) div ival)"
  shows "refill msize amt ival tp now tok =
     (if msize - tok < amt * ticks then (msize - tok, now) else (amt * ticks, tp + ival * int ticks))"
proof -
  let ?space = "msize - tok"
  have space: "(if tok < msize then msize - tok else 0) = ?space" using assms(3) by auto
  have cmp: "?space div ticks < amt \<longleftrightarrow> ?space < amt * ticks" using assms(1) by (simp add: div_less_iff_less_mult)
  have "size_mod (amt * ticks) = amt * ticks" if "\<not> ?space < amt * ticks" using that assms(2) by (simp add: size_mod_def)
  then show ?thesis by (simp add: refill_def Let_def assms(4) [symmetric] space cmp)
qed

lemma Update_effect:
  assumes "bucket_wf b" and "0 < token_refill_interval b" and "last_update b \<le> now"
  shows "Update now b =
     (let k = ticks_until now b in
      if max_size b = 0 \<or> token_refill_amount b = 0 \<or> k = 0 then b
      else if max_size b - tokens b < token_refill_amount b * k then b\<lparr>last_update := now, tokens := max_size b\<rparr>
      else b\<lparr>last_update := last_update b + token_refill_interval b * int k, tokens := tokens b + token_refill_amount b * k\<rparr>)"
proof -
  let ?k = "ticks_until now b"
  have nonneg: "0 \<le> (now - last_update b) div token_refill_interval b"
    using assms(2,3) by (simp add: pos_imp_zdiv_nonneg_iff)
  then have k0: "(now - last_update b) div token_refill_interval b = 0 \<longleftrightarrow> ?k = 0" by (auto simp: ticks_until_def)
  have now: "now = last_update b \<Longrightarrow> ?k = 0" by (simp add: ticks_until_def)
  have fits: "size_mod (max_size b) = max_size b" "tokens b + (max_size b - tokens b) = max_size b"
    "\<not> max_size b - tokens b < n \<Longrightarrow> size_mod (tokens b + n) = tokens b + n" for n
    using assms(1) by (auto simp: size_mod_def bucket_wf_def)
  show ?thesis
  proof (cases "?k = 0 \<or> max_size b = 0 \<or> token_refill_amount b = 0")
    case True
    then show ?thesis using assms(2,3) k0 by (auto simp: Update_def)
  next
    case False
    then have later: "now \<noteq> last_update b" "(now - last_update b) div token_refill_interval b \<noteq> 0" using now k0 by auto
    have "refill (max_size b) (token_refill_amount b) (token_refill_interval b) (last_update b) now (tokens b) =
        (if max_size b - tokens b < token_refill_amount b * ?k then (max_size b - tokens b, now)
         else (token_refill_amount b * ?k, last_update b + token_refill_interval b * int ?k))"
      by (rule refill_add) (use False assms(1) in \<open>auto simp: ticks_until_def bucket_wf_def\<close>)
    then show ?thesis using False later assms(2,3) fits by (simp add: Update_def Let_def)
  qed
qed

lemma Update_config [simp]:
  "max_size (Update now b) = max_size b" "token_refill_amount (Update now b) = token_refill_amount b"
  "token_refill_interval (Update now b) = token_refill_interval b"
  by (simp_all add: Update_def split: prod.splits)

lemma Update_wf: "bucket_wf b \<Longrightarrow> bucket_wf (Update now b)"
proof (cases "0 < token_refill_interval b \<and> last_update b \<le> now")
  case True
  assume "bucket_wf b"
  with True Update_effect [of b now] show ?thesis by (auto simp: bucket_wf_def Let_def)
qed (auto simp: bucket_wf_def Update_def)

lemma ObtainAll_wf: "bucket_wf b \<Longrightarrow> bucket_wf (snd (ObtainAll n now b))"
  using Update_wf [of b now] by (auto simp: ObtainAll_def fail_obtain_def bucket_wf_def Let_def)

lemma bucket_step_wf: "bucket_wf b \<Longrightarrow> op_sized op \<Longrightarrow> bucket_wf (bucket_step op b)"
proof (cases op)
  case (OpSetRefillPolicy p)
  assume "bucket_wf b" "op_sized op"
  with OpSetRefillPolicy show ?thesis by (auto simp: SetRefillPolicy_def bucket_wf_def Let_def split: sum.splits)
qed (auto simp: Update_wf ObtainAll_wf, auto simp: bucket_wf_def SetMaxSize_def SetMinAtomic_def)

text \<open>
  In every sequence of operations, whatever the clock shows, a bucket never holds more
  tokens than its size, and no addition wraps around.
\<close>

theorem bucket_never_overfull:
  assumes "\<forall>op\<in>set ops. op_sized op" and "op_sized (OpSetMaxSize n)" and "op_sized (OpSetRefillPolicy policy)"
    and "make_bucket n policy = Inr b"
  shows "tokens (fold bucket_step ops b) \<le> max_size (fold bucket_step ops b)"
proof -
  have "bucket_wf b"
    using assms(2-4) by (auto simp: make_bucket_def SetRefillPolicy_def SetMaxSize_def empty_bucket_def bucket_wf_def Let_def split: if_splits)
  then have "bucket_wf (fold bucket_step ops b)"
    using assms(1) by (induction ops arbitrary: b) (auto simp: bucket_step_wf)
  then show ?thesis by (simp add: bucket_wf_def)
qed

theorem bucket_never_overfull_witness:
  "tokens (fold bucket_step [OpObtainAll 1 0, OpUpdate 5000, OpSetMaxSize 2] \<lparr>max_size = 3, token_refill_amount = 1,
     token_refill_interval = 1000, tokens = 3, last_update = 0, obtain_failed = 0\<rparr>) \<le> 2"
  using bucket_never_overfull [of "[OpObtainAll 1 0, OpUpdate 5000, OpSetMaxSize 2]" 3 "\<lparr>amount = 1, interval = 1000\<rparr>"
      "\<lparr>max_size = 3, token_refill_amount = 1, token_refill_interval = 1000, tokens = 3, last_update = 0, obtain_failed = 0\<rparr>"]
  by (simp add: make_bucket_def SetRefillPolicy_def SetMaxSize_def empty_bucket_def)

subsection \<open>How much a bucket lets through\<close>

text \<open>A run of requests for tokens at given times, and the number of tokens handed out.\<close>

fun granted :: "(nat \<times> int) list \<Rightarrow> TokenBucket \<Rightarrow> nat" where
  "granted [] b = 0"
| "granted ((n, now) # reqs) b =
     (case ObtainAll n now b of (ok, b') \<Rightarrow> (if ok then n else 0) + granted reqs b')"

text \<open>The tokens there are and those that time brings until \<open>end\<close>.\<close>

definition potential :: "int \<Rightarrow> TokenBucket \<Rightarrow> nat" where
  "potential end b = tokens b + token_refill_amount b * nat ((end - last_update b) div token_refill_interval b)"

lemma div_superadditive:
  assumes "0 < (d :: int)"
  shows "a div d + b div d \<le> (a + b) div d"
proof -
  have "0 \<le> (a mod d + b mod d) div d" using assms by (simp add: pos_imp_zdiv_nonneg_iff)
  with div_add1_eq [of a b d] show ?thesis by linarith
qed

lemma Update_potential:
  assumes "bucket_wf b" and "0 < token_refill_interval b" and "last_update b \<le> now" and "now \<le> end"
  shows "potential end (Update now b) \<le> potential end b \<and> last_update (Update now b) \<le> now"
proof -
  let ?d = "token_refill_interval b" and ?a = "token_refill_amount b" and ?k = "ticks_until now b" and ?lu = "last_update b"
  have kd: "int ?k = (now - ?lu) div ?d" using assms(2,3) by (simp add: ticks_until_def pos_imp_zdiv_nonneg_iff)
  have le: "?lu + ?d * int ?k \<le> now"
    unfolding kd using assms(2) minus_mod_eq_mult_div [of "now - ?lu" ?d] pos_mod_sign [of ?d "now - ?lu"] by linarith
  have full: "nat ((end - now) div ?d) + ?k \<le> nat ((end - ?lu) div ?d)"
  proof -
    have "(end - now) div ?d + (now - ?lu) div ?d \<le> (end - ?lu) div ?d" using div_superadditive [OF assms(2), of "end - now" "now - ?lu"] by simp
    moreover have "0 \<le> (end - now) div ?d" using assms(2,4) by (simp add: pos_imp_zdiv_nonneg_iff)
    ultimately show ?thesis using kd by linarith
  qed
  have part: "nat ((end - (?lu + ?d * int ?k)) div ?d) + ?k = nat ((end - ?lu) div ?d)"
  proof -
    have "(end - (?lu + ?d * int ?k)) div ?d = (end - ?lu) div ?d - int ?k"
      using assms(2) div_mult_self1 [of ?d "end - ?lu" "- int ?k"] by (simp add: algebra_simps)
    moreover have "int ?k \<le> (end - ?lu) div ?d" using full kd assms(2,4) by (simp add: zdiv_mono1)
    ultimately show ?thesis by linarith
  qed
  have a_full: "?a * nat ((end - now) div ?d) + ?a * ?k \<le> ?a * nat ((end - ?lu) div ?d)"
    using mult_le_mono2 [OF full, of ?a] by (simp add: add_mult_distrib2)
  have a_part: "?a * nat ((end - (?lu + ?d * int ?k)) div ?d) + ?a * ?k = ?a * nat ((end - ?lu) div ?d)"
    using part by (metis add_mult_distrib2)
  show ?thesis
    using assms(1) a_full a_part le assms(3)
    by (auto simp: Update_effect [OF assms(1-3)] Let_def potential_def bucket_wf_def)
qed

lemma ObtainAll_potential:
  assumes "bucket_wf b" and "0 < token_refill_interval b" and "last_update b \<le> now" and "now \<le> end" and "ObtainAll n now b = (ok, b')"
  shows "(if ok then n else 0) + potential end b' \<le> potential end b \<and> last_update b' \<le> now
     \<and> token_refill_interval b' = token_refill_interval b"
proof -
  note up = Update_potential [OF assms(1-4)]
  show ?thesis
    using up assms(2,3,5) by (auto simp: ObtainAll_def fail_obtain_def Let_def potential_def split: if_splits)
qed

lemma granted_potential:
  assumes "bucket_wf b" and "0 < token_refill_interval b"
    and "sorted (last_update b # map snd reqs)" and "\<forall>now\<in>snd ` set reqs. now \<le> end"
  shows "granted reqs b \<le> potential end b"
  using assms
proof (induction reqs arbitrary: b)
  case (Cons r reqs)
  obtain n now where r: "r = (n, now)" by fastforce
  obtain ok b' where b': "ObtainAll n now b = (ok, b')" by fastforce
  have now: "last_update b \<le> now" "now \<le> end" using Cons.prems(3,4) r by auto
  note step = ObtainAll_potential [OF Cons.prems(1,2) now b']
  have "bucket_wf b'" using ObtainAll_wf [OF Cons.prems(1), of n now] b' by simp
  moreover have "sorted (last_update b' # map snd reqs)" using Cons.prems(3) r step by auto
  ultimately have "granted reqs b' \<le> potential end b'" using Cons.IH Cons.prems(2,4) step by auto
  then show ?case using step r b' by simp
qed (simp add: potential_def)

text \<open>In a window of time: however stale the last refill is, the bucket is at most full when the window begins.\<close>

lemma Update_recent:
  assumes "bucket_wf b" and "0 < token_refill_interval b" and "last_update b \<le> now"
    and "0 < max_size b" and "0 < token_refill_amount b"
  shows "now - token_refill_interval b < last_update (Update now b)"
proof -
  let ?d = "token_refill_interval b" and ?lu = "last_update b"
  have kd: "int (ticks_until now b) = (now - ?lu) div ?d"
    using assms(2,3) by (simp add: ticks_until_def pos_imp_zdiv_nonneg_iff)
  have "now - ?lu < ?d * ((now - ?lu) div ?d) + ?d"
    using assms(2) minus_mod_eq_mult_div [of "now - ?lu" ?d] pos_mod_bound [of ?d "now - ?lu"] by linarith
  then have recent: "now - ?d < ?lu + ?d * int (ticks_until now b)" unfolding kd by linarith
  show ?thesis using recent assms(2,4,5) by (auto simp: Update_effect [OF assms(1-3)] Let_def)
qed

lemma potential_window:
  assumes "bucket_wf b" and "0 < token_refill_interval b" and "now - token_refill_interval b < last_update b"
  shows "potential end b \<le> max_size b + token_refill_amount b * (nat ((end - now) div token_refill_interval b) + 1)"
proof -
  let ?d = "token_refill_interval b"
  have "(end - last_update b) div ?d \<le> ((end - now) + ?d) div ?d" using assms(2,3) by (intro zdiv_mono1) auto
  also have "\<dots> = (end - now) div ?d + 1" using assms(2) by (intro div_add_self2) simp
  finally have "nat ((end - last_update b) div ?d) \<le> nat ((end - now) div ?d) + 1" by linarith
  then have "token_refill_amount b * nat ((end - last_update b) div ?d) \<le> token_refill_amount b * (nat ((end - now) div ?d) + 1)"
    by (rule mult_le_mono2)
  then show ?thesis using assms(1) by (simp add: potential_def bucket_wf_def)
qed

lemma ObtainAll_Update:
  assumes "bucket_wf b" and "0 < token_refill_interval b" and "last_update b \<le> now" and "n \<le> max_size b"
  shows "ObtainAll n now (Update now b) = ObtainAll n now b"
proof -
  have "Update now (Update now b) = Update now b"
  proof -
    note up = Update_effect [OF assms(1-3)]
    let ?u = "Update now b" and ?d = "token_refill_interval b"
    have wf: "bucket_wf ?u" using assms(1) by (rule Update_wf)
    have lu: "last_update ?u \<le> now" using Update_potential [OF assms(1-3) order_refl] by simp
    have "ticks_until now ?u = 0 \<or> max_size b = 0 \<or> token_refill_amount b = 0"
    proof (rule disjCI)
      assume "\<not> (max_size b = 0 \<or> token_refill_amount b = 0)"
      then have "now - ?d < last_update ?u" using Update_recent [OF assms(1-3)] by simp
      then have "(now - last_update ?u) div ?d = 0" using lu by (simp add: div_pos_pos_trivial)
      then show "ticks_until now ?u = 0" by (simp add: ticks_until_def)
    qed
    then show ?thesis using Update_effect [OF wf _ lu] assms(2) by (auto simp: Let_def)
  qed
  then show ?thesis using assms(4) by (simp add: ObtainAll_def Let_def)
qed

lemma Update_failed [simp]: "Update t (b\<lparr>obtain_failed := k\<rparr>) = (Update t b)\<lparr>obtain_failed := k\<rparr>"
  by (simp add: Update_def split: prod.splits)

lemma granted_failed: "granted reqs (b\<lparr>obtain_failed := k\<rparr>) = granted reqs b"
proof (induction reqs arbitrary: b k)
  case (Cons q reqs)
  obtain m t where q: "q = (m, t)" by fastforce
  obtain u where u: "Update t b = u" by simp
  have "\<exists>k'. ObtainAll m t (b\<lparr>obtain_failed := k\<rparr>) = (fst (ObtainAll m t b), (snd (ObtainAll m t b))\<lparr>obtain_failed := k'\<rparr>)"
    unfolding ObtainAll_def fail_obtain_def Update_failed u by (cases u) (auto simp: Let_def)
  then show ?case using Cons.IH q by (auto split: prod.splits)
qed simp

lemma granted_window:
  assumes "bucket_wf b" and "0 < token_refill_interval b" and "0 < max_size b" and "0 < token_refill_amount b"
    and "sorted (map snd reqs)" and "last_update b \<le> start"
    and "\<forall>now\<in>snd ` set reqs. start \<le> now \<and> now \<le> end" and "start \<le> end"
  shows "granted reqs b \<le> max_size b + token_refill_amount b * (nat ((end - start) div token_refill_interval b) + 1)"
  using assms
proof (induction reqs)
  case (Cons r reqs)
  obtain n now where r: "r = (n, now)" by fastforce
  have now: "last_update b \<le> now" "start \<le> now" "now \<le> end" using Cons.prems(6,7) r by auto
  show ?case
  proof (cases "max_size b < n")
    case True
    then have "granted (r # reqs) b = granted reqs b" using r by (simp add: ObtainAll_def fail_obtain_def granted_failed)
    then show ?thesis using Cons by auto
  next
    case False
    let ?u = "Update now b"
    have same: "granted (r # reqs) b = granted (r # reqs) ?u"
      using ObtainAll_Update [OF Cons.prems(1,2) now(1)] False r by simp
    have wf: "bucket_wf ?u" using Cons.prems(1) by (rule Update_wf)
    have lu: "last_update ?u \<le> now" using Update_potential [OF Cons.prems(1,2) now(1) order_refl] by simp
    have "granted (r # reqs) ?u \<le> potential end ?u"
      using Cons.prems(2,5,7) r lu by (intro granted_potential wf) auto
    also have "\<dots> \<le> max_size b + token_refill_amount b * (nat ((end - now) div token_refill_interval b) + 1)"
      using potential_window [OF wf, of now] Update_recent [OF Cons.prems(1,2) now(1) Cons.prems(3,4)] Cons.prems(2) by simp
    also have "\<dots> \<le> max_size b + token_refill_amount b * (nat ((end - start) div token_refill_interval b) + 1)"
    proof -
      have "(end - now) div token_refill_interval b \<le> (end - start) div token_refill_interval b"
        using now Cons.prems(2) by (intro zdiv_mono1) auto
      then show ?thesis by (intro add_left_mono mult_le_mono2 add_right_mono nat_mono)
    qed
    finally show ?thesis unfolding same .
  qed
qed simp

text \<open>
  (C25) The rate limit holds: while the policy is \<open>amount\<close> tokens per \<open>interval\<close>, the tokens
  handed out until a time \<open>end\<close> are at most those in the bucket at the start and \<open>amount\<close> for
  every whole interval since the last refill, however the requests are spread.
\<close>

theorem rate_bounded:
  assumes "bucket_wf b" and "0 < token_refill_interval b"
    and "sorted (last_update b # map snd reqs)" and "\<forall>now\<in>snd ` set reqs. now \<le> end"
  shows "granted reqs b \<le>
     tokens b + token_refill_amount b * nat ((end - last_update b) div token_refill_interval b)"
  using granted_potential [OF assms] by (simp add: potential_def)

text \<open>
  Nobody is locked out: if the size allows the request at all, it succeeds at every time
  at which enough whole intervals have passed since the last refill, whatever was taken before.
\<close>

theorem obtain_after_wait:
  assumes "bucket_wf b" and "0 < token_refill_interval b" and "0 < token_refill_amount b" and "n \<le> max_size b"
    and "last_update b + token_refill_interval b * int n \<le> now"
  shows "fst (ObtainAll n now b)"
proof (cases "n = 0")
  case False
  let ?d = "token_refill_interval b" and ?a = "token_refill_amount b" and ?k = "ticks_until now b"
  have "0 \<le> ?d * int n" using assms(2) by simp
  then have le: "last_update b \<le> now" using assms(5) by linarith
  have "int n = ?d * int n div ?d" using assms(2) by simp
  also have "\<dots> \<le> (now - last_update b) div ?d" using assms(2,5) by (intro zdiv_mono1) auto
  finally have k: "n \<le> ?k" by (simp add: ticks_until_def)
  have "1 * n \<le> ?a * ?k" using mult_le_mono [of 1 ?a n ?k] assms(3) k by simp
  then have "n \<le> tokens (Update now b)"
    using Update_effect [OF assms(1,2) le] assms(3,4) False k by (auto simp: Let_def)
  then show ?thesis using assms(2,4) False by (simp add: ObtainAll_def Let_def)
qed (simp add: ObtainAll_def Let_def)

definition sample_bucket :: TokenBucket where
  "sample_bucket = \<lparr>max_size = 3, token_refill_amount = 1, token_refill_interval = 1000, tokens = 0, last_update = 0, obtain_failed = 0\<rparr>"

theorem rate_bounded_witness: "granted [(1, 500), (2, 2500), (1, 2600)] sample_bucket \<le> 2"
  using rate_bounded [of sample_bucket "[(1, 500), (2, 2500), (1, 2600)]" 2600]
  by (simp add: sample_bucket_def bucket_wf_def)

theorem obtain_after_wait_witness: "fst (ObtainAll 3 3000 sample_bucket)"
  using obtain_after_wait [of sample_bucket 3 3000] by (simp add: sample_bucket_def bucket_wf_def)

subsection \<open>Two threads that update at once\<close>

text \<open>
  The atomic steps of \<open>Update\<close>: the loads of the policy, of the time stamp and of the clock, the
  load of the tokens, the compare-and-exchange of the time stamp, and the addition.  The clock
  is read in the first step.
\<close>

datatype update_pc = UBegin | UGotTime int int | UReady int nat int | UCommitted nat | UDone

fun update_step :: "int \<Rightarrow> TokenBucket \<times> update_pc \<Rightarrow> TokenBucket \<times> update_pc" where
  "update_step now (b, UBegin) =
     (if max_size b = 0 \<or> token_refill_amount b = 0 \<or> token_refill_interval b = 0 then (b, UDone)
      else if now < last_update b then (b\<lparr>last_update := now\<rparr>, UDone)
      else if now = last_update b then (b, UDone)
      else if (now - last_update b) div token_refill_interval b = 0 then (b, UDone)
      else (b, UGotTime (last_update b) now))"
| "update_step _ (b, UGotTime tp now) =
     (case refill (max_size b) (token_refill_amount b) (token_refill_interval b) tp now (tokens b) of
        (add, ntp) \<Rightarrow> (b, UReady tp add ntp))"
| "update_step _ (b, UReady tp add ntp) =
     (if last_update b = tp then (b\<lparr>last_update := ntp\<rparr>, UCommitted add) else (b, UDone))"
| "update_step _ (b, UCommitted add) = (b\<lparr>tokens := size_mod (tokens b + add)\<rparr>, UDone)"
| "update_step _ (b, UDone) = (b, UDone)"

text \<open>A schedule names the thread that takes the next step and the time it happens.\<close>

fun run_updates :: "(nat \<times> int) list \<Rightarrow> TokenBucket \<times> (nat \<Rightarrow> update_pc) \<Rightarrow> TokenBucket \<times> (nat \<Rightarrow> update_pc)" where
  "run_updates [] st = st"
| "run_updates ((i, now) # sched) (b, pcs) =
     (case update_step now (b, pcs i) of (b', pc) \<Rightarrow> run_updates sched (b', pcs(i := pc)))"

lemma update_alone: "fst (run_updates (replicate 4 (i, now)) (b, \<lambda>_. UBegin)) = Update now b"
proof -
  have four: "replicate 4 (i, now) = [(i, now), (i, now), (i, now), (i, now)]" by (simp add: numeral_eq_Suc)
  show ?thesis unfolding four by (simp add: Update_def split: prod.splits)
qed

text \<open>
  (C39) A thread that runs alone does exactly \<open>Update\<close>.  Two threads can refill twice: the second
  one may read the tokens after the first has moved the time stamp and before it has added its
  tokens, so that a bucket holds more tokens than its size.
\<close>

theorem concurrent_refill_overfills:
  "fst (run_updates (replicate 4 (i, now)) (b, \<lambda>_. UBegin)) = Update now b
   \<and> (\<exists>b sched. bucket_wf b \<and> sorted (last_update b # map snd sched)
        \<and> (case run_updates sched (b, \<lambda>_. UBegin) of (b', pcs) \<Rightarrow>
             pcs 1 = UDone \<and> pcs 2 = UDone \<and> max_size b' = max_size b \<and> max_size b' < tokens b'))"
proof -
  let ?b = "\<lparr>max_size = 10, token_refill_amount = 1, token_refill_interval = 1, tokens = 5, last_update = 0, obtain_failed = 0\<rparr>"
  let ?sched = "[(1, 100), (1, 100), (1, 100), (2, 200), (2, 200), (2, 200), (2, 200), (1, 200)] :: (nat \<times> int) list"
  have wf: "bucket_wf ?b" "sorted (last_update ?b # map snd ?sched)" by (simp_all add: bucket_wf_def)
  have run: "case run_updates ?sched (?b, \<lambda>_. UBegin) of (b', pcs) \<Rightarrow>
      pcs 1 = UDone \<and> pcs 2 = UDone \<and> max_size b' = max_size ?b \<and> max_size b' < tokens b'"
    by (simp add: refill_def size_mod_def Let_def)
  show ?thesis by (intro conjI exI [of _ ?b] exI [of _ ?sched] update_alone wf run)
qed

end
