(* ===== verification/Handler_Stats.thy ===== *)
theory Handler_Stats
  imports Http_Types
begin

section \<open>Statistics of a handler\<close>

text \<open>
  \<open>core/src/utils/statistics/http_codes.cpp\<close> and
  \<open>core/src/server/handlers/http_handler_base_statistics.cpp\<close>: the counters a handler keeps per
  method.  A \<open>RateCounter\<close> is an unsigned 64-bit counter, a \<open>Rate\<close> its value.  The timings, a
  sliding percentile, are left out.
\<close>

type_synonym Rate = "64 word"

subsection \<open>Reply codes\<close>

definition kMinHttpStatus :: int where
  "kMinHttpStatus = 100"

definition kMaxHttpStatus :: int where
  "kMaxHttpStatus = 600"

type_synonym HttpCodes = "Rate list"

definition initial_codes :: HttpCodes where
  "initial_codes = replicate (nat (kMaxHttpStatus - kMinHttpStatus)) 0"

definition HttpCodes_Account :: "int \<Rightarrow> HttpCodes \<Rightarrow> HttpCodes" where
  "HttpCodes_Account code codes =
     (if code < kMinHttpStatus \<or> kMaxHttpStatus \<le> code then codes
      else (let i = nat (code - kMinHttpStatus) in codes[i := codes ! i + 1]))"

definition HttpCodes_plus :: "HttpCodes \<Rightarrow> HttpCodes \<Rightarrow> HttpCodes" where
  "HttpCodes_plus a b = map2 (+) a b"

definition IsForcedStatusCode :: "int \<Rightarrow> bool" where
  "IsForcedStatusCode status \<longleftrightarrow> status = 200 \<or> status = 400 \<or> status = 401 \<or> status = 500"

text \<open>The values \<open>DumpMetric\<close> writes: the label \<open>http_code\<close> and the count.\<close>

definition HttpCodes_DumpMetric :: "HttpCodes \<Rightarrow> (int \<times> Rate) list" where
  "HttpCodes_DumpMetric codes =
     map (\<lambda>(base_code, count). (base_code + kMinHttpStatus, count))
       (filter (\<lambda>(base_code, count). count \<noteq> 0 \<or> IsForcedStatusCode base_code)
         (map (\<lambda>(i, count). (int i, count)) (enumerate 0 codes)))"

subsection \<open>The counters of one method\<close>

record HttpHandlerMethodStatistics =
  reply_codes :: HttpCodes
  started :: Rate
  finished :: Rate
  too_many_requests_in_flight :: Rate
  rate_limit_reached :: Rate
  deadline_received :: Rate
  stat_cancelled_by_deadline :: Rate

definition initial_method_statistics :: HttpHandlerMethodStatistics where
  "initial_method_statistics =
     \<lparr>reply_codes = initial_codes, started = 0, finished = 0, too_many_requests_in_flight = 0,
      rate_limit_reached = 0, deadline_received = 0, stat_cancelled_by_deadline = 0\<rparr>"

record HttpHandlerStatisticsEntry =
  entry_code :: StatusCode
  entry_deadline_reachable :: bool
  entry_cancelled_by_deadline :: bool

definition Account :: "HttpHandlerStatisticsEntry \<Rightarrow> HttpHandlerMethodStatistics \<Rightarrow> HttpHandlerMethodStatistics" where
  "Account stats s =
     s\<lparr>reply_codes := HttpCodes_Account (uint (entry_code stats)) (reply_codes s),
       deadline_received := deadline_received s + (if entry_deadline_reachable stats then 1 else 0),
       stat_cancelled_by_deadline := stat_cancelled_by_deadline s + (if entry_cancelled_by_deadline stats then 1 else 0)\<rparr>"

definition GetInFlight :: "HttpHandlerMethodStatistics \<Rightarrow> Rate" where
  "GetInFlight s = max (started s) (finished s) - finished s"

definition IncrementInFlight :: "HttpHandlerMethodStatistics \<Rightarrow> HttpHandlerMethodStatistics" where
  "IncrementInFlight s = s\<lparr>started := started s + 1\<rparr>"

definition DecrementInFlight :: "HttpHandlerMethodStatistics \<Rightarrow> HttpHandlerMethodStatistics" where
  "DecrementInFlight s = s\<lparr>finished := finished s + 1\<rparr>"

definition IncrementTooManyRequestsInFlight :: "HttpHandlerMethodStatistics \<Rightarrow> HttpHandlerMethodStatistics" where
  "IncrementTooManyRequestsInFlight s = s\<lparr>too_many_requests_in_flight := too_many_requests_in_flight s + 1\<rparr>"

definition IncrementRateLimitReached :: "HttpHandlerMethodStatistics \<Rightarrow> HttpHandlerMethodStatistics" where
  "IncrementRateLimitReached s = s\<lparr>rate_limit_reached := rate_limit_reached s + 1\<rparr>"

subsection \<open>Snapshots\<close>

record HttpHandlerStatisticsSnapshot =
  snap_reply_codes :: HttpCodes
  snap_in_flight :: Rate
  snap_finished :: Rate
  snap_too_many_requests_in_flight :: Rate
  snap_rate_limit_reached :: Rate
  snap_deadline_received :: Rate
  snap_cancelled_by_deadline :: Rate

definition empty_snapshot :: HttpHandlerStatisticsSnapshot where
  "empty_snapshot =
     \<lparr>snap_reply_codes = initial_codes, snap_in_flight = 0, snap_finished = 0, snap_too_many_requests_in_flight = 0,
      snap_rate_limit_reached = 0, snap_deadline_received = 0, snap_cancelled_by_deadline = 0\<rparr>"

definition take_snapshot :: "HttpHandlerMethodStatistics \<Rightarrow> HttpHandlerStatisticsSnapshot" where
  "take_snapshot s =
     \<lparr>snap_reply_codes = reply_codes s, snap_in_flight = GetInFlight s, snap_finished = finished s,
      snap_too_many_requests_in_flight = too_many_requests_in_flight s, snap_rate_limit_reached = rate_limit_reached s,
      snap_deadline_received = deadline_received s, snap_cancelled_by_deadline = stat_cancelled_by_deadline s\<rparr>"

definition Snapshot_Add :: "HttpHandlerStatisticsSnapshot \<Rightarrow> HttpHandlerStatisticsSnapshot \<Rightarrow> HttpHandlerStatisticsSnapshot" where
  "Snapshot_Add other s =
     s\<lparr>snap_reply_codes := HttpCodes_plus (snap_reply_codes s) (snap_reply_codes other),
       snap_in_flight := snap_in_flight s + snap_in_flight other,
       snap_finished := snap_finished s + snap_finished other,
       snap_too_many_requests_in_flight := snap_too_many_requests_in_flight s + snap_too_many_requests_in_flight other,
       snap_rate_limit_reached := snap_rate_limit_reached s + snap_rate_limit_reached other,
       snap_deadline_received := snap_deadline_received s + snap_deadline_received other,
       snap_cancelled_by_deadline := snap_cancelled_by_deadline s + snap_cancelled_by_deadline other\<rparr>"

text \<open>
  The statistics of a handler: an array over the methods a handler may have.  \<open>FormatStatistics\<close>
  adds up the snapshots of the handler's own methods.
\<close>

type_synonym HttpHandlerStatistics = "HttpMethod \<Rightarrow> HttpHandlerMethodStatistics"

definition ForMethod ::
  "HttpMethod \<Rightarrow> (HttpHandlerMethodStatistics \<Rightarrow> HttpHandlerMethodStatistics) \<Rightarrow> HttpHandlerStatistics \<Rightarrow> HttpHandlerStatistics" where
  "ForMethod method f stats = stats(method := f (stats method))"

definition FormatStatistics :: "HttpMethod list \<Rightarrow> HttpHandlerStatistics \<Rightarrow> HttpHandlerStatisticsSnapshot" where
  "FormatStatistics allowed_methods stats =
     fold (\<lambda>method total. Snapshot_Add (take_snapshot (stats method)) total) allowed_methods empty_snapshot"

subsection \<open>What is counted\<close>

lemma HttpCodes_Account_length [simp]: "length (HttpCodes_Account code codes) = length codes"
  by (simp add: HttpCodes_Account_def Let_def)

lemma initial_codes_nth [simp]: "length initial_codes = 500" "i < 500 \<Longrightarrow> initial_codes ! i = 0"
  by (simp_all add: initial_codes_def kMinHttpStatus_def kMaxHttpStatus_def)

lemma HttpCodes_Account_nth:
  assumes "i < 500" and "length codes = 500"
  shows "HttpCodes_Account code codes ! i = codes ! i + (if code = int i + kMinHttpStatus then 1 else 0)"
proof (cases "code < 100 \<or> 600 \<le> code")
  case False
  then have "(nat (code - 100) = i) = (code = int i + 100)" by auto
  then show ?thesis using False assms
    by (auto simp: HttpCodes_Account_def Let_def kMinHttpStatus_def kMaxHttpStatus_def nth_list_update)
qed (use assms in \<open>auto simp: HttpCodes_Account_def kMinHttpStatus_def kMaxHttpStatus_def\<close>)

lemma fold_Account_nth:
  assumes "i < 500" and "length codes = 500"
  shows "fold HttpCodes_Account statuses codes ! i = codes ! i + of_nat (count_list statuses (int i + kMinHttpStatus))"
  using assms
proof (induction statuses arbitrary: codes)
  case (Cons status statuses)
  have "length (HttpCodes_Account status codes) = 500" using Cons.prems by simp
  from Cons.IH [OF Cons.prems(1) this] show ?case using Cons.prems by (simp add: HttpCodes_Account_nth)
qed simp

lemma fold_Account_length: "length (fold HttpCodes_Account statuses codes) = length codes"
  by (induction statuses arbitrary: codes) simp_all

lemma enumerated_codes:
  "(b, n) \<in> set (map (\<lambda>(i, count). (int i, count)) (enumerate 0 codes)) \<longleftrightarrow> (\<exists>i<length codes. b = int i \<and> n = codes ! i)"
proof
  assume "\<exists>i<length codes. b = int i \<and> n = codes ! i"
  then obtain i where i: "i < length codes" "b = int i" "n = codes ! i" by auto
  then have "(i, n) \<in> set (enumerate 0 codes)" by (simp add: in_set_enumerate_eq)
  then show "(b, n) \<in> set (map (\<lambda>(i, count). (int i, count)) (enumerate 0 codes))" using i by force
qed (auto simp: in_set_enumerate_eq)

lemma shifted_image: "(c, n) \<in> (\<lambda>(b, n). (b + k, n)) ` S \<longleftrightarrow> (c - k, n) \<in> S" for c k :: int
proof
  assume "(c - k, n) \<in> S"
  then show "(c, n) \<in> (\<lambda>(b, n). (b + k, n)) ` S" by (rule rev_image_eqI) simp
qed auto

lemma DumpMetric_member:
  assumes "length codes = 500"
  shows "(code, n) \<in> set (HttpCodes_DumpMetric codes) \<longleftrightarrow>
     100 \<le> code \<and> code < 600 \<and> n = codes ! nat (code - 100) \<and> (n \<noteq> 0 \<or> IsForcedStatusCode (code - 100))"
proof -
  let ?base = "map (\<lambda>(i, count). (int i, count)) (enumerate 0 codes)"
  have "(code, n) \<in> set (HttpCodes_DumpMetric codes) \<longleftrightarrow> (code - 100, n) \<in> set ?base \<and> (n \<noteq> 0 \<or> IsForcedStatusCode (code - 100))"
    unfolding HttpCodes_DumpMetric_def kMinHttpStatus_def set_map [of _ "filter _ _"] set_filter shifted_image
    by (simp del: set_map)
  also have "(code - 100, n) \<in> set ?base \<longleftrightarrow> 100 \<le> code \<and> code < 600 \<and> n = codes ! nat (code - 100)"
  proof
    assume r: "100 \<le> code \<and> code < 600 \<and> n = codes ! nat (code - 100)"
    then have "nat (code - 100) < length codes" "code - 100 = int (nat (code - 100))" using assms by auto
    with r show "(code - 100, n) \<in> set ?base" unfolding enumerated_codes by blast
  next
    assume "(code - 100, n) \<in> set ?base"
    then obtain i where "i < length codes" "code - 100 = int i" "n = codes ! i" unfolding enumerated_codes by blast
    then show "100 \<le> code \<and> code < 600 \<and> n = codes ! nat (code - 100)" using assms by auto
  qed
  finally show ?thesis by blast
qed

text \<open>
  The reply codes that are reported are exactly the valid codes that were answered, each
  with its number of answers, and three more that are reported even when they are zero: 300,
  500 and 501.  The code means 200, 400, 401 and 500, but asks \<open>IsForcedStatusCode\<close> for the
  position in the array, which is the code less 100.
\<close>

theorem reply_codes_reported:
  "(code, n) \<in> set (HttpCodes_DumpMetric (fold HttpCodes_Account statuses initial_codes)) \<longleftrightarrow>
     100 \<le> code \<and> code < 600 \<and> n = of_nat (count_list statuses code) \<and> (n \<noteq> 0 \<or> code = 300 \<or> code = 500 \<or> code = 501)"
proof -
  let ?codes = "fold HttpCodes_Account statuses initial_codes"
  have len: "length ?codes = 500" by (simp add: fold_Account_length)
  have cnt: "?codes ! nat (code - 100) = of_nat (count_list statuses code)" if "100 \<le> code" "code < 600"
  proof -
    have "nat (code - 100) < 500" "int (nat (code - 100)) + kMinHttpStatus = code" using that by (auto simp: kMinHttpStatus_def)
    then show ?thesis using fold_Account_nth [of "nat (code - 100)" initial_codes statuses] by simp
  qed
  show ?thesis
    unfolding DumpMetric_member [OF len] using cnt by (auto simp: kMinHttpStatus_def kMaxHttpStatus_def IsForcedStatusCode_def)
qed

theorem reply_codes_reported_witness:
  "(200, 2) \<in> set (HttpCodes_DumpMetric (fold HttpCodes_Account [200, 404, 200] initial_codes))
   \<and> (300, 0) \<in> set (HttpCodes_DumpMetric (fold HttpCodes_Account [200, 404, 200] initial_codes))"
  unfolding reply_codes_reported by simp

subsection \<open>Requests in flight\<close>

text \<open>The events of a method's counters: a scope is opened or closed.\<close>

definition flight_step :: "bool \<Rightarrow> HttpHandlerMethodStatistics \<Rightarrow> HttpHandlerMethodStatistics" where
  "flight_step opened s = (if opened then IncrementInFlight s else DecrementInFlight s)"

lemma flight_counters:
  "started (fold flight_step events s) = started s + of_nat (count_list events True)
   \<and> finished (fold flight_step events s) = finished s + of_nat (count_list events False)"
  by (induction events arbitrary: s) (auto simp: flight_step_def IncrementInFlight_def DecrementInFlight_def)

text \<open>
  In every interleaving of requests, \<open>GetInFlight\<close> is the number of requests that have
  started and not finished, as long as fewer than \<open>2 ^ 64\<close> have started.
\<close>

theorem in_flight_counts:
  assumes "count_list events False \<le> count_list events True" and "count_list events True < 2 ^ 64"
  shows "unat (GetInFlight (fold flight_step events initial_method_statistics)) =
     count_list events True - count_list events False"
proof -
  let ?s = "fold flight_step events initial_method_statistics"
  have s: "unat (started ?s) = count_list events True" "unat (finished ?s) = count_list events False"
    using assms flight_counters [of events initial_method_statistics]
    by (simp_all add: initial_method_statistics_def unat_of_nat)
  then have "finished ?s \<le> started ?s" using assms(1) by (simp add: word_le_nat_alt)
  then show ?thesis using s by (simp add: GetInFlight_def max_def unat_sub)
qed

theorem in_flight_counts_witness:
  "unat (GetInFlight (fold flight_step [True, True, False, True] initial_method_statistics)) = 2"
  using in_flight_counts [of "[True, True, False, True]"] by simp

end
