(* ===== verification/From_String.thy ===== *)
theory From_String
  imports Json_Value Http_Request
begin

section \<open>Reading a number from a string\<close>

text \<open>
  \<open>utils::FromString\<close> for integer types (\<open>universal/include/userver/utils/from_string.hpp\<close>) over
  \<open>std::from_chars\<close>, which reads the longest run of digits (after a minus sign for a signed
  type) and reports whether there was one and whether its value fits.  The type is given by its
  width and signedness.
\<close>

datatype FromStringErrorCode = kLeadingSpaces | kTrailingJunk | kNoNumber | kOverflow

datatype errc = errc_result_out_of_range | errc_invalid_argument

definition from_chars :: "nat \<Rightarrow> bool \<Rightarrow> string \<Rightarrow> errc + int \<times> string" where
  "from_chars w sg s =
     (let neg = (sg \<and> s \<noteq> [] \<and> hd s = CHR ''-'');
          t = (if neg then tl s else s);
          ds = takeWhile is_digit t;
          v = (if neg then - int (undec ds) else int (undec ds))
      in if ds = [] then Inl errc_invalid_argument
         else if \<not> in_int w sg v then Inl errc_result_out_of_range
         else Inr (v, dropWhile is_digit t))"

definition utils_FromString :: "nat \<Rightarrow> bool \<Rightarrow> string \<Rightarrow> FromStringErrorCode + int" where
  "utils_FromString w sg str =
     (if str = [] then Inl kNoNumber
      else if isspace (hd str) then Inl kLeadingSpaces
      else if 1 < length str \<and> str ! 0 = CHR ''+'' \<and> str ! 1 = CHR ''-'' then Inl kNoNumber
      else
        (let offset = (if hd str = CHR ''+'' \<or> \<not> sg \<and> hd str = CHR ''-'' then 1 else 0)
         in case from_chars w sg (drop offset str) of
              Inl errc_result_out_of_range \<Rightarrow> Inl kOverflow
            | Inl errc_invalid_argument \<Rightarrow> Inl kNoNumber
            | Inr (v, rest) \<Rightarrow>
                if \<not> sg \<and> hd str = CHR ''-'' \<and> v \<noteq> 0 then Inl kOverflow
                else if rest \<noteq> [] then Inl kTrailingJunk
                else Inr v))"

subsection \<open>What is accepted\<close>

definition digits :: "string \<Rightarrow> bool" where
  "digits ds \<longleftrightarrow> ds \<noteq> [] \<and> (\<forall>c\<in>set ds. is_digit c)"

lemma digits_takeWhile [simp]: "digits ds \<Longrightarrow> takeWhile is_digit ds = ds" "digits ds \<Longrightarrow> dropWhile is_digit ds = []"
  by (auto simp: digits_def takeWhile_eq_all_conv)

lemma not_digit [simp]: "\<not> is_digit (CHR ''-'')" "\<not> is_digit (CHR ''+'')"
  by (simp_all add: is_digit_def)

lemma digits_hd: "digits ds \<Longrightarrow> ds \<noteq> [] \<and> is_digit (hd ds) \<and> hd ds \<noteq> CHR ''-'' \<and> hd ds \<noteq> CHR ''+''"
  by (cases ds) (auto simp: digits_def)

lemma digit_not_space: "is_digit c \<Longrightarrow> \<not> isspace c"
  by (auto simp: is_digit_def isspace_def)

text \<open>The numerals: digits, or digits after a sign.\<close>

definition numeral_value :: "string \<Rightarrow> int option" where
  "numeral_value s =
     (if digits s then Some (int (undec s))
      else if s \<noteq> [] \<and> digits (tl s) \<and> hd s = CHR ''+'' then Some (int (undec (tl s)))
      else if s \<noteq> [] \<and> digits (tl s) \<and> hd s = CHR ''-'' then Some (- int (undec (tl s)))
      else None)"

lemma not_digits: "\<not> digits t \<Longrightarrow> takeWhile is_digit t = [] \<or> dropWhile is_digit t \<noteq> []"
  by (metis digits_def dropWhile_eq_Nil_conv takeWhile.simps(1))

lemma from_chars_all:
  "from_chars w sg s = Inr (v, []) \<longleftrightarrow>
     in_int w sg v \<and> (digits s \<and> v = int (undec s) \<or> sg \<and> s \<noteq> [] \<and> hd s = CHR ''-'' \<and> digits (tl s) \<and> v = - int (undec (tl s)))"
proof (cases "sg \<and> s \<noteq> [] \<and> hd s = CHR ''-''")
  case True
  then have s: "\<not> digits s" using digits_hd by blast
  show ?thesis
  proof (cases "digits (tl s)")
    case d: True
    then have "tl s \<noteq> []" using digits_hd by blast
    then show ?thesis using True s d by (auto simp: from_chars_def Let_def)
  qed (use True s not_digits [of "tl s"] in \<open>auto simp: from_chars_def Let_def\<close>)
next
  case False
  show ?thesis
  proof (cases "digits s")
    case d: True
    then show ?thesis using False d digits_hd [OF d] by (auto simp: from_chars_def Let_def)
  qed (use False not_digits [of s] in \<open>auto simp: from_chars_def Let_def\<close>)
qed

lemma from_chars_minus: "from_chars w False (CHR ''-'' # s) = Inl errc_invalid_argument"
  by (simp add: from_chars_def Let_def)

lemma FromString_numeral:
  "utils_FromString w sg s = Inr v \<longleftrightarrow> numeral_value s = Some v \<and> in_int w sg v"
proof (cases s)
  case (Cons c t)
  have minus_t: "digits t \<Longrightarrow> t \<noteq> [] \<and> hd t \<noteq> CHR ''-''" using digits_hd by blast
  consider (space) "isspace c" | (plus) "c = CHR ''+''" | (minus) "c = CHR ''-''" | (other) "\<not> isspace c" "c \<noteq> CHR ''+''" "c \<noteq> CHR ''-''"
    by blast
  then show ?thesis
  proof cases
    case space
    then have "\<not> digits s" "c \<noteq> CHR ''+''" "c \<noteq> CHR ''-''"
      using Cons digit_not_space [of c] by (auto simp: digits_def isspace_def)
    then show ?thesis using space Cons by (simp add: utils_FromString_def numeral_value_def)
  next
    case plus
    have ns: "\<not> isspace c" "\<not> digits s" using plus Cons by (auto simp: isspace_def digits_def)
    show ?thesis
    proof (cases "t \<noteq> [] \<and> hd t = CHR ''-''")
      case True
      then have "utils_FromString w sg s = Inl kNoNumber" "\<not> digits t"
        using plus ns Cons minus_t by (auto simp: utils_FromString_def hd_conv_nth)
      then show ?thesis using plus ns Cons by (simp add: numeral_value_def)
    next
      case False
      then have nth: "\<not> (t \<noteq> [] \<and> t ! 0 = CHR ''-'')" by (cases t) auto
      have "utils_FromString w sg s = Inr v \<longleftrightarrow> from_chars w sg t = Inr (v, [])"
        using plus ns nth Cons by (auto simp: utils_FromString_def Let_def split: sum.splits errc.splits if_splits)
      then show ?thesis using from_chars_all [of w sg t v] False plus ns Cons by (auto simp: numeral_value_def)
    qed
  next
    case minus
    have ns: "\<not> isspace c" "\<not> digits s" using minus Cons by (auto simp: isspace_def digits_def)
    show ?thesis
    proof (cases sg)
      case True
      then have "utils_FromString w sg s = Inr v \<longleftrightarrow> from_chars w sg s = Inr (v, [])"
        using minus ns Cons by (auto simp: utils_FromString_def Let_def split: sum.splits errc.splits if_splits)
      then show ?thesis using from_chars_all [of w sg s v] True minus ns Cons by (auto simp: numeral_value_def)
    next
      case False
      have "utils_FromString w sg s = Inr v \<longleftrightarrow> from_chars w sg t = Inr (v, []) \<and> v = 0"
        using False minus ns Cons by (auto simp: utils_FromString_def Let_def split: sum.splits errc.splits if_splits)
      then show ?thesis using from_chars_all [of w sg t v] False minus ns Cons
        by (auto simp: numeral_value_def in_int_def int_bounds_def)
    qed
  next
    case other
    have "utils_FromString w sg s = Inr v \<longleftrightarrow> from_chars w sg s = Inr (v, [])"
      using other Cons by (auto simp: utils_FromString_def Let_def split: sum.splits errc.splits if_splits)
    then show ?thesis using from_chars_all [of w sg s v] other Cons by (auto simp: numeral_value_def)
  qed
qed (simp add: utils_FromString_def numeral_value_def digits_def)

text \<open>
  \<open>FromString\<close> accepts exactly the decimal numerals, with or without a sign, whose value
  fits the type, and returns that value.  An unsigned type accepts a minus sign for zero only;
  white space, a second sign and a tail are refused.
\<close>

theorem from_string_accepts:
  "utils_FromString w sg s = Inr v \<longleftrightarrow> numeral_value s = Some v \<and> in_int w sg v"
  by (rule FromString_numeral)

end
