(* ===== verification/Tracing_Manager.thy ===== *)
theory Tracing_Manager
  imports Http_Request Hex_Codec
begin

section \<open>The tracing manager\<close>

text \<open>
  \<open>core/src/tracing/manager.cpp\<close> with \<open>universal/src/tracing/opentelemetry.cpp\<close> and the parts of
  \<open>span.cpp\<close> it uses: which headers of a request give a span its ids, and which headers the span
  writes into the response.  The random numbers behind fresh ids and the decision whether the span
  is logged are inputs; the tags of a span and the logging are left out.  The two variables that
  tasks inherit are the fields of \<open>TracingHeaders\<close>.
\<close>

datatype Format = kYandexTaxi | kYandex | kOpenTelemetry | kB3Alternative

text \<open>\<open>utils::Flags<Format>\<close> is a set of formats.\<close>

definition kAllFormatsOrdered :: "Format list" where
  "kAllFormatsOrdered = [kOpenTelemetry, kB3Alternative, kYandexTaxi, kYandex]"

definition FormatFromString :: "string \<Rightarrow> Format result" where
  "FormatFromString format =
     (if format = ''b3-alternative'' then Inr kB3Alternative
      else if format = ''opentelemetry'' then Inr kOpenTelemetry
      else if format = ''taxi'' then Inr kYandexTaxi
      else if format = ''yandex'' then Inr kYandex
      else Inl (RuntimeError (''Unknown tracing format '' @ format)))"

subsection \<open>Spans\<close>

record SpanImpl =
  GetTraceId :: string
  GetSpanId :: string
  GetParentId :: string
  GetLink :: string
  GetParentLink :: string
  ShouldLog :: bool

text \<open>\<open>GenerateId\<close> turns chunks of four random bytes into hexadecimal digits.\<close>

fun GenerateId :: "nat \<Rightarrow> string list \<Rightarrow> string \<times> string list" where
  "GenerateId 0 rnd = ([], rnd)"
| "GenerateId (Suc chunks) [] = ([], [])"
| "GenerateId (Suc chunks) (random_value # rnd) =
     (let (id, rnd') = GenerateId chunks rnd in (ToHex random_value @ id, rnd'))"

definition kTraceIdSize :: nat where "kTraceIdSize = 32"
definition kSpanIdSize :: nat where "kSpanIdSize = 16"
definition kHexChunkSize :: nat where "kHexChunkSize = LengthInHexForm 4"

text \<open>A span without a parent, as the task of a request starts it.\<close>

definition new_span :: "string list \<Rightarrow> bool \<Rightarrow> SpanImpl" where
  "new_span rnd should_log =
     (let (trace_id, rnd) = GenerateId (kTraceIdSize div kHexChunkSize) rnd;
          (span_id, rnd) = GenerateId (kSpanIdSize div kHexChunkSize) rnd;
          (link, rnd) = GenerateId (kTraceIdSize div kHexChunkSize) rnd
      in \<lparr>GetTraceId = trace_id, GetSpanId = span_id, GetParentId = [], GetLink = link, GetParentLink = [],
          ShouldLog = should_log\<rparr>)"

definition GetSpanIdForChildLogs :: "SpanImpl \<Rightarrow> string option" where
  "GetSpanIdForChildLogs span =
     (if ShouldLog span then Some (GetSpanId span)
      else if GetParentId span \<noteq> [] then Some (GetParentId span)
      else None)"

subsection \<open>OpenTelemetry\<close>

record TraceParentDataView =
  tp_version :: string
  tp_trace_id :: string
  tp_span_id :: string
  tp_trace_flags :: string

definition kTraceParentSize :: nat where "kTraceParentSize = 55"
definition kVersionSize :: nat where "kVersionSize = 2"
definition kTraceFlagsSize :: nat where "kTraceFlagsSize = 2"

text \<open>One turn of the loop: a dash, then \<open>n\<close> hexadecimal digits; the field and the rest.\<close>

definition extract_field :: "nat \<Rightarrow> string \<Rightarrow> string + string \<times> string" where
  "extract_field n trace_parent =
     (if hd trace_parent \<noteq> CHR ''-'' then Inl ''One of the OpenTelemetry header fields has invalid size''
      else
        let unchecked_field = take n (tl trace_parent);
            trace_parent = drop (n + 1) trace_parent
        in if \<not> IsHexData unchecked_field then
             Inl (if CHR ''-'' \<notin> set unchecked_field then ''One of the OpenTelemetry header fields is not hex data''
                  else ''One of the OpenTelemetry header fields has invalid size'')
           else Inr (unchecked_field, trace_parent))"

definition ExtractTraceParentDataView :: "string \<Rightarrow> string + TraceParentDataView" where
  "ExtractTraceParentDataView trace_parent =
     (if length trace_parent \<noteq> kTraceParentSize then Inl ''Invalid OpenTelemetry header size''
      else if take kVersionSize trace_parent \<noteq> ''00'' \<and> take kVersionSize trace_parent \<noteq> ''01'' then
        Inl ''Invalid version in the OpenTelemetry header''
      else
        case extract_field kTraceIdSize (drop kVersionSize trace_parent) of Inl e \<Rightarrow> Inl e | Inr (trace, rest) \<Rightarrow>
        (case extract_field kSpanIdSize rest of Inl e \<Rightarrow> Inl e | Inr (span, rest) \<Rightarrow>
        (case extract_field kTraceFlagsSize rest of Inl e \<Rightarrow> Inl e | Inr (flags, rest) \<Rightarrow>
           Inr \<lparr>tp_version = take kVersionSize trace_parent, tp_trace_id = trace, tp_span_id = span, tp_trace_flags = flags\<rparr>)))"

definition BuildTraceParentHeader :: "string \<Rightarrow> string \<Rightarrow> string \<Rightarrow> string + string" where
  "BuildTraceParentHeader trace span flags =
     (if length trace \<noteq> kTraceIdSize then Inl ''Invalid trace_id size''
      else if \<not> IsHexData trace then Inl ''Invalid trace_id value''
      else if length span \<noteq> kSpanIdSize then Inl ''Invalid span_id size''
      else if \<not> IsHexData span then Inl ''Invalid span_id value''
      else if length flags \<noteq> kTraceFlagsSize then Inl ''Invalid trace_flags size''
      else if \<not> IsHexData flags then Inl ''Invalid trace_flags value''
      else Inr (''00-'' @ trace @ ''-'' @ span @ ''-'' @ flags))"

subsection \<open>From a request to a span\<close>

text \<open>The variables \<open>kOtelTracingHeadersInheritedData\<close> (state and flags) and \<open>kB3TracingSampledInheritedData\<close>.\<close>

record TracingHeaders =
  otel_data :: "(string \<times> string) option"
  b3_sampled :: "string option"

type_synonym span_builder = "SpanImpl \<times> TracingHeaders"

definition kDefaultOtelTraceFlags :: string where "kDefaultOtelTraceFlags = ''01''"

definition B3TryFillSpanBuilderFromRequest :: "HttpRequest \<Rightarrow> span_builder \<Rightarrow> bool \<times> span_builder" where
  "B3TryFillSpanBuilderFromRequest request = (\<lambda>(span, vars).
     let trace_id = Request_GetHeader request ''X-B3-TraceId'' in
     if trace_id = [] then (False, span, vars)
     else
       let sampled = Request_GetHeader request ''X-B3-Sampled'';
           vars = vars\<lparr>b3_sampled := Some sampled\<rparr>
       in if sampled = [] then (False, span, vars)
          else (True, span\<lparr>GetTraceId := trace_id, GetParentId := Request_GetHeader request ''X-B3-SpanId''\<rparr>, vars))"

definition OpenTelemetryTryFillSpanBuilderFromRequest :: "HttpRequest \<Rightarrow> span_builder \<Rightarrow> bool \<times> span_builder" where
  "OpenTelemetryTryFillSpanBuilderFromRequest request = (\<lambda>(span, vars).
     let traceparent = Request_GetHeader request ''traceparent'' in
     if traceparent = [] then (False, span, vars)
     else
       case ExtractTraceParentDataView traceparent of
         Inl _ \<Rightarrow> (False, span, vars)
       | Inr data \<Rightarrow>
           let span = span\<lparr>GetTraceId := tp_trace_id data, GetParentId := tp_span_id data\<rparr>;
               flags = (if tp_trace_flags data = [] then kDefaultOtelTraceFlags else tp_trace_flags data);
               tracestate = Request_GetHeader request ''tracestate''
           in (True, span, vars\<lparr>otel_data := Some (tracestate, flags)\<rparr>))"

definition YandexTaxiTryFillSpanBuilderFromRequest :: "HttpRequest \<Rightarrow> span_builder \<Rightarrow> bool \<times> span_builder" where
  "YandexTaxiTryFillSpanBuilderFromRequest request = (\<lambda>(span, vars).
     let trace_id = Request_GetHeader request ''X-YaTraceId'' in
     if trace_id = [] then (False, span, vars)
     else
       let span = span\<lparr>GetTraceId := trace_id, GetParentId := Request_GetHeader request ''X-YaSpanId''\<rparr>;
           parent_link = Request_GetHeader request ''X-YaRequestId''
       in (True, if parent_link \<noteq> [] then span\<lparr>GetParentLink := parent_link\<rparr> else span, vars))"

definition YandexTryFillSpanBuilderFromRequest :: "HttpRequest \<Rightarrow> span_builder \<Rightarrow> bool \<times> span_builder" where
  "YandexTryFillSpanBuilderFromRequest request = (\<lambda>(span, vars).
     let trace_id = Request_GetHeader request ''X-RequestId'' in
     if trace_id = [] then (False, span, vars) else (True, span\<lparr>GetTraceId := trace_id\<rparr>, vars))"

fun TryFillSpanBuilderFromRequest :: "Format \<Rightarrow> HttpRequest \<Rightarrow> span_builder \<Rightarrow> bool \<times> span_builder" where
  "TryFillSpanBuilderFromRequest kYandexTaxi r = YandexTaxiTryFillSpanBuilderFromRequest r"
| "TryFillSpanBuilderFromRequest kYandex r = YandexTryFillSpanBuilderFromRequest r"
| "TryFillSpanBuilderFromRequest kOpenTelemetry r = OpenTelemetryTryFillSpanBuilderFromRequest r"
| "TryFillSpanBuilderFromRequest kB3Alternative r = B3TryFillSpanBuilderFromRequest r"

text \<open>
  The formats are tried in the reverse order, every one of them, so that the first of the list has
  the last word.
\<close>

definition Generic_TryFillSpanBuilderFromRequest :: "Format set \<Rightarrow> HttpRequest \<Rightarrow> span_builder \<Rightarrow> bool \<times> span_builder" where
  "Generic_TryFillSpanBuilderFromRequest in_request_response request builder =
     foldl (\<lambda>(success, builder) format.
              if format \<in> in_request_response then
                (let (ok, builder) = TryFillSpanBuilderFromRequest format request builder in (success \<or> ok, builder))
              else (success, builder))
       (False, builder) (rev kAllFormatsOrdered)"

subsection \<open>From a span to the headers of the response\<close>

text \<open>Each function gives the calls of \<open>SetHeader\<close> it makes, in their order.\<close>

definition B3FillWithTracingContext :: "span_builder \<Rightarrow> (string \<times> string) list" where
  "B3FillWithTracingContext = (\<lambda>(span, vars).
     case GetSpanIdForChildLogs span of
       None \<Rightarrow> []
     | Some span_id \<Rightarrow>
         [(''X-B3-TraceId'', GetTraceId span), (''X-B3-SpanId'', span_id), (''X-B3-ParentSpanId'', GetParentId span),
          (''X-B3-Sampled'',
           case b3_sampled vars of Some sampled \<Rightarrow> if sampled \<noteq> [] then sampled else ''1'' | None \<Rightarrow> ''1'')])"

definition OpenTelemetryFillWithTracingContext :: "span_builder \<Rightarrow> (string \<times> string) list" where
  "OpenTelemetryFillWithTracingContext = (\<lambda>(span, vars).
     let flags = (case otel_data vars of Some (_, flags) \<Rightarrow> flags | None \<Rightarrow> kDefaultOtelTraceFlags) in
     case GetSpanIdForChildLogs span of
       None \<Rightarrow> []
     | Some span_id \<Rightarrow>
         (case BuildTraceParentHeader (GetTraceId span) span_id flags of
            Inl _ \<Rightarrow> []
          | Inr traceparent \<Rightarrow>
              (''traceparent'', traceparent) #
              (case otel_data vars of
                 Some (tracestate, _) \<Rightarrow> if tracestate \<noteq> [] then [(''tracestate'', tracestate)] else []
               | None \<Rightarrow> [])))"

definition YandexTaxiFillWithTracingContext :: "span_builder \<Rightarrow> (string \<times> string) list" where
  "YandexTaxiFillWithTracingContext = (\<lambda>(span, vars).
     case GetSpanIdForChildLogs span of
       None \<Rightarrow> []
     | Some span_id \<Rightarrow>
         [(''X-YaRequestId'', GetLink span), (''X-YaTraceId'', GetTraceId span), (''X-YaSpanId'', span_id)])"

definition YandexFillWithTracingContext :: "span_builder \<Rightarrow> (string \<times> string) list" where
  "YandexFillWithTracingContext = (\<lambda>(span, vars). [(''X-RequestId'', GetTraceId span)])"

fun FillWithTracingContext :: "Format \<Rightarrow> span_builder \<Rightarrow> (string \<times> string) list" where
  "FillWithTracingContext kYandexTaxi = YandexTaxiFillWithTracingContext"
| "FillWithTracingContext kYandex = YandexFillWithTracingContext"
| "FillWithTracingContext kOpenTelemetry = OpenTelemetryFillWithTracingContext"
| "FillWithTracingContext kB3Alternative = B3FillWithTracingContext"

definition Generic_FillResponseWithTracingContext :: "Format set \<Rightarrow> span_builder \<Rightarrow> (string \<times> string) list" where
  "Generic_FillResponseWithTracingContext in_request_response span =
     concat (map (\<lambda>format. if format \<in> in_request_response then FillWithTracingContext format span else [])
       kAllFormatsOrdered)"

subsection \<open>What the headers are\<close>

definition tracing_header_names :: "string list" where
  "tracing_header_names =
     [''traceparent'', ''tracestate'', ''X-B3-TraceId'', ''X-B3-SpanId'', ''X-B3-ParentSpanId'', ''X-B3-Sampled'',
      ''X-YaRequestId'', ''X-YaTraceId'', ''X-YaSpanId'', ''X-RequestId'']"

lemma tracing_header_names_ok: "n \<in> set tracing_header_names \<Longrightarrow> CheckHeaderName n = Inr ()"
proof -
  have "list_all (\<lambda>n. CheckHeaderName n = Inr ()) tracing_header_names"
    by (simp add: tracing_header_names_def CheckHeaderName_def bad_name_char_def)
  then show "n \<in> set tracing_header_names \<Longrightarrow> CheckHeaderName n = Inr ()" by (simp add: list_all_iff)
qed

lemma FillWithTracingContext_names: "list_all (\<lambda>h. fst h \<in> set tracing_header_names) (FillWithTracingContext f b)"
proof -
  obtain span vars where b: "b = (span, vars)" by (cases b)
  show ?thesis
  proof (cases f)
    case kYandexTaxi
    then show ?thesis by (simp add: b YandexTaxiFillWithTracingContext_def tracing_header_names_def split: option.split)
  next
    case kYandex
    then show ?thesis by (simp add: b YandexFillWithTracingContext_def tracing_header_names_def)
  next
    case kOpenTelemetry
    then show ?thesis
      by (simp add: b OpenTelemetryFillWithTracingContext_def Let_def tracing_header_names_def split: option.split sum.split prod.split)
  next
    case kB3Alternative
    then show ?thesis by (simp add: b B3FillWithTracingContext_def tracing_header_names_def split: option.split)
  qed
qed

lemma Generic_Fill_names:
  assumes "h \<in> set (Generic_FillResponseWithTracingContext fs b)"
  shows "CheckHeaderName (fst h) = Inr ()"
proof -
  obtain f where "h \<in> set (FillWithTracingContext f b)"
    using assms by (auto simp: Generic_FillResponseWithTracingContext_def split: if_split_asm)
  then show ?thesis using FillWithTracingContext_names [of f b] tracing_header_names_ok by (auto simp: list_all_iff)
qed

lemma FillWithTracingContext_length:
  "length (FillWithTracingContext kOpenTelemetry b) \<le> 2" "length (FillWithTracingContext kB3Alternative b) \<le> 4"
  "length (FillWithTracingContext kYandexTaxi b) \<le> 3" "length (FillWithTracingContext kYandex b) \<le> 1"
proof -
  obtain span vars where b: "b = (span, vars)" by (cases b)
  show "length (FillWithTracingContext kOpenTelemetry b) \<le> 2"
    by (simp add: b OpenTelemetryFillWithTracingContext_def Let_def split: option.split sum.split prod.split)
  show "length (FillWithTracingContext kB3Alternative b) \<le> 4"
    by (simp add: b B3FillWithTracingContext_def split: option.split)
  show "length (FillWithTracingContext kYandexTaxi b) \<le> 3"
    by (simp add: b YandexTaxiFillWithTracingContext_def split: option.split)
  show "length (FillWithTracingContext kYandex b) \<le> 1"
    by (simp add: b YandexFillWithTracingContext_def)
qed

lemma Generic_Fill_length: "length (Generic_FillResponseWithTracingContext fs b) \<le> 10"
  using FillWithTracingContext_length [of b]
  by (simp add: Generic_FillResponseWithTracingContext_def kAllFormatsOrdered_def)

subsection \<open>Printing and parsing a trace parent\<close>

lemma extract_field_ok:
  "length f = n \<Longrightarrow> IsHexData f \<Longrightarrow> extract_field n (CHR ''-'' # f @ rest) = Inr (f, rest)"
  by (simp add: extract_field_def Let_def)

text \<open>What the manager writes into \<open>traceparent\<close> it reads back.\<close>

theorem traceparent_roundtrip:
  assumes "BuildTraceParentHeader t s f = Inr h"
  shows "ExtractTraceParentDataView h = Inr \<lparr>tp_version = ''00'', tp_trace_id = t, tp_span_id = s, tp_trace_flags = f\<rparr>"
proof -
  have lens: "length t = kTraceIdSize" "length s = kSpanIdSize" "length f = kTraceFlagsSize"
    and hex: "IsHexData t" "IsHexData s" "IsHexData f" and h: "h = ''00-'' @ t @ ''-'' @ s @ ''-'' @ f"
    using assms by (auto simp: BuildTraceParentHeader_def split: if_splits)
  have "length h = kTraceParentSize" using lens by (simp add: h kTraceParentSize_def kTraceIdSize_def kSpanIdSize_def kTraceFlagsSize_def)
  moreover have "take kVersionSize h = ''00''" "drop kVersionSize h = CHR ''-'' # t @ CHR ''-'' # s @ CHR ''-'' # f @ []"
    by (simp_all add: h kVersionSize_def)
  ultimately show ?thesis
    using extract_field_ok [OF lens(1) hex(1)] extract_field_ok [OF lens(2) hex(2)] extract_field_ok [OF lens(3) hex(3), of "[]"]
    by (simp add: ExtractTraceParentDataView_def)
qed

text \<open>
  A request whose \<open>traceparent\<close> is well formed keeps its trace id: every format that carries a
  trace id sends it back, and the \<open>traceparent\<close> of the response continues the one of the request.
\<close>

theorem trace_id_is_echoed:
  assumes "kOpenTelemetry \<in> fs" and "ExtractTraceParentDataView (Request_GetHeader r ''traceparent'') = Inr data"
  shows "fst (Generic_TryFillSpanBuilderFromRequest fs r b) \<and>
     GetTraceId (fst (snd (Generic_TryFillSpanBuilderFromRequest fs r b))) = tp_trace_id data"
proof -
  have "Request_GetHeader r ''traceparent'' \<noteq> []"
    using assms(2) by (auto simp: ExtractTraceParentDataView_def kTraceParentSize_def)
  then have "fst (OpenTelemetryTryFillSpanBuilderFromRequest r b') \<and>
      GetTraceId (fst (snd (OpenTelemetryTryFillSpanBuilderFromRequest r b'))) = tp_trace_id data" for b'
    using assms(2) by (cases b') (simp add: OpenTelemetryTryFillSpanBuilderFromRequest_def Let_def)
  moreover obtain ok :: bool and b' where "Generic_TryFillSpanBuilderFromRequest fs r b =
      (let (ok', b'') = OpenTelemetryTryFillSpanBuilderFromRequest r b' in (ok \<or> ok', b''))"
  proof -
    define step where "step = (\<lambda>(success, builder) format.
        if format \<in> fs then (let (ok, builder) = TryFillSpanBuilderFromRequest format r builder in (success \<or> ok, builder))
        else (success, builder))"
    obtain ok :: bool and b' where "foldl step (False, b) [kYandex, kYandexTaxi, kB3Alternative] = (ok, b')"
      by (cases "foldl step (False, b) [kYandex, kYandexTaxi, kB3Alternative]")
    then have "foldl step (False, b) ([kYandex, kYandexTaxi, kB3Alternative] @ [kOpenTelemetry]) =
        (let (ok', b'') = OpenTelemetryTryFillSpanBuilderFromRequest r b' in (ok \<or> ok', b''))"
      by (simp only: foldl_append) (simp add: step_def assms(1))
    then show thesis
      by (intro that [of b' ok]) (simp add: Generic_TryFillSpanBuilderFromRequest_def kAllFormatsOrdered_def step_def)
  qed
  ultimately show ?thesis by (simp add: split_beta Let_def)
qed

end
