(* ===== verification/Handler_Pipeline.thy ===== *)
theory Handler_Pipeline
  imports Services Token_Bucket Handler_Stats From_String Url_Codec Tracing_Manager
begin

section \<open>The middleware pipeline of a handler\<close>

text \<open>
  \<open>core/src/server/handlers/http_handler_base.cpp\<close> and the middlewares of
  \<open>core/src/server/middlewares/\<close> that every request passes: metrics, exceptions, tracing,
  accepted encodings, rate limit, baggage, authentication, decompression, deadline, and the
  handler itself at the end.  A middleware is a function from the rest of the pipeline to an
  action.  What the handler overrides, the decompressors, the authentication checkers, the
  formats the tracing manager is configured with, the random numbers behind the ids of a span, the
  clocks and the cancellation of the task are inputs, gathered in the record \<open>PipeEnv\<close>.  Logging
  is left out, and of the span of a request only what its headers need is kept.
\<close>

subsection \<open>Exceptions, deadlines, environment and state\<close>

text \<open>What can fly through the pipeline: a handler's own exception, any other \<open>std::exception\<close>, anything else.\<close>

datatype hexn = CustomHandler CustomHandlerException | StdException exn | NonStdException

type_synonym Deadline = int

definition kUnreachable :: Deadline where
  "kUnreachable = 2 ^ 63 - 1"

definition kPassed :: Deadline where
  "kPassed = - (2 ^ 63)"

definition IsReachable :: "Deadline \<Rightarrow> bool" where
  "IsReachable d \<longleftrightarrow> d \<noteq> kUnreachable"

definition IsReached :: "int \<Rightarrow> Deadline \<Rightarrow> bool" where
  "IsReached now d \<longleftrightarrow> IsReachable d \<and> (d = kPassed \<or> d \<le> now)"

definition IsSurelyReachedApprox :: "int \<Rightarrow> int \<Rightarrow> Deadline \<Rightarrow> bool" where
  "IsSurelyReachedApprox coarse_now resolution d \<longleftrightarrow> IsReachable d \<and> (d = kPassed \<or> d \<le> coarse_now - resolution)"

record FormattedErrorData =
  fed_external_body :: string
  fed_content_type :: "string option"

datatype AuthStatus = kTokenNotFound | kInternalCheckFailure | kInvalidToken | kAuthForbidden | kAuthOk

record AuthCheckResult =
  auth_status :: AuthStatus
  auth_ext_reason :: "string option"
  auth_code :: "HandlerErrorCode option"

datatype decompression_error = TooBigError | OtherDecompressionError

record 'db PipeEnv =
  pe_config :: HandlerConfig
  pe_handle_request :: "(hexn, 'db svc, string) eact"
  pe_handle_stream :: "(hexn, 'db svc, unit) eact"
  pe_parse_request_data :: "(hexn, 'db svc, unit) eact"
  pe_format_error :: "CustomHandlerException \<Rightarrow> FormattedErrorData"
  pe_need_check_auth :: bool
  pe_auth_checkers :: "(HttpRequest \<Rightarrow> hexn + AuthCheckResult) list"
  pe_gzip_decompress :: "string \<Rightarrow> nat \<Rightarrow> decompression_error + string"
  pe_zstd_decompress :: "string \<Rightarrow> nat \<Rightarrow> decompression_error + string"
  pe_tracing_formats :: "Format set"
  pe_span_random :: "string list"
  pe_span_should_log :: bool
  pe_try_make_baggage :: "string \<Rightarrow> string option"
  pe_hostname :: string
  pe_set_response_server_hostname :: bool
  pe_baggage_enabled :: bool
  pe_deadline_propagation_enabled :: bool
  pe_should_cancel :: bool
  pe_cancelled_by_deadline :: bool
  pe_deadline_signal :: bool
  pe_start_time :: int
  pe_rate_limit_time :: int
  pe_coarse_now :: int
  pe_coarse_resolution :: int
  pe_complete_time :: int

text \<open>
  The request with its response and the database, the state that the handler's middlewares
  keep between requests, and the data of this request that the middlewares share.
\<close>

record 'db Pst =
  p_svc :: "'db svc"
  p_rate_limit :: TokenBucket
  p_stats :: HttpHandlerStatistics
  p_inherited_deadline :: "Deadline option"
  p_cancelled_by_deadline :: bool
  p_baggage :: "string option"

type_synonym 'db pipe = "(hexn, 'db Pst, unit) eact"

definition on_svc :: "('e, 'db svc, 'a) eact \<Rightarrow> ('e, 'db Pst, 'a) eact" where
  "on_svc m s = (case m (p_svc s) of (r, v) \<Rightarrow> (r, s\<lparr>p_svc := v\<rparr>))"

abbreviation p_request :: "'db Pst \<Rightarrow> HttpRequest" where
  "p_request s \<equiv> svc_request (p_svc s)"

abbreviation p_response :: "'db Pst \<Rightarrow> HttpResponse" where
  "p_response s \<equiv> response (p_request s)"

abbreviation p_method :: "'db Pst \<Rightarrow> HttpMethod" where
  "p_method s \<equiv> req_method (p_request s)"

definition upd_request :: "(HttpRequest \<Rightarrow> HttpRequest) \<Rightarrow> 'db pipe" where
  "upd_request f = on_svc (act_modify (\<lambda>v. v\<lparr>svc_request := f (svc_request v)\<rparr>))"

definition upd_response :: "(HttpResponse \<Rightarrow> HttpResponse) \<Rightarrow> 'db pipe" where
  "upd_response f = upd_request (\<lambda>r. r\<lparr>response := f (response r)\<rparr>)"

definition put_status :: "StatusCode \<Rightarrow> 'db pipe" where
  "put_status status = upd_response (\<lambda>r. snd (SetStatus status r))"

definition put_data :: "string \<Rightarrow> 'db pipe" where
  "put_data data = upd_response (SetData data)"

definition put_header :: "string \<times> string \<Rightarrow> 'db pipe" where
  "put_header h s =
     (case SetHeader (fst h) (snd h) (p_response s) of
        Inl e \<Rightarrow> (Inl (StdException e), s)
      | Inr (_, r) \<Rightarrow> upd_response (\<lambda>_. r) s)"

definition upd_stats :: "HttpMethod \<Rightarrow> (HttpHandlerMethodStatistics \<Rightarrow> HttpHandlerMethodStatistics) \<Rightarrow> 'db pipe" where
  "upd_stats m f = act_modify (\<lambda>s. s\<lparr>p_stats := ForMethod m f (p_stats s)\<rparr>)"

text \<open>A scope guard: the second action runs whether the first one throws or not.\<close>

definition act_finally :: "('e, 's, 'a) eact \<Rightarrow> ('s \<Rightarrow> 's) \<Rightarrow> ('e, 's, 'a) eact" where
  "act_finally m f s = (case m s of (r, s') \<Rightarrow> (r, f s'))"

subsection \<open>Error responses\<close>

definition plain_exception :: "HandlerErrorCode \<Rightarrow> CustomHandlerException" where
  "plain_exception code =
     \<lparr>che_code = code, che_service_code = [], che_http_status = None, che_external_body = [], che_body_formatted = False,
      che_extra_headers = []\<rparr>"

definition GetFormattedExternalErrorBody :: "CustomHandlerException \<Rightarrow> FormattedErrorData" where
  "GetFormattedExternalErrorBody exc = \<lparr>fed_external_body = che_external_body exc, fed_content_type = None\<rparr>"

definition SetFormattedErrorResponse :: "FormattedErrorData \<Rightarrow> 'db pipe" where
  "SetFormattedErrorResponse data =
     act_then (put_data (fed_external_body data))
       (case fed_content_type data of None \<Rightarrow> act_return () | Some t \<Rightarrow> put_header (''Content-Type'', t))"

definition HandleCustomHandlerException :: "'db PipeEnv \<Rightarrow> CustomHandlerException \<Rightarrow> 'db pipe" where
  "HandleCustomHandlerException env ex =
     act_then (put_status (GetHttpStatus_exception ex))
    (act_then
       (if che_body_formatted ex then put_data (che_external_body ex)
        else SetFormattedErrorResponse (pe_format_error env ex))
       (act_each put_header (che_extra_headers ex)))"

definition HandleUnknownException :: "'db PipeEnv \<Rightarrow> 'db pipe" where
  "HandleUnknownException env =
     (if pe_should_cancel env then put_status HttpStatus_kNginxClientClosedRequest
      else act_then (upd_request MarkAsInternalServerError)
             (SetFormattedErrorResponse (pe_format_error env (plain_exception E_kServerSideError))))"

text \<open>The response has been filled already; formatting it may fail, which is only logged.\<close>

definition ReportMalformedRequest :: "'db PipeEnv \<Rightarrow> 'db pipe" where
  "ReportMalformedRequest env s =
     act_try
       (SetFormattedErrorResponse
          (pe_format_error env
             ((plain_exception E_kRequestParseError)
               \<lparr>che_http_status := Some (resp_status (p_response s)), che_external_body := resp_data (p_response s)\<rparr>)))
       (\<lambda>e. case e of NonStdException \<Rightarrow> act_throw e | _ \<Rightarrow> act_return ()) s"

definition SetResponseServerHostname :: "'db PipeEnv \<Rightarrow> 'db pipe" where
  "SetResponseServerHostname env =
     (if pe_set_response_server_hostname env then put_header (''X-YaTaxi-Server-Hostname'', pe_hostname env) else act_return ())"

definition SetThrottleReason :: "'db PipeEnv \<Rightarrow> string \<Rightarrow> 'db pipe" where
  "SetThrottleReason env http_header_reason =
     act_then (put_header (''X-YaTaxi-Ratelimited-By'', pe_hostname env))
       (put_header (''X-YaTaxi-Ratelimit-Reason'', http_header_reason))"

subsection \<open>Exceptions and metrics\<close>

definition ExceptionsHandling :: "'db PipeEnv \<Rightarrow> 'db pipe \<Rightarrow> 'db pipe" where
  "ExceptionsHandling env Next =
     act_try Next
       (\<lambda>e. case e of
              CustomHandler ex \<Rightarrow> HandleCustomHandlerException env ex
            | StdException _ \<Rightarrow> HandleUnknownException env
            | NonStdException \<Rightarrow> act_throw e)"

definition UnknownExceptionsHandling :: "'db PipeEnv \<Rightarrow> 'db pipe \<Rightarrow> 'db pipe" where
  "UnknownExceptionsHandling env Next =
     act_try Next
       (\<lambda>e. case e of
              NonStdException \<Rightarrow> put_status HttpStatus_kNginxClientClosedRequest
            | _ \<Rightarrow> HandleUnknownException env)"

text \<open>The destructor of \<open>HttpHandlerStatisticsScope\<close>, after the guard that asks for cancellation.\<close>

definition close_statistics_scope :: "HttpMethod \<Rightarrow> 'db Pst \<Rightarrow> 'db Pst" where
  "close_statistics_scope m s =
     (let entry = \<lparr>entry_code = resp_status (p_response s),
                   entry_deadline_reachable =
                     (case p_inherited_deadline s of None \<Rightarrow> False | Some d \<Rightarrow> IsReachable d),
                   entry_cancelled_by_deadline = p_cancelled_by_deadline s\<rparr>
      in s\<lparr>p_stats := ForMethod m (DecrementInFlight \<circ> Account entry) (p_stats s)\<rparr>)"

definition HandlerMetrics :: "'db pipe \<Rightarrow> 'db pipe" where
  "HandlerMetrics Next s =
     (let m = p_method s
      in act_then (upd_stats m IncrementInFlight) (act_finally Next (close_statistics_scope m)) s)"

subsection \<open>Headers that every response carries\<close>

text \<open>
  \<open>MakeSpan\<close>: the task of a request starts without a span and without the variables that tasks
  inherit.  The headers are those of the generic manager, which is the default one.
\<close>

definition MakeSpan :: "'db PipeEnv \<Rightarrow> HttpRequest \<Rightarrow> span_builder" where
  "MakeSpan env r =
     snd (Generic_TryFillSpanBuilderFromRequest (pe_tracing_formats env) r
       (new_span (pe_span_random env) (pe_span_should_log env), \<lparr>otel_data = None, b3_sampled = None\<rparr>))"

definition span_headers :: "'db PipeEnv \<Rightarrow> HttpRequest \<Rightarrow> (string \<times> string) list" where
  "span_headers env r = Generic_FillResponseWithTracingContext (pe_tracing_formats env) (MakeSpan env r)"

definition FillResponseWithTracingContext :: "'db PipeEnv \<Rightarrow> 'db pipe" where
  "FillResponseWithTracingContext env s =
     (if hc_set_tracing_headers (pe_config env) then act_each put_header (span_headers env (p_request s)) s
      else (Inr (), s))"

definition Tracing :: "'db PipeEnv \<Rightarrow> 'db pipe \<Rightarrow> 'db pipe" where
  "Tracing env Next = act_then (FillResponseWithTracingContext env) Next"

definition SetResponseAcceptEncoding :: "'db PipeEnv \<Rightarrow> 'db pipe" where
  "SetResponseAcceptEncoding env s =
     (if \<not> hc_decompress_request (pe_config env) then (Inr (), s)
      else if \<not> HasHeader ''Accept-Encoding'' (p_response s)
        then put_header (''Accept-Encoding'', ''gzip, zstd, identity'') s
      else (Inr (), s))"

definition SetAcceptEncoding :: "'db PipeEnv \<Rightarrow> 'db pipe \<Rightarrow> 'db pipe" where
  "SetAcceptEncoding env Next = act_then (SetResponseAcceptEncoding env) Next"

definition SetUpBaggage :: "'db PipeEnv \<Rightarrow> 'db pipe" where
  "SetUpBaggage env =
     act_modify (\<lambda>s.
       let baggage_header = Request_GetHeader (p_request s) ''baggage'' in
       if pe_baggage_enabled env \<and> baggage_header \<noteq> [] then
         (case pe_try_make_baggage env baggage_header of None \<Rightarrow> s | Some b \<Rightarrow> s\<lparr>p_baggage := Some b\<rparr>)
       else s)"

definition Baggage :: "'db PipeEnv \<Rightarrow> 'db pipe \<Rightarrow> 'db pipe" where
  "Baggage env Next = act_then (SetUpBaggage env) Next"

subsection \<open>Rate limit\<close>

definition kSecond :: int where
  "kSecond = 10 ^ 9"

definition limited_bucket :: "nat \<Rightarrow> TokenBucket \<Rightarrow> TokenBucket result" where
  "limited_bucket rps b = SetRefillPolicy \<lparr>amount = 1, interval = kSecond div int rps\<rparr> (SetMaxSize rps b)"

definition make_rate_limit :: "HandlerConfig \<Rightarrow> TokenBucket result" where
  "make_rate_limit cfg =
     rbind MakeUnbounded (\<lambda>b.
       case hc_max_requests_per_second cfg of None \<Rightarrow> Inr b | Some max_rps \<Rightarrow> limited_bucket max_rps b)"

definition FailProcessingAndSetResponse :: "'db PipeEnv \<Rightarrow> 'db pipe" where
  "FailProcessingAndSetResponse env = HandleCustomHandlerException env (plain_exception E_kTooManyRequests)"

definition CheckRateLimit :: "'db PipeEnv \<Rightarrow> (hexn, 'db Pst, bool) eact" where
  "CheckRateLimit env s0 =
     (let m = p_method s0;
          (success, bucket) = Obtain (pe_rate_limit_time env) (p_rate_limit s0);
          s = s0\<lparr>p_rate_limit := bucket\<rparr>
      in if \<not> success then
           act_then (SetThrottleReason env ''global-ratelimit'')
          (act_then (upd_stats m IncrementRateLimitReached)
          (act_then (FailProcessingAndSetResponse env) (act_return False))) s
         else
           (let requests_in_flight = unat (GetInFlight (p_stats s m)) in
            case hc_max_requests_in_flight (pe_config env) of
              Some max_requests_in_flight \<Rightarrow>
                if max_requests_in_flight < requests_in_flight then
                  act_then (SetThrottleReason env ''max-requests-in-flight'')
                 (act_then (upd_stats m IncrementTooManyRequestsInFlight)
                 (act_then (FailProcessingAndSetResponse env) (act_return False))) s
                else (Inr True, s)
            | None \<Rightarrow> (Inr True, s)))"

definition RateLimit :: "'db PipeEnv \<Rightarrow> 'db pipe \<Rightarrow> 'db pipe" where
  "RateLimit env Next = act_bind (CheckRateLimit env) (\<lambda>ok. if ok then Next else act_return ())"

subsection \<open>Authentication\<close>

definition RaiseForStatus :: "AuthCheckResult \<Rightarrow> hexn + unit" where
  "RaiseForStatus auth_check =
     (let ext_body = (case auth_ext_reason auth_check of None \<Rightarrow> [] | Some b \<Rightarrow> b);
          raise = (\<lambda>code. Inl (CustomHandler ((plain_exception code)\<lparr>che_external_body := ext_body\<rparr>)))
      in case auth_code auth_check of
           Some code \<Rightarrow> raise code
         | None \<Rightarrow>
             (case auth_status auth_check of
                kTokenNotFound \<Rightarrow> raise E_kClientError
              | kInvalidToken \<Rightarrow> raise E_kUnauthorized
              | kAuthForbidden \<Rightarrow> raise E_kForbidden
              | kInternalCheckFailure \<Rightarrow> raise E_kServerSideError
              | kAuthOk \<Rightarrow> Inr ()))"

text \<open>The loop over the checkers: the first that finds a token decides; else the first result does.\<close>

fun auth_loop :: "(HttpRequest \<Rightarrow> hexn + AuthCheckResult) list \<Rightarrow> HttpRequest \<Rightarrow> AuthCheckResult option \<Rightarrow> hexn + unit" where
  "auth_loop [] r check_result_first = (case check_result_first of None \<Rightarrow> Inr () | Some c \<Rightarrow> RaiseForStatus c)"
| "auth_loop (checker # checkers) r check_result_first =
     (case checker r of
        Inl e \<Rightarrow> Inl e
      | Inr check_result \<Rightarrow>
          if auth_status check_result \<noteq> kTokenNotFound then RaiseForStatus check_result
          else auth_loop checkers r
                 (case check_result_first of None \<Rightarrow> Some check_result | Some c \<Rightarrow> Some c))"

definition auth_CheckAuth :: "(HttpRequest \<Rightarrow> hexn + AuthCheckResult) list \<Rightarrow> HttpRequest \<Rightarrow> hexn + unit" where
  "auth_CheckAuth checkers r = (if checkers = [] then Inr () else auth_loop checkers r None)"

definition CheckAuth :: "'db PipeEnv \<Rightarrow> (hexn, 'db Pst, bool) eact" where
  "CheckAuth env s =
     (if \<not> pe_need_check_auth env then (Inr True, s)
      else
        (case auth_CheckAuth (pe_auth_checkers env) (p_request s) of
           Inr _ \<Rightarrow> (Inr True, s)
         | Inl (CustomHandler ex) \<Rightarrow> act_then (HandleCustomHandlerException env ex) (act_return False) s
         | Inl (StdException _) \<Rightarrow> act_then (HandleUnknownException env) (act_return False) s
         | Inl NonStdException \<Rightarrow> (Inl NonStdException, s)))"

definition Auth :: "'db PipeEnv \<Rightarrow> 'db pipe \<Rightarrow> 'db pipe" where
  "Auth env Next = act_bind (CheckAuth env) (\<lambda>ok. if ok then Next else act_return ())"

subsection \<open>Decompression\<close>

definition ParseArgsFromBody :: "(exn, HttpRequest, unit) eact" where
  "ParseArgsFromBody r =
     (case ParseAndConsumeArgs (request_body r) of
        (calls, err) \<Rightarrow> (case err of None \<Rightarrow> Inr () | Some e \<Rightarrow> Inl e, fold AddRequestArg calls r))"

text \<open>The request is answered here and does not go on.\<close>

definition refuse :: "'db PipeEnv \<Rightarrow> HandlerErrorCode \<Rightarrow> (hexn, 'db Pst, bool) eact" where
  "refuse env code = act_then (HandleCustomHandlerException env (plain_exception code)) (act_return False)"

definition parse_decompressed_args :: "'db PipeEnv \<Rightarrow> (hexn, 'db Pst, bool) eact" where
  "parse_decompressed_args env s =
     (if parse_args_from_body (hc_request_config (pe_config env)) then
        (case ParseArgsFromBody (p_request s) of
           (Inl _, r) \<Rightarrow> act_then (upd_request (\<lambda>_. r)) (refuse env E_kRequestParseError) s
         | (Inr _, r) \<Rightarrow> act_then (upd_request (\<lambda>_. r)) (act_return True) s)
      else (Inr True, s))"

definition decompress_with :: "'db PipeEnv \<Rightarrow> (string \<Rightarrow> nat \<Rightarrow> decompression_error + string) \<Rightarrow> (hexn, 'db Pst, bool) eact" where
  "decompress_with env f s =
     (case f (request_body (p_request s)) (max_request_size (hc_request_config (pe_config env))) of
        Inl TooBigError \<Rightarrow> refuse env E_kPayloadTooLarge s
      | Inl OtherDecompressionError \<Rightarrow> refuse env E_kRequestParseError s
      | Inr body \<Rightarrow> act_then (upd_request (SetRequestBody body)) (parse_decompressed_args env) s)"

definition DecompressRequestBody :: "'db PipeEnv \<Rightarrow> (hexn, 'db Pst, bool) eact" where
  "DecompressRequestBody env s =
     (let content_encoding = Request_GetHeader (p_request s) ''Content-Encoding'' in
      if \<not> hc_decompress_request (pe_config env) \<or> \<not> IsBodyCompressed (p_request s) then (Inr True, s)
      else act_finally
             (if content_encoding = ''gzip'' then decompress_with env (pe_gzip_decompress env)
              else if content_encoding = ''zstd'' then decompress_with env (pe_zstd_decompress env)
              else refuse env E_kUnsupportedMediaType)
             (\<lambda>s. snd (upd_request (RemoveHeader ''Content-Encoding'') s)) s)"

definition Decompression :: "'db PipeEnv \<Rightarrow> 'db pipe \<Rightarrow> 'db pipe" where
  "Decompression env Next = act_bind (DecompressRequestBody env) (\<lambda>ok. if ok then Next else act_return ())"

subsection \<open>Deadline propagation\<close>

text \<open>
  Milliseconds.  The header is read as an unsigned 64-bit number, which becomes the signed
  64-bit count of \<open>std::chrono::milliseconds\<close>; \<open>kMaxTimeout\<close> is ten years.
\<close>

definition kMaxTimeout :: int where
  "kMaxTimeout = 24 * 365 * 10 * 3600 * 1000"

definition to_signed64 :: "int \<Rightarrow> int" where
  "to_signed64 v = (v + 2 ^ 63) mod 2 ^ 64 - 2 ^ 63"

definition ParseTimeout :: "HttpRequest \<Rightarrow> int option" where
  "ParseTimeout r =
     (let timeout_ms_str = Request_GetHeader r ''X-YaTaxi-Client-TimeoutMs'' in
      if timeout_ms_str = [] then None
      else (case utils_FromString 64 False timeout_ms_str of
              Inl _ \<Rightarrow> None
            | Inr v \<Rightarrow> (let timeout = to_signed64 v in if kMaxTimeout \<le> timeout then None else Some timeout)))"

definition HandleDeadlineExpired :: "'db PipeEnv \<Rightarrow> 'db pipe" where
  "HandleDeadlineExpired env =
     act_then (act_modify (\<lambda>s. s\<lparr>p_cancelled_by_deadline := True\<rparr>))
    (let status_code = hc_deadline_expired_status_code (pe_config env) in
     act_then (put_status status_code)
    (act_then
       (SetFormattedErrorResponse
          (pe_format_error env
             \<lparr>che_code = E_kClientError, che_service_code = ''deadline_expired'', che_http_status = Some status_code,
              che_external_body = ''Deadline expired'', che_body_formatted = False, che_extra_headers = []\<rparr>))
       (put_header (''X-YaTaxi-Deadline-Expired'', ''1''))))"

text \<open>
  A millisecond is a million of the nanoseconds of \<open>steady_clock\<close>.  Both the product and the sum
  are signed 64-bit numbers; where they overflow, which the check of \<open>ParseTimeout\<close> does not rule
  out for negative timeouts, they are taken to wrap around.
\<close>

definition request_deadline :: "'db PipeEnv \<Rightarrow> int \<Rightarrow> Deadline" where
  "request_deadline env timeout = to_signed64 (pe_start_time env + to_signed64 (timeout * 10 ^ 6))"

definition SetupInheritedDeadline :: "'db PipeEnv \<Rightarrow> HttpRequest \<Rightarrow> Deadline" where
  "SetupInheritedDeadline env r =
     (if hc_deadline_propagation_enabled (pe_config env) \<and> pe_deadline_propagation_enabled env then
        (case ParseTimeout r of None \<Rightarrow> kUnreachable | Some timeout \<Rightarrow> request_deadline env timeout)
      else kUnreachable)"

text \<open>
  The guard of \<open>SetUpInheritedData\<close> stores the inherited data on every way out, also when the
  deadline has passed already.
\<close>

definition SetUpInheritedData :: "'db PipeEnv \<Rightarrow> 'db pipe" where
  "SetUpInheritedData env s =
     (let deadline = SetupInheritedDeadline env (p_request s)
      in act_finally
           (if IsSurelyReachedApprox (pe_coarse_now env) (pe_coarse_resolution env) deadline then HandleDeadlineExpired env
            else act_return ())
           (\<lambda>s. s\<lparr>p_inherited_deadline := Some deadline\<rparr>) s)"

definition CompleteDeadlinePropagation :: "'db PipeEnv \<Rightarrow> 'db pipe" where
  "CompleteDeadlinePropagation env s =
     (case p_inherited_deadline s of
        None \<Rightarrow> (Inr (), s)
      | Some deadline \<Rightarrow>
          if \<not> IsReachable deadline then (Inr (), s)
          else (let cancelled_by_deadline =
                      (pe_cancelled_by_deadline env \<or> pe_deadline_signal env \<or> IsReached (pe_complete_time env) deadline)
                in if cancelled_by_deadline \<and> \<not> p_cancelled_by_deadline s then HandleDeadlineExpired env s
                   else (Inr (), s)))"

definition DeadlinePropagation :: "'db PipeEnv \<Rightarrow> 'db pipe \<Rightarrow> 'db pipe" where
  "DeadlinePropagation env Next =
     act_then (SetUpInheritedData env)
       (\<lambda>s. if p_cancelled_by_deadline s then (Inr (), s)
            else act_then
                   (act_try Next
                      (\<lambda>e. case e of
                             NonStdException \<Rightarrow> act_throw e
                           | _ \<Rightarrow> act_then (CompleteDeadlinePropagation env)
                                  (\<lambda>s. if p_cancelled_by_deadline s then (Inr (), s) else (Inl e, s))))
                   (CompleteDeadlinePropagation env) s)"

subsection \<open>The handler at the end of the pipeline\<close>

text \<open>
  \<open>HandleRequest\<close> forwards to \<open>HandleRequestThrow\<close>, which throws only exceptions derived from
  \<open>std::exception\<close> in the services; without an override the streamed variant throws.
\<close>

definition HandleRequest :: "('db, string) svc_act \<Rightarrow> (hexn, 'db svc, string) eact" where
  "HandleRequest h v =
     (case h v of (Inl e, v') \<Rightarrow> (Inl (StdException e), v') | (Inr body, v') \<Rightarrow> (Inr body, v'))"

definition HandleStreamRequest :: "(hexn, 'db svc, unit) eact" where
  "HandleStreamRequest =
     act_throw (StdException (RuntimeError
       (''stream HandleStreamRequest() is executed, but the handler doesn'' @ [CHR 0x27] @ ''t override HandleStreamRequest().'')))"

definition HandleHttpRequest :: "'db PipeEnv \<Rightarrow> 'db pipe" where
  "HandleHttpRequest env =
     act_then (upd_response SetSystemHeadersEnd)
       (if hc_response_body_stream (pe_config env) then on_svc (pe_handle_stream env)
        else act_bind (on_svc (pe_handle_request env)) put_data)"

definition HandlerAdapter :: "'db PipeEnv \<Rightarrow> 'db pipe" where
  "HandlerAdapter env = act_then (on_svc (pe_parse_request_data env)) (HandleHttpRequest env)"

subsection \<open>Building and running the pipeline\<close>

type_synonym MiddlewaresList = "string list"

definition DefaultPipeline :: MiddlewaresList where
  "DefaultPipeline =
     [''userver-handler-metrics-middleware'', ''userver-unknown-exceptions-handling-middleware'',
      ''userver-tracing-middleware'', ''userver-set-accept-encoding-middleware'', ''userver-rate-limit-middleware'',
      ''userver-baggage-middleware'', ''userver-auth-middleware'', ''userver-decompression-middleware'',
      ''userver-exceptions-handling-middleware'', ''userver-deadline-propagation-middleware'']"

text \<open>The middleware a factory of the default component list creates for a handler.\<close>

definition builtin_middleware :: "'db PipeEnv \<Rightarrow> string \<Rightarrow> ('db pipe \<Rightarrow> 'db pipe) option" where
  "builtin_middleware env name =
     map_of
       [(''userver-handler-metrics-middleware'', HandlerMetrics),
        (''userver-unknown-exceptions-handling-middleware'', UnknownExceptionsHandling env),
        (''userver-tracing-middleware'', Tracing env),
        (''userver-set-accept-encoding-middleware'', SetAcceptEncoding env),
        (''userver-rate-limit-middleware'', RateLimit env),
        (''userver-baggage-middleware'', Baggage env),
        (''userver-auth-middleware'', Auth env),
        (''userver-decompression-middleware'', Decompression env),
        (''userver-exceptions-handling-middleware'', ExceptionsHandling env),
        (''userver-deadline-propagation-middleware'', DeadlinePropagation env)] name"

definition ValidateMiddlewaresConfiguration :: "string list \<Rightarrow> MiddlewaresList \<Rightarrow> unit result" where
  "ValidateMiddlewaresConfiguration configured names =
     (if \<not> distinct names then Inl (RuntimeError ''Middleware is present more than once in the pipeline'')
      else if \<exists>name\<in>set configured. name \<noteq> ''pipeline-builder'' \<and> name \<notin> set names then
        Inl (RuntimeError ''There is a configuration for a middleware that is not present in the pipeline'')
      else Inr ())"

text \<open>\<open>add_middleware\<close> for each name, the adapter last; an unknown component throws.\<close>

fun add_middlewares ::
  "(string \<Rightarrow> ('db pipe \<Rightarrow> 'db pipe) option) \<Rightarrow> MiddlewaresList \<Rightarrow> 'db pipe \<Rightarrow> 'db pipe result" where
  "add_middlewares factories [] adapter = Inr adapter"
| "add_middlewares factories (name # names) adapter =
     (case factories name of
        None \<Rightarrow> Inl (RuntimeError (''Cannot find component of name '' @ name))
      | Some middleware \<Rightarrow> rbind (add_middlewares factories names adapter) (\<lambda>Next. Inr (middleware Next)))"

definition BuildMiddlewarePipeline ::
  "'db PipeEnv \<Rightarrow> (string \<Rightarrow> ('db pipe \<Rightarrow> 'db pipe) option) \<Rightarrow> string list \<Rightarrow> MiddlewaresList \<Rightarrow> 'db pipe result" where
  "BuildMiddlewarePipeline env factories configured names =
     rbind (ValidateMiddlewaresConfiguration configured names)
       (\<lambda>_. add_middlewares factories names (HandlerAdapter env))"

definition PrepareAndHandleRequest :: "'db PipeEnv \<Rightarrow> 'db pipe \<Rightarrow> 'db pipe" where
  "PrepareAndHandleRequest env first_middleware =
     act_then (SetResponseServerHostname env)
    (act_then
       (act_try first_middleware
          (\<lambda>e. case e of
                 NonStdException \<Rightarrow> act_throw e
               | _ \<Rightarrow> put_status HttpStatus_kInternalServerError))
       (upd_response SetHeadersEnd))"

end
