(* ===== verification/Pipeline_Frame.thy ===== *)
theory Pipeline_Frame
  imports Handler_Pipeline
begin

section \<open>The parts of the pipeline and what they leave alone\<close>

text \<open>
  Lemmas on actions, the split of the pipeline into the part before the handler, which may refuse
  a request, and the part with the handler, and the frame of both: the locale \<open>request_blind\<close>
  collects what the first part leaves alone, its extension \<open>service_blind\<close> what the whole pipeline
  leaves alone.
\<close>

subsection \<open>Actions\<close>

lemma preservesI: "(\<And>s. P s \<Longrightarrow> P (snd (m s))) \<Longrightarrow> preserves P m"
  by (simp add: preserves_def)

lemma preserves_try:
  assumes "preserves P m" and "\<And>e. preserves P (h e)"
  shows "preserves P (act_try m h)"
proof (rule preservesI)
  fix s assume "P s"
  then have "P (snd (m s))" using assms(1) by (simp add: preserves_def)
  then show "P (snd (act_try m h s))" using assms(2) by (auto simp: act_try_def preserves_def split: prod.splits sum.splits)
qed

lemma preserves_finally: "preserves P m \<Longrightarrow> (\<And>s. P s \<Longrightarrow> P (f s)) \<Longrightarrow> preserves P (act_finally m f)"
  by (auto simp: preserves_def act_finally_def split: prod.splits)

lemma preserves_each: "(\<And>x. preserves P (f x)) \<Longrightarrow> preserves P (act_each f xs)"
  by (induction xs) (auto intro: preserves_then)

lemma preserves_state: "(\<And>x. preserves P (g x)) \<Longrightarrow> preserves P (\<lambda>s. g s s)"
  by (simp add: preserves_def)

lemma act_bind_assoc: "act_bind (act_bind m f) g = act_bind m (\<lambda>x. act_bind (f x) g)"
  by (rule ext) (simp add: act_bind_def split: prod.splits sum.splits)

lemma act_bind_return [simp]: "act_bind (act_return x) f = f x"
  by (rule ext) (simp add: act_bind_def act_return_def)

text \<open>A \<open>try\<close> block whose handler does not throw does not throw.\<close>

lemma act_try_total: "(\<And>e s. \<exists>s'. h e s = (Inr (), s')) \<Longrightarrow> \<exists>s'. act_try m h s = (Inr (), s')"
  by (auto simp: act_try_def split: prod.splits sum.splits)

lemma upd_request_eq: "upd_request f s = (Inr (), s\<lparr>p_svc := (p_svc s)\<lparr>svc_request := f (p_request s)\<rparr>\<rparr>)"
  by (simp add: upd_request_def on_svc_def act_modify_def)

lemma upd_response_eq:
  "upd_response f s = (Inr (), s\<lparr>p_svc := (p_svc s)\<lparr>svc_request := (p_request s)\<lparr>response := f (p_response s)\<rparr>\<rparr>\<rparr>)"
  by (simp add: upd_response_def upd_request_eq)

lemma put_header_cases:
  obtains e where "put_header h s = (Inl (StdException e), s)"
  | r where "put_header h s = (Inr (), s\<lparr>p_svc := (p_svc s)\<lparr>svc_request := (p_request s)\<lparr>response := r\<rparr>\<rparr>\<rparr>)"
  by (cases "SetHeader (fst h) (snd h) (p_response s)") (auto simp: put_header_def upd_response_eq)

lemmas pipe_defs = act_then_def act_bind_def act_return_def act_modify_def act_throw_def act_try_def act_finally_def
  upd_request_eq upd_response_eq put_status_def put_data_def upd_stats_def

subsection \<open>The two parts of the pipeline\<close>

text \<open>Up to decompression a middleware either lets the request through or answers it itself.\<close>

definition admission :: "'db PipeEnv \<Rightarrow> (hexn, 'db Pst, bool) eact" where
  "admission env =
     act_then (FillResponseWithTracingContext env)
    (act_then (SetResponseAcceptEncoding env)
    (act_bind (CheckRateLimit env) (\<lambda>ok.
       if ok then
         act_then (SetUpBaggage env)
           (act_bind (CheckAuth env) (\<lambda>ok. if ok then DecompressRequestBody env else act_return False))
       else act_return False)))"

definition handling :: "'db PipeEnv \<Rightarrow> 'db pipe" where
  "handling env = ExceptionsHandling env (DeadlinePropagation env (HandlerAdapter env))"

definition guarded :: "'db PipeEnv \<Rightarrow> 'db pipe" where
  "guarded env = act_bind (admission env) (\<lambda>ok. if ok then handling env else act_return ())"

lemma act_bind_if: "act_bind (if b then m else n) f = (if b then act_bind m f else act_bind n f)"
  by simp

lemma pipeline_phases:
  "Tracing env (SetAcceptEncoding env (RateLimit env (Baggage env (Auth env (Decompression env (handling env)))))) = guarded env"
  unfolding guarded_def admission_def Tracing_def SetAcceptEncoding_def RateLimit_def Baggage_def Auth_def Decompression_def
    act_then_def act_bind_assoc act_bind_if act_bind_return
  by simp

definition default_pipeline :: "'db PipeEnv \<Rightarrow> 'db pipe" where
  "default_pipeline env = HandlerMetrics (UnknownExceptionsHandling env (guarded env))"

lemma build_default_pipeline:
  "BuildMiddlewarePipeline env (builtin_middleware env) [] DefaultPipeline = Inr (default_pipeline env)"
proof -
  have "distinct DefaultPipeline" by (simp add: DefaultPipeline_def)
  then have "ValidateMiddlewaresConfiguration [] DefaultPipeline = Inr ()" by (simp add: ValidateMiddlewaresConfiguration_def)
  then have "BuildMiddlewarePipeline env (builtin_middleware env) [] DefaultPipeline =
      add_middlewares (builtin_middleware env) DefaultPipeline (HandlerAdapter env)"
    by (simp add: BuildMiddlewarePipeline_def)
  also have "\<dots> = Inr (HandlerMetrics (UnknownExceptionsHandling env (Tracing env (SetAcceptEncoding env (RateLimit env
      (Baggage env (Auth env (Decompression env (ExceptionsHandling env (DeadlinePropagation env (HandlerAdapter env)))))))))))"
    by (simp add: DefaultPipeline_def builtin_middleware_def)
  finally show ?thesis unfolding default_pipeline_def handling_def [symmetric] pipeline_phases .
qed

subsection \<open>What a request does not touch\<close>

definition flights :: "'db Pst \<Rightarrow> HttpMethod \<Rightarrow> Rate \<times> Rate" where
  "flights s m = (started (p_stats s m), finished (p_stats s m))"

locale request_blind =
  fixes P :: "'db Pst \<Rightarrow> bool"
  assumes request: "P s \<Longrightarrow> P (s\<lparr>p_svc := (p_svc s)\<lparr>svc_request := r\<rparr>\<rparr>)"
    and rate_limit: "P s1 \<Longrightarrow> P (s1\<lparr>p_rate_limit := b\<rparr>)"
    and limit_counter: "P s2 \<Longrightarrow> P (s2\<lparr>p_stats := ForMethod m IncrementRateLimitReached (p_stats s2)\<rparr>)"
    and flight_counter: "P s3 \<Longrightarrow> P (s3\<lparr>p_stats := ForMethod m' IncrementTooManyRequestsInFlight (p_stats s3)\<rparr>)"
    and baggage: "P s4 \<Longrightarrow> P (s4\<lparr>p_baggage := g\<rparr>)"
    and deadline: "P s5 \<Longrightarrow> P (s5\<lparr>p_inherited_deadline := d\<rparr>)"
    and cancelled: "P s6 \<Longrightarrow> P (s6\<lparr>p_cancelled_by_deadline := c\<rparr>)"
begin

lemma upd_request_blind: "preserves P (upd_request f)"
  by (rule preservesI) (simp add: upd_request_eq request)

lemma upd_response_blind: "preserves P (upd_response f)"
  by (rule preservesI) (simp add: upd_response_eq request)

lemma put_status_blind: "preserves P (put_status c)"
  unfolding put_status_def by (rule upd_response_blind)

lemma put_data_blind: "preserves P (put_data c)"
  unfolding put_data_def by (rule upd_response_blind)

lemma put_header_blind: "preserves P (put_header h)"
proof (rule preservesI)
  fix s assume "P s"
  then show "P (snd (put_header h s))" by (cases rule: put_header_cases [of h s]) (auto simp: request)
qed

lemma formatted_blind: "preserves P (SetFormattedErrorResponse data)"
  unfolding SetFormattedErrorResponse_def
  by (intro preserves_then put_data_blind) (auto simp: put_header_blind preserves_simple split: option.splits)

lemma custom_blind: "preserves P (HandleCustomHandlerException env ex)"
  unfolding HandleCustomHandlerException_def
  by (intro preserves_then put_status_blind preserves_each put_header_blind) (simp add: put_data_blind formatted_blind)

lemma unknown_blind: "preserves P (HandleUnknownException env)"
  unfolding HandleUnknownException_def
  by (auto intro!: preserves_then put_status_blind upd_request_blind formatted_blind)

lemma throttle_blind: "preserves P (SetThrottleReason env reason)"
  unfolding SetThrottleReason_def by (intro preserves_then put_header_blind)

lemma refuse_blind: "preserves P (act_then (HandleCustomHandlerException env ex) (act_return False))"
  by (intro preserves_then custom_blind preserves_simple)

lemma rate_limit_blind: "preserves P (CheckRateLimit env)"
proof (rule preservesI)
  fix s assume "P s"
  obtain ok bucket where b: "Obtain (pe_rate_limit_time env) (p_rate_limit s) = (ok, bucket)" by fastforce
  let ?s = "s\<lparr>p_rate_limit := bucket\<rparr>"
  have s: "P ?s" using \<open>P s\<close> by (rule rate_limit)
  have fail: "preserves P (act_then (SetThrottleReason env reason) (act_then (upd_stats n f) (act_then (FailProcessingAndSetResponse env) (act_return False))))"
    if "f = IncrementRateLimitReached \<or> f = IncrementTooManyRequestsInFlight" for reason f n
    unfolding FailProcessingAndSetResponse_def upd_stats_def
    by (intro preserves_then throttle_blind custom_blind preserves_simple preserves_modify)
      (use that limit_counter flight_counter in auto)
  show "P (snd (CheckRateLimit env s))"
    using s fail b by (auto simp: CheckRateLimit_def Let_def preserves_def split: option.splits)
qed

lemma auth_blind: "preserves P (CheckAuth env)"
proof (rule preservesI)
  fix s assume s: "P s"
  have "preserves P (act_then (HandleUnknownException env) (act_return False))" by (intro preserves_then unknown_blind preserves_simple)
  then show "P (snd (CheckAuth env s))"
    using s refuse_blind by (auto simp: CheckAuth_def preserves_def split: sum.splits hexn.splits)
qed

lemma refuse_code_blind: "preserves P (refuse env code)"
  unfolding refuse_def by (rule refuse_blind)

lemma parse_decompressed_blind: "preserves P (parse_decompressed_args env)"
proof (rule preservesI)
  fix s assume s: "P s"
  have "preserves P (act_then (upd_request (\<lambda>_. r)) (refuse env E_kRequestParseError))"
    "preserves P (act_then (upd_request (\<lambda>_. r)) (act_return True))" for r
    by (intro preserves_then upd_request_blind refuse_code_blind preserves_simple)+
  then show "P (snd (parse_decompressed_args env s))"
    using s by (auto simp: parse_decompressed_args_def preserves_def split: prod.splits sum.splits)
qed

lemma decompress_with_blind: "preserves P (decompress_with env f)"
proof (rule preservesI)
  fix s assume s: "P s"
  have "preserves P (act_then (upd_request (SetRequestBody body)) (parse_decompressed_args env))" for body
    by (intro preserves_then upd_request_blind parse_decompressed_blind)
  then show "P (snd (decompress_with env f s))"
    using s refuse_code_blind by (auto simp: decompress_with_def preserves_def split: sum.splits decompression_error.splits)
qed

lemma decompress_blind: "preserves P (DecompressRequestBody env)"
proof (rule preservesI)
  fix s assume s: "P s"
  have "preserves P (act_finally m (\<lambda>s. snd (upd_request (RemoveHeader ''Content-Encoding'') s)))" if "preserves P m"
    for m :: "(hexn, 'db Pst, bool) eact"
    using that by (rule preserves_finally) (simp add: upd_request_eq request)
  then show "P (snd (DecompressRequestBody env s))"
    using s decompress_with_blind refuse_code_blind unfolding DecompressRequestBody_def Let_def
    by (simp add: preserves_def)
qed

lemma expired_blind: "preserves P (HandleDeadlineExpired env)"
  unfolding HandleDeadlineExpired_def Let_def
  by (intro preserves_then preserves_modify cancelled put_status_blind formatted_blind put_header_blind)

lemma setup_blind: "preserves P (SetUpInheritedData env)"
proof (rule preservesI)
  fix s assume s: "P s"
  have "preserves P (act_finally (if b then HandleDeadlineExpired env else act_return ()) (\<lambda>s. s\<lparr>p_inherited_deadline := dl\<rparr>))" for b dl
    by (intro preserves_finally) (auto simp: expired_blind preserves_simple deadline)
  then show "P (snd (SetUpInheritedData env s))" using s by (simp add: SetUpInheritedData_def Let_def preserves_def)
qed

lemma complete_blind: "preserves P (CompleteDeadlinePropagation env)"
  using expired_blind [of env] by (auto simp: CompleteDeadlinePropagation_def preserves_def Let_def split: option.splits)

lemma tracing_blind: "preserves P (FillResponseWithTracingContext env)"
proof (rule preservesI)
  fix s assume s: "P s"
  have "preserves P (act_each put_header hs)" for hs by (intro preserves_each put_header_blind)
  then show "P (snd (FillResponseWithTracingContext env s))" using s by (simp add: FillResponseWithTracingContext_def preserves_def)
qed

lemma accept_blind: "preserves P (SetResponseAcceptEncoding env)"
proof (rule preservesI)
  fix s assume "P s"
  then show "P (snd (SetResponseAcceptEncoding env s))"
    using put_header_blind [of "(''Accept-Encoding'', ''gzip, zstd, identity'')"]
    by (simp add: SetResponseAcceptEncoding_def preserves_def)
qed

lemma set_up_baggage_blind: "preserves P (SetUpBaggage env)"
  unfolding SetUpBaggage_def by (rule preserves_modify) (auto simp: Let_def baggage split: option.splits)

lemma admission_blind: "preserves P (admission env)"
proof -
  have "preserves P (if ok then DecompressRequestBody env else act_return False)" for ok
    using decompress_blind preserves_simple(1) by auto
  then have "preserves P (act_then (SetUpBaggage env)
      (act_bind (CheckAuth env) (\<lambda>ok. if ok then DecompressRequestBody env else act_return False)))"
    by (intro preserves_then preserves_bind set_up_baggage_blind auth_blind)
  then have "preserves P (if ok then act_then (SetUpBaggage env)
      (act_bind (CheckAuth env) (\<lambda>ok. if ok then DecompressRequestBody env else act_return False)) else act_return False)" for ok
    using preserves_simple(1) by auto
  then show ?thesis
    unfolding admission_def by (intro preserves_then preserves_bind tracing_blind accept_blind rate_limit_blind)
qed

end

locale service_blind = request_blind +
  assumes service: "P s7 \<Longrightarrow> P (s7\<lparr>p_svc := v\<rparr>)"
begin

lemma on_svc_blind: "preserves P (on_svc m)"
  by (rule preservesI) (auto simp: on_svc_def service split: prod.splits)

lemma adapter_blind: "preserves P (HandlerAdapter env)"
proof -
  have "preserves P (act_bind (on_svc (pe_handle_request env)) put_data)" by (intro preserves_bind on_svc_blind put_data_blind)
  then show ?thesis
    unfolding HandlerAdapter_def HandleHttpRequest_def
    by (intro preserves_then on_svc_blind upd_response_blind) (simp add: on_svc_blind)
qed

lemma deadline_blind:
  assumes "preserves P Next"
  shows "preserves P (DeadlinePropagation env Next)"
proof -
  have after: "preserves P (\<lambda>s. if p_cancelled_by_deadline s then (Inr (), s) else (Inl e, s))" for e :: hexn
    by (simp add: preserves_def)
  have "preserves P (act_then (act_try Next
      (\<lambda>e. case e of NonStdException \<Rightarrow> act_throw e
         | _ \<Rightarrow> act_then (CompleteDeadlinePropagation env) (\<lambda>s. if p_cancelled_by_deadline s then (Inr (), s) else (Inl e, s))))
      (CompleteDeadlinePropagation env))" (is "preserves P ?m")
    by (intro preserves_then preserves_try assms complete_blind)
      (auto simp: preserves_simple split: hexn.splits intro!: preserves_then complete_blind after)
  then have "preserves P (\<lambda>s. if p_cancelled_by_deadline s then (Inr (), s) else ?m s)" by (simp add: preserves_def)
  then show ?thesis unfolding DeadlinePropagation_def by (intro preserves_then setup_blind)
qed

lemma exceptions_blind: "preserves P Next \<Longrightarrow> preserves P (ExceptionsHandling env Next)"
  unfolding ExceptionsHandling_def
  by (intro preserves_try) (auto simp: custom_blind unknown_blind preserves_simple split: hexn.splits)

lemma unknown_exceptions_blind: "preserves P Next \<Longrightarrow> preserves P (UnknownExceptionsHandling env Next)"
  unfolding UnknownExceptionsHandling_def
  by (intro preserves_try) (auto simp: put_status_blind unknown_blind preserves_simple split: hexn.splits)

lemma handling_blind: "preserves P (handling env)"
  unfolding handling_def by (intro exceptions_blind deadline_blind adapter_blind)

lemma guarded_blind: "preserves P (guarded env)"
proof -
  have "preserves P (if ok then handling env else act_return ())" for ok using handling_blind preserves_simple(1) by auto
  then show ?thesis unfolding guarded_def by (intro preserves_bind admission_blind)
qed

end

text \<open>The part before the handler leaves the database alone, no part of the pipeline the counters of requests in flight.\<close>

lemma flights_upd [simp]:
  "flights (s\<lparr>p_svc := v\<rparr>) = flights s" "flights (s\<lparr>p_rate_limit := b\<rparr>) = flights s"
  "flights (s\<lparr>p_baggage := g\<rparr>) = flights s" "flights (s\<lparr>p_inherited_deadline := d\<rparr>) = flights s"
  "flights (s\<lparr>p_cancelled_by_deadline := c\<rparr>) = flights s"
  "flights (s\<lparr>p_stats := ForMethod m IncrementRateLimitReached (p_stats s)\<rparr>) = flights s"
  "flights (s\<lparr>p_stats := ForMethod m IncrementTooManyRequestsInFlight (p_stats s)\<rparr>) = flights s"
  by (auto simp: flights_def ForMethod_def IncrementRateLimitReached_def IncrementTooManyRequestsInFlight_def fun_eq_iff)

interpretation db_blind: request_blind "\<lambda>s. svc_db (p_svc s) = d"
  by unfold_locales simp_all

interpretation flights_blind: service_blind "\<lambda>s. flights s = f"
  by unfold_locales simp_all

end
