(* ===== verification/Request_Handler.thy ===== *)
theory Request_Handler
  imports Handler_Pipeline
begin

section \<open>From a parsed request to its task\<close>

text \<open>
  \<open>core/src/server/http/http_request_handler.cpp\<close>: the component that owns the handler index and
  the rate limiter of the server, decides whether a parsed request is throttled, and starts the
  task that answers it; and \<open>core/src/server/handlers/handler_config.cpp\<close>, which makes the
  configuration of a handler from its section of the static configuration.  Clocks, the dynamic
  configuration and the amount of pending response data are inputs.
\<close>

record HttpRequestHandler =
  hrh_is_monitor :: bool
  server_name :: string
  handler_info_index :: HandlerInfoIndex
  server_rate_limit :: TokenBucket
  cc_status_code :: StatusCode
  cc_enabled_tp :: int
  cc_status_code_is_custom :: nat

record 'db ServeEnv =
  se_pipe :: "'db PipeEnv"
  se_first_middleware :: "'db pipe"
  se_new_request_hook :: "(hexn, 'db svc, unit) eact option"
  se_now :: int
  se_cc_max_time :: int
  se_cc_initial_status_code :: StatusCode
  se_pending_responses_size :: nat
  se_max_pending_responses_size :: nat

record 'db Sst =
  s_pst :: "'db Pst"
  s_server :: HttpRequestHandler
  s_stream_body :: bool

definition on_pst :: "('e, 'db Pst, 'a) eact \<Rightarrow> ('e, 'db Sst, 'a) eact" where
  "on_pst m s = (case m (s_pst s) of (r, p) \<Rightarrow> (r, s\<lparr>s_pst := p\<rparr>))"

abbreviation s_request :: "'db Sst \<Rightarrow> HttpRequest" where
  "s_request s \<equiv> p_request (s_pst s)"

abbreviation s_response :: "'db Sst \<Rightarrow> HttpResponse" where
  "s_response s \<equiv> p_response (s_pst s)"

text \<open>The task that is started: the failsafe one, or the handler's, critical or not.\<close>

datatype RequestTask = FailsafeTask | HandlerTask bool

definition IsLimitReached :: "'db ServeEnv \<Rightarrow> bool" where
  "IsLimitReached env \<longleftrightarrow> se_max_pending_responses_size env \<le> se_pending_responses_size env"

definition throttle_pending :: "'db ServeEnv \<Rightarrow> (hexn, 'db Sst, RequestTask) eact" where
  "throttle_pending env =
     act_then (on_pst (SetThrottleReason (se_pipe env) ''too-many-pending-responses''))
    (act_then (on_pst (upd_request (SetResponseStatus HttpStatus_kTooManyRequests)))
    (act_then (on_pst (upd_response SetReady)) (act_return FailsafeTask)))"

text \<open>Congestion control: right after it was enabled it answers with a status of the dynamic configuration.\<close>

definition throttle_congestion :: "'db ServeEnv \<Rightarrow> (hexn, 'db Sst, RequestTask) eact" where
  "throttle_congestion env s =
     (let custom = (se_now env - se_cc_max_time env < cc_enabled_tp (s_server s));
          status = (if custom then se_cc_initial_status_code env else cc_status_code (s_server s));
          s1 = s\<lparr>s_server := (s_server s)\<lparr>cc_status_code_is_custom := (if custom then 1 else 0)\<rparr>\<rparr>
      in act_then (on_pst (SetThrottleReason (se_pipe env) ''congestion-control''))
        (act_then (on_pst (put_status status))
        (act_then (on_pst (upd_response SetReady)) (act_return FailsafeTask))) s1)"

definition ObtainServer :: "'db ServeEnv \<Rightarrow> (hexn, 'db Sst, bool) eact" where
  "ObtainServer env s =
     (case Obtain (se_now env) (server_rate_limit (s_server s)) of
        (ok, b) \<Rightarrow> (Inr ok, s\<lparr>s_server := (s_server s)\<lparr>server_rate_limit := b\<rparr>\<rparr>))"

definition start_handler_task :: "Handler \<Rightarrow> (hexn, 'db Sst, RequestTask) eact" where
  "start_handler_task h s =
     (let s1 = (if hc_response_body_stream (GetConfig h) then s\<lparr>s_stream_body := True\<rparr> else s)
      in (Inr (HandlerTask (hrh_is_monitor (s_server s) \<or> \<not> hc_throttling_enabled (GetConfig h))), s1))"

definition throttle_or_start :: "'db ServeEnv \<Rightarrow> Handler \<Rightarrow> (hexn, 'db Sst, RequestTask) eact" where
  "throttle_or_start env h =
     (let throttling_enabled = hc_throttling_enabled (GetConfig h) in
      if throttling_enabled \<and> IsLimitReached env then throttle_pending env
      else if throttling_enabled then
        act_bind (ObtainServer env) (\<lambda>ok. if ok then start_handler_task h else throttle_congestion env)
      else start_handler_task h)"

definition StartRequestTask :: "'db ServeEnv \<Rightarrow> (hexn, 'db Sst, RequestTask) eact" where
  "StartRequestTask env s0 =
     act_then (on_pst (put_header (''Server'', server_name (s_server s0))))
       (\<lambda>s. if is_ready (s_response s) then (Inr FailsafeTask, s)
            else act_then
                   (case se_new_request_hook env of None \<Rightarrow> act_return () | Some hook \<Rightarrow> on_pst (on_svc hook))
                   (\<lambda>s. case (req_task_processor (s_request s), req_handler (s_request s)) of
                          (Some _, Some h) \<Rightarrow> throttle_or_start env h s
                        | _ \<Rightarrow> (Inr FailsafeTask, s)) s) s0"

text \<open>The two bodies a task can have.\<close>

definition StartFailsafeTask :: "'db ServeEnv \<Rightarrow> (hexn, 'db Sst, unit) eact" where
  "StartFailsafeTask env s =
     act_then
       (case req_handler (s_request s) of
          None \<Rightarrow> act_return ()
        | Some _ \<Rightarrow> on_pst (ReportMalformedRequest (se_pipe env)))
       (on_pst (upd_response SetReady)) s"

definition request_payload :: "'db ServeEnv \<Rightarrow> (hexn, 'db Sst, unit) eact" where
  "request_payload env =
     act_then (on_pst (PrepareAndHandleRequest (se_pipe env) (se_first_middleware env)))
       (on_pst (upd_response SetReady))"

fun run_task :: "'db ServeEnv \<Rightarrow> RequestTask \<Rightarrow> (hexn, 'db Sst, unit) eact" where
  "run_task env FailsafeTask = StartFailsafeTask env"
| "run_task env (HandlerTask _) = request_payload env"

text \<open>A request from its hand-over to the end of its task.\<close>

definition serve :: "'db ServeEnv \<Rightarrow> (hexn, 'db Sst, unit) eact" where
  "serve env = act_bind (StartRequestTask env) (run_task env)"

subsection \<open>Settings of the request handler\<close>

definition HttpRequestHandler_AddHandler ::
  "bool \<Rightarrow> Handler \<Rightarrow> string \<Rightarrow> HttpRequestHandler \<Rightarrow> HttpRequestHandler result" where
  "HttpRequestHandler_AddHandler handler_is_monitor h tp srv =
     (if hrh_is_monitor srv \<noteq> handler_is_monitor then
        Inl (RuntimeError (''adding '' @ (if handler_is_monitor then [] else ''non-'') @ ''monitor handler to '' @
          (if hrh_is_monitor srv then [] else ''non-'') @ ''monitor HttpRequestHandler''))
      else rbind (HandlerInfoIndex_AddHandler h tp (handler_info_index srv)) (\<lambda>hi. Inr (srv\<lparr>handler_info_index := hi\<rparr>)))"

definition SetRpsRatelimit :: "int \<Rightarrow> nat option \<Rightarrow> HttpRequestHandler \<Rightarrow> HttpRequestHandler result" where
  "SetRpsRatelimit now rps srv =
     (case rps of
        Some rps_val \<Rightarrow>
          (let srv1 = (if IsUnbounded (server_rate_limit srv) then srv\<lparr>cc_enabled_tp := now, cc_status_code_is_custom := 0\<rparr>
                       else srv)
           in if 0 < rps_val then
                rbind (limited_bucket rps_val (server_rate_limit srv1)) (\<lambda>b. Inr (srv1\<lparr>server_rate_limit := b\<rparr>))
              else Inr (srv1\<lparr>server_rate_limit := SetMaxSize 0 (server_rate_limit srv1)\<rparr>))
      | None \<Rightarrow>
          rbind (SetInstantRefillPolicy (SetMaxSize 1 (server_rate_limit srv))) (\<lambda>b. Inr (srv\<lparr>server_rate_limit := b\<rparr>)))"

definition SetRpsRatelimitStatusCode :: "StatusCode \<Rightarrow> HttpRequestHandler \<Rightarrow> HttpRequestHandler" where
  "SetRpsRatelimitStatusCode status_code srv = srv\<lparr>cc_status_code := status_code\<rparr>"

subsection \<open>The configuration of a handler\<close>

text \<open>The options of the section, as far as they are given; \<open>As<T>(default)\<close> is \<open>the_default\<close>.\<close>

record HandlerYaml =
  y_path :: "string option"
  y_as_fallback :: "FallbackHandler option"
  y_task_processor :: "string option"
  y_method :: "string option"
  y_max_request_size :: "nat option"
  y_max_headers_size :: "nat option"
  y_parse_args_from_body :: "bool option"
  y_url_trailing_slash :: "string option"
  y_max_requests_in_flight :: "nat option"
  y_request_body_size_log_limit :: "nat option"
  y_request_headers_size_log_limit :: "nat option"
  y_response_data_size_log_limit :: "nat option"
  y_max_requests_per_second :: "nat option"
  y_decompress_request :: "bool option"
  y_throttling_enabled :: "bool option"
  y_set_response_server_hostname :: "bool option"
  y_response_body_stream :: "bool option"
  y_set_tracing_headers :: "bool option"
  y_deadline_propagation_enabled :: "bool option"
  y_deadline_expired_status_code :: "StatusCode option"
  y_enable_write_statistics :: "bool option"

definition the_default :: "'a \<Rightarrow> 'a option \<Rightarrow> 'a" where
  "the_default d x = (case x of None \<Rightarrow> d | Some v \<Rightarrow> v)"

definition Parse_UrlTrailingSlashOption :: "string \<Rightarrow> UrlTrailingSlashOption result" where
  "Parse_UrlTrailingSlashOption v =
     (if v = ''both'' then Inr kBoth
      else if v = ''strict-match'' then Inr kStrictMatch
      else Inl (RuntimeError (''can'' @ [CHR 0x27] @ ''t parse UrlTrailingSlashOption from '' @ [CHR 0x27] @ v @ [CHR 0x27])))"

definition parse_handler_path :: "HandlerYaml \<Rightarrow> handler_path result" where
  "parse_handler_path y =
     (case (y_path y, y_as_fallback y) of
        (Some path, None) \<Rightarrow> Inr (PathString path)
      | (None, Some fallback) \<Rightarrow> Inr (PathFallback fallback)
      | (None, None) \<Rightarrow> Inl (RuntimeError ''Expected path or as_fallback, but none provided'')
      | (Some _, Some _) \<Rightarrow> Inl (RuntimeError ''Expected path or as_fallback, but both provided''))"

definition ParseHandlerConfigsWithDefaults :: "HandlerYaml \<Rightarrow> HttpRequestConfig \<Rightarrow> HandlerConfig result" where
  "ParseHandlerConfigsWithDefaults y handler_defaults =
     rbind (parse_handler_path y) (\<lambda>path.
     rbind (case y_method y of None \<Rightarrow> Inl (RuntimeError ''Field method is missing'') | Some m \<Rightarrow> Inr m) (\<lambda>method.
     rbind (case y_url_trailing_slash y of None \<Rightarrow> Inr kBoth | Some v \<Rightarrow> Parse_UrlTrailingSlashOption v) (\<lambda>slash.
     if y_max_requests_per_second y = Some 0 then
       Inl (RuntimeError ''max_requests_per_second should be greater than 0, current value is 0'')
     else Inr
       \<lparr>hc_path = path, hc_task_processor = y_task_processor y, hc_method = method,
        hc_request_config = default_HttpRequestConfig
          \<lparr>max_request_size := the_default (max_request_size handler_defaults) (y_max_request_size y),
           max_headers_size := the_default (max_headers_size handler_defaults) (y_max_headers_size y),
           parse_args_from_body := the_default (parse_args_from_body handler_defaults) (y_parse_args_from_body y)\<rparr>,
        hc_request_body_size_log_limit =
          the_default (request_body_size_log_limit handler_defaults) (y_request_body_size_log_limit y),
        hc_request_headers_size_log_limit =
          the_default (request_headers_size_log_limit handler_defaults) (y_request_headers_size_log_limit y),
        hc_response_data_size_log_limit =
          the_default (response_data_size_log_limit handler_defaults) (y_response_data_size_log_limit y),
        hc_url_trailing_slash = slash,
        hc_max_requests_in_flight = y_max_requests_in_flight y,
        hc_max_requests_per_second = y_max_requests_per_second y,
        hc_decompress_request = the_default True (y_decompress_request y),
        hc_throttling_enabled = the_default True (y_throttling_enabled y),
        hc_response_body_stream = the_default False (y_response_body_stream y),
        hc_set_response_server_hostname = y_set_response_server_hostname y,
        hc_set_tracing_headers = the_default (set_tracing_headers handler_defaults) (y_set_tracing_headers y),
        hc_deadline_propagation_enabled =
          the_default (deadline_propagation_enabled handler_defaults) (y_deadline_propagation_enabled y),
        hc_enable_write_statistics = the_default True (y_enable_write_statistics y),
        hc_deadline_expired_status_code =
          the_default (deadline_expired_status_code handler_defaults) (y_deadline_expired_status_code y)\<rparr>)))"

end
