(* ===== verification/Pipeline_Correct.thy ===== *)
theory Pipeline_Correct
  imports Pipeline_Frame Request_Handler Request_Correct Social_Db
begin

section \<open>Every request is answered\<close>

text \<open>
  What the pipeline and the request handler guarantee: every task ends with a ready response, the
  handler's answer is what is sent, an exception becomes a status, throttled and expired requests
  do not reach the handler, and the limits that are configured hold.
\<close>

subsection \<open>No exception gets out of the pipeline\<close>

lemma formatted_default:
  "SetFormattedErrorResponse (GetFormattedExternalErrorBody ex) = put_data (che_external_body ex)"
  by (rule ext) (simp add: SetFormattedErrorResponse_def GetFormattedExternalErrorBody_def pipe_defs)

lemma HandleUnknownException_total:
  assumes "pe_format_error env = GetFormattedExternalErrorBody"
  shows "\<exists>s'. HandleUnknownException env s = (Inr (), s')"
  by (simp add: HandleUnknownException_def assms formatted_default pipe_defs)

lemma UnknownExceptionsHandling_total:
  assumes "pe_format_error env = GetFormattedExternalErrorBody"
  shows "\<exists>s'. UnknownExceptionsHandling env Next s = (Inr (), s')"
  unfolding UnknownExceptionsHandling_def
proof (rule act_try_total)
  fix e s
  show "\<exists>s'. (case e of NonStdException \<Rightarrow> put_status HttpStatus_kNginxClientClosedRequest | _ \<Rightarrow> HandleUnknownException env) s = (Inr (), s')"
    using HandleUnknownException_total [OF assms, of s] by (cases e) (simp_all add: pipe_defs)
qed

text \<open>The requests of a method that have started and not finished.\<close>

definition running :: "'db Pst \<Rightarrow> HttpMethod \<Rightarrow> Rate" where
  "running s m = started (p_stats s m) - finished (p_stats s m)"

lemma running_flights: "running s m = fst (flights s m) - snd (flights s m)"
  by (simp add: running_def flights_def)

lemma default_pipeline_total:
  assumes "pe_format_error env = GetFormattedExternalErrorBody"
  shows "\<exists>s'. default_pipeline env s = (Inr (), s') \<and> running s' = running s"
proof -
  let ?m = "p_method s"
  let ?s0 = "s\<lparr>p_stats := ForMethod ?m IncrementInFlight (p_stats s)\<rparr>"
  let ?inner = "UnknownExceptionsHandling env (guarded env)"
  obtain s1 where s1: "?inner ?s0 = (Inr (), s1)" using UnknownExceptionsHandling_total [OF assms] by blast
  have "preserves (\<lambda>s. flights s = flights ?s0) ?inner"
    by (intro flights_blind.unknown_exceptions_blind flights_blind.guarded_blind)
  from preservesD [OF this _ s1] have f: "flights s1 = flights ?s0" by simp
  have "default_pipeline env s = (Inr (), close_statistics_scope ?m s1)"
    using s1 by (simp add: default_pipeline_def HandlerMetrics_def Let_def pipe_defs)
  moreover have "running (close_statistics_scope ?m s1) n = running s n" for n
  proof -
    have "flights s1 n = flights ?s0 n" using f by simp
    then show ?thesis
      by (auto simp: running_def flights_def close_statistics_scope_def Let_def ForMethod_def Account_def DecrementInFlight_def
          IncrementInFlight_def)
  qed
  ultimately show ?thesis by blast
qed

subsection \<open>Setting a header that is fine\<close>

definition room :: "HttpResponse \<Rightarrow> nat \<Rightarrow> bool" where
  "room r n \<longleftrightarrow>
     length (system_headers r) + n \<le> UsableCapacity kMaxSize \<and> length (user_headers r) + n \<le> UsableCapacity kMaxSize"

lemma InsertOrModify_room:
  assumes "length hs < UsableCapacity kMaxSize"
  shows "\<exists>hs'. InsertOrModify f k v hs = Inr hs' \<and> length hs' \<le> Suc (length hs)"
  using assms by (auto simp: InsertOrModify_def split: option.splits)

lemma SetHeader_room:
  assumes "CheckHeaderName n = Inr ()" and "CheckHeaderValue v = Inr ()" and "room r (Suc k)"
  shows "\<exists>b r'. SetHeader n v r = Inr (b, r') \<and> room r' k \<and> is_ready r' = is_ready r"
proof -
  have lens: "length (system_headers r) < UsableCapacity kMaxSize" "length (user_headers r) < UsableCapacity kMaxSize"
    using assms(3) by (auto simp: room_def)
  obtain hs where hs: "insert_or_assign n v (system_headers r) = Inr hs" "length hs \<le> Suc (length (system_headers r))"
    using InsertOrModify_room [OF lens(1), of _ n v] unfolding insert_or_assign_def by blast
  obtain us where us: "insert_or_assign n v (user_headers r) = Inr us" "length us \<le> Suc (length (user_headers r))"
    using InsertOrModify_room [OF lens(2), of _ n v] unfolding insert_or_assign_def by blast
  show ?thesis using assms hs us by (auto simp: SetHeader_def room_def)
qed

lemma put_header_room:
  assumes "CheckHeaderName n = Inr ()" and "CheckHeaderValue v = Inr ()" and "room (p_response s) (Suc k)"
  shows "\<exists>r. put_header (n, v) s = (Inr (), s\<lparr>p_svc := (p_svc s)\<lparr>svc_request := (p_request s)\<lparr>response := r\<rparr>\<rparr>\<rparr>)
     \<and> room r k \<and> is_ready r = is_ready (p_response s)"
  using SetHeader_room [OF assms] by (auto simp: put_header_def upd_response_eq)

lemma server_names_ok:
  "CheckHeaderName ''Server'' = Inr ()" "CheckHeaderName ''X-YaTaxi-Server-Hostname'' = Inr ()"
  "CheckHeaderName ''X-YaTaxi-Ratelimited-By'' = Inr ()" "CheckHeaderName ''X-YaTaxi-Ratelimit-Reason'' = Inr ()"
  "CheckHeaderName ''Accept-Encoding'' = Inr ()" "CheckHeaderValue ''gzip, zstd, identity'' = Inr ()"
  "CheckHeaderName ''X-YaTaxi-Deadline-Expired'' = Inr ()" "CheckHeaderValue ''1'' = Inr ()"
  "CheckHeaderValue ''too-many-pending-responses'' = Inr ()" "CheckHeaderValue ''congestion-control'' = Inr ()"
  "CheckHeaderValue ''global-ratelimit'' = Inr ()" "CheckHeaderValue ''max-requests-in-flight'' = Inr ()"
  by (simp_all add: CheckHeaderName_def CheckHeaderValue_def bad_name_char_def bad_value_char_def)

lemma SetThrottleReason_room:
  assumes "CheckHeaderValue (pe_hostname env) = Inr ()" and "CheckHeaderValue reason = Inr ()"
    and "room (p_response s) (Suc (Suc k))"
  shows "\<exists>r. SetThrottleReason env reason s = (Inr (), s\<lparr>p_svc := (p_svc s)\<lparr>svc_request := (p_request s)\<lparr>response := r\<rparr>\<rparr>\<rparr>)
     \<and> room r k"
proof -
  obtain r1 where r1: "put_header (''X-YaTaxi-Ratelimited-By'', pe_hostname env) s =
      (Inr (), s\<lparr>p_svc := (p_svc s)\<lparr>svc_request := (p_request s)\<lparr>response := r1\<rparr>\<rparr>\<rparr>)" (is "_ = (_, ?s1)") "room r1 (Suc k)"
    using put_header_room [OF server_names_ok(3) assms(1,3)] by blast
  obtain r2 where r2: "put_header (''X-YaTaxi-Ratelimit-Reason'', reason) ?s1 =
      (Inr (), ?s1\<lparr>p_svc := (p_svc ?s1)\<lparr>svc_request := (p_request ?s1)\<lparr>response := r2\<rparr>\<rparr>\<rparr>)" "room r2 k"
    using put_header_room [OF server_names_ok(4) assms(2), of ?s1 k] r1(2) by auto
  show ?thesis using r1(1) r2 by (auto simp: SetThrottleReason_def)
qed

subsection \<open>Starting and running the task\<close>

definition same_rest :: "'db Sst \<Rightarrow> 'db Sst \<Rightarrow> bool" where
  "same_rest s s' \<longleftrightarrow> p_stats (s_pst s') = p_stats (s_pst s) \<and> svc_db (p_svc (s_pst s')) = svc_db (p_svc (s_pst s))"

lemma throttle_pending_total:
  assumes "CheckHeaderValue (pe_hostname (se_pipe env)) = Inr ()" and "room (s_response s) 2"
  shows "\<exists>s'. throttle_pending env s = (Inr FailsafeTask, s') \<and> same_rest s s'"
proof -
  obtain r where "SetThrottleReason (se_pipe env) ''too-many-pending-responses'' (s_pst s) =
      (Inr (), (s_pst s)\<lparr>p_svc := (p_svc (s_pst s))\<lparr>svc_request := (s_request s)\<lparr>response := r\<rparr>\<rparr>\<rparr>)"
    using SetThrottleReason_room [OF assms(1) server_names_ok(9), of "s_pst s" 0] assms(2) by (auto simp: numeral_2_eq_2)
  then show ?thesis
    by (simp add: throttle_pending_def act_then_def act_bind_def on_pst_def upd_request_eq upd_response_eq act_return_def same_rest_def)
qed

lemma throttle_congestion_total:
  assumes "CheckHeaderValue (pe_hostname (se_pipe env)) = Inr ()" and "room (s_response s) 2"
  shows "\<exists>s'. throttle_congestion env s = (Inr FailsafeTask, s') \<and> same_rest s s'"
proof -
  obtain r where "SetThrottleReason (se_pipe env) ''congestion-control'' (s_pst s) =
      (Inr (), (s_pst s)\<lparr>p_svc := (p_svc (s_pst s))\<lparr>svc_request := (s_request s)\<lparr>response := r\<rparr>\<rparr>\<rparr>)"
    using SetThrottleReason_room [OF assms(1) server_names_ok(10), of "s_pst s" 0] assms(2) by (auto simp: numeral_2_eq_2)
  then show ?thesis
    by (simp add: throttle_congestion_def Let_def act_then_def act_bind_def on_pst_def put_status_def upd_response_eq act_return_def
        same_rest_def)
qed

lemma start_handler_task_total:
  "\<exists>c s'. start_handler_task h s = (Inr (HandlerTask c), s') \<and> same_rest s s' \<and> s_pst s' = s_pst s"
  by (simp add: start_handler_task_def Let_def same_rest_def)

lemma same_rest_trans: "same_rest a b \<Longrightarrow> same_rest b c \<Longrightarrow> same_rest a c"
  by (simp add: same_rest_def)

lemma throttle_or_start_total:
  assumes "CheckHeaderValue (pe_hostname (se_pipe env)) = Inr ()" and "room (s_response s) 2"
  shows "\<exists>t s'. throttle_or_start env h s = (Inr t, s') \<and> same_rest s s' \<and> (t \<noteq> FailsafeTask \<longrightarrow> s_pst s' = s_pst s)"
proof -
  obtain ok b where ok: "ObtainServer env s = (Inr ok, s\<lparr>s_server := (s_server s)\<lparr>server_rate_limit := b\<rparr>\<rparr>)" (is "_ = (_, ?s)")
    by (cases "Obtain (se_now env) (server_rate_limit (s_server s))") (simp add: ObtainServer_def)
  have s: "same_rest s ?s" "room (s_response ?s) 2" "s_pst ?s = s_pst s" using assms(2) by (simp_all add: same_rest_def)
  define good where "good x \<longleftrightarrow> (\<exists>t s'. x = (Inr t, s') \<and> same_rest s s' \<and> (t \<noteq> FailsafeTask \<longrightarrow> s_pst s' = s_pst s))"
    for x :: "(hexn + RequestTask) \<times> 'a Sst"
  have "good (throttle_pending env s)" using throttle_pending_total [OF assms] by (auto simp: good_def)
  moreover have "good (throttle_congestion env ?s)"
    using throttle_congestion_total [OF assms(1) s(2)] same_rest_trans [OF s(1)] by (auto simp: good_def)
  moreover have "good (start_handler_task h s0)" if "same_rest s s0" "s_pst s0 = s_pst s" for s0
    using start_handler_task_total [of h s0] same_rest_trans [OF that(1)] that(2) by (auto simp: good_def)
  moreover have "same_rest s s" by (simp add: same_rest_def)
  moreover have "throttle_or_start env h s =
      (if hc_throttling_enabled (GetConfig h) \<and> IsLimitReached env then throttle_pending env s
       else if hc_throttling_enabled (GetConfig h) then (if ok then start_handler_task h ?s else throttle_congestion env ?s)
       else start_handler_task h s)"
    using ok by (simp add: throttle_or_start_def Let_def)
  ultimately have "good (throttle_or_start env h s)" using s by simp
  then show ?thesis by (simp add: good_def)
qed

lemma StartRequestTask_total:
  assumes "CheckHeaderValue (server_name (s_server s)) = Inr ()" and "CheckHeaderValue (pe_hostname (se_pipe env)) = Inr ()"
    and "se_new_request_hook env = None" and "room (s_response s) 3"
  shows "\<exists>t s'. StartRequestTask env s = (Inr t, s') \<and> same_rest s s' \<and> (t \<noteq> FailsafeTask \<longrightarrow> room (s_response s') 2)"
proof -
  obtain r where r: "put_header (''Server'', server_name (s_server s)) (s_pst s) =
      (Inr (), (s_pst s)\<lparr>p_svc := (p_svc (s_pst s))\<lparr>svc_request := (s_request s)\<lparr>response := r\<rparr>\<rparr>\<rparr>)" (is "_ = (_, ?p)") "room r 2"
    using put_header_room [OF server_names_ok(1) assms(1), of "s_pst s" 2] assms(4) by (auto simp: numeral_eq_Suc)
  let ?s = "s\<lparr>s_pst := ?p\<rparr>"
  have same: "same_rest s ?s" "room (s_response ?s) 2" using r(2) by (simp_all add: same_rest_def)
  have "on_pst (put_header (''Server'', server_name (s_server s))) s = (Inr (), ?s)" using r(1) by (simp add: on_pst_def)
  then consider (failsafe) "StartRequestTask env s = (Inr FailsafeTask, ?s)"
    | (dispatch) h where "StartRequestTask env s = throttle_or_start env h ?s"
    using assms(3)
    by (cases "is_ready r"; cases "req_task_processor (s_request s)"; cases "req_handler (s_request s)")
      (auto simp: StartRequestTask_def act_then_def act_bind_def act_return_def)
  then show ?thesis
  proof cases
    case failsafe
    then show ?thesis using same by auto
  next
    case (dispatch h)
    then show ?thesis using throttle_or_start_total [OF assms(2) same(2), of h] same_rest_trans [OF same(1)] same(2) by metis
  qed
qed

lemma failsafe_total:
  assumes "pe_format_error (se_pipe env) = GetFormattedExternalErrorBody"
  shows "\<exists>s'. StartFailsafeTask env s = (Inr (), s') \<and> same_rest s s' \<and> is_ready (s_response s')"
  by (cases "req_handler (s_request s)")
    (auto simp: StartFailsafeTask_def ReportMalformedRequest_def assms formatted_default pipe_defs on_pst_def same_rest_def SetReady_def)

lemma payload_total:
  assumes "se_first_middleware env = default_pipeline (se_pipe env)"
    and "pe_format_error (se_pipe env) = GetFormattedExternalErrorBody"
    and "CheckHeaderValue (pe_hostname (se_pipe env)) = Inr ()" and "room (s_response s) 2"
  shows "\<exists>s'. request_payload env s = (Inr (), s') \<and> running (s_pst s') = running (s_pst s)
     \<and> is_ready (s_response s') \<and> headers_end (s_response s')"
proof -
  obtain p where p: "SetResponseServerHostname (se_pipe env) (s_pst s) = (Inr (), p)" "p_stats p = p_stats (s_pst s)"
    using put_header_room [OF server_names_ok(2) assms(3), of "s_pst s" 1] assms(4)
    by (cases "pe_set_response_server_hostname (se_pipe env)")
      (auto simp: SetResponseServerHostname_def act_return_def numeral_2_eq_2)
  obtain p' where p': "default_pipeline (se_pipe env) p = (Inr (), p')" "running p' = running p"
    using default_pipeline_total [OF assms(2)] by blast
  have "running p = running (s_pst s)" using p(2) by (simp add: running_def fun_eq_iff)
  moreover have "running (q\<lparr>p_svc := v\<rparr>) = running q" for q :: "'a Pst" and v by (simp add: running_def fun_eq_iff)
  ultimately show ?thesis using p p'
    by (simp add: request_payload_def PrepareAndHandleRequest_def assms(1) on_pst_def pipe_defs SetReady_def SetHeadersEnd_def)
qed

text \<open>
  (C4) Whatever the handler does, whether it returns, throws an exception of its own, any other
  \<open>std::exception\<close> or something else, and whether or not the server throttles the request: the
  task of the request ends normally with a response that is ready, no request stays counted as
  being in flight, and either the headers are closed or the database was not touched.
\<close>

theorem every_request_answered:
  assumes "BuildMiddlewarePipeline (se_pipe env) (builtin_middleware (se_pipe env)) [] DefaultPipeline = Inr (se_first_middleware env)"
    and "pe_format_error (se_pipe env) = GetFormattedExternalErrorBody"
    and "CheckHeaderValue (server_name (s_server s)) = Inr ()" and "CheckHeaderValue (pe_hostname (se_pipe env)) = Inr ()"
    and "se_new_request_hook env = None" and "room (s_response s) 3"
  shows "\<exists>s'. serve env s = (Inr (), s') \<and> is_ready (s_response s') \<and> running (s_pst s') = running (s_pst s)
     \<and> (headers_end (s_response s') \<or> svc_db (p_svc (s_pst s')) = svc_db (p_svc (s_pst s)))"
proof -
  have first: "se_first_middleware env = default_pipeline (se_pipe env)" using assms(1) by (simp add: build_default_pipeline)
  obtain t s1 where s1: "StartRequestTask env s = (Inr t, s1)" "same_rest s s1" "t \<noteq> FailsafeTask \<longrightarrow> room (s_response s1) 2"
    using StartRequestTask_total [OF assms(3-6)] by blast
  have run: "running (s_pst s1) = running (s_pst s)" using s1(2) by (simp add: same_rest_def running_def fun_eq_iff)
  have serve: "serve env s = run_task env t s1" using s1(1) by (simp add: serve_def)
  show ?thesis
  proof (cases t)
    case FailsafeTask
    obtain s2 where s2: "StartFailsafeTask env s1 = (Inr (), s2)" "same_rest s1 s2" "is_ready (s_response s2)"
      using failsafe_total [OF assms(2)] by blast
    then have "same_rest s s2" using s1(2) same_rest_trans by blast
    then show ?thesis using serve FailsafeTask s2 by (auto simp: same_rest_def running_def fun_eq_iff)
  next
    case (HandlerTask c)
    then show ?thesis using payload_total [OF first assms(2,4), of s1] s1(3) serve run by auto
  qed
qed

subsection \<open>A service behind the default pipeline\<close>

text \<open>Everything that is optional is switched off, the tracing formats too.\<close>

definition service_env :: "HandlerConfig \<Rightarrow> ('db, string) svc_act \<Rightarrow> 'db PipeEnv" where
  "service_env cfg h =
     \<lparr>pe_config = cfg, pe_handle_request = HandleRequest h, pe_handle_stream = HandleStreamRequest,
      pe_parse_request_data = act_return (), pe_format_error = GetFormattedExternalErrorBody, pe_need_check_auth = True,
      pe_auth_checkers = [], pe_gzip_decompress = \<lambda>_ _. Inl OtherDecompressionError,
      pe_zstd_decompress = \<lambda>_ _. Inl OtherDecompressionError, pe_tracing_formats = {},
      pe_span_random = [], pe_span_should_log = True, pe_try_make_baggage = \<lambda>_. None,
      pe_hostname = ''host'', pe_set_response_server_hostname = False, pe_baggage_enabled = False,
      pe_deadline_propagation_enabled = True, pe_should_cancel = False, pe_cancelled_by_deadline = False,
      pe_deadline_signal = False, pe_start_time = 0, pe_rate_limit_time = 0, pe_coarse_now = 0, pe_coarse_resolution = 0,
      pe_complete_time = 0\<rparr>"

definition open_bucket :: TokenBucket where
  "open_bucket = \<lparr>max_size = 2 ^ 64 - 1, token_refill_amount = 1, token_refill_interval = 0, tokens = 2 ^ 64 - 1,
     last_update = 0, obtain_failed = 0\<rparr>"

definition fresh_pst :: "HttpRequest \<Rightarrow> 'db \<Rightarrow> 'db Pst" where
  "fresh_pst r db =
     \<lparr>p_svc = \<lparr>svc_request = r, svc_db = db\<rparr>, p_rate_limit = open_bucket, p_stats = \<lambda>_. initial_method_statistics,
      p_inherited_deadline = None, p_cancelled_by_deadline = False, p_baggage = None\<rparr>"

definition sample_server :: HttpRequestHandler where
  "sample_server =
     \<lparr>hrh_is_monitor = False, server_name = ''userver'', handler_info_index = empty_HandlerInfoIndex,
      server_rate_limit = open_bucket, cc_status_code = HttpStatus_kTooManyRequests, cc_enabled_tp = 0, cc_status_code_is_custom = 0\<rparr>"

definition sample_serve_env :: "'db PipeEnv \<Rightarrow> 'db ServeEnv" where
  "sample_serve_env env =
     \<lparr>se_pipe = env, se_first_middleware = default_pipeline env, se_new_request_hook = None, se_now = 0, se_cc_max_time = 0,
      se_cc_initial_status_code = HttpStatus_kTooManyRequests, se_pending_responses_size = 0,
      se_max_pending_responses_size = 1000\<rparr>"

lemma initial_room: "room initial_response n \<longleftrightarrow> n \<le> 24576"
  by (simp add: room_def initial_response_def UsableCapacity_def kMaxSize_def)

theorem every_request_answered_witness:
  "\<exists>s'. serve (sample_serve_env (service_env (sample_config ''/hello'' kBoth) Hello_HandleRequestThrow))
      \<lparr>s_pst = fresh_pst initial_request (), s_server = sample_server, s_stream_body = False\<rparr> = (Inr (), s') \<and> is_ready (s_response s')"
proof -
  let ?env = "service_env (sample_config ''/hello'' kBoth) Hello_HandleRequestThrow"
  let ?s = "\<lparr>s_pst = fresh_pst initial_request (), s_server = sample_server, s_stream_body = False\<rparr>"
  have names: "CheckHeaderValue ''userver'' = Inr ()" "CheckHeaderValue ''host'' = Inr ()"
    by (simp_all add: CheckHeaderValue_def bad_value_char_def)
  have "room (s_response ?s) 3" by (simp add: fresh_pst_def initial_request_def initial_room)
  with every_request_answered [of "sample_serve_env ?env" ?s] show ?thesis
    by (auto simp: names sample_serve_env_def service_env_def sample_server_def build_default_pipeline)
qed

subsection \<open>What the handler answers is what is sent\<close>

definition entered :: "'db Pst \<Rightarrow> 'db Pst" where
  "entered s = s\<lparr>p_stats := ForMethod (p_method s) IncrementInFlight (p_stats s)\<rparr>"

lemma close_scope_svc [simp]: "p_svc (close_statistics_scope m s) = p_svc s"
  by (simp add: close_statistics_scope_def Let_def)

lemma default_pipeline_admitted:
  assumes "admission env (entered s) = (Inr True, s1)" and "UnknownExceptionsHandling env (handling env) s1 = (Inr (), s2)"
  shows "default_pipeline env s = (Inr (), close_statistics_scope (p_method s) s2)"
proof -
  have "guarded env (entered s) = handling env s1" using assms(1) by (simp add: guarded_def)
  then have "UnknownExceptionsHandling env (guarded env) (entered s) = (Inr (), s2)"
    using assms(2) by (simp add: UnknownExceptionsHandling_def act_try_def)
  then show ?thesis by (simp add: default_pipeline_def HandlerMetrics_def Let_def pipe_defs entered_def)
qed

text \<open>The view the handler gets: the system headers are closed.\<close>

definition handler_view :: "'db svc \<Rightarrow> 'db svc" where
  "handler_view v = v\<lparr>svc_request := (svc_request v)\<lparr>response := SetSystemHeadersEnd (response (svc_request v))\<rparr>\<rparr>"

lemma HandlerAdapter_run:
  assumes "pe_parse_request_data env = act_return ()" and "\<not> hc_response_body_stream (pe_config env)"
  shows "HandlerAdapter env s =
     (case pe_handle_request env (handler_view (p_svc s)) of
        (Inl e, v) \<Rightarrow> (Inl e, s\<lparr>p_svc := v\<rparr>)
      | (Inr body, v) \<Rightarrow>
          (Inr (), s\<lparr>p_svc := v\<lparr>svc_request := (svc_request v)\<lparr>response := SetData body (response (svc_request v))\<rparr>\<rparr>\<rparr>))"
  using assms by (simp add: HandlerAdapter_def HandleHttpRequest_def pipe_defs on_svc_def handler_view_def split: prod.splits sum.splits)

lemma no_deadline_reached: "\<not> IsSurelyReachedApprox a b kUnreachable"
  by (simp add: IsSurelyReachedApprox_def IsReachable_def)

text \<open>The deadline of a request is missed when it has passed before the handler runs or when the handler is done.\<close>

definition deadline_missed :: "'db PipeEnv \<Rightarrow> Deadline \<Rightarrow> bool" where
  "deadline_missed env d \<longleftrightarrow>
     IsSurelyReachedApprox (pe_coarse_now env) (pe_coarse_resolution env) d
     \<or> IsReachable d \<and> (pe_cancelled_by_deadline env \<or> pe_deadline_signal env \<or> IsReached (pe_complete_time env) d)"

lemma unreachable_not_missed: "\<not> deadline_missed env kUnreachable"
  by (simp add: deadline_missed_def IsSurelyReachedApprox_def IsReachable_def)

lemma DeadlinePropagation_passes:
  assumes "\<not> deadline_missed env d" and "SetupInheritedDeadline env (p_request s) = d" and "\<not> p_cancelled_by_deadline s"
    and "Next (s\<lparr>p_inherited_deadline := Some d\<rparr>) = (r, s')"
    and "p_inherited_deadline s' = Some d" and "\<not> p_cancelled_by_deadline s'"
  shows "DeadlinePropagation env Next s = (r, s')"
proof -
  have complete: "CompleteDeadlinePropagation env s' = (Inr (), s')"
    using assms(1,5) by (simp add: CompleteDeadlinePropagation_def deadline_missed_def)
  have "SetUpInheritedData env s = (Inr (), s\<lparr>p_inherited_deadline := Some d\<rparr>)"
    using assms(1,2) by (simp add: SetUpInheritedData_def Let_def deadline_missed_def act_finally_def act_return_def)
  then show ?thesis using assms(3,4,6) complete
    by (cases r) (auto simp: DeadlinePropagation_def act_then_def act_bind_def act_try_def act_throw_def split: hexn.splits)
qed

lemmas DeadlinePropagation_none = DeadlinePropagation_passes [OF unreachable_not_missed]

lemma handling_answer:
  assumes "SetupInheritedDeadline env (p_request s) = kUnreachable" and "\<not> p_cancelled_by_deadline s"
    and "pe_parse_request_data env = act_return ()" and "\<not> hc_response_body_stream (pe_config env)"
    and "pe_handle_request env (handler_view (p_svc s)) = (Inr body, v)"
  shows "handling env s = (Inr (), s\<lparr>p_inherited_deadline := Some kUnreachable,
     p_svc := v\<lparr>svc_request := (svc_request v)\<lparr>response := SetData body (response (svc_request v))\<rparr>\<rparr>\<rparr>)"
proof -
  have "DeadlinePropagation env (HandlerAdapter env) s = (Inr (), s\<lparr>p_inherited_deadline := Some kUnreachable,
     p_svc := v\<lparr>svc_request := (svc_request v)\<lparr>response := SetData body (response (svc_request v))\<rparr>\<rparr>\<rparr>)"
    by (rule DeadlinePropagation_none [OF assms(1,2)]) (use assms(2,5) in \<open>simp_all add: HandlerAdapter_run [OF assms(3,4)]\<close>)
  then show ?thesis by (simp add: handling_def ExceptionsHandling_def act_try_def)
qed

text \<open>
  (C21) When the checks before the handler let a request through, there is no deadline and the
  handler returns normally, then the response and the database are exactly what the handler left,
  with the returned text as the body: no middleware changes the answer.
\<close>

theorem handler_answer_delivered:
  assumes "BuildMiddlewarePipeline env (builtin_middleware env) [] DefaultPipeline = Inr first_middleware"
    and "admission env (entered s) = (Inr True, s1)"
    and "SetupInheritedDeadline env (p_request s1) = kUnreachable" and "\<not> p_cancelled_by_deadline s1"
    and "pe_parse_request_data env = act_return ()" and "\<not> hc_response_body_stream (pe_config env)"
    and "pe_handle_request env (handler_view (p_svc s1)) = (Inr body, v)"
  shows "\<exists>s'. first_middleware s = (Inr (), s') \<and> svc_db (p_svc s') = svc_db v
     \<and> p_request s' = (svc_request v)\<lparr>response := SetData body (response (svc_request v))\<rparr>"
proof -
  have first: "first_middleware = default_pipeline env" using assms(1) by (simp add: build_default_pipeline)
  note h = handling_answer [OF assms(3-7)]
  have "UnknownExceptionsHandling env (handling env) s1 = handling env s1" using h by (simp add: UnknownExceptionsHandling_def act_try_def)
  with h default_pipeline_admitted [OF assms(2)] show ?thesis unfolding first by simp
qed

subsection \<open>What an exception of the handler becomes\<close>

lemma same_response: "s\<lparr>p_svc := (p_svc s)\<lparr>svc_request := (p_request s)\<lparr>response := p_response s\<rparr>\<rparr>\<rparr> = s"
  by simp

lemma SetHeader_headers_end: "SetHeader n v r = Inr (b, r') \<Longrightarrow> headers_end r' = headers_end r"
  by (auto simp: SetHeader_def rbind_eq_Inr split: if_splits)

text \<open>What the handler sees of the state is its request and its database.\<close>

lemma HandlerAdapter_frame:
  assumes "HandlerAdapter env s = (x, s')"
  shows "HandlerAdapter env (s\<lparr>p_inherited_deadline := d\<rparr>) = (x, s'\<lparr>p_inherited_deadline := d\<rparr>)"
    and "p_inherited_deadline s' = p_inherited_deadline s" and "p_cancelled_by_deadline s' = p_cancelled_by_deadline s"
  using assms
  by (auto simp: HandlerAdapter_def HandleHttpRequest_def pipe_defs on_svc_def split: prod.splits sum.splits if_splits)

text \<open>
  The answer to an exception: its status, body and user headers, given the response as the handler
  left it.  A handler's own exception may bring headers along; one that cannot be set is an
  exception again.
\<close>

definition extra_headers_ok :: "CustomHandlerException \<Rightarrow> bool" where
  "extra_headers_ok ex \<longleftrightarrow>
     (\<forall>h\<in>set (che_extra_headers ex). CheckHeaderName (fst h) = Inr () \<and> CheckHeaderValue (snd h) = Inr ())"

lemma SetHeader_bad:
  "\<not> headers_end r \<Longrightarrow> \<not> (CheckHeaderName n = Inr () \<and> CheckHeaderValue v = Inr ()) \<Longrightarrow> \<exists>e. SetHeader n v r = Inl e"
  by (cases "CheckHeaderName n"; cases "CheckHeaderValue v") (auto simp: SetHeader_def)

lemma SetHeader_contains:
  assumes "SetHeader n v r = Inr (b, r')" and "\<not> headers_end r"
  shows "HasHeader n r'" and "HasHeader m r \<Longrightarrow> HasHeader m r'" and "resp_status r' = resp_status r" and "resp_data r' = resp_data r"
  using assms by (auto simp: SetHeader_def rbind_eq_Inr HasHeader_def headers_contains_iff insert_or_assign_def InsertOrModify_names split: if_splits)

lemma extra_headers_cases:
  assumes "room (p_response s) (length hs)" and "\<not> headers_end (p_response s)"
  shows "\<exists>x r. act_each put_header hs s = (x, s\<lparr>p_svc := (p_svc s)\<lparr>svc_request := (p_request s)\<lparr>response := r\<rparr>\<rparr>\<rparr>)
     \<and> \<not> headers_end r \<and> resp_status r = resp_status (p_response s) \<and> resp_data r = resp_data (p_response s)
     \<and> (\<forall>m. HasHeader m (p_response s) \<longrightarrow> HasHeader m r)
     \<and> (if \<forall>h\<in>set hs. CheckHeaderName (fst h) = Inr () \<and> CheckHeaderValue (snd h) = Inr ()
        then x = Inr () \<and> (\<forall>h\<in>set hs. HasHeader (fst h) r) else \<exists>e. x = Inl (StdException e))"
  using assms
proof (induction hs arbitrary: s)
  case Nil
  then show ?case using same_response [of s] by (intro exI [of _ "Inr ()"] exI [of _ "p_response s"]) (simp add: act_return_def)
next
  case (Cons h hs)
  show ?case
  proof (cases "CheckHeaderName (fst h) = Inr () \<and> CheckHeaderValue (snd h) = Inr ()")
    case False
    then obtain e where "SetHeader (fst h) (snd h) (p_response s) = Inl e" using SetHeader_bad Cons.prems(2) by blast
    then have "put_header h s = (Inl (StdException e), s)" by (simp add: put_header_def)
    then show ?thesis using same_response [of s] False Cons.prems(2)
      by (intro exI [of _ "Inl (StdException e)"] exI [of _ "p_response s"]) (auto simp: act_then_def act_bind_def)
  next
    case True
    obtain b r1 where r1: "SetHeader (fst h) (snd h) (p_response s) = Inr (b, r1)" "room r1 (length hs)"
      using SetHeader_room [of "fst h" "snd h" "p_response s" "length hs"] True Cons.prems(1) by auto
    let ?s1 = "s\<lparr>p_svc := (p_svc s)\<lparr>svc_request := (p_request s)\<lparr>response := r1\<rparr>\<rparr>\<rparr>"
    note c = SetHeader_contains [OF r1(1) Cons.prems(2)]
    have "\<not> headers_end r1" using SetHeader_headers_end [OF r1(1)] Cons.prems(2) by simp
    then obtain x r2 where r2: "act_each put_header hs ?s1 = (x, ?s1\<lparr>p_svc := (p_svc ?s1)\<lparr>svc_request := (p_request ?s1)\<lparr>response := r2\<rparr>\<rparr>\<rparr>)"
        "\<not> headers_end r2" "resp_status r2 = resp_status r1" "resp_data r2 = resp_data r1" "\<forall>m. HasHeader m r1 \<longrightarrow> HasHeader m r2"
        "if \<forall>h\<in>set hs. CheckHeaderName (fst h) = Inr () \<and> CheckHeaderValue (snd h) = Inr ()
        then x = Inr () \<and> (\<forall>h\<in>set hs. HasHeader (fst h) r2) else \<exists>e. x = Inl (StdException e)"
      using Cons.IH [of ?s1] r1(2) by auto
    have "act_each put_header (h # hs) s = act_each put_header hs ?s1"
      using r1(1) by (simp add: act_then_def act_bind_def put_header_def upd_response_eq)
    then show ?thesis using r2 True c by (intro exI [of _ x] exI [of _ r2]) simp
  qed
qed

definition unknown_answer :: "'db PipeEnv \<Rightarrow> HttpResponse \<Rightarrow> HttpResponse \<Rightarrow> bool" where
  "unknown_answer env r r' \<longleftrightarrow>
     (if pe_should_cancel env then resp_status r' = HttpStatus_kNginxClientClosedRequest \<and> resp_data r' = resp_data r
        \<and> user_headers r' = user_headers r
      else resp_status r' = HttpStatus_kInternalServerError \<and> resp_data r' = [] \<and> user_headers r' = [])
     \<and> system_headers r' = system_headers r"

lemma HandleUnknownException_answer:
  assumes "pe_format_error env = GetFormattedExternalErrorBody" and "\<not> headers_end (p_response s)"
  shows "\<exists>r. HandleUnknownException env s = (Inr (), s\<lparr>p_svc := (p_svc s)\<lparr>svc_request := (p_request s)\<lparr>response := r\<rparr>\<rparr>\<rparr>)
     \<and> unknown_answer env (p_response s) r"
proof -
  let ?r = "if pe_should_cancel env then (p_response s)\<lparr>resp_status := HttpStatus_kNginxClientClosedRequest\<rparr>
    else (p_response s)\<lparr>resp_status := HttpStatus_kInternalServerError, user_headers := [], resp_data := []\<rparr>"
  show ?thesis using assms
    by (intro exI [of _ ?r]) (simp add: HandleUnknownException_def unknown_answer_def formatted_default pipe_defs SetStatus_def
        SetData_def MarkAsInternalServerError_def ClearUserHeaders_def plain_exception_def)
qed

lemma handling_throws:
  assumes "\<not> deadline_missed env (SetupInheritedDeadline env (p_request s))" and "\<not> p_cancelled_by_deadline s"
    and "HandlerAdapter env s = (Inl e, s2)"
  shows "DeadlinePropagation env (HandlerAdapter env) s =
     (Inl e, s2\<lparr>p_inherited_deadline := Some (SetupInheritedDeadline env (p_request s))\<rparr>)"
  by (rule DeadlinePropagation_passes [where Next = "HandlerAdapter env", OF assms(1) refl assms(2) HandlerAdapter_frame(1) [OF assms(3), of "Some (SetupInheritedDeadline env (p_request s))"]])
    (use HandlerAdapter_frame(3) [OF assms(3)] assms(2) in simp_all)

lemma handling_unknown:
  assumes "\<not> deadline_missed env (SetupInheritedDeadline env (p_request s))" and "\<not> p_cancelled_by_deadline s"
    and "HandlerAdapter env s = (Inl (StdException x), s2)"
    and "pe_format_error env = GetFormattedExternalErrorBody" and "\<not> headers_end (p_response s2)"
  shows "\<exists>s'. UnknownExceptionsHandling env (handling env) s = (Inr (), s') \<and> svc_db (p_svc s') = svc_db (p_svc s2)
     \<and> unknown_answer env (p_response s2) (p_response s')"
proof -
  let ?s = "s2\<lparr>p_inherited_deadline := Some (SetupInheritedDeadline env (p_request s))\<rparr>"
  obtain r where "HandleUnknownException env ?s = (Inr (), ?s\<lparr>p_svc := (p_svc ?s)\<lparr>svc_request := (p_request ?s)\<lparr>response := r\<rparr>\<rparr>\<rparr>)"
      "unknown_answer env (p_response s2) r"
    using HandleUnknownException_answer [OF assms(4), of ?s] assms(5) by auto
  then show ?thesis using handling_throws [OF assms(1-3)]
    by (simp add: handling_def UnknownExceptionsHandling_def ExceptionsHandling_def act_try_def)
qed

lemma response_upd_inject:
  fixes s :: "'db Pst"
  assumes "s\<lparr>p_svc := v\<lparr>svc_request := q\<lparr>response := a\<rparr>\<rparr>\<rparr> = s\<lparr>p_svc := v\<lparr>svc_request := q\<lparr>response := b\<rparr>\<rparr>\<rparr>"
  shows "a = b"
  using arg_cong [OF assms, of p_response] by simp

lemma handling_own:
  assumes "\<not> deadline_missed env (SetupInheritedDeadline env (p_request s))" and "\<not> p_cancelled_by_deadline s"
    and "HandlerAdapter env s = (Inl (CustomHandler ex), s2)"
    and "pe_format_error env = GetFormattedExternalErrorBody" and "\<not> headers_end (p_response s2)"
    and "room (p_response s2) (length (che_extra_headers ex))"
  shows "\<exists>s'. UnknownExceptionsHandling env (handling env) s = (Inr (), s') \<and> svc_db (p_svc s') = svc_db (p_svc s2)
     \<and> (if extra_headers_ok ex
        then resp_status (p_response s') = GetHttpStatus_exception ex \<and> resp_data (p_response s') = che_external_body ex
          \<and> (\<forall>n. HasHeader n (p_response s2) \<longrightarrow> HasHeader n (p_response s'))
          \<and> (\<forall>h\<in>set (che_extra_headers ex). HasHeader (fst h) (p_response s'))
          \<and> (che_extra_headers ex = [] \<longrightarrow> user_headers (p_response s') = user_headers (p_response s2)
              \<and> system_headers (p_response s') = system_headers (p_response s2))
        else resp_status (p_response s') =
          (if pe_should_cancel env then HttpStatus_kNginxClientClosedRequest else HttpStatus_kInternalServerError))"
proof -
  define s3 where "s3 = s2\<lparr>p_inherited_deadline := Some (SetupInheritedDeadline env (p_request s))\<rparr>"
  have s3: "p_svc s3 = p_svc s2" by (simp add: s3_def)
  define r0 where "r0 = (p_response s2)\<lparr>resp_status := GetHttpStatus_exception ex, resp_data := che_external_body ex\<rparr>"
  let ?s0 = "s3\<lparr>p_svc := (p_svc s3)\<lparr>svc_request := (p_request s3)\<lparr>response := r0\<rparr>\<rparr>\<rparr>"
  have r0: "room (p_response ?s0) (length (che_extra_headers ex))" "\<not> headers_end (p_response ?s0)"
      "resp_status r0 = GetHttpStatus_exception ex" "resp_data r0 = che_external_body ex" "HasHeader n r0 = HasHeader n (p_response s2)" for n
    using assms(5,6) s3 by (simp_all add: r0_def room_def HasHeader_def)
  have custom: "HandleCustomHandlerException env ex s3 = act_each put_header (che_extra_headers ex) ?s0"
    using assms(4,5) s3 by (simp add: HandleCustomHandlerException_def formatted_default pipe_defs SetStatus_def SetData_def r0_def)
  obtain x r where r: "act_each put_header (che_extra_headers ex) ?s0 =
        (x, ?s0\<lparr>p_svc := (p_svc ?s0)\<lparr>svc_request := (p_request ?s0)\<lparr>response := r\<rparr>\<rparr>\<rparr>)" (is "_ = (_, ?s1)")
      "\<not> headers_end r" "resp_status r = resp_status (p_response ?s0)" "resp_data r = resp_data (p_response ?s0)"
      "\<forall>m. HasHeader m (p_response ?s0) \<longrightarrow> HasHeader m r"
      "if extra_headers_ok ex then x = Inr () \<and> (\<forall>h\<in>set (che_extra_headers ex). HasHeader (fst h) r) else \<exists>e. x = Inl (StdException e)"
    using extra_headers_cases [OF r0(1,2)] unfolding extra_headers_ok_def by blast
  have none: "r = r0" if "che_extra_headers ex = []"
    using r(1) that by (intro response_upd_inject [where s = s3 and v = "p_svc s3" and q = "p_request s3"]) (simp add: act_return_def)
  have "handling env s = HandleCustomHandlerException env ex s3" using handling_throws [OF assms(1-3)]
    by (simp add: handling_def ExceptionsHandling_def act_try_def s3_def)
  then have h: "handling env s = (x, ?s1)" using custom r(1) by simp
  show ?thesis
  proof (cases "extra_headers_ok ex")
    case True
    then show ?thesis using h r(3-6) r0(3-5) none s3 by (auto simp: UnknownExceptionsHandling_def act_try_def r0_def)
  next
    case False
    then obtain e where e: "x = Inl (StdException e)" using r(6) by auto
    obtain r' where "HandleUnknownException env ?s1 = (Inr (), ?s1\<lparr>p_svc := (p_svc ?s1)\<lparr>svc_request := (p_request ?s1)\<lparr>response := r'\<rparr>\<rparr>\<rparr>)"
        "unknown_answer env (p_response ?s1) r'"
      using HandleUnknownException_answer [OF assms(4), of ?s1] r(2) by auto
    then show ?thesis using h e False s3 by (auto simp: UnknownExceptionsHandling_def act_try_def unknown_answer_def)
  qed
qed

lemma handling_other:
  assumes "\<not> deadline_missed env (SetupInheritedDeadline env (p_request s))" and "\<not> p_cancelled_by_deadline s"
    and "HandlerAdapter env s = (Inl NonStdException, s2)" and "\<not> headers_end (p_response s2)"
  shows "\<exists>s'. UnknownExceptionsHandling env (handling env) s = (Inr (), s') \<and> svc_db (p_svc s') = svc_db (p_svc s2)
     \<and> p_response s' = (p_response s2)\<lparr>resp_status := HttpStatus_kNginxClientClosedRequest\<rparr>"
  using handling_throws [OF assms(1-3)] assms(4)
  by (simp add: handling_def UnknownExceptionsHandling_def ExceptionsHandling_def pipe_defs SetStatus_def)

text \<open>
  (C8) An exception of the handler, or of the parsing of its request data, becomes an answer.  A
  handler's own exception gives its status, its body and its headers; if one of its headers cannot
  be set, that is an error of the server.  Any other \<open>std::exception\<close> gives 500 with an empty body
  and without the headers the handler had set, or only the status 499 when the task is to be
  cancelled, and anything else gives 499.  What the handler did to the database stays done.  This
  holds for plain and for streamed bodies, when the checks before the handler let the request
  through, its deadline (if it has one) is not missed, errors are formatted in the default way, the
  handler has not closed the headers, and the response has room for the headers of the exception.
\<close>

theorem handler_exception_answered:
  assumes "BuildMiddlewarePipeline env (builtin_middleware env) [] DefaultPipeline = Inr first_middleware"
    and "admission env (entered s) = (Inr True, s1)"
    and "\<not> deadline_missed env (SetupInheritedDeadline env (p_request s1))" and "\<not> p_cancelled_by_deadline s1"
    and "HandlerAdapter env s1 = (Inl e, s2)"
    and "pe_format_error env = GetFormattedExternalErrorBody" and "\<not> headers_end (p_response s2)"
    and "\<And>ex. e = CustomHandler ex \<Longrightarrow> room (p_response s2) (length (che_extra_headers ex))"
  shows "\<exists>s'. first_middleware s = (Inr (), s') \<and> svc_db (p_svc s') = svc_db (p_svc s2)
     \<and> (case e of
          CustomHandler ex \<Rightarrow>
            if \<forall>h\<in>set (che_extra_headers ex). CheckHeaderName (fst h) = Inr () \<and> CheckHeaderValue (snd h) = Inr ()
            then resp_status (p_response s') = GetHttpStatus_exception ex \<and> resp_data (p_response s') = che_external_body ex
              \<and> (\<forall>n. HasHeader n (p_response s2) \<longrightarrow> HasHeader n (p_response s'))
              \<and> (\<forall>h\<in>set (che_extra_headers ex). HasHeader (fst h) (p_response s'))
              \<and> (che_extra_headers ex = [] \<longrightarrow> user_headers (p_response s') = user_headers (p_response s2)
                  \<and> system_headers (p_response s') = system_headers (p_response s2))
            else resp_status (p_response s') =
              (if pe_should_cancel env then HttpStatus_kNginxClientClosedRequest else HttpStatus_kInternalServerError)
        | StdException x \<Rightarrow>
            system_headers (p_response s') = system_headers (p_response s2) \<and>
            (if pe_should_cancel env
             then resp_status (p_response s') = HttpStatus_kNginxClientClosedRequest
               \<and> resp_data (p_response s') = resp_data (p_response s2) \<and> user_headers (p_response s') = user_headers (p_response s2)
             else resp_status (p_response s') = HttpStatus_kInternalServerError
               \<and> resp_data (p_response s') = [] \<and> user_headers (p_response s') = [])
        | NonStdException \<Rightarrow> p_response s' = (p_response s2)\<lparr>resp_status := HttpStatus_kNginxClientClosedRequest\<rparr>)"
proof -
  have first: "first_middleware = default_pipeline env" using assms(1) by (simp add: build_default_pipeline)
  have run: "\<exists>s'. first_middleware s = (Inr (), s') \<and> P (p_svc s')"
    if "\<exists>s'. UnknownExceptionsHandling env (handling env) s1 = (Inr (), s') \<and> P (p_svc s')" for P
    using that default_pipeline_admitted [OF assms(2)] unfolding first by (metis close_scope_svc)
  show ?thesis
  proof (cases e)
    case (CustomHandler ex)
    from handling_own [OF assms(3,4) assms(5) [unfolded CustomHandler] assms(6,7) assms(8) [OF CustomHandler]] show ?thesis
      unfolding CustomHandler hexn.case extra_headers_ok_def by (rule run)
  next
    case (StdException x)
    from handling_unknown [OF assms(3,4) assms(5) [unfolded StdException] assms(6,7)] have "\<exists>s'. first_middleware s = (Inr (), s')
        \<and> svc_db (p_svc s') = svc_db (p_svc s2) \<and> unknown_answer env (p_response s2) (p_response s')"
      by (rule run)
    then show ?thesis unfolding StdException hexn.case unknown_answer_def by (metis (no_types))
  next
    case NonStdException
    from handling_other [OF assms(3,4) assms(5) [unfolded NonStdException] assms(7)] show ?thesis
      unfolding NonStdException hexn.case by (rule run)
  qed
qed

lemma no_span_headers: "pe_tracing_formats env = {} \<Longrightarrow> span_headers env r = []"
  by (simp add: span_headers_def Generic_FillResponseWithTracingContext_def)

lemma admission_plain:
  assumes "pe_tracing_formats env = {}" and "\<not> hc_decompress_request (pe_config env)"
    and "Obtain (pe_rate_limit_time env) (p_rate_limit s) = (True, b)" and "hc_max_requests_in_flight (pe_config env) = None"
    and "\<not> pe_baggage_enabled env" and "pe_auth_checkers env = []"
  shows "admission env s = (Inr True, s\<lparr>p_rate_limit := b\<rparr>)"
  using assms no_span_headers [OF assms(1)]
  by (simp add: admission_def FillResponseWithTracingContext_def SetResponseAcceptEncoding_def CheckRateLimit_def Let_def SetUpBaggage_def
      CheckAuth_def auth_CheckAuth_def DecompressRequestBody_def pipe_defs)

subsection \<open>A body that is not JSON\<close>

lemma open_bucket_obtain: "Obtain now open_bucket = (True, open_bucket)"
  by (simp add: Obtain_def ObtainAll_def Update_def open_bucket_def Let_def)

lemma handler_view_fields [simp]:
  "svc_db (handler_view v) = svc_db v" "req_method (svc_request (handler_view v)) = req_method (svc_request v)"
  "request_body (svc_request (handler_view v)) = request_body (svc_request v)"
  "req_headers (svc_request (handler_view v)) = req_headers (svc_request v)"
  "headers_end (response (svc_request (handler_view v))) = headers_end (response (svc_request v))"
  by (simp_all add: handler_view_def SetSystemHeadersEnd_def)

lemma parse_body_error:
  "FromString (json_parse senv) (request_body (svc_request v)) = Inl e \<Longrightarrow> parse_body senv v = (Inl e, v)"
  by (simp add: parse_body_def act_lift_def RequestBody_def)

lemma bad_body_throws:
  assumes "h \<in> {UsersHandler_HandleRequestThrow senv, MessagesHandler_HandleRequestThrow senv, PostsHandler_HandleRequestThrow senv}"
    and "req_method (svc_request v) = kPost" and "Request_GetHeader (svc_request v) ''Authorization'' = ''Bearer 123''"
    and "FromString (json_parse senv) (request_body (svc_request v)) = Inl e"
  shows "h v = (Inl e, v)"
  using assms(1-3) parse_body_error [OF assms(4)]
  by (auto simp: UsersHandler_HandleRequestThrow_def MessagesHandler_HandleRequestThrow_def PostsHandler_HandleRequestThrow_def
      users_post_def messages_post_def posts_post_def act_bind_def get_method_def act_get_def authorized_def GetMethod_def)

text \<open>
  A POST with a body that is not JSON to the user, chat or wall service is answered with 500
  and an empty body, as if the server had failed, and leaves the database alone.
\<close>

theorem bad_json_is_500:
  assumes "h \<in> {UsersHandler_HandleRequestThrow senv, MessagesHandler_HandleRequestThrow senv, PostsHandler_HandleRequestThrow senv}"
    and "req_method r = kPost" and "Request_GetHeader r ''Authorization'' = ''Bearer 123''"
    and "FromString (json_parse senv) (request_body r) = Inl e"
    and "\<not> headers_end (response r)" and "\<not> hc_decompress_request cfg" and "hc_max_requests_in_flight cfg = None"
    and "\<not> hc_response_body_stream cfg" and "\<not> hc_deadline_propagation_enabled cfg"
    and "BuildMiddlewarePipeline (service_env cfg h) (builtin_middleware (service_env cfg h)) [] DefaultPipeline = Inr first_middleware"
  shows "\<exists>s'. first_middleware (fresh_pst r db) = (Inr (), s') \<and> resp_status (p_response s') = HttpStatus_kInternalServerError
     \<and> resp_data (p_response s') = [] \<and> svc_db (p_svc s') = db"
proof -
  let ?env = "service_env cfg h" and ?s = "entered (fresh_pst r db)"
  have first: "first_middleware = default_pipeline ?env" using assms(10) by (simp add: build_default_pipeline)
  have bucket: "Obtain (pe_rate_limit_time ?env) (p_rate_limit ?s) = (True, open_bucket)"
    by (simp add: service_env_def fresh_pst_def entered_def open_bucket_obtain)
  have adm: "admission ?env ?s = (Inr True, ?s\<lparr>p_rate_limit := open_bucket\<rparr>)" (is "_ = (_, ?s1)")
    by (rule admission_plain [OF _ _ bucket]) (use assms(6,7) in \<open>simp_all add: service_env_def\<close>)
  have view: "p_svc ?s1 = \<lparr>svc_request = r, svc_db = db\<rparr>" "\<not> p_cancelled_by_deadline ?s1" by (simp_all add: fresh_pst_def entered_def)
  have "h (handler_view (p_svc ?s1)) = (Inl e, handler_view (p_svc ?s1))"
    by (rule bad_body_throws [OF assms(1)]) (use assms(2-4) view in \<open>simp_all add: Request_GetHeader_def\<close>)
  then have "pe_handle_request ?env (handler_view (p_svc ?s1)) = (Inl (StdException e), handler_view (p_svc ?s1))"
    by (simp add: service_env_def HandleRequest_def)
  then have run: "HandlerAdapter ?env ?s1 = (Inl (StdException e), ?s1\<lparr>p_svc := handler_view (p_svc ?s1)\<rparr>)"
    using assms(8) by (subst HandlerAdapter_run) (simp_all add: service_env_def)
  have no_deadline: "\<not> deadline_missed ?env (SetupInheritedDeadline ?env (p_request ?s1))"
    using assms(9) unreachable_not_missed by (simp add: SetupInheritedDeadline_def service_env_def)
  from handling_unknown [OF no_deadline view(2) run] obtain s2 where s2:
      "UnknownExceptionsHandling ?env (handling ?env) ?s1 = (Inr (), s2)" "svc_db (p_svc s2) = db"
      "resp_status (p_response s2) = HttpStatus_kInternalServerError" "resp_data (p_response s2) = []"
    using assms(5) view by (auto simp: service_env_def unknown_answer_def)
  show ?thesis unfolding first using default_pipeline_admitted [OF adm s2(1)] s2(2-4) by simp
qed

subsection \<open>Throttled requests\<close>

lemma put_header_svc:
  assumes "CheckHeaderName n = Inr ()" and "CheckHeaderValue v = Inr ()" and "room (p_response s) (Suc k)"
  obtains r where "put_header (n, v) s = (Inr (), s\<lparr>p_svc := (p_svc s)\<lparr>svc_request := (p_request s)\<lparr>response := r\<rparr>\<rparr>\<rparr>)" "room r k"
  using put_header_room [OF assms] by blast

lemma put_header_headers_end:
  "put_header h s = (x, s') \<Longrightarrow> headers_end (p_response s') = headers_end (p_response s)"
  by (auto simp: put_header_def upd_response_eq SetHeader_headers_end split: sum.splits)

lemma SetThrottleReason_headers_end:
  assumes "SetThrottleReason env reason s = (Inr (), s')"
  shows "headers_end (p_response s') = headers_end (p_response s)"
proof -
  obtain s1 where "put_header (''X-YaTaxi-Ratelimited-By'', pe_hostname env) s = (Inr (), s1)"
      "put_header (''X-YaTaxi-Ratelimit-Reason'', reason) s1 = (Inr (), s')"
    using assms by (auto simp: SetThrottleReason_def act_then_eq_Inr)
  from this [THEN put_header_headers_end] show ?thesis by simp
qed

lemma FailProcessing_effect:
  assumes "pe_format_error env = GetFormattedExternalErrorBody" and "\<not> headers_end (p_response s)"
  shows "\<exists>r. FailProcessingAndSetResponse env s = (Inr (), s\<lparr>p_svc := (p_svc s)\<lparr>svc_request := (p_request s)\<lparr>response := r\<rparr>\<rparr>\<rparr>)
     \<and> resp_status r = HttpStatus_kTooManyRequests \<and> resp_data r = []"
proof -
  have "GetHttpStatus_exception (plain_exception E_kTooManyRequests) = HttpStatus_kTooManyRequests"
    by (simp add: GetHttpStatus_exception_def plain_exception_def GetHttpStatus_def kCustomHandlerStatusToHttp_def)
  then show ?thesis using assms
    by (simp add: FailProcessingAndSetResponse_def HandleCustomHandlerException_def formatted_default pipe_defs SetStatus_def SetData_def)
      (auto simp: plain_exception_def act_return_def
        intro: exI [of _ "(p_response s)\<lparr>resp_status := HttpStatus_kTooManyRequests, resp_data := []\<rparr>"])
qed

lemma SetResponseAcceptEncoding_room:
  assumes "room (p_response s) (Suc k)"
  shows "\<exists>r. SetResponseAcceptEncoding env s = (Inr (), s\<lparr>p_svc := (p_svc s)\<lparr>svc_request := (p_request s)\<lparr>response := r\<rparr>\<rparr>\<rparr>)
     \<and> room r k \<and> headers_end r = headers_end (p_response s)"
proof (cases "hc_decompress_request (pe_config env) \<and> \<not> HasHeader ''Accept-Encoding'' (p_response s)")
  case True
  from put_header_svc [OF server_names_ok(5,6) assms] obtain r where
    r: "put_header (''Accept-Encoding'', ''gzip, zstd, identity'') s =
      (Inr (), s\<lparr>p_svc := (p_svc s)\<lparr>svc_request := (p_request s)\<lparr>response := r\<rparr>\<rparr>\<rparr>)" "room r k"
    by auto
  then show ?thesis using True put_header_headers_end [OF r(1)] by (auto simp: SetResponseAcceptEncoding_def)
next
  case False
  moreover have "room (p_response s) k" using assms by (auto simp: room_def)
  ultimately show ?thesis by (auto simp: SetResponseAcceptEncoding_def intro!: exI [of _ "p_response s"])
qed

text \<open>The headers of the span: they can be set if their values are fine, else setting them throws.\<close>

lemma put_headers_cases:
  assumes "\<forall>h\<in>set hs. CheckHeaderName (fst h) = Inr ()" and "room (p_response s) (length hs + k)"
    and "\<not> headers_end (p_response s)"
  shows "\<exists>x r. act_each put_header hs s = (x, s\<lparr>p_svc := (p_svc s)\<lparr>svc_request := (p_request s)\<lparr>response := r\<rparr>\<rparr>\<rparr>)
     \<and> \<not> headers_end r
     \<and> (if \<forall>h\<in>set hs. CheckHeaderValue (snd h) = Inr () then x = Inr () \<and> room r k else \<exists>e. x = Inl (StdException e))"
  using assms
proof (induction hs arbitrary: s)
  case Nil
  then show ?case using same_response [of s] by (intro exI [of _ "Inr ()"] exI [of _ "p_response s"]) (simp add: act_return_def)
next
  case (Cons h hs)
  show ?case
  proof (cases "CheckHeaderValue (snd h)")
    case (Inl e)
    then have "put_header h s = (Inl (StdException e), s)" using Cons.prems by (simp add: put_header_def SetHeader_def)
    then show ?thesis using same_response [of s] Inl Cons.prems(3)
      by (intro exI [of _ "Inl (StdException e)"] exI [of _ "p_response s"]) (simp add: act_then_def act_bind_def)
  next
    case (Inr u)
    then have ok: "CheckHeaderValue (snd h) = Inr ()" by simp
    have r: "room (p_response s) (Suc (length hs + k))" using Cons.prems(2) by simp
    have name: "CheckHeaderName (fst h) = Inr ()" using Cons.prems(1) by simp
    obtain r1 where r1: "put_header (fst h, snd h) s = (Inr (), s\<lparr>p_svc := (p_svc s)\<lparr>svc_request := (p_request s)\<lparr>response := r1\<rparr>\<rparr>\<rparr>)"
        (is "_ = (_, ?s1)") "room r1 (length hs + k)"
      using put_header_room [OF name ok r] by blast
    have "\<not> headers_end r1" using put_header_headers_end [OF r1(1)] Cons.prems(3) by simp
    then obtain x r2 where r2: "act_each put_header hs ?s1 = (x, ?s1\<lparr>p_svc := (p_svc ?s1)\<lparr>svc_request := (p_request ?s1)\<lparr>response := r2\<rparr>\<rparr>\<rparr>)"
        "\<not> headers_end r2"
        "if \<forall>h\<in>set hs. CheckHeaderValue (snd h) = Inr () then x = Inr () \<and> room r2 k else \<exists>e. x = Inl (StdException e)"
      using Cons.IH [of ?s1] Cons.prems(1) r1(2) by auto
    have "act_each put_header (h # hs) s = act_each put_header hs ?s1" using r1(1) by (simp add: act_then_def act_bind_def)
    then show ?thesis using r2 ok by (intro exI [of _ x] exI [of _ r2]) simp
  qed
qed

definition span_headers_ok :: "'db PipeEnv \<Rightarrow> HttpRequest \<Rightarrow> bool" where
  "span_headers_ok env r \<longleftrightarrow>
     hc_set_tracing_headers (pe_config env) \<longrightarrow> (\<forall>h\<in>set (span_headers env r). CheckHeaderValue (snd h) = Inr ())"

lemma FillResponse_cases:
  assumes "room (p_response s) (10 + k)" and "\<not> headers_end (p_response s)"
  shows "\<exists>x r. FillResponseWithTracingContext env s = (x, s\<lparr>p_svc := (p_svc s)\<lparr>svc_request := (p_request s)\<lparr>response := r\<rparr>\<rparr>\<rparr>)
     \<and> \<not> headers_end r
     \<and> (if span_headers_ok env (p_request s) then x = Inr () \<and> room r k else \<exists>e. x = Inl (StdException e))"
proof (cases "hc_set_tracing_headers (pe_config env)")
  case True
  have "length (span_headers env (p_request s)) \<le> 10" by (simp add: span_headers_def Generic_Fill_length)
  then have "room (p_response s) (length (span_headers env (p_request s)) + k)" using assms(1) by (simp add: room_def)
  moreover have "\<forall>h\<in>set (span_headers env (p_request s)). CheckHeaderName (fst h) = Inr ()"
    using Generic_Fill_names by (auto simp: span_headers_def)
  ultimately show ?thesis using put_headers_cases [of "span_headers env (p_request s)" s k] assms(2) True
    by (simp add: FillResponseWithTracingContext_def span_headers_ok_def)
next
  case False
  then show ?thesis using assms
    using same_response [of s]
    by (intro exI [of _ "Inr ()"] exI [of _ "p_response s"]) (simp add: FillResponseWithTracingContext_def span_headers_ok_def room_def)
qed

lemma throttled_admission:
  assumes "Obtain (pe_rate_limit_time env) (p_rate_limit s) = (False, b)"
    and "pe_format_error env = GetFormattedExternalErrorBody" and "CheckHeaderValue (pe_hostname env) = Inr ()"
    and "room (p_response s) 3" and "\<not> headers_end (p_response s)"
  shows "\<exists>r. act_then (SetResponseAcceptEncoding env) (CheckRateLimit env) s =
       (Inr False, s\<lparr>p_svc := (p_svc s)\<lparr>svc_request := (p_request s)\<lparr>response := r\<rparr>\<rparr>, p_rate_limit := b,
          p_stats := ForMethod (p_method s) IncrementRateLimitReached (p_stats s)\<rparr>)
     \<and> resp_status r = HttpStatus_kTooManyRequests \<and> resp_data r = []"
proof -
  let ?m = "p_method s"
  obtain r1 where r1: "SetResponseAcceptEncoding env s = (Inr (), s\<lparr>p_svc := (p_svc s)\<lparr>svc_request := (p_request s)\<lparr>response := r1\<rparr>\<rparr>\<rparr>)"
      "room r1 2" "headers_end r1 = headers_end (p_response s)"
    using SetResponseAcceptEncoding_room [of s 2 env] assms(4) by (auto simp: numeral_eq_Suc)
  let ?s1 = "s\<lparr>p_svc := (p_svc s)\<lparr>svc_request := (p_request s)\<lparr>response := r1\<rparr>\<rparr>, p_rate_limit := b\<rparr>"
  have room1: "room (p_response ?s1) (Suc (Suc 0))" using r1(2) by (simp add: numeral_2_eq_2)
  obtain r2 where r2: "SetThrottleReason env ''global-ratelimit'' ?s1 =
      (Inr (), ?s1\<lparr>p_svc := (p_svc s)\<lparr>svc_request := (p_request s)\<lparr>response := r2\<rparr>\<rparr>\<rparr>)" (is "_ = (_, ?s2)")
    using SetThrottleReason_room [OF assms(3) server_names_ok(11) room1] by auto
  have open2: "\<not> headers_end r2" using SetThrottleReason_headers_end [OF r2] r1(3) assms(5) by simp
  let ?s3 = "?s2\<lparr>p_stats := ForMethod ?m IncrementRateLimitReached (p_stats ?s2)\<rparr>"
  obtain r3 where r3: "FailProcessingAndSetResponse env ?s3 = (Inr (), ?s3\<lparr>p_svc := (p_svc s)\<lparr>svc_request := (p_request s)\<lparr>response := r3\<rparr>\<rparr>\<rparr>)"
      "resp_status r3 = HttpStatus_kTooManyRequests" "resp_data r3 = []"
    using FailProcessing_effect [OF assms(2), of ?s3] open2 by auto
  show ?thesis using assms(1) r1(1) r2 r3
    by (intro exI [of _ r3]) (simp add: CheckRateLimit_def Let_def act_then_def act_bind_def upd_stats_def act_modify_def act_return_def)
qed

text \<open>
  (C33) A request that finds the handler's bucket empty is answered before the handler runs: the
  database is not touched.  The span's headers are set first, so that there are two cases.  If their
  values, some of which come from the request, can be set, the answer is 429 with an empty body, the
  bucket is as \<open>Obtain\<close> leaves it, and the refusal is counted; if not, the answer is 500 (499 when
  the task is to be cancelled), and neither the bucket nor the counter of refusals is reached.  This
  holds for every set of tracing formats and every request; the response must have its headers
  open and room for the 13 headers the middlewares may add.
\<close>

theorem throttled_request:
  assumes "BuildMiddlewarePipeline env (builtin_middleware env) [] DefaultPipeline = Inr first_middleware"
    and "Obtain (pe_rate_limit_time env) (p_rate_limit s) = (False, b)"
    and "pe_format_error env = GetFormattedExternalErrorBody" and "CheckHeaderValue (pe_hostname env) = Inr ()"
    and "room (p_response s) 13" and "\<not> headers_end (p_response s)"
  shows "\<exists>s'. first_middleware s = (Inr (), s') \<and> svc_db (p_svc s') = svc_db (p_svc s)
     \<and> (if hc_set_tracing_headers (pe_config env) \<longrightarrow>
            (\<forall>h\<in>set (span_headers env (p_request s)). CheckHeaderValue (snd h) = Inr ())
        then resp_status (p_response s') = HttpStatus_kTooManyRequests \<and> resp_data (p_response s') = [] \<and> p_rate_limit s' = b
          \<and> rate_limit_reached (p_stats s' (p_method s)) = rate_limit_reached (p_stats s (p_method s)) + 1
        else resp_status (p_response s') =
            (if pe_should_cancel env then HttpStatus_kNginxClientClosedRequest else HttpStatus_kInternalServerError)
          \<and> p_rate_limit s' = p_rate_limit s
          \<and> rate_limit_reached (p_stats s' (p_method s)) = rate_limit_reached (p_stats s (p_method s)))"
proof -
  let ?s = "entered s" and ?m = "p_method s"
  have first: "first_middleware = default_pipeline env" using assms(1) by (simp add: build_default_pipeline)
  have fields: "p_svc ?s = p_svc s" "p_rate_limit ?s = p_rate_limit s"
    "rate_limit_reached (p_stats ?s ?m) = rate_limit_reached (p_stats s ?m)"
    by (simp_all add: entered_def ForMethod_def IncrementInFlight_def)
  obtain x r where fill: "FillResponseWithTracingContext env ?s = (x, ?s\<lparr>p_svc := (p_svc s)\<lparr>svc_request := (p_request s)\<lparr>response := r\<rparr>\<rparr>\<rparr>)"
      (is "_ = (_, ?s1)") "\<not> headers_end r"
      "if span_headers_ok env (p_request s) then x = Inr () \<and> room r 3 else \<exists>e. x = Inl (StdException e)"
    using FillResponse_cases [of ?s 3 env] assms(5,6) fields(1) by auto
  have counted: "rate_limit_reached (p_stats (close_statistics_scope ?m q) ?m) = rate_limit_reached (p_stats q ?m)"
    "p_rate_limit (close_statistics_scope ?m q) = p_rate_limit q" for q :: "'a Pst"
    by (simp_all add: close_statistics_scope_def Let_def ForMethod_def DecrementInFlight_def Account_def)
  show ?thesis
  proof (cases "span_headers_ok env (p_request s)")
    case True
    then have r: "x = Inr ()" "room r 3" using fill(3) by simp_all
    obtain r3 where r3: "act_then (SetResponseAcceptEncoding env) (CheckRateLimit env) ?s1 =
        (Inr False, ?s1\<lparr>p_svc := (p_svc s)\<lparr>svc_request := (p_request s)\<lparr>response := r3\<rparr>\<rparr>, p_rate_limit := b,
           p_stats := ForMethod ?m IncrementRateLimitReached (p_stats ?s)\<rparr>)" (is "_ = (_, ?s4)")
        "resp_status r3 = HttpStatus_kTooManyRequests" "resp_data r3 = []"
      using throttled_admission [of env ?s1 b] assms(2-4) fields r(2) fill(2) by auto
    have "admission env ?s = (Inr False, ?s4)"
      using fill(1) r(1) r3(1) by (simp add: admission_def act_then_def act_bind_def act_return_def split: prod.splits sum.splits)
    then have "default_pipeline env s = (Inr (), close_statistics_scope ?m ?s4)"
      by (simp add: default_pipeline_def HandlerMetrics_def Let_def pipe_defs guarded_def UnknownExceptionsHandling_def entered_def)
    then show ?thesis unfolding first span_headers_ok_def [symmetric] using r3(2,3) fields(3) True counted
      by (simp add: ForMethod_def IncrementRateLimitReached_def)
  next
    case False
    then obtain e where "x = Inl (StdException e)" using fill(3) by auto
    then have "guarded env ?s = (Inl (StdException e), ?s1)"
      using fill(1) by (simp add: guarded_def admission_def act_then_def act_bind_def)
    then have "default_pipeline env s = act_finally (HandleUnknownException env) (close_statistics_scope ?m) ?s1"
      by (simp add: default_pipeline_def HandlerMetrics_def Let_def pipe_defs UnknownExceptionsHandling_def entered_def)
    then show ?thesis unfolding first span_headers_ok_def [symmetric] using False fill(2) fields(2,3) counted assms(3)
      by (auto simp: HandleUnknownException_def pipe_defs SetStatus_def SetData_def MarkAsInternalServerError_def ClearUserHeaders_def formatted_default)
  qed
qed

subsection \<open>Deadlines\<close>

text \<open>
  The client's timeout is taken as it is below ten years and ignored from there on, but a
  value of \<open>2 ^ 63\<close> or more becomes a negative number of milliseconds, passes the check for large
  timeouts, and is taken as a deadline in the past.
\<close>

theorem parse_timeout_exact:
  assumes "Request_GetHeader r ''X-YaTaxi-Client-TimeoutMs'' = dec n" and "n < 2 ^ 64"
  shows "ParseTimeout r =
     (if int n < kMaxTimeout then Some (int n) else if n < 2 ^ 63 then None else Some (int n - 2 ^ 64))"
proof -
  have "digits (dec n)" using dec_digits [of _ n] by (auto simp: digits_def)
  then have "numeral_value (dec n) = Some (int n)" by (simp add: numeral_value_def)
  moreover have "in_int 64 False (int n)"
  proof -
    have "int n < 2 ^ 64" using assms(2) by (simp add: of_nat_less_iff [symmetric])
    then show ?thesis by (simp add: in_int_def int_bounds_def)
  qed
  ultimately have parsed: "utils_FromString 64 False (dec n) = Inr (int n)" by (simp add: FromString_numeral)
  have small: "to_signed64 (int n) = int n" if "n < 2 ^ 63"
  proof -
    have "int n < 2 ^ 63" using that by (simp add: of_nat_less_iff [symmetric])
    then show ?thesis by (simp add: to_signed64_def)
  qed
  have large: "to_signed64 (int n) = int n - 2 ^ 64" "int n - 2 ^ 64 < 0" if "\<not> n < 2 ^ 63"
  proof -
    have n: "2 ^ 63 \<le> int n" "int n < 2 ^ 64" using that assms(2) by (simp_all add: of_nat_less_iff [symmetric])
    then have "(int n + 2 ^ 63) mod 2 ^ 64 = int n - 2 ^ 63" 
      using minus_mod_self2 [of "int n + 2 ^ 63" "2 ^ 64"] mod_pos_pos_trivial [of "int n - 2 ^ 63" "2 ^ 64"] by simp
    then show "to_signed64 (int n) = int n - 2 ^ 64" "int n - 2 ^ 64 < 0" using n by (simp_all add: to_signed64_def)
  qed
  show ?thesis
    using parsed small large assms(1) by (auto simp: ParseTimeout_def Let_def kMaxTimeout_def)
qed

lemma HandleDeadlineExpired_effect:
  assumes "pe_format_error env = GetFormattedExternalErrorBody" and "\<not> headers_end (p_response s)" and "room (p_response s) (Suc k)"
  shows "\<exists>r. HandleDeadlineExpired env s =
       (Inr (), s\<lparr>p_cancelled_by_deadline := True, p_svc := (p_svc s)\<lparr>svc_request := (p_request s)\<lparr>response := r\<rparr>\<rparr>\<rparr>)
     \<and> resp_status r = hc_deadline_expired_status_code (pe_config env) \<and> resp_data r = ''Deadline expired''"
proof -
  let ?r = "(p_response s)\<lparr>resp_status := hc_deadline_expired_status_code (pe_config env), resp_data := ''Deadline expired''\<rparr>"
  have "room ?r (Suc k)" using assms(3) by (simp add: room_def)
  from SetHeader_room [OF server_names_ok(7,8) this] obtain b r where r: "SetHeader ''X-YaTaxi-Deadline-Expired'' ''1'' ?r = Inr (b, r)"
    by blast
  then have "resp_status r = resp_status ?r" "resp_data r = resp_data ?r"
    by (auto simp: SetHeader_def rbind_eq_Inr split: if_splits)
  with r assms(1,2) show ?thesis
    by (auto simp: HandleDeadlineExpired_def Let_def formatted_default pipe_defs SetStatus_def SetData_def put_header_def intro: exI [of _ r])
qed

text \<open>
  A request whose deadline has passed when the handler would be called is answered with the
  configured status and the body \<open>Deadline expired\<close>; the handler is not called and the database is
  not touched, and the request counts as cancelled by its deadline.
\<close>

theorem deadline_expired_answer:
  assumes "BuildMiddlewarePipeline env (builtin_middleware env) [] DefaultPipeline = Inr first_middleware"
    and "admission env (entered s) = (Inr True, s1)"
    and "hc_deadline_propagation_enabled (pe_config env)" and "pe_deadline_propagation_enabled env"
    and "ParseTimeout (p_request s1) = Some timeout"
    and "IsSurelyReachedApprox (pe_coarse_now env) (pe_coarse_resolution env) (request_deadline env timeout)"
    and "pe_format_error env = GetFormattedExternalErrorBody" and "\<not> headers_end (p_response s1)" and "room (p_response s1) 1"
  shows "\<exists>s'. first_middleware s = (Inr (), s') \<and> resp_status (p_response s') = hc_deadline_expired_status_code (pe_config env)
     \<and> resp_data (p_response s') = ''Deadline expired'' \<and> svc_db (p_svc s') = svc_db (p_svc s)
     \<and> stat_cancelled_by_deadline (p_stats s' (p_method s)) = stat_cancelled_by_deadline (p_stats s1 (p_method s)) + 1"
proof -
  have first: "first_middleware = default_pipeline env" using assms(1) by (simp add: build_default_pipeline)
  let ?dl = "request_deadline env timeout"
  have dl: "SetupInheritedDeadline env (p_request s1) = ?dl" using assms(3-5) by (simp add: SetupInheritedDeadline_def)
  obtain r where r: "HandleDeadlineExpired env s1 =
      (Inr (), s1\<lparr>p_cancelled_by_deadline := True, p_svc := (p_svc s1)\<lparr>svc_request := (p_request s1)\<lparr>response := r\<rparr>\<rparr>\<rparr>)"
      "resp_status r = hc_deadline_expired_status_code (pe_config env)" "resp_data r = ''Deadline expired''"
    using HandleDeadlineExpired_effect [OF assms(7,8), of 0] assms(9) by auto
  let ?s2 = "s1\<lparr>p_cancelled_by_deadline := True, p_svc := (p_svc s1)\<lparr>svc_request := (p_request s1)\<lparr>response := r\<rparr>\<rparr>,
      p_inherited_deadline := Some ?dl\<rparr>"
  have "SetUpInheritedData env s1 = (Inr (), ?s2)"
    using r(1) dl assms(6) by (simp add: SetUpInheritedData_def Let_def act_finally_def)
  then have "DeadlinePropagation env (HandlerAdapter env) s1 = (Inr (), ?s2)"
    by (simp add: DeadlinePropagation_def act_then_def act_bind_def)
  then have "UnknownExceptionsHandling env (handling env) s1 = (Inr (), ?s2)"
    by (simp add: handling_def ExceptionsHandling_def UnknownExceptionsHandling_def act_try_def)
  from default_pipeline_admitted [OF assms(2) this] have run: "first_middleware s = (Inr (), close_statistics_scope (p_method s) ?s2)"
    unfolding first .
  have "svc_db (p_svc s1) = svc_db (p_svc s)"
    using preservesD [OF db_blind.admission_blind [of "svc_db (p_svc s)" env] _ assms(2)] by (simp add: entered_def)
  with run r(2,3) show ?thesis
    by (simp add: close_statistics_scope_def Let_def ForMethod_def DecrementInFlight_def Account_def)
qed

subsection \<open>The limit of the server\<close>

lemma SetMaxSize_wf: "n < 2 ^ 64 \<Longrightarrow> bucket_wf b \<Longrightarrow> bucket_wf (SetMaxSize n b)"
  by (auto simp: bucket_wf_def SetMaxSize_def SetMinAtomic_def)

lemma limited_bucket_effect:
  assumes "bucket_wf b" and "0 < n" and "n \<le> 10 ^ 9"
  shows "\<exists>b'. limited_bucket n b = Inr b' \<and> bucket_wf b' \<and> 0 < token_refill_interval b' \<and> token_refill_interval b' = 10 ^ 9 div int n
     \<and> token_refill_amount b' = 1 \<and> tokens b' \<le> n \<and> last_update b' = last_update b"
proof -
  have n: "0 < int n" "int n \<le> 10 ^ 9" using assms(2,3) by (simp_all add: of_nat_le_iff [symmetric])
  then have pos: "0 < kSecond div int n" by (simp add: kSecond_def pos_imp_zdiv_pos_iff)
  have "n < 2 ^ 64" using assms(3) by simp
  then have "bucket_wf (SetMaxSize n b)" using assms(1) SetMaxSize_wf by blast
  with pos n(1) show ?thesis
    by (auto simp: limited_bucket_def SetRefillPolicy_def Let_def bucket_wf_def SetMaxSize_def SetMinAtomic_def kSecond_def)
qed

text \<open>
  \<open>SetRpsRatelimit\<close> does what its argument says: without a limit every request is let
  through, with a limit of zero none, and with a limit of \<open>n\<close> requests per second at most \<open>n\<close> and
  one for every whole \<open>1/n\<close> second since the last refill.
\<close>

theorem rps_limit_holds:
  assumes "SetRpsRatelimit now rps srv = Inr srv'" and "bucket_wf (server_rate_limit srv)"
  shows "(rps = None \<longrightarrow> fst (Obtain t (server_rate_limit srv'))) \<and> (rps = Some 0 \<longrightarrow> \<not> fst (Obtain t (server_rate_limit srv')))
     \<and> (\<forall>n reqs end. rps = Some n \<and> 0 < n \<and> n \<le> 10 ^ 9 \<and> sorted (last_update (server_rate_limit srv) # map snd reqs)
            \<and> (\<forall>now\<in>snd ` set reqs. now \<le> end) \<longrightarrow>
          granted reqs (server_rate_limit srv') \<le> n + nat ((end - last_update (server_rate_limit srv)) div (10 ^ 9 div int n)))"
proof (intro conjI allI impI)
  assume "rps = None"
  then have "max_size (server_rate_limit srv') = 1" "token_refill_interval (server_rate_limit srv') = 0"
    "token_refill_amount (server_rate_limit srv') = 1"
    using assms(1) by (auto simp: SetRpsRatelimit_def SetInstantRefillPolicy_def SetRefillPolicy_def kInstantRefillPolicy_def SetMaxSize_def Let_def)
  then show "fst (Obtain t (server_rate_limit srv'))" by (simp add: Obtain_def ObtainAll_def Let_def Update_def)
next
  assume "rps = Some 0"
  then have "max_size (server_rate_limit srv') = 0" using assms(1) by (auto simp: SetRpsRatelimit_def SetMaxSize_def Let_def)
  then show "\<not> fst (Obtain t (server_rate_limit srv'))" by (simp add: Obtain_def ObtainAll_def fail_obtain_def)
next
  fix n :: nat and reqs :: "(nat \<times> int) list" and "end" :: int
  assume h: "rps = Some n \<and> 0 < n \<and> n \<le> 10 ^ 9 \<and> sorted (last_update (server_rate_limit srv) # map snd reqs)
      \<and> (\<forall>now\<in>snd ` set reqs. now \<le> end)"
  then obtain b' where b': "limited_bucket n (server_rate_limit srv) = Inr b'" "bucket_wf b'" "0 < token_refill_interval b'"
      "token_refill_interval b' = 10 ^ 9 div int n" "token_refill_amount b' = 1" "tokens b' \<le> n"
      "last_update b' = last_update (server_rate_limit srv)"
    using limited_bucket_effect [OF assms(2), of n] by blast
  have "server_rate_limit srv' = b'" using assms(1) h b'(1) by (auto simp: SetRpsRatelimit_def Let_def split: if_splits)
  moreover have "granted reqs b' \<le> potential end b'" by (rule granted_potential [OF b'(2,3)]) (use h b'(7) in auto)
  ultimately show "granted reqs (server_rate_limit srv') \<le> n + nat ((end - last_update (server_rate_limit srv)) div (10 ^ 9 div int n))"
    using b'(4-7) by (simp add: potential_def)
qed

subsection \<open>The configuration of a handler\<close>

text \<open>An option of the section, or a value in its place.\<close>

abbreviation given_or :: "'a option \<Rightarrow> 'a \<Rightarrow> 'a" where
  "given_or x d \<equiv> (case x of Some v \<Rightarrow> v | None \<Rightarrow> d)"

lemma the_default_given: "the_default d x = given_or x d"
  by (simp add: the_default_def split: option.split)

lemma parsed_fields:
  assumes "ParseHandlerConfigsWithDefaults y handler_defaults = Inr cfg"
  obtains path m slash where "parse_handler_path y = Inr path" "y_method y = Some m"
      "(y_url_trailing_slash y, slash) \<in> {(None, kBoth), (Some ''both'', kBoth), (Some ''strict-match'', kStrictMatch)}"
      "y_max_requests_per_second y \<noteq> Some 0"
    and "cfg =
       \<lparr>hc_path = path, hc_task_processor = y_task_processor y, hc_method = m,
        hc_request_config = default_HttpRequestConfig
          \<lparr>max_request_size := the_default (max_request_size handler_defaults) (y_max_request_size y),
           max_headers_size := the_default (max_headers_size handler_defaults) (y_max_headers_size y),
           parse_args_from_body := the_default (parse_args_from_body handler_defaults) (y_parse_args_from_body y)\<rparr>,
        hc_request_body_size_log_limit =
          the_default (request_body_size_log_limit handler_defaults) (y_request_body_size_log_limit y),
        hc_request_headers_size_log_limit =
          the_default (request_headers_size_log_limit handler_defaults) (y_request_headers_size_log_limit y),
        hc_response_data_size_log_limit =
          the_default (response_data_size_log_limit handler_defaults) (y_response_data_size_log_limit y),
        hc_url_trailing_slash = slash,
        hc_max_requests_in_flight = y_max_requests_in_flight y,
        hc_max_requests_per_second = y_max_requests_per_second y,
        hc_decompress_request = the_default True (y_decompress_request y),
        hc_throttling_enabled = the_default True (y_throttling_enabled y),
        hc_response_body_stream = the_default False (y_response_body_stream y),
        hc_set_response_server_hostname = y_set_response_server_hostname y,
        hc_set_tracing_headers = the_default (set_tracing_headers handler_defaults) (y_set_tracing_headers y),
        hc_deadline_propagation_enabled =
          the_default (deadline_propagation_enabled handler_defaults) (y_deadline_propagation_enabled y),
        hc_enable_write_statistics = the_default True (y_enable_write_statistics y),
        hc_deadline_expired_status_code =
          the_default (deadline_expired_status_code handler_defaults) (y_deadline_expired_status_code y)\<rparr>"
proof -
  obtain path m slash where p: "parse_handler_path y = Inr path" "y_method y = Some m"
      "(case y_url_trailing_slash y of None \<Rightarrow> Inr kBoth | Some v \<Rightarrow> Parse_UrlTrailingSlashOption v) = Inr slash"
      "y_max_requests_per_second y \<noteq> Some 0"
    and cfg: "cfg =
       \<lparr>hc_path = path, hc_task_processor = y_task_processor y, hc_method = m,
        hc_request_config = default_HttpRequestConfig
          \<lparr>max_request_size := the_default (max_request_size handler_defaults) (y_max_request_size y),
           max_headers_size := the_default (max_headers_size handler_defaults) (y_max_headers_size y),
           parse_args_from_body := the_default (parse_args_from_body handler_defaults) (y_parse_args_from_body y)\<rparr>,
        hc_request_body_size_log_limit =
          the_default (request_body_size_log_limit handler_defaults) (y_request_body_size_log_limit y),
        hc_request_headers_size_log_limit =
          the_default (request_headers_size_log_limit handler_defaults) (y_request_headers_size_log_limit y),
        hc_response_data_size_log_limit =
          the_default (response_data_size_log_limit handler_defaults) (y_response_data_size_log_limit y),
        hc_url_trailing_slash = slash,
        hc_max_requests_in_flight = y_max_requests_in_flight y,
        hc_max_requests_per_second = y_max_requests_per_second y,
        hc_decompress_request = the_default True (y_decompress_request y),
        hc_throttling_enabled = the_default True (y_throttling_enabled y),
        hc_response_body_stream = the_default False (y_response_body_stream y),
        hc_set_response_server_hostname = y_set_response_server_hostname y,
        hc_set_tracing_headers = the_default (set_tracing_headers handler_defaults) (y_set_tracing_headers y),
        hc_deadline_propagation_enabled =
          the_default (deadline_propagation_enabled handler_defaults) (y_deadline_propagation_enabled y),
        hc_enable_write_statistics = the_default True (y_enable_write_statistics y),
        hc_deadline_expired_status_code =
          the_default (deadline_expired_status_code handler_defaults) (y_deadline_expired_status_code y)\<rparr>"
    using assms unfolding ParseHandlerConfigsWithDefaults_def
    by (auto simp: rbind_eq_Inr split: if_splits option.splits)
  have "(y_url_trailing_slash y, slash) \<in> {(None, kBoth), (Some ''both'', kBoth), (Some ''strict-match'', kStrictMatch)}"
    using p(3) by (auto simp: Parse_UrlTrailingSlashOption_def split: option.splits if_splits)
  from that [OF p(1,2) this p(4) cfg] show thesis .
qed

lemma parsed_config:
  assumes "ParseHandlerConfigsWithDefaults y handler_defaults = Inr cfg"
  shows "parse_handler_path y = Inr (hc_path cfg)" and "y_max_requests_per_second y \<noteq> Some 0"
    and "y_method y = Some (hc_method cfg)" and "hc_task_processor cfg = y_task_processor y"
    and "hc_request_config cfg = default_HttpRequestConfig
        \<lparr>max_request_size := given_or (y_max_request_size y) (max_request_size handler_defaults),
         max_headers_size := given_or (y_max_headers_size y) (max_headers_size handler_defaults),
         parse_args_from_body := given_or (y_parse_args_from_body y) (parse_args_from_body handler_defaults)\<rparr>"
    and "hc_request_body_size_log_limit cfg = given_or (y_request_body_size_log_limit y) (request_body_size_log_limit handler_defaults)"
    and "hc_request_headers_size_log_limit cfg =
        given_or (y_request_headers_size_log_limit y) (request_headers_size_log_limit handler_defaults)"
    and "hc_response_data_size_log_limit cfg =
        given_or (y_response_data_size_log_limit y) (response_data_size_log_limit handler_defaults)"
    and "(y_url_trailing_slash y, hc_url_trailing_slash cfg) \<in>
        {(None, kBoth), (Some ''both'', kBoth), (Some ''strict-match'', kStrictMatch)}"
    and "hc_max_requests_in_flight cfg = y_max_requests_in_flight y"
    and "hc_max_requests_per_second cfg = y_max_requests_per_second y"
    and "hc_decompress_request cfg = given_or (y_decompress_request y) True"
    and "hc_throttling_enabled cfg = given_or (y_throttling_enabled y) True"
    and "hc_response_body_stream cfg = given_or (y_response_body_stream y) False"
    and "hc_set_response_server_hostname cfg = y_set_response_server_hostname y"
    and "hc_set_tracing_headers cfg = given_or (y_set_tracing_headers y) (set_tracing_headers handler_defaults)"
    and "hc_deadline_propagation_enabled cfg =
        given_or (y_deadline_propagation_enabled y) (deadline_propagation_enabled handler_defaults)"
    and "hc_deadline_expired_status_code cfg =
        given_or (y_deadline_expired_status_code y) (deadline_expired_status_code handler_defaults)"
    and "hc_enable_write_statistics cfg = given_or (y_enable_write_statistics y) True"
  by (rule parsed_fields [OF assms], simp add: the_default_given)+

lemma make_rate_limit_effect:
  assumes "hc_max_requests_per_second cfg \<noteq> Some 0"
  shows "\<exists>b. make_rate_limit cfg = Inr b
     \<and> IsUnbounded b = (hc_max_requests_per_second cfg = None \<or> (\<exists>n>10 ^ 9. hc_max_requests_per_second cfg = Some n))"
proof (cases "hc_max_requests_per_second cfg")
  case None
  then show ?thesis
    by (simp add: make_rate_limit_def MakeUnbounded_def make_bucket_def SetRefillPolicy_def kInstantRefillPolicy_def Let_def IsUnbounded_def)
next
  case (Some n)
  then have n: "0 < n" using assms by simp
  have nonneg: "\<not> kSecond div int n < 0" using n by (simp add: kSecond_def pos_imp_zdiv_neg_iff)
  have zero: "kSecond div int n = 0 \<longleftrightarrow> 10 ^ 9 < n" using n by (auto simp: kSecond_def zdiv_eq_0_iff)
  show ?thesis using Some nonneg zero
    by (simp add: make_rate_limit_def MakeUnbounded_def make_bucket_def SetRefillPolicy_def kInstantRefillPolicy_def Let_def
        IsUnbounded_def limited_bucket_def)
qed

text \<open>
  (C40) A configuration that is accepted says what the section says: it names a path or a fallback
  and a method, its limit of requests per second is positive, so that the rate limiter of the handler
  can be made, which is unlimited without that option and for a limit of more than \<open>10 ^ 9\<close>; the size
  limits, the log limits and the options for arguments, tracing and deadlines are those of the
  section or else of the listener, the other options those of the section or else their built-in
  defaults, and the size of the URL is always the built-in default.
\<close>

theorem handler_config_wf:
  assumes "ParseHandlerConfigsWithDefaults y handler_defaults = Inr cfg"
  shows "(\<exists>b. make_rate_limit cfg = Inr b
        \<and> IsUnbounded b = (y_max_requests_per_second y = None \<or> (\<exists>n>10 ^ 9. y_max_requests_per_second y = Some n)))
     \<and> (case hc_path cfg of PathString p \<Rightarrow> y_path y = Some p \<and> y_as_fallback y = None
          | PathFallback f \<Rightarrow> y_as_fallback y = Some f \<and> y_path y = None)
     \<and> y_method y = Some (hc_method cfg) \<and> hc_task_processor cfg = y_task_processor y
     \<and> max_request_size (hc_request_config cfg) = given_or (y_max_request_size y) (max_request_size handler_defaults)
     \<and> max_headers_size (hc_request_config cfg) = given_or (y_max_headers_size y) (max_headers_size handler_defaults)
     \<and> parse_args_from_body (hc_request_config cfg) = given_or (y_parse_args_from_body y) (parse_args_from_body handler_defaults)
     \<and> max_url_size (hc_request_config cfg) = max_url_size default_HttpRequestConfig
     \<and> hc_request_body_size_log_limit cfg = given_or (y_request_body_size_log_limit y) (request_body_size_log_limit handler_defaults)
     \<and> hc_request_headers_size_log_limit cfg =
          given_or (y_request_headers_size_log_limit y) (request_headers_size_log_limit handler_defaults)
     \<and> hc_response_data_size_log_limit cfg =
          given_or (y_response_data_size_log_limit y) (response_data_size_log_limit handler_defaults)
     \<and> (hc_url_trailing_slash cfg = kStrictMatch \<longleftrightarrow> y_url_trailing_slash y = Some ''strict-match'')
     \<and> hc_max_requests_in_flight cfg = y_max_requests_in_flight y
     \<and> hc_max_requests_per_second cfg = y_max_requests_per_second y
     \<and> hc_decompress_request cfg = given_or (y_decompress_request y) True
     \<and> hc_throttling_enabled cfg = given_or (y_throttling_enabled y) True
     \<and> hc_response_body_stream cfg = given_or (y_response_body_stream y) False
     \<and> hc_set_response_server_hostname cfg = y_set_response_server_hostname y
     \<and> hc_set_tracing_headers cfg = given_or (y_set_tracing_headers y) (set_tracing_headers handler_defaults)
     \<and> hc_deadline_propagation_enabled cfg =
          given_or (y_deadline_propagation_enabled y) (deadline_propagation_enabled handler_defaults)
     \<and> hc_deadline_expired_status_code cfg =
          given_or (y_deadline_expired_status_code y) (deadline_expired_status_code handler_defaults)
     \<and> hc_enable_write_statistics cfg = given_or (y_enable_write_statistics y) True"
proof -
  note cfg = parsed_config [OF assms]
  have "case hc_path cfg of PathString p \<Rightarrow> y_path y = Some p \<and> y_as_fallback y = None
          | PathFallback f \<Rightarrow> y_as_fallback y = Some f \<and> y_path y = None"
    using cfg(1) by (cases "y_path y"; cases "y_as_fallback y"; cases "hc_path cfg") (simp_all add: parse_handler_path_def)
  moreover have "hc_url_trailing_slash cfg = kStrictMatch \<longleftrightarrow> y_url_trailing_slash y = Some ''strict-match''" using cfg(9) by auto
  moreover have "\<exists>b. make_rate_limit cfg = Inr b
        \<and> IsUnbounded b = (y_max_requests_per_second y = None \<or> (\<exists>n>10 ^ 9. y_max_requests_per_second y = Some n))"
    using make_rate_limit_effect [of cfg] cfg(2,11) by simp
  ultimately show ?thesis by (simp only: cfg(3-8,10-19)) simp
qed

subsection \<open>Concrete requests\<close>

lemma service_env_fields:
  "pe_config (service_env cfg h) = cfg" "pe_parse_request_data (service_env cfg h) = act_return ()"
  "pe_format_error (service_env cfg h) = GetFormattedExternalErrorBody" "\<not> pe_should_cancel (service_env cfg h)"
  "pe_deadline_propagation_enabled (service_env cfg h)" "pe_hostname (service_env cfg h) = ''host''"
  "pe_tracing_formats (service_env cfg h) = {}" "pe_rate_limit_time (service_env cfg h) = 0"
  by (simp_all add: service_env_def)

lemma sample_plain [simp]:
  "\<not> hc_decompress_request (sample_config p sl)" "hc_max_requests_in_flight (sample_config p sl) = None"
  "\<not> hc_response_body_stream (sample_config p sl)" "hc_deadline_propagation_enabled (sample_config p sl)"
  "hc_deadline_expired_status_code (sample_config p sl) = 498"
  by (simp_all add: sample_config_def default_HandlerConfig_def)

definition admitted_pst :: "HttpRequest \<Rightarrow> 'db \<Rightarrow> 'db Pst" where
  "admitted_pst r db = (entered (fresh_pst r db))\<lparr>p_rate_limit := open_bucket\<rparr>"

lemma admitted_pst_svc [simp]:
  "p_svc (admitted_pst r db) = \<lparr>svc_request = r, svc_db = db\<rparr>" "\<not> p_cancelled_by_deadline (admitted_pst r db)"
  by (simp_all add: admitted_pst_def entered_def fresh_pst_def)

lemma sample_admission:
  "admission (service_env (sample_config p sl) h) (entered (fresh_pst r db)) = (Inr True, admitted_pst r db)"
  unfolding admitted_pst_def
  by (rule admission_plain) (simp_all add: service_env_def entered_def fresh_pst_def open_bucket_obtain)

lemma sample_no_deadline: "SetupInheritedDeadline (service_env cfg h) initial_request = kUnreachable"
  by (simp add: SetupInheritedDeadline_def ParseTimeout_def Request_GetHeader_def initial_request_def headers_find_def header_pos_def)

lemma initial_open: "response initial_request = initial_response" "\<not> headers_end initial_response" "resp_status initial_response = HttpStatus_kOk"
  by (simp_all add: initial_request_def initial_response_def)

theorem handler_answer_delivered_witness:
  "\<exists>s'. default_pipeline (service_env (sample_config ''/hello'' kBoth) Hello_HandleRequestThrow) (fresh_pst initial_request ()) = (Inr (), s')
     \<and> resp_status (p_response s') = HttpStatus_kOk \<and> resp_data (p_response s') = SayHelloTo [] kFirstTime"
proof -
  let ?env = "service_env (sample_config ''/hello'' kBoth) Hello_HandleRequestThrow"
  let ?v = "handler_view \<lparr>svc_request = initial_request, svc_db = ()\<rparr>"
  have run: "pe_handle_request ?env (handler_view (p_svc (admitted_pst initial_request ()))) = (Inr (SayHelloTo [] kFirstTime), ?v)"
    by (simp add: service_env_def HandleRequest_def Hello_HandleRequestThrow_def act_bind_def get_arg_def act_get_def act_return_def
        handler_view_def GetArg_def initial_request_def)
  from handler_answer_delivered [OF build_default_pipeline sample_admission _ _ _ _ run] show ?thesis
    by (simp add: sample_no_deadline service_env_fields) (auto simp: handler_view_def initial_open SetSystemHeadersEnd_def SetData_def)
qed

theorem handler_exception_answered_witness:
  "\<exists>s'. default_pipeline (service_env (sample_config ''/hello'' kBoth) (act_throw InvalidArgument)) (fresh_pst initial_request ()) = (Inr (), s')
     \<and> resp_status (p_response s') = HttpStatus_kInternalServerError"
proof -
  let ?env = "service_env (sample_config ''/hello'' kBoth) (act_throw InvalidArgument)"
  let ?s1 = "admitted_pst initial_request ()"
  let ?s2 = "?s1\<lparr>p_svc := handler_view \<lparr>svc_request = initial_request, svc_db = ()\<rparr>\<rparr>"
  have run: "HandlerAdapter ?env ?s1 = (Inl (StdException InvalidArgument), ?s2)"
    by (subst HandlerAdapter_run) (simp_all add: service_env_def HandleRequest_def act_throw_def)
  have "\<not> deadline_missed ?env (SetupInheritedDeadline ?env (p_request ?s1))"
    using unreachable_not_missed by (simp add: sample_no_deadline)
  from handler_exception_answered [OF build_default_pipeline sample_admission this _ run] show ?thesis
    by (simp add: service_env_fields initial_open) auto
qed

theorem deadline_expired_answer_witness:
  "\<exists>s'. default_pipeline (service_env (sample_config ''/hello'' kBoth) Hello_HandleRequestThrow)
      (fresh_pst (initial_request\<lparr>req_headers := [(''X-YaTaxi-Client-TimeoutMs'', ''0'')]\<rparr>) ()) = (Inr (), s')
     \<and> resp_status (p_response s') = 498"
proof -
  let ?env = "service_env (sample_config ''/hello'' kBoth) Hello_HandleRequestThrow"
  let ?r = "initial_request\<lparr>req_headers := [(''X-YaTaxi-Client-TimeoutMs'', ''0'')]\<rparr>"
  have "Request_GetHeader ?r ''X-YaTaxi-Client-TimeoutMs'' = ''0''"
    by (simp add: Request_GetHeader_def headers_find_def header_pos_def StrIcaseEqual_def)
  moreover have "utils_FromString 64 False ''0'' = Inr 0"
    by (simp add: FromString_numeral numeral_value_def digits_def is_digit_def undec_def in_int_def int_bounds_def)
  ultimately have timeout: "ParseTimeout ?r = Some 0" by (simp add: ParseTimeout_def Let_def to_signed64_def kMaxTimeout_def)
  have reached: "IsSurelyReachedApprox (pe_coarse_now ?env) (pe_coarse_resolution ?env) (request_deadline ?env 0)"
    by (simp add: service_env_def request_deadline_def to_signed64_def IsSurelyReachedApprox_def IsReachable_def kUnreachable_def)
  from deadline_expired_answer [OF build_default_pipeline sample_admission _ _ _ reached, of ?r "()"] show ?thesis
    using timeout by (auto simp: service_env_fields initial_open initial_room)
qed

theorem parse_timeout_exact_witness:
  "ParseTimeout (initial_request\<lparr>req_headers := [(''X-YaTaxi-Client-TimeoutMs'', dec (2 ^ 64 - 1))]\<rparr>) = Some (- 1)"
  using parse_timeout_exact [of "initial_request\<lparr>req_headers := [(''X-YaTaxi-Client-TimeoutMs'', dec (2 ^ 64 - 1))]\<rparr>" "2 ^ 64 - 1"]
  by (simp add: Request_GetHeader_def headers_find_def header_pos_def StrIcaseEqual_def kMaxTimeout_def)

text \<open>A service whose database refuses everything and whose parser accepts nothing.\<close>

definition deaf_service :: "unit SvcEnv" where
  "deaf_service = \<lparr>Execute = \<lambda>_ _ _. act_throw (PgError ''down''), json_parse = \<lambda>_. None, json_print = \<lambda>_. []\<rparr>"

theorem bad_json_is_500_witness:
  "\<exists>s'. default_pipeline (service_env ((sample_config ''/messages'' kBoth)\<lparr>hc_deadline_propagation_enabled := False\<rparr>)
       (MessagesHandler_HandleRequestThrow deaf_service))
       (fresh_pst (initial_request\<lparr>req_method := kPost, request_body := ''{'', req_headers := [(''Authorization'', ''Bearer 123'')]\<rparr>) ()) =
     (Inr (), s') \<and> resp_status (p_response s') = HttpStatus_kInternalServerError"
proof -
  let ?cfg = "(sample_config ''/messages'' kBoth)\<lparr>hc_deadline_propagation_enabled := False\<rparr>"
  let ?r = "initial_request\<lparr>req_method := kPost, request_body := ''{'', req_headers := [(''Authorization'', ''Bearer 123'')]\<rparr>"
  have auth: "Request_GetHeader ?r ''Authorization'' = ''Bearer 123''"
    by (simp add: Request_GetHeader_def headers_find_def header_pos_def StrIcaseEqual_def)
  have json: "FromString (json_parse deaf_service) (request_body ?r) = Inl JsonParseException" by (simp add: FromString_def deaf_service_def)
  have cfg: "\<not> hc_decompress_request ?cfg" "hc_max_requests_in_flight ?cfg = None" "\<not> hc_response_body_stream ?cfg"
    "\<not> hc_deadline_propagation_enabled ?cfg"
    by (simp_all add: sample_config_def default_HandlerConfig_def)
  have "\<not> headers_end (response ?r)" "req_method ?r = kPost" by (simp_all add: initial_open)
  from bad_json_is_500 [OF _ this(2) auth json this(1) cfg build_default_pipeline, of "MessagesHandler_HandleRequestThrow deaf_service" "()"] show ?thesis by auto
qed

text \<open>
  The witness of C33: the default formats, a request that brings its own trace id, and one whose
  trace id holds a control character.
\<close>

definition traced_env :: "'db PipeEnv \<Rightarrow> 'db PipeEnv" where
  "traced_env env = env\<lparr>pe_tracing_formats := {kOpenTelemetry, kYandexTaxi}, pe_span_random := replicate 10 ''abcd''\<rparr>"

definition traced_request :: "string \<Rightarrow> HttpRequest" where
  "traced_request i = initial_request\<lparr>req_headers := [(''X-YaTraceId'', i)]\<rparr>"

lemma traced_headers:
  "Request_GetHeader (traced_request i) ''X-YaTraceId'' = i" "Request_GetHeader (traced_request i) ''X-YaSpanId'' = []"
  "Request_GetHeader (traced_request i) ''X-YaRequestId'' = []" "Request_GetHeader (traced_request i) ''traceparent'' = []"
  by (simp_all add: traced_request_def Request_GetHeader_def headers_find_def header_pos_def StrIcaseEqual_def to_lower_def)

lemma traced_span_headers:
  assumes "i \<noteq> []" and "length i \<noteq> 32"
  shows "span_headers (traced_env (service_env cfg h)) (traced_request i) =
     [(''X-YaRequestId'', ''61626364616263646162636461626364''), (''X-YaTraceId'', i), (''X-YaSpanId'', ''6162636461626364'')]"
proof -
  have hex: "ToHex ''abcd'' = ''61626364''"
    by (simp add: ToHex_is_scalar kXdigits_def)
  have span: "new_span (replicate 10 ''abcd'') True =
      \<lparr>GetTraceId = ''61626364616263646162636461626364'', GetSpanId = ''6162636461626364'', GetParentId = [],
       GetLink = ''61626364616263646162636461626364'', GetParentLink = [], ShouldLog = True\<rparr>"
  proof -
    have "kTraceIdSize div kHexChunkSize = Suc (Suc (Suc (Suc 0)))" "kSpanIdSize div kHexChunkSize = Suc (Suc 0)"
      by (simp_all add: kTraceIdSize_def kSpanIdSize_def kHexChunkSize_def LengthInHexForm_def)
    moreover have "replicate 10 x = [x, x, x, x, x, x, x, x, x, x]" for x :: string by (simp add: numeral_eq_Suc)
    ultimately show ?thesis by (simp add: new_span_def hex)
  qed
  have made: "MakeSpan (traced_env (service_env cfg h)) (traced_request i) =
      ((new_span (replicate 10 ''abcd'') True)\<lparr>GetTraceId := i, GetParentId := []\<rparr>, \<lparr>otel_data = None, b3_sampled = None\<rparr>)"
    using assms(1)
    by (simp add: MakeSpan_def traced_env_def service_env_def traced_headers Generic_TryFillSpanBuilderFromRequest_def
        kAllFormatsOrdered_def YandexTaxiTryFillSpanBuilderFromRequest_def OpenTelemetryTryFillSpanBuilderFromRequest_def)
  have "pe_tracing_formats (traced_env (service_env cfg h)) = {kOpenTelemetry, kYandexTaxi}" by (simp add: traced_env_def)
  then show ?thesis using assms(2)
    by (simp add: span_headers_def made span Generic_FillResponseWithTracingContext_def kAllFormatsOrdered_def
        YandexTaxiFillWithTracingContext_def OpenTelemetryFillWithTracingContext_def GetSpanIdForChildLogs_def
        BuildTraceParentHeader_def kTraceIdSize_def)
qed

definition sample_traced :: "unit PipeEnv" where
  "sample_traced = traced_env (service_env (sample_config ''/hello'' kBoth) Hello_HandleRequestThrow)"

theorem throttled_request_witness:
  "(\<exists>s'. default_pipeline sample_traced ((fresh_pst (traced_request ''trace-1'') ())\<lparr>p_rate_limit := sample_bucket\<rparr>) = (Inr (), s')
      \<and> resp_status (p_response s') = HttpStatus_kTooManyRequests)
   \<and> (\<exists>s'. default_pipeline sample_traced ((fresh_pst (traced_request [CHR 0x0A]) ())\<lparr>p_rate_limit := sample_bucket\<rparr>) = (Inr (), s')
      \<and> resp_status (p_response s') = HttpStatus_kInternalServerError)"
proof -
  have fields: "pe_rate_limit_time sample_traced = 0" "pe_hostname sample_traced = ''host''"
    "pe_format_error sample_traced = GetFormattedExternalErrorBody"
    "hc_set_tracing_headers (pe_config sample_traced)" "\<not> pe_should_cancel sample_traced"
    by (simp_all add: sample_traced_def traced_env_def service_env_def sample_config_def default_HandlerConfig_def)
  let ?s = "\<lambda>i. (fresh_pst (traced_request i) ())\<lparr>p_rate_limit := sample_bucket\<rparr>"
  have empty: "Obtain (pe_rate_limit_time sample_traced) (p_rate_limit (?s i)) = (False, sample_bucket\<lparr>obtain_failed := 1\<rparr>)" for i
    by (simp add: fields Obtain_def ObtainAll_def Update_def sample_bucket_def fail_obtain_def size_mod_def Let_def)
  have host: "CheckHeaderValue (pe_hostname sample_traced) = Inr ()" by (simp add: fields CheckHeaderValue_def bad_value_char_def)
  have r: "room (p_response (?s i)) 13" "\<not> headers_end (p_response (?s i))" for i
    by (simp_all add: fresh_pst_def traced_request_def initial_open initial_room)
  have hs: "span_headers sample_traced (p_request (?s i)) =
      [(''X-YaRequestId'', ''61626364616263646162636461626364''), (''X-YaTraceId'', i), (''X-YaSpanId'', ''6162636461626364'')]"
    if "i \<noteq> []" "length i \<noteq> 32" for i
    using traced_span_headers [OF that] by (simp add: sample_traced_def fresh_pst_def)
  have vals: "CheckHeaderValue ''61626364616263646162636461626364'' = Inr ()" "CheckHeaderValue ''6162636461626364'' = Inr ()"
    "CheckHeaderValue ''trace-1'' = Inr ()" "CheckHeaderValue [CHR 0x0A] \<noteq> Inr ()"
    by (simp_all add: CheckHeaderValue_def bad_value_char_def)
  note throttled = throttled_request [OF build_default_pipeline empty fields(3) host r]
  show ?thesis
    using throttled [of "''trace-1''"] throttled [of "[CHR 0x0A]"] hs [of "''trace-1''"] hs [of "[CHR 0x0A]"] vals fields(4,5)
    by auto
qed

theorem rps_limit_holds_witness:
  "\<exists>srv'. SetRpsRatelimit 0 (Some 100) sample_server = Inr srv' \<and> granted [(1, 0), (1, 5), (1, 10)] (server_rate_limit srv') \<le> 100"
proof -
  obtain b where b: "limited_bucket 100 open_bucket = Inr b"
    by (simp add: limited_bucket_def SetRefillPolicy_def kSecond_def Let_def)
  then obtain srv' where srv': "SetRpsRatelimit 0 (Some 100) sample_server = Inr srv'"
    by (cases "IsUnbounded open_bucket") (auto simp: SetRpsRatelimit_def sample_server_def Let_def)
  have wf: "bucket_wf (server_rate_limit sample_server)" "last_update (server_rate_limit sample_server) = 0"
    by (simp_all add: sample_server_def open_bucket_def bucket_wf_def)
  have "granted [(1, 0), (1, 5), (1, 10)] (server_rate_limit srv') \<le> 100 + nat ((10 - 0) div (10 ^ 9 div int 100))"
    using rps_limit_holds [OF srv' wf(1), THEN conjunct2, THEN conjunct2, rule_format, of 100 "[(1, 0), (1, 5), (1, 10)]" 10] wf(2)
    by simp
  then show ?thesis using srv' by simp
qed

definition sample_yaml :: HandlerYaml where
  "sample_yaml =
     \<lparr>y_path = Some ''/users'', y_as_fallback = None, y_task_processor = Some ''main-task-processor'', y_method = Some ''GET,POST'',
      y_max_request_size = None, y_max_headers_size = None, y_parse_args_from_body = None, y_url_trailing_slash = None,
      y_max_requests_in_flight = None, y_request_body_size_log_limit = None, y_request_headers_size_log_limit = None,
      y_response_data_size_log_limit = None, y_max_requests_per_second = Some 50, y_decompress_request = None,
      y_throttling_enabled = None, y_set_response_server_hostname = None, y_response_body_stream = None,
      y_set_tracing_headers = None, y_deadline_propagation_enabled = None, y_deadline_expired_status_code = None,
      y_enable_write_statistics = None\<rparr>"

theorem handler_config_wf_witness:
  "\<exists>cfg b. ParseHandlerConfigsWithDefaults sample_yaml default_HttpRequestConfig = Inr cfg \<and> make_rate_limit cfg = Inr b \<and> \<not> IsUnbounded b"
proof -
  obtain cfg where cfg: "ParseHandlerConfigsWithDefaults sample_yaml default_HttpRequestConfig = Inr cfg"
    by (simp add: ParseHandlerConfigsWithDefaults_def parse_handler_path_def sample_yaml_def)
  have "y_max_requests_per_second sample_yaml = Some 50" by (simp add: sample_yaml_def)
  with cfg handler_config_wf [OF cfg] show ?thesis by auto
qed

end
