(* ===== verification/Byte_Utils.thy ===== *)
theory Byte_Utils
  imports Http_Response
begin

section \<open>SipHash and the case-insensitive comparison of byte strings\<close>

text \<open>
  \<open>universal/src/utils/impl/byte_utils.cpp\<close>: the hash \<open>SipHash13\<close> and the comparison
  \<open>NoCaseEqual\<close> behind \<open>utils::StrIcaseHash\<close> and \<open>utils::StrIcaseEqual\<close>.  Both are
  templates over a \<open>Fetcher\<close>, a struct that reads 8 or 16 bytes at a time; the struct is a
  record of functions here, with the three instances of the source: \<open>CaseFetcher\<close>,
  \<open>CaseInsensitiveSSEFetcher\<close> (SSE2 registers are lists of 16 lanes) and
  \<open>CaseInsensitiveFetcher\<close>.  A pointer into a string is the list of the bytes from there on,
  and a little-endian \<open>memcpy\<close> is \<open>le_word\<close>.  The locale \<open>lower_fetcher\<close> states what a
  fetcher promises; under it the hash is textbook SipHash-1-3 of the lower-cased bytes and the
  comparison is equality of the lower-cased bytes.  The reference hash \<open>SipHash c d\<close> follows the
  paper of Aumasson and Bernstein and shares no definition with the code.
\<close>

unbundle bit_operations_syntax

type_synonym u8 = "8 word"
type_synonym u64 = "64 word"

definition u8_of :: "char \<Rightarrow> u8" where
  "u8_of c = word_of_nat (byte c)"

definition bytes_of :: "string \<Rightarrow> u8 list" where
  "bytes_of s = map u8_of s"

fun le_word :: "u8 list \<Rightarrow> u64" where
  "le_word [] = 0"
| "le_word (b # bs) = ucast b OR push_bit 8 (le_word bs)"

definition le_bytes :: "u64 \<Rightarrow> u8 list" where
  "le_bytes w = map (\<lambda>i. ucast (drop_bit (8 * i) w)) [0..<8]"

definition RotateLeft :: "u64 \<Rightarrow> nat \<Rightarrow> u64" where
  "RotateLeft x b = push_bit b x OR drop_bit (64 - b) x"

subsection \<open>The fetchers\<close>

record fetcher =
  Fetch8 :: "u8 list \<Rightarrow> u64"
  Fetch16 :: "u8 list \<Rightarrow> u64 \<times> u64"
  FetchN :: "u8 list \<Rightarrow> nat \<Rightarrow> u64"

record comparer = fetcher +
  FailFastCompare8 :: "u8 list \<Rightarrow> u8 list \<Rightarrow> bool"
  FailFastCompare16 :: "u8 list \<Rightarrow> u8 list \<Rightarrow> bool"

definition Case_Fetch8 :: "u8 list \<Rightarrow> u64" where
  "Case_Fetch8 data = le_word (take 8 data)"

definition Case_Fetch16 :: "u8 list \<Rightarrow> u64 \<times> u64" where
  "Case_Fetch16 data = (Case_Fetch8 data, Case_Fetch8 (drop 8 data))"

text \<open>The \<open>switch\<close> falls through from the case \<open>n\<close> down to the case 1.\<close>

definition Case_FetchN :: "u8 list \<Rightarrow> nat \<Rightarrow> u64" where
  "Case_FetchN data n =
     (let res = 0;
          res = (if 7 \<le> n then res OR push_bit 48 (ucast (data ! 6)) else res);
          res = (if 6 \<le> n then res OR push_bit 40 (ucast (data ! 5)) else res);
          res = (if 5 \<le> n then res OR push_bit 32 (ucast (data ! 4)) else res);
          res = (if 4 \<le> n then res OR push_bit 24 (ucast (data ! 3)) else res);
          res = (if 3 \<le> n then res OR push_bit 16 (ucast (data ! 2)) else res);
          res = (if 2 \<le> n then res OR push_bit 8 (ucast (data ! 1)) else res);
          res = (if 1 \<le> n then res OR ucast (data ! 0) else res)
      in res)"

definition CaseFetcher :: fetcher where
  "CaseFetcher = \<lparr>Fetch8 = Case_Fetch8, Fetch16 = Case_Fetch16, FetchN = Case_FetchN\<rparr>"

text \<open>SSE2: \<open>_mm_loadu_si64\<close> and \<open>_mm_loadl_epi64\<close> clear the upper eight lanes.\<close>

type_synonym m128i = "u8 list"

definition SSE_Load8 :: "u8 list \<Rightarrow> m128i" where
  "SSE_Load8 data = take 8 data @ replicate 8 0"

definition SSE_Load16 :: "u8 list \<Rightarrow> m128i" where
  "SSE_Load16 data = take 16 data"

definition m128_cmp :: "bool \<Rightarrow> u8" where
  "m128_cmp b = (if b then 0xFF else 0)"

definition DoLowercaseLane :: "u8 \<Rightarrow> u8" where
  "DoLowercaseLane c =
     (let mask_az = m128_cmp (c <s 0x41) OR m128_cmp (0x5A <s c);
          lowercase_mask = NOT mask_az AND 32
      in c OR lowercase_mask)"

definition DoLowercaseBytes :: "m128i \<Rightarrow> m128i" where
  "DoLowercaseBytes value = map DoLowercaseLane value"

definition LowercaseBytes :: "m128i \<Rightarrow> u64 \<times> u64" where
  "LowercaseBytes value =
     (let lowercase = DoLowercaseBytes value in (le_word (take 8 lowercase), le_word (drop 8 lowercase)))"

definition is_zero_vector :: "m128i \<Rightarrow> bool" where
  "is_zero_vector value \<longleftrightarrow> le_word (take 8 value) OR le_word (drop 8 value) = 0"

definition FailFastCompare :: "m128i \<Rightarrow> m128i \<Rightarrow> bool" where
  "FailFastCompare lhs rhs =
     (let diff = map2 (XOR) lhs rhs;
          not_lower_upper_diff_mask = map (\<lambda>d. d AND NOT 32) diff
      in if \<not> is_zero_vector not_lower_upper_diff_mask then False
         else is_zero_vector (map2 (XOR) (DoLowercaseBytes lhs) (DoLowercaseBytes rhs)))"

definition CaseInsensitiveSSEFetcher :: comparer where
  "CaseInsensitiveSSEFetcher =
     \<lparr>Fetch8 = (\<lambda>data. fst (LowercaseBytes (SSE_Load8 data))),
      Fetch16 = (\<lambda>data. LowercaseBytes (SSE_Load16 data)),
      FetchN = (\<lambda>data n. fst (LowercaseBytes (le_bytes (Case_FetchN data n) @ replicate 8 0))),
      FailFastCompare8 = (\<lambda>lhs rhs. FailFastCompare (SSE_Load8 lhs) (SSE_Load8 rhs)),
      FailFastCompare16 = (\<lambda>lhs rhs. FailFastCompare (SSE_Load16 lhs) (SSE_Load16 rhs))\<rparr>"

definition lower_u8 :: "u8 \<Rightarrow> u8" where
  "lower_u8 c = c OR (if 0x41 \<le> c \<and> c \<le> 0x5A then 32 else 0)"

text \<open>\<open>Lowercase\<close> writes \<open>len\<close> bytes into a zeroed array of \<open>size\<close> bytes.\<close>

definition Lowercase :: "nat \<Rightarrow> u8 list \<Rightarrow> nat \<Rightarrow> u8 list" where
  "Lowercase arr src len = map lower_u8 (take len src) @ replicate (arr - len) 0"

definition Lower_Fetch8 :: "u8 list \<Rightarrow> u64" where
  "Lower_Fetch8 data = Case_Fetch8 (Lowercase 8 data 8)"

definition Lower_Fetch16 :: "u8 list \<Rightarrow> u64 \<times> u64" where
  "Lower_Fetch16 data = Case_Fetch16 (Lowercase 16 data 16)"

definition Lower_FetchN :: "u8 list \<Rightarrow> nat \<Rightarrow> u64" where
  "Lower_FetchN data n = Case_FetchN (Lowercase 8 data n) n"

definition CaseInsensitiveFetcher :: comparer where
  "CaseInsensitiveFetcher =
     \<lparr>Fetch8 = Lower_Fetch8, Fetch16 = Lower_Fetch16, FetchN = Lower_FetchN,
      FailFastCompare8 = (\<lambda>lhs rhs. Lower_Fetch8 lhs = Lower_Fetch8 rhs),
      FailFastCompare16 = (\<lambda>lhs rhs. Lower_Fetch16 lhs = Lower_Fetch16 rhs)\<rparr>"

subsection \<open>SipHash\<close>

record sip =
  v0 :: u64
  v1 :: u64
  v2 :: u64
  v3 :: u64

definition sip_init :: "u64 \<Rightarrow> u64 \<Rightarrow> sip" where
  "sip_init k0 k1 =
     \<lparr>v0 = k0 XOR 0x736f6d6570736575, v1 = k1 XOR 0x646f72616e646f6d,
      v2 = k0 XOR 0x6c7967656e657261, v3 = k1 XOR 0x7465646279746573\<rparr>"

definition sip_round :: "sip \<Rightarrow> sip" where
  "sip_round s =
     (let s = s\<lparr>v0 := v0 s + v1 s\<rparr>;
          s = s\<lparr>v1 := RotateLeft (v1 s) 13\<rparr>;
          s = s\<lparr>v1 := v1 s XOR v0 s\<rparr>;
          s = s\<lparr>v0 := RotateLeft (v0 s) 32\<rparr>;
          s = s\<lparr>v2 := v2 s + v3 s\<rparr>;
          s = s\<lparr>v3 := RotateLeft (v3 s) 16\<rparr>;
          s = s\<lparr>v3 := v3 s XOR v2 s\<rparr>;
          s = s\<lparr>v0 := v0 s + v3 s\<rparr>;
          s = s\<lparr>v3 := RotateLeft (v3 s) 21\<rparr>;
          s = s\<lparr>v3 := v3 s XOR v0 s\<rparr>;
          s = s\<lparr>v2 := v2 s + v1 s\<rparr>;
          s = s\<lparr>v1 := RotateLeft (v1 s) 17\<rparr>;
          s = s\<lparr>v1 := v1 s XOR v2 s\<rparr>
      in s\<lparr>v2 := RotateLeft (v2 s) 32\<rparr>)"

definition data_round :: "u64 \<Rightarrow> sip \<Rightarrow> sip" where
  "data_round m s =
     (let s = s\<lparr>v3 := v3 s XOR m\<rparr>;
          s = sip_round s
      in s\<lparr>v0 := v0 s XOR m\<rparr>)"

definition finalize :: "sip \<Rightarrow> sip" where
  "finalize s = sip_round (sip_round (sip_round (s\<lparr>v2 := v2 s XOR 0xFF\<rparr>)))"

definition sip_result :: "sip \<Rightarrow> u64" where
  "sip_result s = v0 s XOR v1 s XOR v2 s XOR v3 s"

text \<open>The loop over 16 bytes: the remaining bytes and the state.\<close>

fun SipHash13_loop :: "('a fetcher_scheme) \<Rightarrow> u8 list \<Rightarrow> sip \<Rightarrow> u8 list \<times> sip" where
  "SipHash13_loop F data s =
     (if 16 \<le> length data then
        (let (m1, m2) = Fetch16 F data in SipHash13_loop F (drop 16 data) (data_round m2 (data_round m1 s)))
      else (data, s))"

declare SipHash13_loop.simps [simp del]

definition SipHash13 :: "('a fetcher_scheme) \<Rightarrow> u64 \<Rightarrow> u64 \<Rightarrow> u8 list \<Rightarrow> u64" where
  "SipHash13 F k0 k1 data =
     (let s = sip_init k0 k1;
          b = push_bit 56 (word_of_nat (length data))
      in if length data < 8 then sip_result (finalize (data_round (b OR FetchN F data (length data)) s))
         else
           let original_data = data;
               (data, s) = SipHash13_loop F data s;
               (data, s) = (if 8 \<le> length data then (drop 8 data, data_round (Fetch8 F data) s) else (data, s));
               b = (if data \<noteq> [] then
                      (let overtake = 8 - (length original_data mod 8)
                       in b OR drop_bit (overtake * 8) (Fetch8 F (drop (length original_data - 8) original_data)))
                    else b)
           in sip_result (finalize (data_round b s)))"

definition SipHasher :: "u64 \<Rightarrow> u64 \<Rightarrow> string \<Rightarrow> u64" where
  "SipHasher k0 k1 data = SipHash13 CaseFetcher k0 k1 (bytes_of data)"

definition CaseInsensitiveSipHasherNoSse :: "u64 \<Rightarrow> u64 \<Rightarrow> string \<Rightarrow> u64" where
  "CaseInsensitiveSipHasherNoSse k0 k1 data = SipHash13 CaseInsensitiveFetcher k0 k1 (bytes_of data)"

text \<open>\<open>__SSE2__\<close> is the flag of the build.\<close>

definition CaseInsensitiveSipHasher :: "bool \<Rightarrow> u64 \<Rightarrow> u64 \<Rightarrow> string \<Rightarrow> u64" where
  "CaseInsensitiveSipHasher sse2 k0 k1 data =
     (if sse2 then SipHash13 CaseInsensitiveSSEFetcher k0 k1 (bytes_of data)
      else CaseInsensitiveSipHasherNoSse k0 k1 data)"

definition StrIcaseHash :: "bool \<Rightarrow> u64 \<times> u64 \<Rightarrow> string \<Rightarrow> u64" where
  "StrIcaseHash sse2 seed s = CaseInsensitiveSipHasher sse2 (fst seed) (snd seed) s"

definition StrCaseHash :: "u64 \<times> u64 \<Rightarrow> string \<Rightarrow> u64" where
  "StrCaseHash seed s = SipHasher (fst seed) (snd seed) s"

subsection \<open>Comparison\<close>

text \<open>
  \<open>CompareAndAdvance\<close> compares the first \<open>SixteenOrEight\<close> bytes and drops them from both
  views.
\<close>

definition CompareAndAdvance ::
  "comparer \<Rightarrow> nat \<Rightarrow> u8 list \<Rightarrow> u8 list \<Rightarrow> bool \<times> u8 list \<times> u8 list" where
  "CompareAndAdvance F SixteenOrEight lhs rhs =
     (let are_equal = (if SixteenOrEight = 16 then FailFastCompare16 F lhs rhs else FailFastCompare8 F lhs rhs)
      in (are_equal, drop SixteenOrEight lhs, drop SixteenOrEight rhs))"

fun CompareNaive :: "u8 list \<Rightarrow> u8 list \<Rightarrow> bool" where
  "CompareNaive (a # lhs) (b # rhs) =
     (if a = b then CompareNaive lhs rhs
      else
        let a = (if 0x41 \<le> a \<and> a \<le> 0x5A then a OR 32 else a);
            b = (if 0x41 \<le> b \<and> b \<le> 0x5A then b OR 32 else b)
        in if a = b then CompareNaive lhs rhs else False)"
| "CompareNaive _ _ = True"

text \<open>The loop returns \<open>None\<close> for the early \<open>return false\<close>.\<close>

fun NoCaseEqual_loop :: "comparer \<Rightarrow> u8 list \<Rightarrow> u8 list \<Rightarrow> (u8 list \<times> u8 list) option" where
  "NoCaseEqual_loop F lhs rhs =
     (if 16 \<le> length lhs then
        (if \<not> fst (CompareAndAdvance F 16 lhs rhs) then None else NoCaseEqual_loop F (drop 16 lhs) (drop 16 rhs))
      else Some (lhs, rhs))"

declare NoCaseEqual_loop.simps [simp del]

definition NoCaseEqual :: "comparer \<Rightarrow> u8 list \<Rightarrow> u8 list \<Rightarrow> bool" where
  "NoCaseEqual F lhs rhs =
     (if length lhs \<noteq> length rhs then False
      else if length lhs < 8 then CompareNaive lhs rhs
      else
        let lhs_suffix = drop (length lhs - 8) lhs;
            rhs_suffix = drop (length rhs - 8) rhs
        in case NoCaseEqual_loop F lhs rhs of
             None \<Rightarrow> False
           | Some (lhs, rhs) \<Rightarrow>
               let (eq, lhs, rhs) = (if 8 \<le> length lhs then CompareAndAdvance F 8 lhs rhs else (True, lhs, rhs))
               in if \<not> eq then False
                  else lhs = [] \<or> fst (CompareAndAdvance F 8 lhs_suffix rhs_suffix))"

definition CaseInsensitiveEqualNoSse :: "string \<Rightarrow> string \<Rightarrow> bool" where
  "CaseInsensitiveEqualNoSse lhs rhs = NoCaseEqual CaseInsensitiveFetcher (bytes_of lhs) (bytes_of rhs)"

definition CaseInsensitiveEqual :: "bool \<Rightarrow> string \<Rightarrow> string \<Rightarrow> bool" where
  "CaseInsensitiveEqual sse2 lhs rhs =
     (if sse2 then NoCaseEqual CaseInsensitiveSSEFetcher (bytes_of lhs) (bytes_of rhs)
      else CaseInsensitiveEqualNoSse lhs rhs)"

subsection \<open>Words and their bytes\<close>

lemma bit_le_word: "bit (le_word bs) i \<longleftrightarrow> i < 64 \<and> i div 8 < length bs \<and> bit (bs ! (i div 8)) (i mod 8)"
proof (induction bs arbitrary: i)
  case Nil
  then show ?case by simp
next
  case (Cons b bs)
  show ?case
  proof (cases "i < 8")
    case True
    then show ?thesis by (simp add: bit_simps)
  next
    case False
    then obtain j where j: "i = j + 8" by (metis add.commute le_Suc_ex not_less)
    have "\<not> bit b (j + 8)" by (rule notI) (drule bit_imp_le_length, simp)
    moreover have "(j + 8) div 8 = Suc (j div 8)" by simp
    ultimately show ?thesis using Cons.IH [of j] by (auto simp: j bit_simps simp del: div_add_self2)
  qed
qed

lemma le_word_inject:
  assumes "length bs = length cs" and "length bs \<le> 8"
  shows "le_word bs = le_word cs \<longleftrightarrow> bs = cs"
proof
  assume eq: "le_word bs = le_word cs"
  show "bs = cs"
  proof (rule nth_equalityI [OF assms(1)])
    fix i assume i: "i < length bs"
    show "bs ! i = cs ! i"
    proof (rule bit_word_eqI)
      fix n assume "n < LENGTH(8)"
      then have n: "n < 8" by simp
      then have "8 * i + n < 64" "(8 * i + n) div 8 = i" "(8 * i + n) mod 8 = n" using i assms(2) by auto
      then show "bit (bs ! i) n = bit (cs ! i) n"
        using bit_le_word [of bs "8 * i + n"] bit_le_word [of cs "8 * i + n"] eq i assms(1) by simp
    qed
  qed
qed simp

lemma le_word_drop:
  assumes "length bs \<le> 8"
  shows "drop_bit (n * 8) (le_word bs) = le_word (drop n bs)"
  using assms by (intro bit_word_eqI) (auto simp: bit_simps bit_le_word nth_append add.commute)

lemma le_word_zeros: "le_word (bs @ replicate n 0) = le_word bs"
  by (intro bit_word_eqI) (auto simp: bit_le_word nth_append)

lemma le_bytes_le_word:
  assumes "length bs \<le> 8"
  shows "le_bytes (le_word bs) = bs @ replicate (8 - length bs) 0"
proof (rule nth_equalityI)
  show "length (le_bytes (le_word bs)) = length (bs @ replicate (8 - length bs) 0)"
    using assms by (simp add: le_bytes_def)
  fix i assume "i < length (le_bytes (le_word bs))"
  then have i: "i < 8" by (simp add: le_bytes_def)
  show "le_bytes (le_word bs) ! i = (bs @ replicate (8 - length bs) 0) ! i"
  proof (rule bit_word_eqI)
    fix n assume "n < LENGTH(8)"
    then have "n < 8" by simp
    with i have "(8 * i + n) div 8 = i" "(8 * i + n) mod 8 = n" "8 * i + n < 64" by auto
    then show "bit (le_bytes (le_word bs) ! i) n = bit ((bs @ replicate (8 - length bs) 0) ! i) n"
      using i assms \<open>n < 8\<close> by (auto simp: le_bytes_def bit_simps bit_le_word nth_append)
  qed
qed

lemma le_word_eq_0: "length bs \<le> 8 \<Longrightarrow> le_word bs = 0 \<longleftrightarrow> (\<forall>b\<in>set bs. b = 0)"
  using le_word_inject [of bs "replicate (length bs) 0"] le_word_zeros [of "[]" "length bs"]
  by (metis append_Nil in_set_replicate le_word.simps(1) length_replicate replicate_eqI)

lemma DoLowercaseLane_eq: "DoLowercaseLane c = lower_u8 c"
proof -
  have u: "0 \<le> uint c" "uint c < 256" using uint_lt2p [of c] by simp_all
  then have "uint c div 128 = (if uint c < 128 then 0 else 1)" by presburger
  then have "sint c = (if uint c < 128 then uint c else uint c - 256)"
    using u by (auto simp: sint_uint signed_take_bit_int_eq_self_iff signed_take_bit_int_greater_self_iff
        signed_take_bit_eq_take_bit_minus bit_iff_odd take_bit_eq_mod)
  then have "c <s 0x41 \<or> 0x5A <s c \<longleftrightarrow> \<not> (0x41 \<le> c \<and> c \<le> 0x5A)"
    using u by (auto simp: word_sless_alt word_le_def)
  then show ?thesis by (auto simp: DoLowercaseLane_def lower_u8_def m128_cmp_def)
qed

subsection \<open>What a fetcher promises\<close>

text \<open>
  A form between the code and the reference below: the code's rounds over blocks of eight bytes
  and a last block that holds the remaining bytes and the length.
\<close>

fun sip_blocks :: "u8 list \<Rightarrow> sip \<Rightarrow> u8 list \<times> sip" where
  "sip_blocks data s =
     (if 8 \<le> length data then sip_blocks (drop 8 data) (data_round (le_word (take 8 data)) s) else (data, s))"

declare sip_blocks.simps [simp del]

definition sip_by_blocks :: "u64 \<Rightarrow> u64 \<Rightarrow> u8 list \<Rightarrow> u64" where
  "sip_by_blocks k0 k1 data =
     (let (rest, s) = sip_blocks data (sip_init k0 k1)
      in sip_result (finalize (data_round (push_bit 56 (word_of_nat (length data)) OR le_word rest) s)))"

subsection \<open>SipHash as it is published\<close>

text \<open>
  Aumasson and Bernstein, \<open>SipHash: a fast short-input PRF\<close>, section 2, with the numbers \<open>c\<close> of
  compression rounds and \<open>d\<close> of finalisation rounds as arguments; nothing of the code is used.
  The four initial constants are the text \<open>somepseudorandomlygeneratedbytes\<close> read as four
  big-endian words.  The message is padded with zeros up to a last byte that holds its length
  modulo 256, and cut into little-endian words.
\<close>

definition big_endian :: "nat list \<Rightarrow> u64" where
  "big_endian bs = word_of_nat (foldl (\<lambda>n b. 256 * n + b) 0 bs)"

fun little_endian :: "u8 list \<Rightarrow> u64" where
  "little_endian [] = 0"
| "little_endian (b # bs) = ucast b + 256 * little_endian bs"

definition Sip_constants :: "u64 list" where
  "Sip_constants =
     (let bs = map byte ''somepseudorandomlygeneratedbytes''
      in map (\<lambda>i. big_endian (take 8 (drop (8 * i) bs))) [0..<4])"

definition Sip_start :: "u64 \<Rightarrow> u64 \<Rightarrow> u64 \<times> u64 \<times> u64 \<times> u64" where
  "Sip_start k0 k1 =
     (k0 XOR Sip_constants ! 0, k1 XOR Sip_constants ! 1, k0 XOR Sip_constants ! 2, k1 XOR Sip_constants ! 3)"

fun SipRound :: "u64 \<times> u64 \<times> u64 \<times> u64 \<Rightarrow> u64 \<times> u64 \<times> u64 \<times> u64" where
  "SipRound (a, b, c, d) =
     (let a = a + b; c = c + d;
          b = word_rotl 13 b; d = word_rotl 16 d;
          b = b XOR a; d = d XOR c;
          a = word_rotl 32 a;
          c = c + b; a = a + d;
          b = word_rotl 17 b; d = word_rotl 21 d;
          b = b XOR c; d = d XOR a;
          c = word_rotl 32 c
      in (a, b, c, d))"

fun Sip_compress :: "nat \<Rightarrow> u64 \<times> u64 \<times> u64 \<times> u64 \<Rightarrow> u64 \<Rightarrow> u64 \<times> u64 \<times> u64 \<times> u64" where
  "Sip_compress n (a, b, c, d) m =
     (let (a, b, c, d) = (SipRound ^^ n) (a, b, c, d XOR m) in (a XOR m, b, c, d))"

fun Sip_finish :: "nat \<Rightarrow> u64 \<times> u64 \<times> u64 \<times> u64 \<Rightarrow> u64" where
  "Sip_finish n (a, b, c, d) =
     (let (a, b, c, d) = (SipRound ^^ n) (a, b, c XOR 0xFF, d) in a XOR b XOR c XOR d)"

definition Sip_padded :: "u8 list \<Rightarrow> u8 list" where
  "Sip_padded m = m @ replicate (7 - length m mod 8) 0 @ [word_of_nat (length m)]"

fun Sip_words :: "u8 list \<Rightarrow> u64 list" where
  "Sip_words bs = (if bs = [] then [] else little_endian (take 8 bs) # Sip_words (drop 8 bs))"

declare Sip_words.simps [simp del]

definition SipHash :: "nat \<Rightarrow> nat \<Rightarrow> u64 \<Rightarrow> u64 \<Rightarrow> u8 list \<Rightarrow> u64" where
  "SipHash c d k0 k1 m = Sip_finish d (foldl (Sip_compress c) (Sip_start k0 k1) (Sip_words (Sip_padded m)))"

subsection \<open>The code's rounds are those of the paper\<close>

definition sip_tuple :: "sip \<Rightarrow> u64 \<times> u64 \<times> u64 \<times> u64" where
  "sip_tuple s = (v0 s, v1 s, v2 s, v3 s)"

lemma rotl_parts: "b < 64 \<Longrightarrow> word_rotl b x = push_bit b x OR drop_bit (64 - b) (x :: u64)"
proof (rule bit_word_eqI)
  fix n assume b: "b < 64" and "n < LENGTH(64)"
  then have n: "n < 64" by simp
  show "bit (word_rotl b x) n \<longleftrightarrow> bit (push_bit b x OR drop_bit (64 - b) x) n"
  proof (cases "n < b")
    case True
    then have "(n + (64 - b)) mod 64 = 64 - b + n" using b by simp
    then show ?thesis using b n True by (simp add: bit_word_rotl_iff bit_simps)
  next
    case False
    then have "(n + (64 - b)) mod 64 = n - b" using b n by (simp add: mod_if)
    moreover have "\<not> 64 - b + n < 64" using False b by simp
    then have "\<not> bit x (64 - b + n)" using bit_imp_le_length [of x "64 - b + n"] by auto
    ultimately show ?thesis using b n False by (simp add: bit_word_rotl_iff bit_simps)
  qed
qed

lemma RotateLeft_rotl: "b < 64 \<Longrightarrow> RotateLeft x b = word_rotl b x"
  by (simp add: RotateLeft_def rotl_parts)

lemma Sip_constants_eq:
  "Sip_constants = [0x736f6d6570736575, 0x646f72616e646f6d, 0x6c7967656e657261, 0x7465646279746573]"
  by (simp add: Sip_constants_def big_endian_def upt_rec)

text \<open>The test vector of the paper's appendix A, for SipHash-2-4 and the bytes 0 to 14.\<close>

lemma SipHash_2_4_test_vector:
  "SipHash 2 4 0x0706050403020100 0x0f0e0d0c0b0a0908 (map word_of_nat [0..<15]) = 0xa129ca6149be45e5"
proof -
  have rounds: "(SipRound ^^ 2) p = SipRound (SipRound p)" "(SipRound ^^ 4) p = SipRound (SipRound (SipRound (SipRound p)))" for p
    by (simp_all add: numeral_eq_Suc)
  have words: "Sip_words (Sip_padded (map word_of_nat [0..<15])) = [0x0706050403020100, 0x0f0e0d0c0b0a0908]"
    by (simp add: Sip_padded_def upt_rec Sip_words.simps)
  show ?thesis unfolding SipHash_def words by (simp add: Sip_start_def Sip_constants_eq rounds rotl_parts)
qed

lemma sip_tuple_init: "sip_tuple (sip_init k0 k1) = Sip_start k0 k1"
  by (simp add: sip_tuple_def sip_init_def Sip_start_def Sip_constants_eq)

lemma sip_tuple_round: "sip_tuple (sip_round s) = SipRound (sip_tuple s)"
  by (simp add: sip_tuple_def sip_round_def Let_def RotateLeft_rotl)

lemma sip_tuple_data_round: "sip_tuple (data_round m s) = Sip_compress 1 (sip_tuple s) m"
  using sip_tuple_round [of "s\<lparr>v3 := v3 s XOR m\<rparr>"]
  by (simp add: data_round_def Let_def sip_tuple_def split: prod.splits)

lemma sip_finish: "sip_result (finalize s) = Sip_finish 3 (sip_tuple s)"
proof -
  have "sip_tuple (finalize s) = (SipRound ^^ 3) (v0 s, v1 s, v2 s XOR 0xFF, v3 s)"
    by (simp add: finalize_def sip_tuple_round numeral_3_eq_3 del: SipRound.simps) (simp add: sip_tuple_def del: SipRound.simps)
  then show ?thesis by (simp add: sip_result_def sip_tuple_def) (metis (no_types, lifting) case_prod_conv)
qed

lemma le_word_little_endian: "le_word bs = little_endian bs"
proof (induction bs)
  case (Cons b bs)
  have "ucast b OR push_bit 8 w = ucast b + push_bit 8 (w :: u64)" for w
  proof (rule disjunctive_add [symmetric])
    fix n
    have "bit b n \<Longrightarrow> n < 8" by (drule bit_imp_le_length) simp
    then show "\<not> bit (ucast b :: u64) n \<or> \<not> bit (push_bit 8 w) n" by (auto simp: bit_simps)
  qed
  then show ?case using Cons by (simp add: push_bit_eq_mult mult.commute)
qed simp

lemma le_word_append: "length bs < 8 \<Longrightarrow> le_word (bs @ cs) = le_word bs OR push_bit (8 * length bs) (le_word cs)"
proof (rule bit_word_eqI)
  fix n :: nat
  show "bit (le_word (bs @ cs)) n \<longleftrightarrow> bit (le_word bs OR push_bit (8 * length bs) (le_word cs)) n"
  proof (cases "n < 8 * length bs")
    case True
    then have "n div 8 < length bs" by simp
    then show ?thesis using True by (auto simp: bit_simps bit_le_word nth_append)
  next
    case False
    then obtain j where j: "n = 8 * length bs + j" by (metis le_Suc_ex not_less)
    then show ?thesis by (auto simp: bit_simps bit_le_word nth_append)
  qed
qed

lemma last_block:
  assumes "length rest < 8"
  shows "push_bit 56 (word_of_nat n) OR le_word rest
    = little_endian (rest @ replicate (7 - length rest) 0 @ [word_of_nat n])"
proof -
  have "ucast (word_of_nat n :: u8) = take_bit 8 (word_of_nat n :: u64)"
    by (rule bit_word_eqI) (auto simp: bit_simps)
  then have "push_bit 56 (ucast (word_of_nat n :: u8)) = push_bit 56 (word_of_nat n :: u64)"
    by (intro bit_word_eqI) (auto simp: bit_simps)
  moreover have "le_word (rest @ replicate (7 - length rest) 0 @ [word_of_nat n])
      = le_word ((rest @ replicate (7 - length rest) 0) @ [word_of_nat n])" by simp
  moreover have "\<dots> = le_word (rest @ replicate (7 - length rest) 0) OR push_bit 56 (le_word [word_of_nat n])"
    by (subst le_word_append) (use assms in simp_all)
  ultimately show ?thesis by (simp add: le_word_zeros or.commute flip: le_word_little_endian)
qed

lemma sip_blocks_words:
  "(case sip_blocks data s of (rest, s') \<Rightarrow>
      sip_tuple (data_round (push_bit 56 (word_of_nat n) OR le_word rest) s'))
   = foldl (Sip_compress 1) (sip_tuple s)
       (Sip_words (data @ replicate (7 - length data mod 8) 0 @ [word_of_nat n]))"
proof (induction data s rule: sip_blocks.induct)
  case (1 data s)
  let ?pad = "replicate (7 - length data mod 8) 0 @ [word_of_nat n]"
  show ?case
  proof (cases "8 \<le> length data")
    case True
    then have "length (drop 8 data) mod 8 = length data mod 8" by (simp add: mod_if)
    moreover have "Sip_words (data @ ?pad) = le_word (take 8 data) # Sip_words (drop 8 data @ ?pad)"
      using True by (subst Sip_words.simps) (auto simp: le_word_little_endian)
    ultimately show ?thesis using 1 [OF True] True
      by (subst sip_blocks.simps) (simp add: sip_tuple_data_round del: Sip_compress.simps)
  next
    case False
    then have "length data mod 8 = length data" by simp
    then have "Sip_words (data @ ?pad) = [little_endian (data @ replicate (7 - length data) 0 @ [word_of_nat n])]"
      using False by (subst Sip_words.simps, subst Sip_words.simps) simp
    then show ?thesis using False
      by (subst sip_blocks.simps) (simp add: sip_tuple_data_round last_block del: Sip_compress.simps)
  qed
qed

lemma sip_by_blocks_SipHash: "sip_by_blocks k0 k1 data = SipHash 1 3 k0 k1 data"
proof -
  have "SipHash 1 3 k0 k1 data = Sip_finish 3 (case sip_blocks data (sip_init k0 k1) of (rest, s') \<Rightarrow>
      sip_tuple (data_round (push_bit 56 (word_of_nat (length data)) OR le_word rest) s'))"
    by (simp only: SipHash_def Sip_padded_def sip_blocks_words sip_tuple_init)
  also have "\<dots> = sip_by_blocks k0 k1 data"
    by (simp add: sip_by_blocks_def sip_finish split: prod.splits del: Sip_finish.simps)
  finally show ?thesis by simp
qed

lemma sip_blocks_rest: "fst (sip_blocks data s) = drop (length data - length data mod 8) data"
proof (induction data s rule: sip_blocks.induct)
  case (1 data s)
  show ?case
  proof (cases "8 \<le> length data")
    case True
    then obtain k where k: "length data = k + 8" by (metis add.commute le_Suc_ex)
    have "k mod 8 \<le> k" by simp
    then show ?thesis using 1 [OF True] True k by (subst sip_blocks.simps) (simp add: add.commute)
  next
    case False
    then show ?thesis by (subst sip_blocks.simps) simp
  qed
qed

locale lower_fetcher =
  fixes F :: "'a fetcher_scheme" and f :: "u8 \<Rightarrow> u8"
  assumes Fetch8_law: "8 \<le> length data \<Longrightarrow> Fetch8 F data = le_word (map f (take 8 data))"
    and Fetch16_law: "16 \<le> length data \<Longrightarrow>
      Fetch16 F data = (le_word (map f (take 8 data)), le_word (map f (take 8 (drop 8 data))))"
    and FetchN_law: "length data < 8 \<Longrightarrow> FetchN F data (length data) = le_word (map f data)"
begin

lemma loop_blocks:
  "\<exists>rest s'. SipHash13_loop F data s = (rest, s') \<and> length rest < 16
     \<and> sip_blocks (map f rest) s' = sip_blocks (map f data) s"
proof (induction data arbitrary: s rule: length_induct)
  case (1 data)
  show ?case
  proof (cases "16 \<le> length data")
    case True
    let ?s = "data_round (le_word (map f (take 8 (drop 8 data)))) (data_round (le_word (map f (take 8 data))) s)"
    have "sip_blocks (map f data) s = sip_blocks (map f (drop 16 data)) ?s"
    proof -
      have "8 \<le> length data - 8" using True by simp
      then show ?thesis using True by (subst sip_blocks.simps, subst sip_blocks.simps) (simp add: take_map drop_map)
    qed
    moreover have "length (drop 16 data) < length data" using True by simp
    ultimately show ?thesis
      using 1 [rule_format, of "drop 16 data" ?s] True by (subst SipHash13_loop.simps) (simp add: Fetch16_law)
  next
    case False
    then show ?thesis by (subst SipHash13_loop.simps) simp
  qed
qed

lemma suffix_block:
  assumes "8 \<le> length data"
  shows "drop_bit ((8 - length data mod 8) * 8) (Fetch8 F (drop (length data - 8) data))
    = le_word (map f (drop (length data - length data mod 8) data))"
proof -
  have "length data mod 8 < 8" "length data mod 8 \<le> length data" by simp_all
  then have "length data - 8 + (8 - length data mod 8) = length data - length data mod 8" using assms by linarith
  then show ?thesis using assms by (simp add: Fetch8_law le_word_drop drop_map add.commute)
qed

theorem SipHash13_reference: "SipHash13 F k0 k1 data = sip_by_blocks k0 k1 (map f data)"
proof (cases "length data < 8")
  case True
  then show ?thesis
    by (simp add: SipHash13_def sip_by_blocks_def FetchN_law sip_blocks.simps [of "map f data"] Let_def)
next
  case False
  obtain rest s where loop: "SipHash13_loop F data (sip_init k0 k1) = (rest, s)" "length rest < 16"
    and blocks: "sip_blocks (map f rest) s = sip_blocks (map f data) (sip_init k0 k1)"
    using loop_blocks by blast
  define rest' s' where "rest' = (if 8 \<le> length rest then drop 8 rest else rest)"
    and "s' = (if 8 \<le> length rest then data_round (Fetch8 F rest) s else s)"
  have "sip_blocks (map f rest) s = (map f rest', s')"
    using loop(2) by (subst sip_blocks.simps) (auto simp: rest'_def s'_def Fetch8_law drop_map take_map sip_blocks.simps [of "map f (drop 8 rest)"])
  with blocks have blk: "sip_blocks (map f data) (sip_init k0 k1) = (map f rest', s')" by simp
  then have "map f rest' = map f (drop (length data - length data mod 8) data)"
    using sip_blocks_rest [of "map f data" "sip_init k0 k1"] by (simp add: drop_map)
  then have "le_word (map f rest') = drop_bit ((8 - length data mod 8) * 8) (Fetch8 F (drop (length data - 8) data))"
    using suffix_block [of data] False by simp
  then have "b OR le_word (map f rest') =
      (if rest' \<noteq> [] then b OR drop_bit ((8 - length data mod 8) * 8) (Fetch8 F (drop (length data - 8) data)) else b)" for b
    by (cases "rest' = []") simp_all
  then show ?thesis using False loop(1) blk
    by (auto simp: SipHash13_def sip_by_blocks_def Let_def rest'_def s'_def split: if_splits)
qed

end

locale lower_comparer =
  fixes C :: comparer and f :: "u8 \<Rightarrow> u8"
  assumes Compare8_law: "8 \<le> length l \<Longrightarrow> 8 \<le> length r \<Longrightarrow>
      FailFastCompare8 C l r \<longleftrightarrow> map f (take 8 l) = map f (take 8 r)"
    and Compare16_law: "16 \<le> length l \<Longrightarrow> 16 \<le> length r \<Longrightarrow>
      FailFastCompare16 C l r \<longleftrightarrow> map f (take 16 l) = map f (take 16 r)"
    and naive_law: "f = lower_u8"
begin

lemma map_take_drop:
  "map f l = map f r \<longleftrightarrow> map f (take n l) = map f (take n r) \<and> map f (drop n l) = map f (drop n r)"
  by (metis append_take_drop_id map_append take_map drop_map)

lemma loop_equal:
  assumes "length l = length r"
  shows "case NoCaseEqual_loop C l r of
      None \<Rightarrow> map f l \<noteq> map f r
    | Some (l', r') \<Rightarrow> length l' < 16 \<and> (\<exists>k\<le>length l. l' = drop k l \<and> r' = drop k r)
        \<and> (map f l = map f r \<longleftrightarrow> map f l' = map f r')"
  using assms
proof (induction l arbitrary: r rule: length_induct)
  case (1 l)
  show ?case
  proof (cases "16 \<le> length l")
    case True
    then have less: "length (drop 16 l) < length l" "length (drop 16 l) = length (drop 16 r)" using 1(2) by simp_all
    have unfold: "NoCaseEqual_loop C l r =
        (if map f (take 16 l) = map f (take 16 r) then NoCaseEqual_loop C (drop 16 l) (drop 16 r) else None)"
      using True 1(2) by (subst NoCaseEqual_loop.simps) (simp add: CompareAndAdvance_def Compare16_law)
    show ?thesis
    proof (cases "NoCaseEqual_loop C (drop 16 l) (drop 16 r)")
      case None
      then show ?thesis using 1(1) [rule_format, OF less] map_take_drop [of l r 16] unfold by simp
    next
      case (Some p)
      obtain l' r' where p: "p = (l', r')" by (cases p)
      from 1(1) [rule_format, OF less] Some p obtain k where k: "k \<le> length l - 16" "l' = drop k (drop 16 l)" "r' = drop k (drop 16 r)"
        and r: "length l' < 16" "map f (drop 16 l) = map f (drop 16 r) \<longleftrightarrow> map f l' = map f r'" by auto
      have "\<exists>k\<le>length l. l' = drop k l \<and> r' = drop k r"
        using k True by (intro exI [of _ "k + 16"]) simp
      then show ?thesis using r unfold Some p map_take_drop [of l r 16] by simp
    qed
  next
    case False
    then show ?thesis using 1(2) by (subst NoCaseEqual_loop.simps) (auto intro: exI [of _ 0])
  qed
qed

lemma CompareNaive_iff: "length l = length r \<Longrightarrow> CompareNaive l r \<longleftrightarrow> map f l = map f r"
  by (induction l r rule: CompareNaive.induct) (auto simp: naive_law lower_u8_def Let_def)

lemma suffix_equal:
  assumes "length l = length r" and "k \<le> length l" and "length l - k < 8" and "8 \<le> length l"
    and "map f (drop (length l - 8) l) = map f (drop (length r - 8) r)"
  shows "map f (drop k l) = map f (drop k r)"
proof -
  have "drop k xs = drop (k - (length xs - 8)) (drop (length xs - 8) xs)" if "length xs = length l" for xs :: "u8 list"
    using assms(2,3,4) that by simp
  from this [of l] this [of r] show ?thesis using assms(1,5) by (metis drop_map)
qed

theorem NoCaseEqual_iff: "NoCaseEqual C l r \<longleftrightarrow> map f l = map f r"
proof (cases "length l = length r \<and> 8 \<le> length l")
  case False
  then show ?thesis using CompareNaive_iff [of l r] map_eq_imp_length_eq [of f l f r] by (auto simp: NoCaseEqual_def)
next
  case True
  then have len: "length l = length r" and ge: "8 \<le> length l" "8 \<le> length r" by auto
  show ?thesis
  proof (cases "NoCaseEqual_loop C l r")
    case None
    then show ?thesis using loop_equal [OF len] len ge by (simp add: NoCaseEqual_def)
  next
    case (Some p)
    with loop_equal [OF len] obtain k where p: "p = (drop k l, drop k r)" and k: "k \<le> length l" "length l - k < 16"
      and eq: "map f l = map f r \<longleftrightarrow> map f (drop k l) = map f (drop k r)" by (cases p) auto
    define k' where "k' = (if 8 \<le> length l - k then k + 8 else k)"
    let ?suf = "map f (drop (length l - 8) l) = map f (drop (length r - 8) r)"
    have suf: "FailFastCompare8 C (drop (length l - 8) l) (drop (length r - 8) r) \<longleftrightarrow> ?suf"
      using ge by (simp add: Compare8_law)
    have split: "map f (drop k l) = map f (drop k r) \<longleftrightarrow>
        (8 \<le> length l - k \<longrightarrow> map f (take 8 (drop k l)) = map f (take 8 (drop k r))) \<and> map f (drop k' l) = map f (drop k' r)"
      using map_take_drop [of "drop k l" "drop k r" 8] by (simp add: k'_def add.commute)
    have k': "k' \<le> length l" "length l - k' < 8" using k by (auto simp: k'_def)
    have "NoCaseEqual C l r \<longleftrightarrow>
        (8 \<le> length l - k \<longrightarrow> map f (take 8 (drop k l)) = map f (take 8 (drop k r))) \<and> (length l \<le> k' \<or> ?suf)"
      using len ge Some p suf k
      by (simp add: NoCaseEqual_def CompareAndAdvance_def Compare8_law k'_def add.commute)
    also have "\<dots> \<longleftrightarrow> map f l = map f r"
    proof -
      have "?suf \<Longrightarrow> map f (drop k' l) = map f (drop k' r)" by (rule suffix_equal [OF len k' ge(1)])
      moreover have "length l \<le> k' \<Longrightarrow> map f (drop k' l) = map f (drop k' r)" using len by simp
      moreover have "map f l = map f r \<Longrightarrow> ?suf" using len by (simp flip: drop_map)
      ultimately show ?thesis using eq split by blast
    qed
    finally show ?thesis .
  qed
qed

end

subsection \<open>The fetchers of the source\<close>

lemma Case_FetchN_append: "length data < 8 \<Longrightarrow> Case_FetchN (data @ zs) (length data) = le_word data"
proof -
  assume "length data < 8"
  then consider "data = []" | a where "data = [a]" | a b where "data = [a, b]" | a b c where "data = [a, b, c]"
    | a b c d where "data = [a, b, c, d]" | a b c d e where "data = [a, b, c, d, e]"
    | a b c d e f where "data = [a, b, c, d, e, f]" | a b c d e f g where "data = [a, b, c, d, e, f, g]"
    by (auto simp: less_Suc_eq numeral_eq_Suc length_Suc_conv)
  then show ?thesis
    by cases (simp_all add: Case_FetchN_def push_bit_or push_bit_push_bit or.commute or.left_commute)
qed

lemma Case_FetchN_eq: "length data < 8 \<Longrightarrow> Case_FetchN data (length data) = le_word data"
  using Case_FetchN_append [of data "[]"] by simp

lemma lower_u8_0 [simp]: "lower_u8 0 = 0"
  by (simp add: lower_u8_def)

lemma is_zero_vector_iff: "length w = 16 \<Longrightarrow> is_zero_vector w \<longleftrightarrow> (\<forall>b\<in>set w. b = 0)"
proof -
  assume w: "length w = 16"
  have "set w = set (take 8 w) \<union> set (drop 8 w)" by (metis append_take_drop_id set_append)
  then show ?thesis using w by (auto simp: is_zero_vector_def or_eq_0_iff le_word_eq_0)
qed

lemma u8_xor_eq_0: "(a :: u8) XOR b = 0 \<longleftrightarrow> a = b"
  by (metis word_bitwise_m1_simps xor.assoc xor.left_neutral xor.right_neutral xor_self_eq)

lemma map2_xor_zero: "length l = length r \<Longrightarrow> (\<forall>b\<in>set (map2 (XOR) l r). b = 0) \<longleftrightarrow> l = (r :: u8 list)"
  by (induction l r rule: list_induct2) (simp_all add: u8_xor_eq_0)

lemma lower_u8_diff:
  assumes "lower_u8 a = lower_u8 b"
  shows "(a XOR b) AND NOT 32 = 0"
proof -
  have "lower_u8 c AND NOT 32 = c AND NOT 32" for c
    by (rule bit_word_eqI) (auto simp: lower_u8_def bit_simps)
  with assms have "a AND NOT 32 = b AND NOT 32" by metis
  then show ?thesis by (simp add: bit.conj_xor_distrib2)
qed

lemma map2_lower_diff:
  "length l = length r \<Longrightarrow> map lower_u8 l = map lower_u8 r \<Longrightarrow> \<forall>b\<in>set (map (\<lambda>d. d AND NOT 32) (map2 (XOR) l r)). b = 0"
  by (induction l r rule: list_induct2) (simp_all add: lower_u8_diff [simplified])

lemma DoLowercaseBytes_eq: "DoLowercaseBytes w = map lower_u8 w"
  by (simp add: DoLowercaseBytes_def DoLowercaseLane_eq)

lemma FailFastCompare_iff:
  assumes "length l = 16" and "length r = 16"
  shows "FailFastCompare l r \<longleftrightarrow> map lower_u8 l = map lower_u8 r"
  using map2_lower_diff [of l r] map2_xor_zero [of "map lower_u8 l" "map lower_u8 r"] assms
  by (auto simp: FailFastCompare_def is_zero_vector_iff DoLowercaseBytes_eq Let_def)

lemma Lowercase_full: "len \<le> length src \<Longrightarrow> Lowercase len src len = map lower_u8 (take len src)"
  by (simp add: Lowercase_def)

lemma Lower_FetchN_eq: "length data < 8 \<Longrightarrow> Lower_FetchN data (length data) = le_word (map lower_u8 data)"
  using Case_FetchN_append [of "map lower_u8 data" "replicate (8 - length data) 0"]
  by (simp add: Lower_FetchN_def Lowercase_def)

lemma Lower_Fetch8_eq: "8 \<le> length data \<Longrightarrow> Lower_Fetch8 data = le_word (map lower_u8 (take 8 data))"
  by (simp add: Lower_Fetch8_def Case_Fetch8_def Lowercase_full take_map)

lemma Lower_Fetch16_eq: "16 \<le> length data \<Longrightarrow>
    Lower_Fetch16 data = (le_word (map lower_u8 (take 8 data)), le_word (map lower_u8 (take 8 (drop 8 data))))"
  by (simp add: Lower_Fetch16_def Case_Fetch16_def Case_Fetch8_def Lowercase_full take_map drop_map drop_take)

lemma Lower_Fetch16_inject:
  assumes "16 \<le> length l" and "16 \<le> length r"
  shows "Lower_Fetch16 l = Lower_Fetch16 r \<longleftrightarrow> map lower_u8 (take 16 l) = map lower_u8 (take 16 r)"
proof -
  have "take 16 xs = take 8 xs @ take 8 (drop 8 xs)" for xs :: "u8 list"
    using take_add [of 8 8 xs] by simp
  then show ?thesis using assms by (simp add: Lower_Fetch16_eq le_word_inject)
qed

interpretation case_fetch: lower_fetcher CaseFetcher id
  by unfold_locales (simp_all add: CaseFetcher_def Case_Fetch8_def Case_Fetch16_def Case_FetchN_eq)

interpretation sse_fetch: lower_fetcher CaseInsensitiveSSEFetcher lower_u8
  by unfold_locales
    (simp_all add: CaseInsensitiveSSEFetcher_def LowercaseBytes_def DoLowercaseBytes_eq SSE_Load8_def SSE_Load16_def
      take_map drop_map drop_take Case_FetchN_eq le_bytes_le_word le_word_zeros)

interpretation lower_fetch: lower_fetcher CaseInsensitiveFetcher lower_u8
  by unfold_locales (simp_all add: CaseInsensitiveFetcher_def Lower_Fetch8_eq Lower_Fetch16_eq Lower_FetchN_eq)

interpretation sse_compare: lower_comparer CaseInsensitiveSSEFetcher lower_u8
  by unfold_locales (simp_all add: CaseInsensitiveSSEFetcher_def SSE_Load8_def SSE_Load16_def FailFastCompare_iff)

interpretation lower_compare: lower_comparer CaseInsensitiveFetcher lower_u8
  by unfold_locales (simp_all add: CaseInsensitiveFetcher_def Lower_Fetch8_eq Lower_Fetch16_inject le_word_inject)

subsection \<open>Results\<close>

lemma u8_of_to_lower: "u8_of (to_lower c) = lower_u8 (u8_of c)"
proof -
  have b: "byte c < 256" by simp
  have le: "word_of_nat n \<le> u8_of c \<longleftrightarrow> n \<le> byte c" "u8_of c \<le> word_of_nat n \<longleftrightarrow> byte c \<le> n" if "n < 256" for n
    using b that by (simp_all add: u8_of_def word_le_nat_alt unat_of_nat take_bit_eq_mod)
  have range: "0x41 \<le> u8_of c \<longleftrightarrow> 65 \<le> byte c" "u8_of c \<le> 0x5A \<longleftrightarrow> byte c \<le> 90" using le [of 65] le [of 90] by simp_all
  have "u8_of c OR 32 = word_of_nat (byte c + 32)" if "65 \<le> byte c" "byte c \<le> 90"
  proof -
    have "u8_of c = word_of_nat (byte c)" by (simp add: u8_of_def)
    moreover have "byte c \<in> {65..90}" using that by simp
    ultimately show ?thesis by (simp add: atLeastAtMost_upt upt_rec) (elim disjE; simp)
  qed
  then show ?thesis using range b by (auto simp: to_lower_def lower_u8_def u8_of_def)
qed

lemma bytes_of_to_lower: "bytes_of (map to_lower s) = map lower_u8 (bytes_of s)"
  by (simp add: bytes_of_def u8_of_to_lower)

lemma unat_u8_of [simp]: "unat (u8_of c) = byte c"
  by (simp add: u8_of_def unat_of_nat take_bit_eq_mod)

lemma u8_of_inject: "u8_of a = u8_of b \<longleftrightarrow> a = b"
  by (metis of_char_eq_iff unat_u8_of)

lemma bytes_of_inject: "bytes_of a = bytes_of b \<longleftrightarrow> a = b"
  unfolding bytes_of_def by (rule inj_map_eq_map) (simp add: inj_def u8_of_inject)

lemma SipHash_lowercase:
  "CaseInsensitiveSipHasher sse2 k0 k1 s = sip_by_blocks k0 k1 (bytes_of (map to_lower s))"
  by (simp add: CaseInsensitiveSipHasher_def CaseInsensitiveSipHasherNoSse_def bytes_of_to_lower
      sse_fetch.SipHash13_reference lower_fetch.SipHash13_reference)

lemma CaseInsensitiveEqual_iff: "CaseInsensitiveEqual sse2 a b \<longleftrightarrow> StrIcaseEqual a b"
  by (simp add: CaseInsensitiveEqual_def CaseInsensitiveEqualNoSse_def sse_compare.NoCaseEqual_iff
      lower_compare.NoCaseEqual_iff StrIcaseEqual_def flip: bytes_of_to_lower bytes_of_inject)

lemma StrIcaseHash_icase: "StrIcaseEqual a b \<Longrightarrow> StrIcaseHash sse2 seed a = StrIcaseHash sse2 seed b"
  by (simp add: StrIcaseHash_def SipHash_lowercase StrIcaseEqual_def)

text \<open>
  (C38) The optimised hash is the published one: with either fetcher the case-insensitive hasher
  computes SipHash-1-3 (one compression round, three finalisation rounds) of the lower-cased
  string, and the case-sensitive hasher SipHash-1-3 of the string itself, where \<open>SipHash\<close> is
  written from the paper.  The constants, the rounds, the unrolled loop, the early return for short
  strings and the trick that reads the last bytes from the eight-byte suffix are all right.
\<close>

theorem sip_hash_is_siphash13:
  "CaseInsensitiveSipHasher sse2 k0 k1 s = SipHash 1 3 k0 k1 (bytes_of (map to_lower s))
   \<and> SipHasher k0 k1 s = SipHash 1 3 k0 k1 (bytes_of s)"
  by (simp add: SipHash_lowercase SipHasher_def case_fetch.SipHash13_reference sip_by_blocks_SipHash)

text \<open>
  The comparison that skips through the strings in steps of 16 and 8 bytes, with the SSE2
  registers or without, and finishes on the overlapping eight-byte suffixes decides equality of
  the lower-cased strings.
\<close>

theorem no_case_equal_is_lowercase_equality:
  "CaseInsensitiveEqual sse2 lhs rhs \<longleftrightarrow> map to_lower lhs = map to_lower rhs"
  by (simp add: CaseInsensitiveEqual_iff StrIcaseEqual_def)

end
