(* ===== verification/Header_Hash.thy ===== *)
theory Header_Hash
  imports Byte_Utils
begin

section \<open>Hashes and indices of header names\<close>

text \<open>
  \<open>universal/include/userver/http/predefined_header.hpp\<close>, \<open>http/header_map/danger.cpp\<close> and the
  case-insensitive search of \<open>utils/trivial_map.hpp\<close>: the hash \<open>UnsafeConstexprHasher\<close>, the
  numbers of the known headers, \<open>PredefinedHeader\<close>, and \<open>Danger\<close>, the switch from the fast hash
  to the safe one.  The random keys that \<open>ToRed\<close> draws are an input.  All hashes and indices
  agree on names that differ only in the case of their letters.
\<close>

unbundle bit_operations_syntax

subsection \<open>The fast hash\<close>

definition murmur_mul :: u64 where
  "murmur_mul = push_bit 32 0xc6a4a793 + 0x5bd1e995"

definition ShiftMix :: "u64 \<Rightarrow> u64" where
  "ShiftMix v = v XOR drop_bit 47 v"

definition kDeliberatelyBrokenLowercaseMask :: u64 where
  "kDeliberatelyBrokenLowercaseMask = 0x2020202020202020"

definition LoadN :: "u8 list \<Rightarrow> nat \<Rightarrow> u64" where
  "LoadN data n =
     fold (\<lambda>i result. result OR push_bit (8 * i) (ucast (data ! i))) [0..<n]
       (drop_bit (8 * (8 - n)) kDeliberatelyBrokenLowercaseMask)"

definition Load8 :: "u8 list \<Rightarrow> u64" where
  "Load8 data = LoadN data 8"

fun murmur_loop :: "u8 list \<Rightarrow> u64 \<Rightarrow> u64" where
  "murmur_loop str hash =
     (if 8 \<le> length str then
        (let data = ShiftMix (Load8 str * murmur_mul) * murmur_mul
         in murmur_loop (drop 8 str) ((hash XOR data) * murmur_mul))
      else if str \<noteq> [] then (hash XOR LoadN str (length str)) * murmur_mul
      else hash)"

declare murmur_loop.simps [simp del]

definition UnsafeConstexprHasher :: "string \<Rightarrow> u64" where
  "UnsafeConstexprHasher str =
     (let hash = 54999 XOR (word_of_nat (length str) * murmur_mul);
          hash = murmur_loop (bytes_of str) hash;
          hash = ShiftMix hash * murmur_mul
      in ShiftMix hash)"

subsection \<open>The known headers\<close>

definition ICaseEqualLowercase :: "string \<Rightarrow> string \<Rightarrow> bool" where
  "ICaseEqualLowercase lowercase y \<longleftrightarrow>
     (\<forall>i<length lowercase.
        (let lowercase_c = lowercase ! i in
         lowercase_c = y ! i
         \<or> 97 \<le> byte lowercase_c \<and> byte lowercase_c \<le> 122 \<and> (u8_of lowercase_c AND NOT 32) = u8_of (y ! i)))"

definition HeaderCase :: "string \<Rightarrow> string \<times> int \<Rightarrow> int option \<Rightarrow> int option" where
  "HeaderCase key c found =
     (if found = None \<and> length key = length (fst c) \<and> ICaseEqualLowercase (fst c) key then Some (snd c) else found)"

definition kKnownHeadersLowercaseMap :: "(string \<times> int) list" where
  "kKnownHeadersLowercaseMap =
     [(''content-type'', 1), (''content-encoding'', 2), (''content-length'', 3), (''transfer-encoding'', 4),
      (''host'', 5), (''accept'', 6), (''accept-encoding'', 7), (''accept-language'', 8),
      (''x-yataxi-api-key'', 9), (''user-agent'', 10), (''x-request-application'', 11), (''date'', 12),
      (''warning'', 13), (''access-control-allow-headers'', 14), (''allow'', 15), (''server'', 16),
      (''set-cookie'', 17), (''connection'', 18), (''cookie'', 19), (''x-yarequestid'', 20),
      (''x-yatraceid'', 21), (''x-yaspanid'', 22), (''x-requestid'', 23), (''x-backend-server'', 24),
      (''x-taxi-envoyproxy-dstvhost'', 25), (''baggage'', 26), (''x-yataxi-allow-auth-request'', 27),
      (''x-yataxi-allow-auth-response'', 28), (''x-yataxi-server-hostname'', 29),
      (''x-yataxi-client-timeoutms'', 30), (''x-yataxi-deadline-expired'', 31),
      (''x-yataxi-ratelimited-by'', 32), (''x-yataxi-ratelimit-reason'', 33), (''x-b3-traceid'', 34),
      (''x-b3-spanid'', 35), (''x-b3-sampled'', 36), (''x-b3-parentspanid'', 37), (''traceparent'', 38),
      (''tracestate'', 39), (''http2-settings'', 40), ('':method'', 41), ('':path'', 42)]"

definition TryFindICaseByFirst :: "(string \<times> int) list \<Rightarrow> string \<Rightarrow> int option" where
  "TryFindICaseByFirst cases key = fold (HeaderCase key) cases None"

definition kNoHeaderIndexLookup :: int where
  "kNoHeaderIndexLookup = -1"

definition kNoHeaderIndexInsertion :: int where
  "kNoHeaderIndexInsertion = -2"

definition value_or :: "'a option \<Rightarrow> 'a \<Rightarrow> 'a" where
  "value_or x d = (case x of None \<Rightarrow> d | Some v \<Rightarrow> v)"

definition GetHeaderIndexForLookup :: "string \<Rightarrow> int" where
  "GetHeaderIndexForLookup key = value_or (TryFindICaseByFirst kKnownHeadersLowercaseMap key) kNoHeaderIndexLookup"

definition GetHeaderIndexForInsertion :: "string \<Rightarrow> int" where
  "GetHeaderIndexForInsertion key = value_or (TryFindICaseByFirst kKnownHeadersLowercaseMap key) kNoHeaderIndexInsertion"

record PredefinedHeader =
  ph_name :: string
  ph_hash :: u64
  ph_header_index :: int

definition make_PredefinedHeader :: "string \<Rightarrow> PredefinedHeader" where
  "make_PredefinedHeader name =
     \<lparr>ph_name = name, ph_hash = UnsafeConstexprHasher name, ph_header_index = GetHeaderIndexForLookup name\<rparr>"

subsection \<open>Danger\<close>

datatype DangerState = kGreen | kYellow | kRed

record Danger =
  danger_state :: DangerState
  danger_k0 :: u64
  danger_k1 :: u64

definition initial_Danger :: Danger where
  "initial_Danger = \<lparr>danger_state = kGreen, danger_k0 = 0, danger_k1 = 0\<rparr>"

definition IsYellow :: "Danger \<Rightarrow> bool" where
  "IsYellow d \<longleftrightarrow> danger_state d = kYellow"

definition IsRed :: "Danger \<Rightarrow> bool" where
  "IsRed d \<longleftrightarrow> danger_state d = kRed"

definition SafeHash :: "bool \<Rightarrow> Danger \<Rightarrow> string \<Rightarrow> u64" where
  "SafeHash sse2 d key = StrIcaseHash sse2 (danger_k0 d, danger_k1 d) key"

definition Danger_HashKey :: "bool \<Rightarrow> Danger \<Rightarrow> string \<Rightarrow> u64" where
  "Danger_HashKey sse2 d key = (if \<not> IsRed d then UnsafeConstexprHasher key else SafeHash sse2 d key)"

definition Danger_HashKey_predefined :: "bool \<Rightarrow> Danger \<Rightarrow> PredefinedHeader \<Rightarrow> u64" where
  "Danger_HashKey_predefined sse2 d header = (if \<not> IsRed d then ph_hash header else SafeHash sse2 d (ph_name header))"

definition ToGreen :: "Danger \<Rightarrow> Danger" where
  "ToGreen d = d\<lparr>danger_state := kGreen\<rparr>"

definition ToYellow :: "Danger \<Rightarrow> Danger" where
  "ToYellow d = (if danger_state d = kGreen then d\<lparr>danger_state := kYellow\<rparr> else d)"

definition ToRed :: "u64 \<times> u64 \<Rightarrow> Danger \<Rightarrow> Danger" where
  "ToRed keys d = d\<lparr>danger_state := kRed, danger_k0 := fst keys, danger_k1 := snd keys\<rparr>"

subsection \<open>The case of the letters does not matter\<close>

lemma le_word_snoc: "le_word (xs @ [b]) = le_word xs OR push_bit (8 * length xs) (ucast b)"
  by (induction xs) (simp_all add: push_bit_or push_bit_push_bit or.assoc)

lemma LoadN_fold:
  "n \<le> length data \<Longrightarrow>
    fold (\<lambda>i result. result OR push_bit (8 * i) (ucast (data ! i))) [0..<n] r = r OR le_word (take n data)"
  by (induction n) (simp_all add: take_Suc_conv_app_nth le_word_snoc or.assoc)

lemma LoadN_eq:
  assumes "n \<le> length data" and "n \<le> 8"
  shows "LoadN data n = le_word (replicate n 0x20) OR le_word (take n data)"
proof -
  have "replicate 8 x = [x, x, x, x, x, x, x, x]" for x :: u8 by (simp add: numeral_eq_Suc)
  then have "kDeliberatelyBrokenLowercaseMask = le_word (replicate 8 0x20)"
    by (simp add: kDeliberatelyBrokenLowercaseMask_def)
  then have "drop_bit (8 * (8 - n)) kDeliberatelyBrokenLowercaseMask = le_word (replicate n 0x20)"
    using le_word_drop [of "replicate 8 0x20" "8 - n"] assms(2) by (simp add: mult.commute)
  then show ?thesis using assms(1) by (simp add: LoadN_def LoadN_fold)
qed

lemma bit_u8_32: "bit (32 :: u8) j \<longleftrightarrow> j = 5"
  using bit_exp_iff [where 'a = u8, of 5 j] possible_bit_word [where 'a = 8, of 5] by (auto simp: power_numeral)

lemma bit_lower_u8: "bit (lower_u8 b) j \<or> j = 5 \<longleftrightarrow> bit b j \<or> j = 5"
  using bit_u8_32 [of j] by (auto simp: lower_u8_def bit_or_iff)

lemma LoadN_lower:
  assumes "n \<le> length data" and "n \<le> 8"
  shows "LoadN (map lower_u8 data) n = LoadN data n"
proof (rule bit_word_eqI)
  fix i
  show "bit (LoadN (map lower_u8 data) n) i = bit (LoadN data n) i"
    using assms bit_lower_u8 [of "data ! (i div 8)" "i mod 8"]
    by (auto simp: LoadN_eq bit_or_iff bit_le_word bit_u8_32)
qed

lemma murmur_loop_lower: "murmur_loop (map lower_u8 str) h = murmur_loop str h"
proof (induction str h rule: murmur_loop.induct)
  case (1 str hash)
  then show ?case
    by (subst (1 2) murmur_loop.simps) (simp add: Load8_def LoadN_lower drop_map Let_def)
qed

lemma UnsafeConstexprHasher_lower: "UnsafeConstexprHasher (map to_lower s) = UnsafeConstexprHasher s"
  by (simp add: UnsafeConstexprHasher_def bytes_of_to_lower murmur_loop_lower)

lemma Danger_HashKey_icase: "StrIcaseEqual a b \<Longrightarrow> Danger_HashKey sse2 d a = Danger_HashKey sse2 d b"
  using UnsafeConstexprHasher_lower [of a] UnsafeConstexprHasher_lower [of b] StrIcaseHash_icase [of a b]
  by (simp add: Danger_HashKey_def SafeHash_def StrIcaseEqual_def)

text \<open>
  A known header is found by its lower-cased name; the numbers 1 to 42 are distinct, and neither
  of the two marks for an unknown name is among them.
\<close>

lemma lower_to_upper: "97 \<le> byte c \<Longrightarrow> byte c \<le> 122 \<Longrightarrow> u8_of c AND NOT 32 = word_of_nat (byte c - 32)"
proof -
  assume "97 \<le> byte c" "byte c \<le> 122"
  then have "byte c \<in> {97..122}" by simp
  then show ?thesis unfolding u8_of_def by (simp add: atLeastAtMost_upt upt_rec) (elim disjE; simp)
qed

lemma ICaseEqual_char:
  assumes "\<not> (65 \<le> byte l \<and> byte l \<le> 90)"
  shows "l = c \<or> 97 \<le> byte l \<and> byte l \<le> 122 \<and> (u8_of l AND NOT 32) = u8_of c \<longleftrightarrow> to_lower c = l"
proof -
  have up: "u8_of l AND NOT 32 = u8_of c \<longleftrightarrow> byte c = byte l - 32" if "97 \<le> byte l" "byte l \<le> 122"
  proof -
    have "unat (u8_of l AND NOT 32) = byte l - 32"
      unfolding lower_to_upper [OF that] unat_of_nat take_bit_eq_mod using that by simp
    then show ?thesis by (metis unat_u8_of word_unat_eq_iff)
  qed
  have byte_eq: "a = b \<longleftrightarrow> byte a = byte b" for a b :: char by simp
  have low: "byte (to_lower c) = (if 65 \<le> byte c \<and> byte c \<le> 90 then byte c + 32 else byte c)"
    by (simp add: to_lower_def)
  show ?thesis unfolding byte_eq [of l c] byte_eq [of "to_lower c" l] low using assms up by auto
qed

lemma ICaseEqualLowercase_iff:
  assumes "\<forall>c\<in>set l. \<not> (65 \<le> byte c \<and> byte c \<le> 90)" and "length y = length l"
  shows "ICaseEqualLowercase l y \<longleftrightarrow> map to_lower y = l"
proof -
  have "(let c = l ! i in c = y ! i \<or> 97 \<le> byte c \<and> byte c \<le> 122 \<and> (u8_of c AND NOT 32) = u8_of (y ! i)) \<longleftrightarrow>
      map to_lower y ! i = l ! i" if "i < length l" for i
    using ICaseEqual_char [of "l ! i" "y ! i"] assms that by (simp add: Let_def)
  then show ?thesis using assms(2) by (auto simp: ICaseEqualLowercase_def list_eq_iff_nth_eq)
qed

definition lowercase_keys :: "(string \<times> int) list \<Rightarrow> bool" where
  "lowercase_keys cs \<longleftrightarrow> (\<forall>c\<in>set cs. \<forall>x\<in>set (fst c). \<not> (65 \<le> byte x \<and> byte x \<le> 90))"

lemma fold_HeaderCase:
  "lowercase_keys cs \<Longrightarrow>
    fold (HeaderCase key) cs found = (case found of None \<Rightarrow> map_of cs (map to_lower key) | Some v \<Rightarrow> Some v)"
proof (induction cs arbitrary: found)
  case Nil
  then show ?case by (simp split: option.splits)
next
  case (Cons c cs)
  then have "length key = length (fst c) \<and> ICaseEqualLowercase (fst c) key \<longleftrightarrow> map to_lower key = fst c"
    using ICaseEqualLowercase_iff [of "fst c" key] by (metis length_map list.set_intros(1) lowercase_keys_def)
  then show ?case using Cons by (cases c) (auto simp: HeaderCase_def lowercase_keys_def split: option.splits)
qed

lemma known_headers_lowercase: "lowercase_keys kKnownHeadersLowercaseMap"
  by (simp add: lowercase_keys_def kKnownHeadersLowercaseMap_def)

lemma TryFindICaseByFirst_eq:
  "TryFindICaseByFirst kKnownHeadersLowercaseMap key = map_of kKnownHeadersLowercaseMap (map to_lower key)"
  by (simp add: TryFindICaseByFirst_def fold_HeaderCase known_headers_lowercase)

lemma known_headers_numbers: "map snd kKnownHeadersLowercaseMap = [1..42]"
  by (simp add: kKnownHeadersLowercaseMap_def upto_rec1)

lemma known_headers_inj:
  assumes "map_of kKnownHeadersLowercaseMap a = Some i" and "map_of kKnownHeadersLowercaseMap b = Some i"
  shows "a = b"
proof -
  have "distinct (map snd kKnownHeadersLowercaseMap)" by (simp add: known_headers_numbers)
  then show ?thesis using assms map_of_SomeD [OF assms(1)] map_of_SomeD [OF assms(2)]
    by (metis distinct_map inj_onD prod.inject snd_conv)
qed

lemma known_headers_positive: "map_of kKnownHeadersLowercaseMap a = Some i \<Longrightarrow> 1 \<le> i \<and> i \<le> 42"
proof -
  assume "map_of kKnownHeadersLowercaseMap a = Some i"
  then have "i \<in> set (map snd kKnownHeadersLowercaseMap)" by (force dest: map_of_SomeD)
  then show ?thesis by (simp add: known_headers_numbers)
qed

lemma header_index_match:
  assumes "GetHeaderIndexForLookup a = GetHeaderIndexForInsertion b"
  shows "StrIcaseEqual a b"
proof -
  let ?m = "map_of kKnownHeadersLowercaseMap"
  have "value_or (?m (map to_lower a)) (-1) = value_or (?m (map to_lower b)) (-2)"
    using assms by (simp add: GetHeaderIndexForLookup_def GetHeaderIndexForInsertion_def TryFindICaseByFirst_eq
        kNoHeaderIndexLookup_def kNoHeaderIndexInsertion_def)
  then obtain i where "?m (map to_lower a) = Some i" "?m (map to_lower b) = Some i"
    using known_headers_positive [of "map to_lower a"] known_headers_positive [of "map to_lower b"]
    by (cases "?m (map to_lower a)"; cases "?m (map to_lower b)") (auto simp: value_or_def)
  then show ?thesis using known_headers_inj by (auto simp: StrIcaseEqual_def)
qed

lemma GetHeaderIndexForInsertion_nonzero: "GetHeaderIndexForInsertion b \<noteq> 0"
  using known_headers_positive
  by (fastforce simp: GetHeaderIndexForInsertion_def TryFindICaseByFirst_eq value_or_def kNoHeaderIndexInsertion_def
      split: option.splits)

end
