(* ===== verification/Header_Map.thy ===== *)
theory Header_Map
  imports Header_Hash
begin

section \<open>The Robin Hood hash table of the headers\<close>

text \<open>
  \<open>universal/src/http/header_map/map.cpp\<close> and \<open>header_map.cpp\<close>.  A map has a vector of
  entries in insertion order and a vector of positions, an open-addressing table whose slots
  hold the index of an entry and its hash; slots are probed clockwise from \<open>hash & mask\<close>.
  \<open>ProbeLoop\<close> is a loop that its body ends; it is a \<open>partial_function (option)\<close>, and \<open>None\<close>
  means that it runs forever.  An operation that may throw returns the exception or its result
  together with the map it leaves behind.  A reverse iterator is the number of entries before
  its base: \<open>End\<close> is 0 and the iterator at entry \<open>i\<close> is \<open>i + 1\<close>.  \<open>sse2\<close> is the flag of the
  build and \<open>keys\<close> the random numbers that \<open>Danger::ToRed\<close> draws.
\<close>

unbundle bit_operations_syntax

subsection \<open>Positions\<close>

definition kDisplacementThreshold :: nat where
  "kDisplacementThreshold = 128"

definition kForwardShiftThreshold :: nat where
  "kForwardShiftThreshold = 128"

definition DesiredPos :: "nat \<Rightarrow> nat \<Rightarrow> nat" where
  "DesiredPos msk hash = hash AND msk"

text \<open>The subtraction is one of 64-bit unsigned numbers.\<close>

definition ProbeDistance :: "nat \<Rightarrow> nat \<Rightarrow> nat \<Rightarrow> nat" where
  "ProbeDistance msk hash current = nat ((int current - int (DesiredPos msk hash)) mod 2 ^ 64 AND int msk)"

definition MaskHash :: "u64 \<Rightarrow> nat" where
  "MaskHash hash = unat (hash AND word_of_nat (kMaxSize - 1)) mod 2 ^ 16"

definition kNoneIndex :: nat where
  "kNoneIndex = 2 ^ 16 - 1"

record Pos =
  entries_index :: nat
  pos_hash :: nat
  header_index :: int

definition make_Pos :: "nat \<Rightarrow> nat \<Rightarrow> int \<Rightarrow> Pos" where
  "make_Pos idx hash hindex = \<lparr>entries_index = idx mod 2 ^ 16, pos_hash = hash, header_index = hindex\<rparr>"

definition Pos_None :: Pos where
  "Pos_None = \<lparr>entries_index = kNoneIndex, pos_hash = 0, header_index = 0\<rparr>"

definition IsNone :: "Pos \<Rightarrow> bool" where
  "IsNone p \<longleftrightarrow> entries_index p = kNoneIndex"

abbreviation IsSome :: "Pos \<Rightarrow> bool" where
  "IsSome p \<equiv> \<not> IsNone p"

subsection \<open>The map\<close>

record HMap =
  hm_mask :: nat
  hm_positions :: "Pos list"
  hm_entries :: headers
  hm_danger :: Danger

type_synonym iter = nat

type_synonym 'a hres = "((exn + 'a) \<times> HMap) option"

definition hbind :: "'a hres \<Rightarrow> ('a \<Rightarrow> HMap \<Rightarrow> 'b hres) \<Rightarrow> 'b hres" where
  "hbind r f = (case r of None \<Rightarrow> None | Some (Inl e, m) \<Rightarrow> Some (Inl e, m) | Some (Inr x, m) \<Rightarrow> f x m)"

definition kOnStackPositionsCount :: nat where
  "kOnStackPositionsCount = 32"

definition initial_HMap :: HMap where
  "initial_HMap = \<lparr>hm_mask = 0, hm_positions = [], hm_entries = [], hm_danger = initial_Danger\<rparr>"

definition Map_Size :: "HMap \<Rightarrow> nat" where
  "Map_Size m = length (hm_entries m)"

definition Map_Empty :: "HMap \<Rightarrow> bool" where
  "Map_Empty m \<longleftrightarrow> hm_entries m = []"

definition Map_Begin :: "HMap \<Rightarrow> iter" where
  "Map_Begin m = length (hm_entries m)"

definition Map_End :: iter where
  "Map_End = 0"

definition ToReverseIterator :: "nat \<Rightarrow> iter" where
  "ToReverseIterator idx = Suc idx"

definition iter_deref :: "HMap \<Rightarrow> iter \<Rightarrow> string \<times> string" where
  "iter_deref m it = hm_entries m ! (it - 1)"

definition Map_Capacity :: "HMap \<Rightarrow> nat" where
  "Map_Capacity m = UsableCapacity (length (hm_positions m))"

partial_function (option) ProbeLoop :: "nat \<Rightarrow> (nat \<Rightarrow> 's \<Rightarrow> (bool \<times> 's) option) \<Rightarrow> nat \<Rightarrow> 's \<Rightarrow> (nat \<times> 's) option" where
  "ProbeLoop n probe_body idx s =
     (if idx < n then
        Option.bind (probe_body idx s) (\<lambda>(stop, s'). if stop then Some (idx, s') else ProbeLoop n probe_body (idx + 1) s')
      else ProbeLoop n probe_body 0 s)"

declare ProbeLoop.simps [code]

definition Map_HashKey :: "bool \<Rightarrow> HMap \<Rightarrow> string \<Rightarrow> nat" where
  "Map_HashKey sse2 m key = MaskHash (Danger_HashKey sse2 (hm_danger m) key)"

definition Map_HashKey_predefined :: "bool \<Rightarrow> HMap \<Rightarrow> PredefinedHeader \<Rightarrow> nat" where
  "Map_HashKey_predefined sse2 m header = MaskHash (Danger_HashKey_predefined sse2 (hm_danger m) header)"

subsection \<open>Growth\<close>

definition reinsert_body :: "Pos \<Rightarrow> nat \<Rightarrow> Pos list \<Rightarrow> (bool \<times> Pos list) option" where
  "reinsert_body pos idx ps = (if IsNone (ps ! idx) then Some (True, ps[idx := pos]) else Some (False, ps))"

definition ReinsertPositionInOrder :: "Pos \<Rightarrow> HMap \<Rightarrow> HMap option" where
  "ReinsertPositionInOrder pos m =
     (if IsSome pos then
        (let probe = DesiredPos (hm_mask m) (pos_hash pos)
         in map_option (\<lambda>(_, ps). m\<lparr>hm_positions := ps\<rparr>)
              (ProbeLoop (length (hm_positions m)) (reinsert_body pos) probe (hm_positions m)))
      else Some m)"

fun reinsert_loop :: "Pos list \<Rightarrow> HMap \<Rightarrow> HMap option" where
  "reinsert_loop [] m = Some m"
| "reinsert_loop (pos # rest) m = Option.bind (ReinsertPositionInOrder pos m) (reinsert_loop rest)"

definition first_ideal :: "HMap \<Rightarrow> nat" where
  "first_ideal m =
     (case find (\<lambda>i. IsSome (hm_positions m ! i)
                   \<and> ProbeDistance (hm_mask m) (pos_hash (hm_positions m ! i)) i = 0) [0..<length (hm_positions m)] of
        Some i \<Rightarrow> i
      | None \<Rightarrow> 0)"

definition Map_Grow :: "nat \<Rightarrow> HMap \<Rightarrow> unit hres" where
  "Map_Grow new_capacity m =
     (if kMaxSize < new_capacity then Some (Inl too_many_headers, m)
      else
        let ideal = first_ideal m;
            old_positions = hm_positions m;
            m = m\<lparr>hm_positions := replicate new_capacity Pos_None, hm_mask := (new_capacity - 1) mod 2 ^ 16\<rparr>
        in map_option (Pair (Inr ()))
             (Option.bind (reinsert_loop (drop ideal old_positions) m) (reinsert_loop (take ideal old_positions))))"

text \<open>
  \<open>ReserveOne\<close> on a map that is not yellow: the branch \<open>else if (len == Capacity())\<close>.
\<close>

definition ReserveOne_not_yellow :: "HMap \<Rightarrow> unit hres" where
  "ReserveOne_not_yellow m =
     (let len = length (hm_entries m) in
      if len = Map_Capacity m then
        (if len = 0 then
           Some (Inr (), m\<lparr>hm_mask := kOnStackPositionsCount - 1,
                           hm_positions := replicate kOnStackPositionsCount Pos_None\<rparr>)
         else Map_Grow (length (hm_positions m) * 2) m)
      else Some (Inr (), m))"

subsection \<open>Search\<close>

definition find_body ::
  "HMap \<Rightarrow> string \<Rightarrow> nat \<Rightarrow> int \<Rightarrow> nat \<Rightarrow> nat \<times> (nat \<times> nat) option \<Rightarrow> (bool \<times> nat \<times> (nat \<times> nat) option) option" where
  "find_body m key hash hindex idx = (\<lambda>(dist, res).
     let pos = hm_positions m ! idx in
     if IsNone pos then Some (True, dist, res)
     else if ProbeDistance (hm_mask m) (pos_hash pos) idx < dist then Some (True, dist, res)
     else if pos_hash pos = hash
          \<and> (hindex = header_index pos \<or> StrIcaseEqual (fst (hm_entries m ! entries_index pos)) key)
     then Some (True, dist, Some (idx, entries_index pos))
     else Some (False, dist + 1, res))"

definition DoFind :: "HMap \<Rightarrow> string \<Rightarrow> nat \<Rightarrow> int \<Rightarrow> (nat \<times> nat) option option" where
  "DoFind m key hash hindex =
     (if hm_positions m = [] then Some None
      else map_option (\<lambda>(_, _, res). res)
             (ProbeLoop (length (hm_positions m)) (find_body m key hash hindex) (DesiredPos (hm_mask m) hash) (0, None)))"

definition find_iter :: "(nat \<times> nat) option \<Rightarrow> iter" where
  "find_iter pos = (case pos of Some (_, idx) \<Rightarrow> ToReverseIterator idx | None \<Rightarrow> Map_End)"

definition Map_Find :: "bool \<Rightarrow> HMap \<Rightarrow> string \<Rightarrow> iter option" where
  "Map_Find sse2 m key = map_option find_iter (DoFind m key (Map_HashKey sse2 m key) 0)"

definition Map_Find_predefined :: "bool \<Rightarrow> HMap \<Rightarrow> PredefinedHeader \<Rightarrow> iter option" where
  "Map_Find_predefined sse2 m header =
     map_option find_iter (DoFind m (ph_name header) (Map_HashKey_predefined sse2 m header) (ph_header_index header))"

subsection \<open>Insertion\<close>

datatype InsertOrModifyOccupiedAction = kAppend | kReplace | kNoop | kAssert

definition InsertEntry :: "string \<Rightarrow> string \<Rightarrow> HMap \<Rightarrow> int \<times> HMap" where
  "InsertEntry key value m = (GetHeaderIndexForInsertion key, m\<lparr>hm_entries := hm_entries m @ [(key, value)]\<rparr>)"

definition robinhood_body :: "nat \<Rightarrow> nat \<times> Pos \<times> Pos list \<Rightarrow> (bool \<times> nat \<times> Pos \<times> Pos list) option" where
  "robinhood_body idx = (\<lambda>(num_displaced, old_pos, ps).
     if IsNone (ps ! idx) then Some (True, num_displaced, old_pos, ps[idx := old_pos])
     else Some (False, num_displaced + 1, ps ! idx, ps[idx := old_pos]))"

definition DoRobinhoodAtPosition :: "nat \<Rightarrow> Pos \<Rightarrow> HMap \<Rightarrow> (nat \<times> HMap) option" where
  "DoRobinhoodAtPosition idx old_pos m =
     map_option (\<lambda>(_, num_displaced, _, ps). (num_displaced, m\<lparr>hm_positions := ps\<rparr>))
       (ProbeLoop (length (hm_positions m)) robinhood_body idx (0, old_pos, hm_positions m))"

fun occupied_value :: "InsertOrModifyOccupiedAction \<Rightarrow> string \<Rightarrow> string \<Rightarrow> string" where
  "occupied_value kAppend header_value value = header_value @ '','' @ value"
| "occupied_value kReplace header_value value = value"
| "occupied_value kNoop header_value value = header_value"
| "occupied_value kAssert header_value value = header_value"

definition perform_occupied :: "InsertOrModifyOccupiedAction \<Rightarrow> nat \<Rightarrow> string \<Rightarrow> HMap \<Rightarrow> HMap" where
  "perform_occupied action idx value m =
     m\<lparr>hm_entries := (hm_entries m)[idx := (fst (hm_entries m ! idx), occupied_value action (snd (hm_entries m ! idx)) value)]\<rparr>"

definition perform_robinhood :: "nat \<Rightarrow> nat \<Rightarrow> nat \<Rightarrow> string \<Rightarrow> string \<Rightarrow> HMap \<Rightarrow> HMap option" where
  "perform_robinhood hash dist idx key value m =
     (let index = length (hm_entries m);
          (hindex, m) = InsertEntry key value m
      in map_option (\<lambda>(num_displaced, m).
             if kForwardShiftThreshold \<le> dist \<or> kDisplacementThreshold \<le> num_displaced
             then m\<lparr>hm_danger := ToYellow (hm_danger m)\<rparr> else m)
           (DoRobinhoodAtPosition idx (make_Pos index hash hindex) m))"

definition perform_vacant :: "nat \<Rightarrow> nat \<Rightarrow> nat \<Rightarrow> string \<Rightarrow> string \<Rightarrow> HMap \<Rightarrow> HMap" where
  "perform_vacant hash dist idx key value m =
     (let index = length (hm_entries m);
          (hindex, m) = InsertEntry key value m;
          m = m\<lparr>hm_positions := (hm_positions m)[idx := make_Pos index hash hindex]\<rparr>
      in if kForwardShiftThreshold \<le> dist then m\<lparr>hm_danger := ToYellow (hm_danger m)\<rparr> else m)"

definition inserter ::
  "string \<Rightarrow> nat \<Rightarrow> string \<Rightarrow> InsertOrModifyOccupiedAction \<Rightarrow> nat \<Rightarrow> nat \<times> HMap \<Rightarrow> (bool \<times> nat \<times> HMap) option" where
  "inserter key hash value action idx = (\<lambda>(dist, m).
     let pos = hm_positions m ! idx in
     if IsSome pos then
       (let their_dist = ProbeDistance (hm_mask m) (pos_hash pos) idx in
        if their_dist < dist then
          map_option (\<lambda>m. (True, dist, m)) (perform_robinhood hash dist idx key value m)
        else if pos_hash pos = hash \<and> StrIcaseEqual (fst (hm_entries m ! entries_index pos)) key then
          Some (True, dist, perform_occupied action (entries_index pos) value m)
        else Some (False, dist + 1, m))
     else Some (True, dist, perform_vacant hash dist idx key value m))"

text \<open>
  \<open>DoInsertOrModify\<close>, with the \<open>ReserveOne\<close> it calls first as an argument: \<open>Rebuild\<close>
  inserts into a map that has just been set red, where \<open>ReserveOne\<close> takes its second branch.
\<close>

definition DoInsertOrModify_with ::
  "(HMap \<Rightarrow> unit hres) \<Rightarrow> string \<Rightarrow> nat \<Rightarrow> string \<Rightarrow> InsertOrModifyOccupiedAction \<Rightarrow> HMap \<Rightarrow> iter hres" where
  "DoInsertOrModify_with reserve key hash value action m =
     hbind (reserve m) (\<lambda>_ m.
       map_option (\<lambda>(idx, _, m). (Inr (ToReverseIterator (entries_index (hm_positions m ! idx))), m))
         (ProbeLoop (length (hm_positions m)) (inserter key hash value action) (DesiredPos (hm_mask m) hash) (0, m)))"

fun rebuild_loop :: "bool \<Rightarrow> headers \<Rightarrow> HMap \<Rightarrow> unit hres" where
  "rebuild_loop sse2 [] m = Some (Inr (), m)"
| "rebuild_loop sse2 ((key, value) # entries) m =
     hbind (DoInsertOrModify_with ReserveOne_not_yellow key (Map_HashKey sse2 m key) value kAssert m)
       (\<lambda>_. rebuild_loop sse2 entries)"

definition Map_Rebuild :: "bool \<Rightarrow> HMap \<Rightarrow> unit hres" where
  "Map_Rebuild sse2 m =
     (let entries = hm_entries m in
      rebuild_loop sse2 entries
        (m\<lparr>hm_positions := replicate (length (hm_positions m)) Pos_None, hm_entries := []\<rparr>))"

text \<open>
  The load factor is computed in single precision: the number of positions is a power of two
  and the number of entries below 2^24, so the quotient is exact, and the constant \<open>0.2\<close>
  converted to \<open>float\<close> is 13421773 / 2^26.
\<close>

definition load_factor_sane :: "HMap \<Rightarrow> bool" where
  "load_factor_sane m \<longleftrightarrow> 13421773 * length (hm_positions m) \<le> 2 ^ 26 * length (hm_entries m)"

definition ReserveOne :: "bool \<Rightarrow> u64 \<times> u64 \<Rightarrow> HMap \<Rightarrow> unit hres" where
  "ReserveOne sse2 keys m =
     (if IsYellow (hm_danger m) then
        (if load_factor_sane m then
           Map_Grow (length (hm_positions m) * 2) (m\<lparr>hm_danger := ToGreen (hm_danger m)\<rparr>)
         else Map_Rebuild sse2 (m\<lparr>hm_danger := ToRed keys (hm_danger m)\<rparr>))
      else ReserveOne_not_yellow m)"

definition DoInsertOrModify ::
  "bool \<Rightarrow> u64 \<times> u64 \<Rightarrow> string \<Rightarrow> nat \<Rightarrow> string \<Rightarrow> InsertOrModifyOccupiedAction \<Rightarrow> HMap \<Rightarrow> iter hres" where
  "DoInsertOrModify sse2 keys = DoInsertOrModify_with (ReserveOne sse2 keys)"

definition Map_InsertOrModify ::
  "bool \<Rightarrow> u64 \<times> u64 \<Rightarrow> string \<Rightarrow> string \<Rightarrow> InsertOrModifyOccupiedAction \<Rightarrow> HMap \<Rightarrow> iter hres" where
  "Map_InsertOrModify sse2 keys key value action m =
     DoInsertOrModify sse2 keys key (Map_HashKey sse2 m key) value action m"

definition Map_InsertOrModify_predefined ::
  "bool \<Rightarrow> u64 \<times> u64 \<Rightarrow> PredefinedHeader \<Rightarrow> string \<Rightarrow> InsertOrModifyOccupiedAction \<Rightarrow> HMap \<Rightarrow> iter hres" where
  "Map_InsertOrModify_predefined sse2 keys header value action m =
     DoInsertOrModify sse2 keys (ph_name header) (Map_HashKey_predefined sse2 m header) value action m"

subsection \<open>Removal\<close>

definition fix_index_body :: "nat \<Rightarrow> nat \<Rightarrow> nat \<Rightarrow> nat \<Rightarrow> Pos list \<Rightarrow> (bool \<times> Pos list) option" where
  "fix_index_body len index entry_hash idx ps =
     (if IsSome (ps ! idx) \<and> len \<le> entries_index (ps ! idx)
      then Some (True, ps[idx := make_Pos index entry_hash (header_index (ps ! idx))])
      else Some (False, ps))"

definition backward_shift_body :: "nat \<Rightarrow> nat \<Rightarrow> nat \<times> Pos list \<Rightarrow> (bool \<times> nat \<times> Pos list) option" where
  "backward_shift_body msk idx = (\<lambda>(last_probe, ps).
     if IsSome (ps ! idx) then
       (if 0 < ProbeDistance msk (pos_hash (ps ! idx)) idx
        then Some (False, idx, ps[last_probe := ps ! idx, idx := Pos_None])
        else Some (True, last_probe, ps))
     else Some (True, last_probe, ps))"

definition DoErase :: "bool \<Rightarrow> string \<Rightarrow> nat \<Rightarrow> HMap \<Rightarrow> (iter \<times> HMap) option" where
  "DoErase sse2 key hash m =
     Option.bind (DoFind m key hash 0) (\<lambda>pos.
       case pos of
         None \<Rightarrow> Some (Map_End, m)
       | Some (positions_index, index) \<Rightarrow>
           let n = length (hm_positions m);
               ps = (hm_positions m)[positions_index := Pos_None];
               es = hm_entries m;
               es = (if index + 1 \<noteq> length es then es[index := last es] else es);
               es = butlast es
           in
             Option.bind
               (if index < length es then
                  (let entry_hash = Map_HashKey sse2 m (fst (es ! index))
                   in map_option snd
                        (ProbeLoop n (fix_index_body (length es) index entry_hash) (DesiredPos (hm_mask m) entry_hash) ps))
                else Some ps) (\<lambda>ps.
             Option.bind
               (if es \<noteq> [] then
                  map_option (\<lambda>(_, _, ps). ps)
                    (ProbeLoop n (backward_shift_body (hm_mask m)) (positions_index + 1) (positions_index, ps))
                else Some ps) (\<lambda>ps.
             let m = m\<lparr>hm_positions := ps, hm_entries := es\<rparr>
             in Some (if index < length es then ToReverseIterator index else Map_Begin m, m))))"

definition Map_Erase :: "bool \<Rightarrow> string \<Rightarrow> HMap \<Rightarrow> (iter \<times> HMap) option" where
  "Map_Erase sse2 key m = DoErase sse2 key (Map_HashKey sse2 m key) m"

definition Map_Erase_predefined :: "bool \<Rightarrow> PredefinedHeader \<Rightarrow> HMap \<Rightarrow> (iter \<times> HMap) option" where
  "Map_Erase_predefined sse2 header m = DoErase sse2 (ph_name header) (Map_HashKey_predefined sse2 m header) m"

definition Map_Clear :: "HMap \<Rightarrow> HMap" where
  "Map_Clear m =
     m\<lparr>hm_positions := replicate (length (hm_positions m)) Pos_None, hm_entries := [], hm_danger := initial_Danger\<rparr>"

subsection \<open>Comparison and output\<close>

fun map_equal_loop :: "bool \<Rightarrow> headers \<Rightarrow> HMap \<Rightarrow> bool option" where
  "map_equal_loop sse2 [] other = Some True"
| "map_equal_loop sse2 (entry # entries) other =
     Option.bind (Map_Find sse2 other (fst entry)) (\<lambda>other_it.
       if other_it = Map_End \<or> \<not> StrIcaseEqual (snd (iter_deref other other_it)) (snd entry) then Some False
       else map_equal_loop sse2 entries other)"

definition Map_equal :: "bool \<Rightarrow> HMap \<Rightarrow> HMap \<Rightarrow> bool option" where
  "Map_equal sse2 m other =
     (if Map_Size m \<noteq> Map_Size other then Some False else map_equal_loop sse2 (hm_entries m) other)"

definition Map_OutputInHttpFormat :: "HMap \<Rightarrow> string \<Rightarrow> string" where
  "Map_OutputInHttpFormat m buffer =
     fold (\<lambda>entry buffer. buffer @ fst entry @ '': '' @ snd entry @ kCrlf) (hm_entries m) buffer"

subsection \<open>The interface \<open>HeaderMap\<close>\<close>

definition HeaderMap_contains :: "bool \<Rightarrow> string \<Rightarrow> HMap \<Rightarrow> bool option" where
  "HeaderMap_contains sse2 key m = map_option (\<lambda>it. it \<noteq> Map_End) (Map_Find sse2 m key)"

definition HeaderMap_at :: "bool \<Rightarrow> string \<Rightarrow> HMap \<Rightarrow> (string result) option" where
  "HeaderMap_at sse2 key m =
     map_option (\<lambda>it. if it = Map_End then Inl OutOfRange else Inr (snd (iter_deref m it))) (Map_Find sse2 m key)"

definition HeaderMap_insert_or_assign :: "bool \<Rightarrow> u64 \<times> u64 \<Rightarrow> string \<Rightarrow> string \<Rightarrow> HMap \<Rightarrow> iter hres" where
  "HeaderMap_insert_or_assign sse2 keys key value = Map_InsertOrModify sse2 keys key value kReplace"

definition HeaderMap_InsertOrAppend :: "bool \<Rightarrow> u64 \<times> u64 \<Rightarrow> string \<Rightarrow> string \<Rightarrow> HMap \<Rightarrow> iter hres" where
  "HeaderMap_InsertOrAppend sse2 keys key value = Map_InsertOrModify sse2 keys key value kAppend"

definition HeaderMap_subscript :: "bool \<Rightarrow> u64 \<times> u64 \<Rightarrow> string \<Rightarrow> HMap \<Rightarrow> iter hres" where
  "HeaderMap_subscript sse2 keys key = Map_InsertOrModify sse2 keys key [] kNoop"

definition HeaderMap_Emplace :: "bool \<Rightarrow> u64 \<times> u64 \<Rightarrow> string \<Rightarrow> string \<Rightarrow> HMap \<Rightarrow> unit hres" where
  "HeaderMap_Emplace sse2 keys key arg m =
     hbind (HeaderMap_subscript sse2 keys key m) (\<lambda>it m.
       Some (Inr (),
         if snd (iter_deref m it) = [] then
           m\<lparr>hm_entries := (hm_entries m)[it - 1 := (fst (iter_deref m it), arg)]\<rparr>
         else m))"

end
