(* ===== verification/Robin_Hood.thy ===== *)
theory Robin_Hood
  imports Header_Map "HOL-Library.Multiset"
begin

section \<open>The Robin Hood invariant of the position table\<close>

text \<open>
  Facts about the table of positions alone.  \<open>pd N h i\<close> is how far slot \<open>i\<close> lies clockwise
  from the slot that hash \<open>h\<close> desires; \<open>slot\<close> reads the table at an index modulo its size, so
  that a probe can be followed without wrapping.  The invariant \<open>RH\<close> is local: a position that
  is not in its desired slot has an occupied predecessor that is at most one step closer to its
  own.  \<open>occ\<close> is the multiset of the occupied positions.
\<close>

unbundle bit_operations_syntax

subsection \<open>Probe distances\<close>

definition pd :: "nat \<Rightarrow> nat \<Rightarrow> nat \<Rightarrow> nat" where
  "pd N h i = (i + (N - h mod N)) mod N"

lemma DesiredPos_mod: "DesiredPos (2 ^ k - 1) h = h mod 2 ^ k"
  by (simp only: DesiredPos_def mask_eq_exp_minus_1 [symmetric] take_bit_eq_mask [symmetric] take_bit_eq_mod)

lemma ProbeDistance_pd:
  assumes "k \<le> 64"
  shows "ProbeDistance (2 ^ k - 1) h i = pd (2 ^ k) h i"
proof -
  let ?N = "2 ^ k :: nat"
  have "(int i - int (h mod ?N)) mod 2 ^ 64 AND int (?N - 1) = (int i - int (h mod ?N)) mod 2 ^ 64 mod 2 ^ k"
    by (simp add: of_nat_diff flip: mask_eq_exp_minus_1 take_bit_eq_mask take_bit_eq_mod)
  also have "\<dots> = (int i - int (h mod ?N)) mod 2 ^ k"
    by (rule mod_mod_cancel) (use assms in \<open>rule le_imp_power_dvd\<close>)
  also have "\<dots> = (int i + (int ?N - int (h mod ?N))) mod int ?N"
    by (metis (no_types, opaque_lifting) add_diff_eq diff_add_eq mod_add_self2 of_nat_numeral of_nat_power)
  also have "\<dots> = int (pd ?N h i)"
    using of_nat_diff [of "h mod ?N" ?N, where 'a = int] by (simp only: pd_def zmod_int of_nat_add) simp
  finally show ?thesis by (simp only: ProbeDistance_def DesiredPos_mod nat_int)
qed

lemma Suc_mod_cancel: "0 < N \<Longrightarrow> Suc a mod N = Suc b mod N \<longleftrightarrow> a mod N = b mod N"
proof
  assume N: "0 < N" and "Suc a mod N = Suc b mod N"
  then have "(Suc a + (N - 1)) mod N = (Suc b + (N - 1)) mod N" by (metis mod_add_left_eq)
  then show "a mod N = b mod N" using N by simp
qed (metis mod_Suc_eq)

lemma pd_less: "0 < N \<Longrightarrow> pd N h i < N"
  by (simp add: pd_def)

lemma pd_cong: "i mod N = i' mod N \<Longrightarrow> pd N h i = pd N h i'"
  unfolding pd_def by (metis mod_add_left_eq)

lemma pd_home: "0 < N \<Longrightarrow> (h + pd N h i) mod N = i mod N"
proof -
  assume "0 < N"
  then have "h mod N \<le> N" by simp
  have "(h + pd N h i) mod N = (h mod N + (i + (N - h mod N))) mod N" by (simp add: pd_def mod_add_eq mod_add_right_eq mod_add_left_eq)
  also have "h mod N + (i + (N - h mod N)) = i + N" using \<open>h mod N \<le> N\<close> by simp
  finally show ?thesis by simp
qed

lemma pd_add: "j < N \<Longrightarrow> pd N h (h + j) = j"
proof -
  assume j: "j < N"
  then have "h mod N < N" by simp
  have "pd N h (h + j) = (h mod N + (j + (N - h mod N))) mod N"
    by (simp add: pd_def add.assoc mod_add_left_eq)
  also have "h mod N + (j + (N - h mod N)) = j + N" using \<open>h mod N < N\<close> by simp
  finally show ?thesis using j by simp
qed

lemma pd_unique: "0 < N \<Longrightarrow> j < N \<Longrightarrow> (h + j) mod N = i mod N \<Longrightarrow> pd N h i = j"
  using pd_add [of j N h] pd_cong [of "h + j" N i h] by simp

lemma pd_Suc: "Suc (pd N h i) < N \<Longrightarrow> pd N h (Suc i) = Suc (pd N h i)"
proof -
  assume a: "Suc (pd N h i) < N"
  then have "(h + Suc (pd N h i)) mod N = Suc i mod N"
    using pd_home [of N h i] by (metis add_Suc_right gr_zeroI mod_Suc_eq not_less_zero)
  then show ?thesis using a by (intro pd_unique) auto
qed

lemma pd_pred: "0 < pd N h (Suc i) \<Longrightarrow> 0 < N \<Longrightarrow> pd N h i = pd N h (Suc i) - 1"
proof -
  assume a: "0 < pd N h (Suc i)" "0 < N"
  then obtain d where d: "pd N h (Suc i) = Suc d" by (metis gr0_implies_Suc)
  then have "Suc (h + d) mod N = Suc i mod N" using pd_home [of N h "Suc i"] a by simp
  then have "(h + d) mod N = i mod N"
    using a(2) by (simp add: Suc_mod_cancel)
  then show ?thesis using d pd_less [of N h "Suc i"] a by (simp add: pd_unique)
qed

subsection \<open>Tables\<close>

definition slot :: "Pos list \<Rightarrow> nat \<Rightarrow> Pos" where
  "slot ps i = ps ! (i mod length ps)"

definition dist :: "Pos list \<Rightarrow> nat \<Rightarrow> nat" where
  "dist ps i = pd (length ps) (pos_hash (slot ps i)) i"

definition rh_at :: "Pos list \<Rightarrow> nat \<Rightarrow> bool" where
  "rh_at ps i \<longleftrightarrow>
     (IsSome (slot ps (Suc i)) \<and> 0 < dist ps (Suc i) \<longrightarrow> IsSome (slot ps i) \<and> dist ps (Suc i) \<le> Suc (dist ps i))"

definition RH :: "Pos list \<Rightarrow> bool" where
  "RH ps \<longleftrightarrow> (\<forall>i. rh_at ps i)"

definition occ :: "Pos list \<Rightarrow> Pos multiset" where
  "occ ps = filter_mset IsSome (mset ps)"

lemma slot_cong: "i mod length ps = i' mod length ps \<Longrightarrow> slot ps i = slot ps i'"
  by (simp add: slot_def)

lemma dist_cong: "i mod length ps = i' mod length ps \<Longrightarrow> dist ps i = dist ps i'"
  using slot_cong pd_cong by (metis dist_def)

lemma slot_update:
  "0 < length ps \<Longrightarrow> slot (ps[q mod length ps := p]) i = (if i mod length ps = q mod length ps then p else slot ps i)"
  by (simp add: slot_def nth_list_update)

lemma dist_update:
  "0 < length ps \<Longrightarrow>
    dist (ps[q mod length ps := p]) i = (if i mod length ps = q mod length ps then pd (length ps) (pos_hash p) i else dist ps i)"
  by (simp add: dist_def slot_update)

lemma Suc_mod_neq: "2 \<le> N \<Longrightarrow> Suc i mod N \<noteq> i mod N"
  by (metis Suc_mod_cancel Suc_n_not_n add_diff_cancel_left' dvd_eq_mod_eq_0 lessI less_le_trans mod_Suc mod_eq_dvd_iff_nat nat_dvd_1_iff_1 not_less_eq numeral_2_eq_2 plus_1_eq_Suc zero_less_Suc)

lemma occ_update:
  assumes "i < length ps"
  shows "occ (ps[i := p]) + (if IsSome (ps ! i) then {#ps ! i#} else {#}) = occ ps + (if IsSome p then {#p#} else {#})"
proof -
  have "mset (ps[i := p]) + {#ps ! i#} = mset ps + {#p#}"
    using assms by (simp add: mset_update)
  then have "filter_mset IsSome (mset (ps[i := p]) + {#ps ! i#}) = filter_mset IsSome (mset ps + {#p#})" by simp
  then show ?thesis by (simp add: occ_def split: if_splits)
qed

lemma occ_None_exists:
  assumes "size (occ ps) < length ps"
  obtains z where "z < length ps" "IsNone (ps ! z)"
proof -
  have "\<exists>p\<in>#mset ps. IsNone p"
  proof (rule ccontr)
    assume "\<not> ?thesis"
    then have "occ ps = mset ps" by (simp add: occ_def filter_mset_eq_conv)
    then show False using assms by simp
  qed
  then show ?thesis using that by (auto simp: in_set_conv_nth)
qed

subsection \<open>Walking along a probe sequence\<close>

lemma RH_walk:
  assumes "RH ps" and "IsSome (slot ps i)" and "j \<le> dist ps i" and "0 < length ps"
  shows "IsSome (slot ps (pos_hash (slot ps i) + j)) \<and> j \<le> dist ps (pos_hash (slot ps i) + j)"
proof -
  let ?h = "pos_hash (slot ps i)" and ?d = "dist ps i"
  have home: "(?h + ?d) mod length ps = i mod length ps" using pd_home [OF assms(4)] by (simp add: dist_def)
  have "e \<le> ?d \<Longrightarrow> IsSome (slot ps (?h + (?d - e))) \<and> ?d - e \<le> dist ps (?h + (?d - e))" for e
  proof (induction e)
    case 0
    then show ?case using slot_cong [OF home] dist_cong [OF home] assms(2) by simp
  next
    case (Suc e)
    then have eq: "?h + (?d - e) = Suc (?h + (?d - Suc e))" by simp
    have "rh_at ps (?h + (?d - Suc e))" using assms(1) by (simp add: RH_def)
    moreover have "IsSome (slot ps (Suc (?h + (?d - Suc e))))" "?d - e \<le> dist ps (Suc (?h + (?d - Suc e)))"
      using Suc eq by simp_all
    ultimately show ?case using Suc.prems unfolding rh_at_def by auto
  qed
  from this [of "?d - j"] show ?thesis using assms(3) by simp
qed

lemma RH_bound:
  assumes "RH ps" and "IsSome (slot ps i)" and "z < length ps" and "IsNone (ps ! z)"
  shows "Suc (dist ps i) < length ps"
proof (rule ccontr)
  have N: "0 < length ps" using assms(3) by linarith
  let ?h = "pos_hash (slot ps i)"
  assume "\<not> ?thesis"
  then have "pd (length ps) ?h z \<le> dist ps i" using pd_less [OF N, of ?h z] by linarith
  then have "IsSome (slot ps (?h + pd (length ps) ?h z))" using RH_walk [OF assms(1,2) _ N] by blast
  moreover have "slot ps (?h + pd (length ps) ?h z) = ps ! z" using pd_home [OF N, of ?h z] assms(3) by (simp add: slot_def)
  ultimately show False using assms(4) by simp
qed

definition passed :: "Pos list \<Rightarrow> nat \<Rightarrow> nat \<Rightarrow> bool" where
  "passed ps h j \<longleftrightarrow> (\<forall>j'<j. IsSome (slot ps (h + j')) \<and> j' \<le> dist ps (h + j'))"

lemma passed_0 [simp]: "passed ps h 0"
  by (simp add: passed_def)

lemma passed_Suc: "passed ps h (Suc j) \<longleftrightarrow> passed ps h j \<and> IsSome (slot ps (h + j)) \<and> j \<le> dist ps (h + j)"
  by (auto simp: passed_def less_Suc_eq)

lemma RH_passed: "RH ps \<Longrightarrow> IsSome (slot ps i) \<Longrightarrow> 0 < length ps \<Longrightarrow> passed ps (pos_hash (slot ps i)) (dist ps i)"
  by (simp add: passed_def RH_walk)

subsection \<open>The loop\<close>

lemma ProbeLoop_wrap: "0 < N \<Longrightarrow> idx \<le> N \<Longrightarrow> ProbeLoop N body idx s = ProbeLoop N body (idx mod N) s"
  by (cases "idx = N") (simp_all add: ProbeLoop.simps [of N body N])

lemma ProbeLoop_from:
  fixes Inv :: "nat \<Rightarrow> 's \<Rightarrow> bool"
  assumes N: "0 < N" and "Inv t s" and "t \<le> L"
    and step: "\<And>t s. Inv t s \<Longrightarrow> t \<le> L \<Longrightarrow>
      \<exists>stop s'. body ((p + t) mod N) s = Some (stop, s') \<and> (if stop then Q t s' else t < L \<and> Inv (Suc t) s')"
  shows "\<exists>t' s'. t' \<le> L \<and> ProbeLoop N body ((p + t) mod N) s = Some ((p + t') mod N, s') \<and> Q t' s'"
  using assms(2,3)
proof (induction "L - t" arbitrary: t s)
  case (0 t s)
  then obtain s' where "body ((p + t) mod N) s = Some (True, s')" "Q t s'" using step [of t s] by force
  then show ?case using N 0 by (subst ProbeLoop.simps) auto
next
  case (Suc n t s)
  obtain stop s' where b: "body ((p + t) mod N) s = Some (stop, s')" "if stop then Q t s' else t < L \<and> Inv (Suc t) s'"
    using step [OF Suc.prems] by blast
  show ?case
  proof (cases stop)
    case True
    then show ?thesis using b N Suc.prems by (subst ProbeLoop.simps) auto
  next
    case False
    have "ProbeLoop N body ((p + t) mod N) s = ProbeLoop N body (Suc ((p + t) mod N)) s'"
      using b False N by (subst ProbeLoop.simps) simp
    also have "\<dots> = ProbeLoop N body (Suc ((p + t) mod N) mod N) s'" using N by (intro ProbeLoop_wrap) (simp_all add: Suc_le_eq)
    also have "Suc ((p + t) mod N) mod N = (p + Suc t) mod N" by (simp add: mod_Suc_eq)
    finally show ?thesis using Suc.hyps(1) [of "Suc t" s'] Suc.hyps(2) b False by auto
  qed
qed

lemma ProbeLoop_inv:
  fixes Inv :: "nat \<Rightarrow> 's \<Rightarrow> bool"
  assumes "0 < N" and "idx \<le> N" and "idx mod N = p mod N" and "Inv 0 s"
    and "\<And>t s. Inv t s \<Longrightarrow> t \<le> L \<Longrightarrow>
      \<exists>stop s'. body ((p + t) mod N) s = Some (stop, s') \<and> (if stop then Q t s' else t < L \<and> Inv (Suc t) s')"
  shows "\<exists>t s'. t \<le> L \<and> ProbeLoop N body idx s = Some ((p + t) mod N, s') \<and> Q t s'"
  using ProbeLoop_from [of N Inv 0 s L body p Q] ProbeLoop_wrap [of N idx body s] assms by auto

subsection \<open>Placing a position\<close>

text \<open>
  \<open>rh_but ps q\<close>: the invariant at every slot except \<open>q\<close>; \<open>fits ps q x\<close>: the position \<open>x\<close>
  satisfies it there.
\<close>

definition rh_but :: "Pos list \<Rightarrow> nat \<Rightarrow> bool" where
  "rh_but ps q \<longleftrightarrow> (\<forall>i. Suc i mod length ps \<noteq> q mod length ps \<longrightarrow> rh_at ps i)"

definition fits :: "Pos list \<Rightarrow> nat \<Rightarrow> Pos \<Rightarrow> bool" where
  "fits ps q x \<longleftrightarrow>
     (\<forall>i. Suc i mod length ps = q mod length ps \<longrightarrow> 0 < pd (length ps) (pos_hash x) q \<longrightarrow>
        IsSome (slot ps i) \<and> pd (length ps) (pos_hash x) q \<le> Suc (dist ps i))"

lemma RH_imp_rh_but: "RH ps \<Longrightarrow> rh_but ps q"
  by (simp add: RH_def rh_but_def)

lemma passed_fits:
  assumes "passed ps (pos_hash x) j" and "j < length ps"
  shows "fits ps (pos_hash x + j) x"
  unfolding fits_def
proof (intro allI impI)
  fix i assume i: "Suc i mod length ps = (pos_hash x + j) mod length ps" and "0 < pd (length ps) (pos_hash x) (pos_hash x + j)"
  then obtain j' where j': "j = Suc j'" using assms(2) by (auto simp: pd_add gr0_conv_Suc)
  have "0 < length ps" using assms(2) by linarith
  with i j' have "i mod length ps = (pos_hash x + j') mod length ps"
    using Suc_mod_cancel [of "length ps" i "pos_hash x + j'"] by simp
  then show "IsSome (slot ps i) \<and> pd (length ps) (pos_hash x) (pos_hash x + j) \<le> Suc (dist ps i)"
    unfolding pd_add [OF assms(2)] using assms(1) j' slot_cong [of i ps] dist_cong [of i ps] by (simp add: passed_Suc)
qed

lemma place_none:
  assumes N: "2 \<le> length ps" and "rh_but ps q" and "fits ps q x" and "IsNone (slot ps q)"
  shows "RH (ps[q mod length ps := x])"
  unfolding RH_def
proof
  fix i
  let ?N = "length ps" and ?ps = "ps[q mod length ps := x]"
  have pos: "0 < ?N" using N by linarith
  show "rh_at ?ps i"
  proof (cases "Suc i mod ?N = q mod ?N")
    case True
    moreover have "i mod ?N \<noteq> q mod ?N" using True Suc_mod_neq [OF N, of i] by metis
    ultimately show ?thesis using assms(3) pos pd_cong [OF True, of "pos_hash x"]
      by (simp add: rh_at_def fits_def slot_update dist_update)
  next
    case False
    then have "rh_at ps i" using assms(2) by (simp add: rh_but_def)
    moreover have "slot ps i = slot ps q" if "i mod ?N = q mod ?N" using slot_cong [OF that] .
    ultimately show ?thesis using False pos assms(4) by (auto simp: rh_at_def slot_update dist_update)
  qed
qed

lemma place_some:
  assumes N: "2 \<le> length ps" and but: "rh_but ps q" and fit: "fits ps q x" and x: "IsSome x"
    and y: "IsSome (slot ps q)" and le: "dist ps q \<le> pd (length ps) (pos_hash x) q" and bnd: "Suc (dist ps q) < length ps"
  defines "ps' \<equiv> ps[q mod length ps := x]"
  shows "rh_but ps' (Suc q)" and "fits ps' (Suc q) (slot ps q)"
    and "IsSome (slot ps' (Suc q)) \<Longrightarrow> dist ps' (Suc q) \<le> pd (length ps) (pos_hash (slot ps q)) (Suc q)"
proof -
  let ?N = "length ps"
  have pos: "0 < ?N" using N by linarith
  have len: "length ps' = ?N" by (simp add: ps'_def)
  have pdy: "pd ?N (pos_hash (slot ps q)) (Suc q) = Suc (dist ps q)"
    using bnd by (simp add: dist_def pd_Suc)
  have rest: "slot ps' i = slot ps i" "dist ps' i = dist ps i" if "i mod ?N \<noteq> q mod ?N" for i
    using that pos by (simp_all add: ps'_def slot_update dist_update)
  have at_q: "slot ps' i = x" "dist ps' i = pd ?N (pos_hash x) q" if "i mod ?N = q mod ?N" for i
    using that pos pd_cong [OF that, of "pos_hash x"] by (simp_all add: ps'_def slot_update dist_update)
  show "rh_but ps' (Suc q)"
    unfolding rh_but_def len
  proof (intro allI impI)
    fix i assume "Suc i mod ?N \<noteq> Suc q mod ?N"
    then have i: "i mod ?N \<noteq> q mod ?N" using pos by (simp add: Suc_mod_cancel)
    show "rh_at ps' i"
    proof (cases "Suc i mod ?N = q mod ?N")
      case True
      then show ?thesis using fit at_q [OF True] rest [OF i] by (simp add: rh_at_def fits_def)
    next
      case False
      then show ?thesis using but rest [OF i] rest [OF False] by (simp add: rh_at_def rh_but_def)
    qed
  qed
  show "fits ps' (Suc q) (slot ps q)"
    unfolding fits_def len pdy
  proof (intro allI impI)
    fix i assume "Suc i mod ?N = Suc q mod ?N"
    then have "i mod ?N = q mod ?N" using pos by (simp add: Suc_mod_cancel)
    then show "IsSome (slot ps' i) \<and> Suc (dist ps q) \<le> Suc (dist ps' i)" using at_q x le by simp
  qed
  have "Suc q mod ?N \<noteq> q mod ?N" using Suc_mod_neq [OF N] .
  then show "dist ps' (Suc q) \<le> pd (length ps) (pos_hash (slot ps q)) (Suc q)" if "IsSome (slot ps' (Suc q))"
    using but that rest [of "Suc q"] by (auto simp: pdy rh_but_def rh_at_def)
qed

lemma offset_neq: "s < N \<Longrightarrow> t < N \<Longrightarrow> s \<noteq> t \<Longrightarrow> (q + s) mod N \<noteq> (q + t) mod N" for q s t N :: nat
  using pd_add [of s N q] pd_add [of t N q] pd_cong [of "q + s" N "q + t" q] by auto

definition hood_inv :: "Pos list \<Rightarrow> nat \<Rightarrow> Pos \<Rightarrow> nat \<Rightarrow> nat \<Rightarrow> nat \<times> Pos \<times> Pos list \<Rightarrow> bool" where
  "hood_inv ps0 q x L t = (\<lambda>(n, hand, ps).
     length ps = length ps0 \<and> IsSome hand \<and> rh_but ps (q + t) \<and> fits ps (q + t) hand
     \<and> (IsSome (slot ps (q + t)) \<longrightarrow> dist ps (q + t) \<le> pd (length ps) (pos_hash hand) (q + t))
     \<and> (\<forall>s. t \<le> s \<and> s \<le> L \<longrightarrow> slot ps (q + s) = slot ps0 (q + s))
     \<and> add_mset hand (occ ps) = add_mset x (occ ps0)
     \<and> (if t = 0 then hand = x else slot ps q = x))"

lemma hood_step:
  assumes N: "2 \<le> length ps0" and rh: "RH ps0" and z: "z < length ps0" "IsNone (ps0 ! z)" and L: "L = pd (length ps0) q z"
    and inv: "hood_inv ps0 q x L t st" and t: "t \<le> L"
  shows "\<exists>stop st'. robinhood_body ((q + t) mod length ps0) st = Some (stop, st') \<and>
    (if stop then (case st' of (n, hand, ps) \<Rightarrow> length ps = length ps0 \<and> RH ps \<and> occ ps = add_mset x (occ ps0) \<and> slot ps q = x)
     else t < L \<and> hood_inv ps0 q x L (Suc t) st')"
proof -
  let ?N = "length ps0"
  obtain n hand ps where st: "st = (n, hand, ps)" by (cases st)
  have pos: "0 < ?N" using N by linarith
  have LN: "L < ?N" using pd_less [OF pos] L by simp
  have i: "length ps = ?N" "IsSome hand" "rh_but ps (q + t)" "fits ps (q + t) hand"
    "IsSome (slot ps (q + t)) \<Longrightarrow> dist ps (q + t) \<le> pd ?N (pos_hash hand) (q + t)"
    "\<And>s. t \<le> s \<Longrightarrow> s \<le> L \<Longrightarrow> slot ps (q + s) = slot ps0 (q + s)"
    "add_mset hand (occ ps) = add_mset x (occ ps0)" "if t = 0 then hand = x else slot ps q = x"
    using inv st by (auto simp: hood_inv_def)
  let ?i = "(q + t) mod ?N"
  have idx: "?i < length ps" using pos i(1) by simp
  have at: "slot ps (q + t) = ps ! ?i" by (simp add: slot_def i(1))
  let ?ps = "ps[?i := hand]"
  have x_at: "slot ?ps q = x"
  proof (cases "t = 0")
    case True
    then show ?thesis using i(8) slot_update [of ps "q + t" hand q] pos i(1) by simp
  next
    case False
    then have "q mod ?N \<noteq> ?i" using offset_neq [of 0 ?N t q] t LN pos by simp
    then show ?thesis using i(8) False slot_update [of ps "q + t" hand q] pos i(1) by simp
  qed
  show ?thesis
  proof (cases "IsNone (ps ! ?i)")
    case True
    then have "RH ?ps" using place_none [of ps "q + t" hand] N i at by simp
    moreover have "occ ?ps = add_mset x (occ ps0)"
      using occ_update [OF idx, of hand] True i(2,7) by simp
    ultimately show ?thesis using True st x_at i(1) by (auto simp: robinhood_body_def)
  next
    case False
    then have some: "IsSome (slot ps0 (q + t))" using i(6) [of t] t at by simp
    have "slot ps0 (q + L) = ps0 ! z" using pd_home [OF pos, of q z] z(1) by (simp add: slot_def L)
    then have "t \<noteq> L" using some z(2) by auto
    then have tL: "t < L" using t by simp
    have "Suc (dist ps0 (q + t)) < ?N" using RH_bound [OF rh some z] .
    then have bnd: "Suc (dist ps (q + t)) < length ps" using i(1) i(6) [of t] t by (simp add: dist_def)
    note place = place_some [of ps "q + t" hand, OF _ i(3,4,2) _ _ bnd]
    have "rh_but ?ps (Suc (q + t))" "fits ?ps (Suc (q + t)) (slot ps (q + t))"
      "IsSome (slot ?ps (Suc (q + t))) \<Longrightarrow> dist ?ps (Suc (q + t)) \<le> pd ?N (pos_hash (slot ps (q + t))) (Suc (q + t))"
      using place N i(1,5) False at by simp_all
    moreover have "slot ?ps (q + s) = slot ps0 (q + s)" if "Suc t \<le> s" "s \<le> L" for s
      using slot_update [of ps "q + t" hand "q + s"] offset_neq [of s ?N t q] that LN tL i(1) i(6) [of s] pos by simp
    moreover have "add_mset (ps ! ?i) (occ ?ps) = add_mset x (occ ps0)"
      using occ_update [OF idx, of hand] False i(2,7) by simp
    ultimately have "hood_inv ps0 q x L (Suc t) (n + 1, ps ! ?i, ?ps)"
      using False i(1) x_at at by (simp add: hood_inv_def)
    then show ?thesis using False st tL i(1) by (auto simp: robinhood_body_def)
  qed
qed

lemma robinhood_loop:
  assumes "2 \<le> length ps" and "RH ps" and "z < length ps" "IsNone (ps ! z)" and "IsSome x" and "fits ps q x"
    and "IsSome (slot ps q) \<Longrightarrow> dist ps q \<le> pd (length ps) (pos_hash x) q"
  obtains idx n hand ps' where "ProbeLoop (length ps) robinhood_body (q mod length ps) (0, x, ps) = Some (idx, n, hand, ps')"
    "length ps' = length ps" "RH ps'" "occ ps' = add_mset x (occ ps)" "slot ps' q = x"
proof -
  have start: "hood_inv ps q x (pd (length ps) q z) 0 (0, x, ps)"
    using assms RH_imp_rh_but [OF assms(2)] by (simp add: hood_inv_def)
  have pos: "0 < length ps" using assms(1) by linarith
  then have le: "q mod length ps \<le> length ps" using mod_less_divisor less_imp_le by blast
  from ProbeLoop_inv [where body = robinhood_body, OF pos le mod_mod_trivial start hood_step [OF assms(1,2,3,4) refl]] that
  show ?thesis by auto
qed

subsection \<open>Removing a position\<close>

text \<open>
  A hole at \<open>q\<close> breaks the invariant only at the next slot, and that one could move into the
  hole.
\<close>

definition hole :: "Pos list \<Rightarrow> nat \<Rightarrow> bool" where
  "hole ps q \<longleftrightarrow>
     IsNone (slot ps q) \<and> (\<forall>i. i mod length ps \<noteq> q mod length ps \<longrightarrow> rh_at ps i)
     \<and> (IsSome (slot ps (Suc q)) \<and> 2 \<le> dist ps (Suc q) \<longrightarrow>
         (\<forall>i. Suc i mod length ps = q mod length ps \<longrightarrow> IsSome (slot ps i) \<and> dist ps (Suc q) \<le> dist ps i + 2))"

lemma IsNone_Pos_None [simp]: "IsNone Pos_None"
  by (simp add: IsNone_def Pos_None_def)

lemma make_hole:
  assumes N: "2 \<le> length ps" and rh: "RH ps"
  shows "hole (ps[q mod length ps := Pos_None]) q"
proof -
  let ?N = "length ps" and ?ps = "ps[q mod length ps := Pos_None]"
  have pos: "0 < ?N" using N by linarith
  have rest: "slot ?ps i = slot ps i" "dist ?ps i = dist ps i" if "i mod ?N \<noteq> q mod ?N" for i
    using that pos by (simp_all add: slot_update dist_update)
  have q: "IsNone (slot ?ps i)" if "i mod ?N = q mod ?N" for i using that pos by (simp add: slot_update)
  have rhs: "rh_at ps i" for i using rh by (simp add: RH_def)
  have "rh_at ?ps i" if "i mod ?N \<noteq> q mod ?N" for i
    using rhs [of i] rest [OF that] rest [of "Suc i"] q [of "Suc i"] by (cases "Suc i mod ?N = q mod ?N") (auto simp: rh_at_def)
  moreover have "IsSome (slot ?ps i) \<and> dist ?ps (Suc q) \<le> dist ?ps i + 2"
    if two: "IsSome (slot ?ps (Suc q))" "2 \<le> dist ?ps (Suc q)" and i: "Suc i mod ?N = q mod ?N" for i
  proof -
    have "i mod ?N \<noteq> q mod ?N" using i Suc_mod_neq [OF N, of i] by metis
    then have r: "slot ?ps i = slot ps i" "dist ?ps i = dist ps i" using rest by simp_all
    have s: "slot ?ps (Suc q) = slot ps (Suc q)" "dist ?ps (Suc q) = dist ps (Suc q)"
      using rest Suc_mod_neq [OF N] by simp_all
    have "slot ps (Suc i) = slot ps q" "dist ps (Suc i) = dist ps q" using slot_cong [OF i] dist_cong [OF i] by simp_all
    then show ?thesis using rhs [of q] rhs [of i] two r s by (auto simp: rh_at_def)
  qed
  ultimately show ?thesis using q by (simp add: hole_def)
qed

lemma fill_hole: "0 < length ps \<Longrightarrow> hole ps q \<Longrightarrow> IsNone (slot ps (Suc q)) \<or> dist ps (Suc q) = 0 \<Longrightarrow> RH ps"
proof -
  assume N: "0 < length ps" and h: "hole ps q" and e: "IsNone (slot ps (Suc q)) \<or> dist ps (Suc q) = 0"
  have "rh_at ps i" for i
  proof (cases "i mod length ps = q mod length ps")
    case True
    then have "Suc i mod length ps = Suc q mod length ps" using N by (simp add: Suc_mod_cancel)
    then show ?thesis using e slot_cong [of "Suc i" ps "Suc q"] dist_cong [of "Suc i" ps "Suc q"] by (auto simp: rh_at_def)
  qed (use h in \<open>simp add: hole_def\<close>)
  then show ?thesis by (simp add: RH_def)
qed

lemma move_hole:
  assumes N: "3 \<le> length ps" and h: "hole ps q" and some: "IsSome (slot ps (Suc q))" "0 < dist ps (Suc q)"
  shows "hole (ps[q mod length ps := slot ps (Suc q), Suc q mod length ps := Pos_None]) (Suc q)"
proof -
  let ?N = "length ps" and ?ps = "ps[q mod length ps := slot ps (Suc q), Suc q mod length ps := Pos_None]"
  have pos: "0 < ?N" "2 \<le> ?N" using N by linarith+
  have slot': "slot ?ps i = (if i mod ?N = Suc q mod ?N then Pos_None else if i mod ?N = q mod ?N then slot ps (Suc q) else slot ps i)" for i
    using slot_update [of "ps[q mod ?N := slot ps (Suc q)]" "Suc q" Pos_None i] slot_update [of ps q "slot ps (Suc q)" i] pos by simp
  have qSq: "q mod ?N \<noteq> Suc q mod ?N" using Suc_mod_neq [OF pos(2), of q] by simp
  have rest: "slot ?ps i = slot ps i" "dist ?ps i = dist ps i" if "i mod ?N \<noteq> q mod ?N" "i mod ?N \<noteq> Suc q mod ?N" for i
    using that by (simp_all add: slot' dist_def)
  have at_q: "slot ?ps i = slot ps (Suc q)" "Suc (dist ?ps i) = dist ps (Suc q)" if "i mod ?N = q mod ?N" for i
  proof -
    show s: "slot ?ps i = slot ps (Suc q)" using that qSq by (simp add: slot')
    have "pd ?N (pos_hash (slot ps (Suc q))) i = pd ?N (pos_hash (slot ps (Suc q))) q" using pd_cong [OF that] .
    then show "Suc (dist ?ps i) = dist ps (Suc q)"
      using s some(2) pd_pred [of ?N "pos_hash (slot ps (Suc q))" q] pos(1) by (simp add: dist_def)
  qed
  have none: "IsNone (slot ?ps i)" if "i mod ?N = Suc q mod ?N" for i using that by (simp add: slot')
  have rhs: "rh_at ps i" if "i mod ?N \<noteq> q mod ?N" for i using h that by (simp add: hole_def)
  have pred: "i mod ?N \<noteq> q mod ?N" "i mod ?N \<noteq> Suc q mod ?N" if "Suc i mod ?N = q mod ?N" for i
  proof -
    show "i mod ?N \<noteq> q mod ?N" using that Suc_mod_neq [OF pos(2), of i] by metis
    show "i mod ?N \<noteq> Suc q mod ?N"
    proof
      assume "i mod ?N = Suc q mod ?N"
      then have "(q + 2) mod ?N = (q + 0) mod ?N" using that by (metis Suc_mod_cancel add_0_right add_2_eq_Suc' pos(1))
      then show False using offset_neq [of 2 ?N 0 q] N pos by simp
    qed
  qed
  have "rh_at ?ps i" if "i mod ?N \<noteq> Suc q mod ?N" for i
  proof (cases "i mod ?N = q mod ?N")
    case True
    then show ?thesis using none [of "Suc i"] pos by (simp add: rh_at_def Suc_mod_cancel)
  next
    case ne: False
    show ?thesis
    proof (cases "Suc i mod ?N = q mod ?N")
      case True
      then show ?thesis using h some at_q [OF True] rest [OF ne that] by (auto simp: hole_def rh_at_def)
    next
      case False
      moreover have "Suc i mod ?N \<noteq> Suc q mod ?N" using ne pos by (simp add: Suc_mod_cancel)
      ultimately show ?thesis using rhs [OF ne] rest [OF ne that] rest [of "Suc i"] by (simp add: rh_at_def)
    qed
  qed
  moreover have "IsSome (slot ?ps i) \<and> dist ?ps (Suc (Suc q)) \<le> dist ?ps i + 2"
    if two: "IsSome (slot ?ps (Suc (Suc q)))" "2 \<le> dist ?ps (Suc (Suc q))" and i: "Suc i mod ?N = Suc q mod ?N" for i
  proof -
    have iq: "i mod ?N = q mod ?N" using i pos by (simp add: Suc_mod_cancel)
    have "Suc (Suc q) mod ?N \<noteq> Suc q mod ?N" using Suc_mod_neq [OF pos(2)] .
    moreover have "Suc (Suc q) mod ?N \<noteq> q mod ?N" using offset_neq [of 2 ?N 0 q] N pos by simp
    ultimately have r: "slot ?ps (Suc (Suc q)) = slot ps (Suc (Suc q))" "dist ?ps (Suc (Suc q)) = dist ps (Suc (Suc q))"
      using rest by simp_all
    have "rh_at ps (Suc q)" using rhs qSq by simp
    then show ?thesis using two r at_q [OF iq] some(1) by (auto simp: rh_at_def)
  qed
  ultimately show ?thesis using none by (simp add: hole_def)
qed

definition shift_inv :: "Pos list \<Rightarrow> nat \<Rightarrow> nat \<Rightarrow> nat \<Rightarrow> nat \<times> Pos list \<Rightarrow> bool" where
  "shift_inv ps0 p L t = (\<lambda>(l, ps).
     length ps = length ps0 \<and> l = (p + t) mod length ps0 \<and> hole ps (p + t) \<and> occ ps = occ ps0
     \<and> (\<forall>s. t \<le> s \<and> s \<le> L \<longrightarrow> slot ps (Suc p + s) = slot ps0 (Suc p + s)))"

lemma shift_step:
  assumes N: "3 \<le> length ps0" and L: "Suc L < length ps0" "IsNone (slot ps0 (Suc p + L))"
    and inv: "shift_inv ps0 p L t st" and t: "t \<le> L" and k: "length ps0 = 2 ^ k" "k \<le> 64"
  shows "\<exists>stop st'. backward_shift_body (length ps0 - 1) ((Suc p + t) mod length ps0) st = Some (stop, st') \<and>
    (if stop then (case st' of (l, ps) \<Rightarrow> length ps = length ps0 \<and> RH ps \<and> occ ps = occ ps0)
     else t < L \<and> shift_inv ps0 p L (Suc t) st')"
proof -
  let ?N = "length ps0"
  obtain l ps where st: "st = (l, ps)" by (cases st)
  have pos: "0 < ?N" "2 \<le> ?N" using N by linarith+
  have i: "length ps = ?N" "l = (p + t) mod ?N" "hole ps (p + t)" "occ ps = occ ps0"
    "\<And>s. t \<le> s \<Longrightarrow> s \<le> L \<Longrightarrow> slot ps (Suc p + s) = slot ps0 (Suc p + s)"
    using inv st by (auto simp: shift_inv_def)
  let ?q = "p + t"
  let ?i = "Suc ?q mod ?N"
  have at: "slot ps (Suc ?q) = ps ! ?i" by (simp add: slot_def i(1))
  have d: "ProbeDistance (?N - 1) (pos_hash (ps ! ?i)) ?i = dist ps (Suc ?q)"
    using ProbeDistance_pd [OF k(2), of "pos_hash (ps ! ?i)" ?i] k(1) i(1) at pd_cong [of ?i ?N "Suc ?q"] by (simp add: dist_def)
  show ?thesis
  proof (cases "IsSome (ps ! ?i) \<and> 0 < dist ps (Suc ?q)")
    case False
    then have "RH ps" using fill_hole [of ps ?q] i(1,3) pos at by auto
    then show ?thesis using False st i d by (auto simp: backward_shift_body_def)
  next
    case True
    have tL: "t < L"
    proof (rule ccontr)
      assume "\<not> t < L"
      then have "slot ps (Suc ?q) = slot ps0 (Suc p + L)" using i(5) [of L] t by simp
      then show False using L(2) True at by simp
    qed
    let ?ps = "ps[?q mod ?N := ps ! ?i, ?i := Pos_None]"
    have "hole ?ps (Suc ?q)" using move_hole [of ps ?q] N i(1,3) True at by simp
    moreover have "occ ?ps = occ ps0"
    proof -
      have ne: "?i \<noteq> ?q mod ?N" using Suc_mod_neq [OF pos(2)] .
      have lt: "?q mod ?N < length ps" "?i < length (ps[?q mod ?N := ps ! ?i])" using i(1) pos by simp_all
      have "IsNone (ps ! (?q mod ?N))" using i(1,3) by (simp add: hole_def slot_def)
      then have "occ (ps[?q mod ?N := ps ! ?i]) = occ ps + {#ps ! ?i#}"
        using occ_update [OF lt(1), of "ps ! ?i"] True by simp
      moreover have "occ ?ps + {#ps ! ?i#} = occ (ps[?q mod ?N := ps ! ?i])"
        using occ_update [OF lt(2), of Pos_None] True ne by simp
      ultimately show ?thesis using i(4) by simp
    qed
    moreover have "slot ?ps (Suc p + s) = slot ps0 (Suc p + s)" if s: "Suc t \<le> s" "s \<le> L" for s
    proof -
      have "(Suc p + s) mod ?N \<noteq> ?i" using offset_neq [of s ?N t "Suc p"] s L by simp
      moreover have "(Suc p + s) mod ?N \<noteq> ?q mod ?N" using offset_neq [of "Suc s" ?N t p] s L by simp
      ultimately show ?thesis
        using slot_update [of "ps[?q mod ?N := ps ! ?i]" "Suc ?q" Pos_None "Suc p + s"]
          slot_update [of ps ?q "ps ! ?i" "Suc p + s"] i(1) i(5) [of s] s pos by simp
    qed
    ultimately have "shift_inv ps0 p L (Suc t) (?i, ?ps)" using i(1) by (simp add: shift_inv_def)
    then show ?thesis using True st i(1,2) d tL by (auto simp: backward_shift_body_def)
  qed
qed

lemma backward_shift_loop:
  assumes N: "3 \<le> length ps" and k: "length ps = 2 ^ k" "k \<le> 64" and p: "p < length ps" and hole: "hole ps p"
    and z: "z < length ps" "IsNone (ps ! z)" "z \<noteq> p"
  obtains idx l ps' where "ProbeLoop (length ps) (backward_shift_body (length ps - 1)) (p + 1) (p, ps) = Some (idx, l, ps')"
    "length ps' = length ps" "RH ps'" "occ ps' = occ ps"
proof -
  let ?N = "length ps" and ?L = "pd (length ps) (Suc p) z"
  have pos: "0 < ?N" using N by linarith
  have home: "(Suc p + ?L) mod ?N = z" using pd_home [OF pos, of "Suc p" z] z(1) by simp
  have "Suc ?L \<noteq> ?N"
  proof
    assume "Suc ?L = ?N"
    then have "Suc p + ?L = p + ?N" by linarith
    then have "(Suc p + ?L) mod ?N = p" using p by (simp only: mod_add_self2 mod_less)
    then show False using home z(3) by simp
  qed
  then have L: "Suc ?L < ?N" "IsNone (slot ps (Suc p + ?L))"
    using pd_less [OF pos, of "Suc p" z] home z(2) by (simp_all add: slot_def)
  have start: "shift_inv ps p ?L 0 (p, ps)" using p hole by (simp add: shift_inv_def)
  have le: "p + 1 \<le> ?N" using p by simp
  have eq: "(p + 1) mod ?N = Suc p mod ?N" by simp
  from ProbeLoop_inv [where body = "backward_shift_body (?N - 1)", OF pos le eq start shift_step [OF N L _ _ k]] that show ?thesis by auto
qed

subsection \<open>Growing the table\<close>

lemma reinsert_first:
  assumes "0 < length ps" and "IsNone (slot ps (h + m))"
  obtains j where "j \<le> m" "\<forall>j'<j. IsSome (slot ps (h + j'))" "IsNone (slot ps (h + j))"
    "ProbeLoop (length ps) (reinsert_body x) (h mod length ps) ps = Some ((h + j) mod length ps, ps[(h + j) mod length ps := x])"
proof -
  let ?Inv = "\<lambda>t ps'. ps' = ps \<and> (\<forall>j'<t. IsSome (slot ps (h + j')))"
  let ?Q = "\<lambda>t ps'. IsNone (slot ps (h + t)) \<and> (\<forall>j'<t. IsSome (slot ps (h + j'))) \<and> ps' = ps[(h + t) mod length ps := x]"
  have step: "\<exists>stop s'. reinsert_body x ((h + t) mod length ps) s = Some (stop, s') \<and> (if stop then ?Q t s' else t < m \<and> ?Inv (Suc t) s')"
    if inv: "?Inv t s" "t \<le> m" for t s
  proof (cases "IsNone (slot ps (h + t))")
    case True
    then have "reinsert_body x ((h + t) mod length ps) s = Some (True, ps[(h + t) mod length ps := x])"
      using inv by (simp add: reinsert_body_def slot_def)
    then show ?thesis using True inv by auto
  next
    case False
    then have "t \<noteq> m" using assms(2) by blast
    moreover have "reinsert_body x ((h + t) mod length ps) s = Some (False, s)"
      using False inv by (simp add: reinsert_body_def slot_def)
    ultimately show ?thesis using False inv by (intro exI [of _ False] exI [of _ s]) (simp add: less_Suc_eq)
  qed
  have le: "h mod length ps \<le> length ps" using assms(1) mod_less_divisor less_imp_le by blast
  have start: "?Inv 0 ps" by simp
  obtain t s' where "t \<le> m" "ProbeLoop (length ps) (reinsert_body x) (h mod length ps) ps = Some ((h + t) mod length ps, s')" "?Q t s'"
    using ProbeLoop_inv [where body = "reinsert_body x", OF assms(1) le mod_mod_trivial start step] by blast
  then show ?thesis using that by blast
qed

text \<open>
  The old table is read from a slot \<open>f\<close> whose position, if there is one, is in its desired
  place.  From there on no probe sequence crosses \<open>f\<close>, and the desired slots \<open>home\<close> grow with
  the slots.
\<close>

definition home :: "Pos list \<Rightarrow> nat \<Rightarrow> nat" where
  "home ps v = v - dist ps v"

lemma ideal_bound:
  assumes "RH ps" and "IsSome (slot ps f) \<Longrightarrow> dist ps f = 0" and "IsSome (slot ps (f + t))"
  shows "dist ps (f + t) \<le> t"
  using assms(3)
proof (induction t)
  case 0
  then show ?case using assms(2) by simp
next
  case (Suc t)
  then show ?case using assms(1) unfolding RH_def rh_at_def by (cases "dist ps (f + Suc t) = 0") fastforce+
qed

lemma home_bounds:
  assumes "RH ps" and "IsSome (slot ps f) \<Longrightarrow> dist ps f = 0" and "IsSome (slot ps v)" and "f \<le> v"
  shows "f \<le> home ps v" "home ps v + dist ps v = v"
proof -
  have "dist ps v \<le> v - f" using ideal_bound [OF assms(1,2), of "v - f"] assms(3,4) by simp
  then show "f \<le> home ps v" "home ps v + dist ps v = v" using assms(4) by (simp_all add: home_def)
qed

lemma home_mono:
  assumes "RH ps" and "IsSome (slot ps f) \<Longrightarrow> dist ps f = 0" and "f \<le> v" and "v \<le> v'"
    and "IsSome (slot ps v)" and "IsSome (slot ps v')"
  shows "home ps v \<le> home ps v'"
  using assms(4,6)
proof (induction v' rule: dec_induct)
  case base
  then show ?case by simp
next
  case (step w)
  show ?case
  proof (cases "dist ps (Suc w) = 0")
    case True
    then show ?thesis using step by (simp add: home_def)
  next
    case False
    then have "IsSome (slot ps w)" "dist ps (Suc w) \<le> Suc (dist ps w)"
      using assms(1) step.prems unfolding RH_def rh_at_def by blast+
    then show ?thesis using step.IH unfolding home_def by simp
  qed
qed

lemma add_mod_cancel: "0 < N \<Longrightarrow> (a + d) mod N = (b + d) mod N \<longleftrightarrow> a mod N = b mod (N :: nat)"
  by (induction d) (simp_all add: Suc_mod_cancel)

lemma home_hash:
  assumes "0 < length ps" and "home ps v + dist ps v = v"
  shows "pos_hash (slot ps v) mod length ps = home ps v mod length ps"
  using pd_home [OF assms(1), of "pos_hash (slot ps v)" v] assms(2) add_mod_cancel [OF assms(1)]
  unfolding dist_def by metis

lemma mod_double:
  fixes h u N :: nat
  assumes "0 < N" and "h mod N = u mod N"
  obtains b where "b = 0 \<or> b = N" "h mod (2 * N) = (u + b) mod (2 * N)"
proof -
  have "h mod (2 * N) mod N = (u mod (2 * N)) mod N" using assms(2) by (simp add: mod_mod_cancel)
  moreover have "h mod (2 * N) < 2 * N" "u mod (2 * N) < 2 * N" using assms(1) by simp_all
  moreover have "x mod N = (if x < N then x else x - N)" if "x < 2 * N" for x
    using that le_mod_geq [of N x] by simp
  ultimately have "h mod (2 * N) = u mod (2 * N) \<or> h mod (2 * N) = u mod (2 * N) + N
      \<or> h mod (2 * N) + 2 * N = u mod (2 * N) + N"
    by (auto split: if_splits)
  then have "h mod (2 * N) = u mod (2 * N) \<or> h mod (2 * N) = (u mod (2 * N) + N) mod (2 * N)"
    using \<open>h mod (2 * N) < 2 * N\<close> by (metis mod_add_self2 mod_less)
  then show ?thesis using that [of 0] that [of N] by (auto simp: mod_add_left_eq)
qed

text \<open>
  What the new table holds when the slots of the old one from \<open>f\<close> up to \<open>v\<close> have been
  reinserted.  In coordinates that start at \<open>f\<close> every position is in the lower or in the upper
  half, by \<open>b\<close>, and no further from its desired slot than it was.
\<close>

definition placed :: "Pos list \<Rightarrow> nat \<Rightarrow> nat \<Rightarrow> Pos \<Rightarrow> nat \<Rightarrow> nat \<Rightarrow> bool" where
  "placed ps v c x v' b \<longleftrightarrow>
     IsSome (slot ps v') \<and> x = slot ps v' \<and> v' < v \<and> (b = 0 \<or> b = length ps)
     \<and> pos_hash x mod (2 * length ps) = (home ps v' + b) mod (2 * length ps) \<and> home ps v' + b \<le> c \<and> c \<le> v' + b"

definition grown :: "Pos list \<Rightarrow> nat \<Rightarrow> nat \<Rightarrow> Pos list \<Rightarrow> bool" where
  "grown ps f v qs \<longleftrightarrow>
     length qs = 2 * length ps \<and> RH qs \<and> occ qs = occ (map (slot ps) [f..<v])
     \<and> (\<forall>c. f \<le> c \<and> c < f + 2 * length ps \<and> IsSome (slot qs c) \<longrightarrow> (\<exists>v'\<ge>f. \<exists>b. placed ps v c (slot qs c) v' b))"

lemma window_unique: "f \<le> a \<Longrightarrow> a < f + M \<Longrightarrow> f \<le> b \<Longrightarrow> b < f + M \<Longrightarrow> a mod M = b mod M \<Longrightarrow> a = b" for a b f M :: nat
  using offset_neq [of "a - f" M "b - f" f] by fastforce

lemma grown_free:
  assumes g: "grown ps f v qs" and rh: "RH ps" and ideal: "IsSome (slot ps f) \<Longrightarrow> dist ps f = 0"
    and v: "f \<le> v" "v < f + length ps" and b: "b = 0 \<or> b = length ps"
  shows "IsNone (slot qs (v + b))"
proof (rule ccontr)
  assume "IsSome (slot qs (v + b))"
  moreover have "f \<le> v + b" "v + b < f + 2 * length ps" using v b by auto
  ultimately obtain v' b' where v': "f \<le> v'" and p: "placed ps v (v + b) (slot qs (v + b)) v' b'"
    using g unfolding grown_def by blast
  have "f \<le> home ps v'" using home_bounds(1) [OF rh ideal, of v'] p v' by (simp add: placed_def)
  then show False using p v v' b by (auto simp: placed_def)
qed

lemma grown_passed:
  assumes g: "grown ps f v qs" and rh: "RH ps" and ideal: "IsSome (slot ps f) \<Longrightarrow> dist ps f = 0"
    and v: "f \<le> v" "v < f + length ps" "IsSome (slot ps v)" and b: "b = 0 \<or> b = length ps"
    and h: "h mod (2 * length ps) = (home ps v + b) mod (2 * length ps)"
    and j: "j \<le> dist ps v" "\<forall>j'<j. IsSome (slot qs (h + j'))"
  shows "passed qs h j"
  unfolding passed_def
proof (intro allI impI conjI)
  fix j' assume j': "j' < j"
  show some: "IsSome (slot qs (h + j'))" using j j' by blast
  let ?N = "length ps" and ?c = "home ps v + b + j'"
  have "0 < ?N" using v by linarith
  then have M: "length qs = 2 * ?N" "0 < 2 * ?N" using g by (simp_all add: grown_def)
  have u: "f \<le> home ps v" "home ps v + dist ps v = v" using home_bounds [OF rh ideal v(3,1)] by simp_all
  have cong: "(h + j') mod length qs = ?c mod length qs" using h M(1) by (metis mod_add_left_eq)
  have c: "f \<le> ?c" "?c < v + b" "?c < f + 2 * ?N" using u j j' v b by auto
  with some obtain v' b' where v': "f \<le> v'" and p: "placed ps v ?c (slot qs ?c) v' b'"
    using g slot_cong [OF cong] unfolding grown_def by metis
  have u': "f \<le> home ps v'" using home_bounds(1) [OF rh ideal, of v'] p v' by (simp add: placed_def)
  have bb: "b' = b" using p u' v' u c v b j j' by (auto simp: placed_def)
  have "home ps v' \<le> home ps v" using home_mono [OF rh ideal v'(1), of v] p v by (simp add: placed_def)
  then have le: "j' \<le> ?c - (home ps v' + b)" by simp
  have "?c - (home ps v' + b) < 2 * ?N" using c v u' b by auto
  moreover have "home ps v' + b + (?c - (home ps v' + b)) = ?c" using p bb by (simp add: placed_def)
  then have "(pos_hash (slot qs ?c) + (?c - (home ps v' + b))) mod (2 * ?N) = ?c mod (2 * ?N)"
    using p bb unfolding placed_def by (metis mod_add_left_eq)
  ultimately have "dist qs ?c = ?c - (home ps v' + b)"
    using M by (simp add: dist_def pd_unique)
  then show "j' \<le> dist qs (h + j')" using le dist_cong [OF cong] by simp
qed

lemma grown_step:
  assumes g: "grown ps f v qs" and rh: "RH ps" and ideal: "IsSome (slot ps f) \<Longrightarrow> dist ps f = 0"
    and v: "f \<le> v" "v < f + length ps" "IsSome (slot ps v)" and N: "2 \<le> length ps"
  obtains idx qs' where "ProbeLoop (length qs) (reinsert_body (slot ps v)) (pos_hash (slot ps v) mod length qs) qs = Some (idx, qs')"
    "grown ps f (Suc v) qs'"
proof -
  let ?N = "length ps" and ?x = "slot ps v" and ?h = "pos_hash (slot ps v)"
  have M: "length qs = 2 * ?N" "0 < length qs" "0 < ?N" using g N by (auto simp: grown_def)
  have u: "f \<le> home ps v" "home ps v + dist ps v = v" using home_bounds [OF rh ideal v(3,1)] by simp_all
  obtain b where b: "b = 0 \<or> b = ?N" "?h mod (2 * ?N) = (home ps v + b) mod (2 * ?N)"
    using mod_double [OF M(3) home_hash [OF M(3) u(2)]] by blast
  have cong: "(?h + s) mod length qs = (home ps v + b + s) mod length qs" for s using b(2) M(1) by (metis mod_add_left_eq)
  have "slot qs (?h + dist ps v) = slot qs (v + b)"
  proof -
    have "home ps v + b + dist ps v = v + b" using u(2) by linarith
    then show ?thesis using slot_cong [OF cong, of "dist ps v"] by metis
  qed
  then have free: "IsNone (slot qs (?h + dist ps v))" using grown_free [OF g rh ideal v(1,2) b(1)] by simp
  obtain j where j: "j \<le> dist ps v" "\<forall>j'<j. IsSome (slot qs (?h + j'))" "IsNone (slot qs (?h + j))"
    and loop: "ProbeLoop (length qs) (reinsert_body ?x) (?h mod length qs) qs
      = Some ((?h + j) mod length qs, qs[(?h + j) mod length qs := ?x])"
    by (rule reinsert_first [OF M(2) free])
  let ?qs = "qs[(?h + j) mod length qs := ?x]" and ?c = "home ps v + b + j"
  have jM: "j < length qs" using j(1) pd_less [OF M(3), of ?h v] M(1) by (simp add: dist_def)
  have rh': "RH qs" "rh_but qs (?h + j)" using g RH_imp_rh_but by (simp_all add: grown_def)
  have "RH ?qs"
    using place_none [OF _ rh'(2) passed_fits [OF grown_passed [OF g rh ideal v b j(1,2)] jM] j(3)] N M(1) by simp
  moreover have "occ ?qs = occ (map (slot ps) [f..<Suc v])"
  proof -
    have "(?h + j) mod length qs < length qs" using M(2) by simp
    from occ_update [OF this, of ?x] have "occ ?qs = add_mset ?x (occ qs)" using j(3) v(3) by (simp add: slot_def)
    then show ?thesis using g v by (simp add: grown_def occ_def)
  qed
  moreover have "\<exists>v'\<ge>f. \<exists>b. placed ps (Suc v) c (slot ?qs c) v' b"
    if c: "f \<le> c" "c < f + 2 * ?N" "IsSome (slot ?qs c)" for c
  proof (cases "c mod length qs = (?h + j) mod length qs")
    case True
    have "f \<le> ?c" "?c < f + 2 * ?N" using u j(1) v b(1) by auto
    then have "c = ?c" using True cong [of j] window_unique [of f c "2 * ?N" ?c] c M(1) by simp
    moreover have "slot ?qs c = ?x" using True M(2) by (simp add: slot_update)
    ultimately show ?thesis using v b u j(1) by (intro exI [of _ v] conjI exI [of _ b]) (auto simp: placed_def)
  next
    case False
    then have "slot ?qs c = slot qs c" using M(2) by (simp add: slot_update)
    then obtain v' b' where "f \<le> v'" "placed ps v c (slot ?qs c) v' b'" using g c unfolding grown_def by metis
    then have "placed ps (Suc v) c (slot ?qs c) v' b'" unfolding placed_def by auto
    then show ?thesis using \<open>f \<le> v'\<close> by blast
  qed
  ultimately have "grown ps f (Suc v) ?qs" using M(1) by (simp add: grown_def)
  then show ?thesis using loop that by blast
qed

lemma ideal_exists:
  assumes "RH ps" and "z < length ps" "IsNone (ps ! z)" and "i < length ps" "IsSome (ps ! i)"
  shows "\<exists>f<length ps. IsSome (ps ! f) \<and> dist ps f = 0"
proof -
  let ?N = "length ps"
  have pos: "0 < ?N" using assms(2) by linarith
  have "IsSome (slot ps (z + pd ?N z i))" using pd_home [OF pos, of z i] assms by (simp add: slot_def)
  then obtain t where t: "IsSome (slot ps (z + t))" "\<forall>s<t. IsNone (slot ps (z + s))"
    using exists_least_iff [of "\<lambda>t. IsSome (slot ps (z + t))"] by blast
  moreover have "IsNone (slot ps (z + 0))" using assms by (simp add: slot_def)
  ultimately obtain s where "t = Suc s" by (cases t) auto
  then have "dist ps (z + t) = 0" using t assms(1) unfolding RH_def rh_at_def by (metis add_Suc_right gr0I lessI)
  then show ?thesis
    using t pos dist_cong [of "(z + t) mod ?N" ps "z + t"] by (intro exI [of _ "(z + t) mod ?N"]) (simp add: slot_def)
qed

lemma rotated_slots:
  assumes "f < length ps"
  shows "drop f ps @ take f ps = map (slot ps) [f..<f + length ps]"
proof (rule nth_equalityI)
  fix i assume "i < length (drop f ps @ take f ps)"
  then have "i < length ps" using assms by simp
  then show "(drop f ps @ take f ps) ! i = map (slot ps) [f..<f + length ps] ! i"
    using assms by (auto simp: nth_append slot_def mod_if not_less add.commute [of i f])
qed (use assms in simp)

lemma occ_rotated: "f < length ps \<Longrightarrow> occ (map (slot ps) [f..<f + length ps]) = occ ps"
  by (simp add: occ_def add.commute flip: rotated_slots) (metis append_take_drop_id filter_union_mset mset_append add.commute)

lemma occ_replicate_None [simp]: "occ (replicate n Pos_None) = {#}"
  by (simp add: occ_def)

lemma RH_replicate_None [simp]: "0 < n \<Longrightarrow> RH (replicate n Pos_None)"
  by (simp add: RH_def rh_at_def slot_def)

end
