(* ===== verification/Header_Map_Correct.thy ===== *)
theory Header_Map_Correct
  imports Robin_Hood
begin

section \<open>The hash table implements the list of headers\<close>

text \<open>
  The invariant \<open>map_inv\<close> of the header map and the refinement of the list of headers of
  \<open>Http_Response\<close>: on every map that satisfies it, search, insertion and removal end, keep it,
  and change the entries as the list operations do.  \<open>table_inv\<close> is the part that the
  positions satisfy; it takes the hashes of the entries as an argument, because one path of the
  insertion stores a hash that is not the one the map looks up with.
\<close>

subsection \<open>The invariant\<close>

definition table_size :: "nat \<Rightarrow> bool" where
  "table_size N \<longleftrightarrow> (\<exists>k. N = 2 ^ k \<and> 5 \<le> k \<and> k \<le> 15)"

definition index_ok :: "(nat \<Rightarrow> nat) \<Rightarrow> headers \<Rightarrow> Pos list \<Rightarrow> bool" where
  "index_ok hf es ps \<longleftrightarrow>
     image_mset entries_index (occ ps) = mset_set {..<length es}
     \<and> (\<forall>p\<in>#occ ps. pos_hash p = hf (entries_index p)
          \<and> header_index p = GetHeaderIndexForInsertion (fst (es ! entries_index p)))"

definition table_inv :: "(nat \<Rightarrow> nat) \<Rightarrow> HMap \<Rightarrow> bool" where
  "table_inv hf m \<longleftrightarrow>
     table_size (length (hm_positions m)) \<and> hm_mask m = length (hm_positions m) - 1 \<and> RH (hm_positions m)
     \<and> length (hm_entries m) \<le> Map_Capacity m \<and> index_ok hf (hm_entries m) (hm_positions m)"

definition map_hash :: "bool \<Rightarrow> HMap \<Rightarrow> nat \<Rightarrow> nat" where
  "map_hash sse2 m e = Map_HashKey sse2 m (fst (hm_entries m ! e))"

definition map_inv :: "bool \<Rightarrow> HMap \<Rightarrow> bool" where
  "map_inv sse2 m \<longleftrightarrow>
     distinct (header_names (hm_entries m))
     \<and> (if hm_positions m = [] then hm_entries m = [] \<and> \<not> IsYellow (hm_danger m)
        else table_inv (map_hash sse2 m) m)"

subsection \<open>Tables of the right size\<close>

lemma table_size_bounds: "table_size N \<Longrightarrow> 32 \<le> N \<and> N \<le> kMaxSize"
proof -
  assume "table_size N"
  then obtain k where k: "N = 2 ^ k" "5 \<le> k" "k \<le> 15" by (auto simp: table_size_def)
  have "(2 :: nat) ^ 5 \<le> 2 ^ k" "(2 :: nat) ^ k \<le> 2 ^ 15" using k(2,3) by (intro power_increasing; simp)+
  then show ?thesis unfolding k(1) kMaxSize_def by simp
qed

lemma table_size_distance: "table_size N \<Longrightarrow> ProbeDistance (N - 1) h i = pd N h i"
  unfolding table_size_def
proof (elim exE conjE)
  fix k :: nat assume "N = 2 ^ k" "k \<le> 15"
  then show ?thesis using ProbeDistance_pd [of k h i] by (simp del: One_nat_def)
qed

lemma table_size_desired: "table_size N \<Longrightarrow> DesiredPos (N - 1) h = h mod N"
  using DesiredPos_mod unfolding table_size_def by metis

lemma table_inv_facts:
  assumes "table_inv hf m"
  shows "table_size (length (hm_positions m))" "hm_mask m = length (hm_positions m) - 1" "RH (hm_positions m)"
    "length (hm_entries m) \<le> Map_Capacity m" "index_ok hf (hm_entries m) (hm_positions m)"
    "32 \<le> length (hm_positions m)" "length (hm_positions m) \<le> kMaxSize" "0 < length (hm_positions m)"
    "hm_positions m \<noteq> []"
proof -
  show f: "table_size (length (hm_positions m))" "hm_mask m = length (hm_positions m) - 1" "RH (hm_positions m)"
    "length (hm_entries m) \<le> Map_Capacity m" "index_ok hf (hm_entries m) (hm_positions m)"
    using assms by (simp_all add: table_inv_def)
  show le: "32 \<le> length (hm_positions m)" "length (hm_positions m) \<le> kMaxSize" using table_size_bounds [OF f(1)] by simp_all
  show "0 < length (hm_positions m)" "hm_positions m \<noteq> []" using le(1) by auto
qed

lemma in_occ: "p \<in># occ ps \<longleftrightarrow> IsSome p \<and> (\<exists>s<length ps. ps ! s = p)"
  by (auto simp: occ_def in_set_conv_nth)

lemma slot_in_occ: "0 < length ps \<Longrightarrow> IsSome (slot ps i) \<Longrightarrow> slot ps i \<in># occ ps"
  unfolding in_occ slot_def using mod_less_divisor by blast

lemma index_ok_less: "index_ok hf es ps \<Longrightarrow> p \<in># occ ps \<Longrightarrow> entries_index p < length es"
proof -
  assume a: "index_ok hf es ps" "p \<in># occ ps"
  then have "entries_index p \<in># image_mset entries_index (occ ps)" by simp
  also have "image_mset entries_index (occ ps) = mset_set {..<length es}" using a(1) by (simp add: index_ok_def)
  finally show ?thesis by simp
qed

lemma index_ok_exists:
  assumes "index_ok hf es ps" and "i < length es"
  obtains p where "p \<in># occ ps" "entries_index p = i"
proof -
  have "i \<in># image_mset entries_index (occ ps)" using assms by (simp add: index_ok_def)
  then show ?thesis using that by auto
qed

lemma index_ok_size: "index_ok hf es ps \<Longrightarrow> size (occ ps) = length es"
proof -
  assume "index_ok hf es ps"
  then have "size (image_mset entries_index (occ ps)) = size (mset_set {..<length es})" by (simp only: index_ok_def)
  then show ?thesis by simp
qed

lemma table_inv_None:
  assumes "table_inv hf m"
  obtains z where "z < length (hm_positions m)" "IsNone (hm_positions m ! z)"
proof (rule occ_None_exists)
  show "size (occ (hm_positions m)) < length (hm_positions m)"
    using index_ok_size [OF table_inv_facts(5) [OF assms]] table_inv_facts(4,6) [OF assms]
    by (simp add: Map_Capacity_def UsableCapacity_def)
qed

subsection \<open>Search\<close>

text \<open>
  Which entry a probe for \<open>key\<close> with hash \<open>h\<close> may stop at, and when it may give up: an entry
  with that hash lies within the slots that were passed.
\<close>

definition match_at :: "(nat \<Rightarrow> nat) \<Rightarrow> headers \<Rightarrow> nat \<Rightarrow> string \<Rightarrow> nat \<Rightarrow> bool" where
  "match_at hf es h key i \<longleftrightarrow> i < length es \<and> hf i = h \<and> StrIcaseEqual (fst (es ! i)) key"

lemma match_at_unique:
  assumes "distinct (header_names es)" and "match_at hf es h key i" and "match_at hf es h key j"
  shows "i = j"
proof -
  have "header_names es ! i = header_names es ! j" "i < length (header_names es)" "j < length (header_names es)"
    using assms(2,3) by (simp_all add: match_at_def header_names_def StrIcaseEqual_def)
  then show ?thesis using assms(1) nth_eq_iff_index_eq by metis
qed

lemma match_pos:
  assumes "index_ok hf es ps" and "p \<in># occ ps"
  shows "pos_hash p = h \<and> StrIcaseEqual (fst (es ! entries_index p)) key \<longleftrightarrow> match_at hf es h key (entries_index p)"
  using assms index_ok_less [OF assms] by (auto simp: match_at_def index_ok_def)

lemma match_passed:
  assumes ok: "index_ok hf es ps" and rh: "RH ps" and match: "match_at hf es h key i" and N: "0 < length ps"
    and stop: "IsNone (slot ps (h + t)) \<or> dist ps (h + t) < t"
  shows "\<exists>j<t. entries_index (slot ps (h + j)) = i \<and> IsSome (slot ps (h + j))"
proof -
  obtain p where p: "p \<in># occ ps" "entries_index p = i" using index_ok_exists [OF ok] match by (auto simp: match_at_def)
  then obtain s where s: "s < length ps" "ps ! s = p" "IsSome p" by (auto simp: in_occ)
  have sl: "slot ps s = p" using s by (simp add: slot_def)
  have hash: "pos_hash p = h" using match_pos [OF ok p(1), of h key] match p(2) by simp
  have "t' \<le> dist ps s \<Longrightarrow> IsSome (slot ps (h + t')) \<and> t' \<le> dist ps (h + t')" for t'
    using RH_walk [OF rh, of s t'] sl s(3) hash N by simp
  with stop have "dist ps s < t" by (meson leD leI)
  moreover have "slot ps (h + dist ps s) = p"
    using pd_home [OF N, of h s] sl hash slot_cong [of "h + dist ps s" ps s] by (simp add: dist_def)
  ultimately show ?thesis using p(2) s(3) by auto
qed

definition unmatched :: "(nat \<Rightarrow> nat) \<Rightarrow> HMap \<Rightarrow> nat \<Rightarrow> string \<Rightarrow> nat \<Rightarrow> bool" where
  "unmatched hf m h key t \<longleftrightarrow>
     passed (hm_positions m) h t
     \<and> (\<forall>j<t. \<not> match_at hf (hm_entries m) h key (entries_index (slot (hm_positions m) (h + j))))"

lemma unmatched_stop:
  assumes "table_inv hf m" and "unmatched hf m h key t"
    and "IsNone (slot (hm_positions m) (h + t)) \<or> dist (hm_positions m) (h + t) < t"
  shows "\<not> match_at hf (hm_entries m) h key i"
  using match_passed [OF table_inv_facts(5,3) [OF assms(1)] _ table_inv_facts(8) [OF assms(1)] assms(3)] assms(2)
  by (auto simp: unmatched_def)

lemma unmatched_Suc:
  "unmatched hf m h key t \<Longrightarrow> IsSome (slot (hm_positions m) (h + t)) \<Longrightarrow> t \<le> dist (hm_positions m) (h + t) \<Longrightarrow>
    \<not> match_at hf (hm_entries m) h key (entries_index (slot (hm_positions m) (h + t))) \<Longrightarrow> unmatched hf m h key (Suc t)"
  by (simp add: unmatched_def passed_Suc less_Suc_eq)

lemma probe_slot:
  assumes "table_inv hf m"
  shows "slot (hm_positions m) (h + t) = hm_positions m ! ((h + t) mod length (hm_positions m))"
    and "ProbeDistance (hm_mask m) (pos_hash (hm_positions m ! ((h + t) mod length (hm_positions m)))) ((h + t) mod length (hm_positions m))
      = dist (hm_positions m) (h + t)"
proof -
  let ?N = "length (hm_positions m)"
  show at: "slot (hm_positions m) (h + t) = hm_positions m ! ((h + t) mod ?N)" by (simp add: slot_def)
  show "ProbeDistance (hm_mask m) (pos_hash (hm_positions m ! ((h + t) mod ?N))) ((h + t) mod ?N) = dist (hm_positions m) (h + t)"
    using table_inv_facts(2) [OF assms] table_size_distance [OF table_inv_facts(1) [OF assms]]
      pd_cong [of "(h + t) mod ?N" ?N "h + t"] at by (simp add: dist_def)
qed

lemma DoFind_table:
  assumes inv: "table_inv hf m"
    and hindex: "\<And>p. p \<in># occ (hm_positions m) \<Longrightarrow> hindex = header_index p \<Longrightarrow> StrIcaseEqual (fst (hm_entries m ! entries_index p)) key"
  obtains r where "DoFind m key h hindex = Some r"
    "case r of None \<Rightarrow> \<forall>i. \<not> match_at hf (hm_entries m) h key i
     | Some (s, i) \<Rightarrow> match_at hf (hm_entries m) h key i \<and> s < length (hm_positions m)
         \<and> IsSome (hm_positions m ! s) \<and> entries_index (hm_positions m ! s) = i"
proof -
  let ?ps = "hm_positions m" and ?es = "hm_entries m" and ?N = "length (hm_positions m)"
  note f = table_inv_facts [OF inv]
  let ?match = "match_at hf ?es h key"
  let ?Inv = "\<lambda>t (d, r). d = t \<and> r = (None :: (nat \<times> nat) option) \<and> unmatched hf m h key t"
  let ?Q = "\<lambda>(t :: nat) (d :: nat, r). case r of None \<Rightarrow> \<forall>i. \<not> ?match i
     | Some (s, i) \<Rightarrow> ?match i \<and> s < ?N \<and> IsSome (?ps ! s) \<and> entries_index (?ps ! s) = i"
  obtain z where z: "z < ?N" "IsNone (?ps ! z)" by (rule table_inv_None [OF inv])
  have zs: "IsNone (slot ?ps (h + pd ?N h z))" using pd_home [OF f(8), of h z] z by (simp add: slot_def)
  have step: "\<exists>stop s'. find_body m key h hindex ((h + t) mod ?N) s = Some (stop, s') \<and>
      (if stop then ?Q t s' else t < pd ?N h z \<and> ?Inv (Suc t) s')" if i: "?Inv t s" "t \<le> pd ?N h z" for t s
  proof -
    let ?i = "(h + t) mod ?N"
    have s: "s = (t, None)" using i(1) by (cases s) simp
    note at = probe_slot(1) [OF inv, of h t] and d = probe_slot(2) [OF inv, of h t]
    have un: "unmatched hf m h key t" using i(1) s by simp
    show ?thesis
    proof (cases "IsNone (slot ?ps (h + t)) \<or> dist ?ps (h + t) < t")
      case True
      then have "find_body m key h hindex ?i s = Some (True, t, None)" using s d at by (auto simp: find_body_def Let_def)
      then show ?thesis using unmatched_stop [OF inv un True] by auto
    next
      case False
      then have some: "IsSome (?ps ! ?i)" "t \<le> dist ?ps (h + t)" using at by auto
      have occ: "?ps ! ?i \<in># occ ?ps" using slot_in_occ [OF f(8)] False at by metis
      have cond: "pos_hash (?ps ! ?i) = h \<and> (hindex = header_index (?ps ! ?i) \<or> StrIcaseEqual (fst (?es ! entries_index (?ps ! ?i))) key)
          \<longleftrightarrow> ?match (entries_index (?ps ! ?i))"
        using match_pos [OF f(5) occ, of h key] hindex [OF occ] by blast
      have "t \<noteq> pd ?N h z" using False zs by auto
      then have tL: "t < pd ?N h z" using i(2) by simp
      show ?thesis
      proof (cases "?match (entries_index (?ps ! ?i))")
        case True
        then have "find_body m key h hindex ?i s = Some (True, t, Some (?i, entries_index (?ps ! ?i)))"
          using s d some cond by (simp add: find_body_def)
        then show ?thesis using True some f(8) by auto
      next
        case nm: False
        then have "find_body m key h hindex ?i s = Some (False, t + 1, None)"
          using s d some cond by (auto simp: find_body_def Let_def)
        then show ?thesis using unmatched_Suc [OF un] nm some at tL by auto
      qed
    qed
  qed
  have le: "h mod ?N \<le> ?N" using f(8) mod_less_divisor less_imp_le by blast
  have start: "?Inv 0 (0, None)" by (simp add: unmatched_def)
  obtain t d r where "ProbeLoop ?N (find_body m key h hindex) (h mod ?N) (0, None) = Some ((h + t) mod ?N, d, r)" "?Q t (d, r)"
    using ProbeLoop_inv [where body = "find_body m key h hindex", OF f(8) le mod_mod_trivial start step] by fast
  then show ?thesis using that [of r] f(2,9) table_size_desired [OF f(1)] by (simp add: DoFind_def)
qed

subsection \<open>Insertion\<close>

lemma capacity_bound: "table_inv hf m \<Longrightarrow> Map_Capacity m \<le> 24576"
  using table_inv_facts(7) [of hf m] by (simp add: Map_Capacity_def UsableCapacity_def kMaxSize_def)

lemma index_ok_append:
  assumes ok: "index_ok hf es ps" and occ: "occ ps' = add_mset (make_Pos (length es) h (GetHeaderIndexForInsertion key)) (occ ps)"
    and len: "length es < 24576"
  shows "index_ok (hf(length es := h)) (es @ [(key, val)]) ps'"
proof -
  have "image_mset entries_index (occ ps') = add_mset (length es) (mset_set {..<length es})"
    using ok len by (simp add: occ index_ok_def make_Pos_def)
  also have "\<dots> = mset_set {..<length (es @ [(key, val)])}" by (simp add: lessThan_Suc)
  moreover have "pos_hash p = (hf(length es := h)) (entries_index p)
      \<and> header_index p = GetHeaderIndexForInsertion (fst ((es @ [(key, val)]) ! entries_index p))" if "p \<in># occ ps'" for p
    using that ok len index_ok_less [OF ok, of p] by (auto simp: occ make_Pos_def index_ok_def nth_append)
  ultimately show ?thesis by (simp add: index_ok_def)
qed

lemma make_Pos_new: "i < 24576 \<Longrightarrow> IsSome (make_Pos i h x) \<and> entries_index (make_Pos i h x) = i \<and> pos_hash (make_Pos i h x) = h"
  by (simp add: make_Pos_def IsNone_def kNoneIndex_def)

text \<open>What a map is after a new entry went into slot \<open>q\<close>.\<close>

definition inserted :: "(nat \<Rightarrow> nat) \<Rightarrow> string \<Rightarrow> nat \<Rightarrow> string \<Rightarrow> HMap \<Rightarrow> nat \<Rightarrow> HMap \<Rightarrow> bool" where
  "inserted hf key h val m q m' \<longleftrightarrow>
     table_inv (hf(length (hm_entries m) := h)) m' \<and> hm_entries m' = hm_entries m @ [(key, val)]
     \<and> (hm_danger m' = hm_danger m \<or> hm_danger m' = ToYellow (hm_danger m))
     \<and> length (hm_positions m') = length (hm_positions m)
     \<and> entries_index (hm_positions m' ! (q mod length (hm_positions m))) = length (hm_entries m)"

lemma insertedI:
  assumes inv: "table_inv hf m" and room: "length (hm_entries m) < Map_Capacity m"
    and ps: "length ps = length (hm_positions m)" "RH ps"
      "occ ps = add_mset (make_Pos (length (hm_entries m)) h (GetHeaderIndexForInsertion key)) (occ (hm_positions m))"
      "slot ps q = make_Pos (length (hm_entries m)) h (GetHeaderIndexForInsertion key)"
    and d: "d = hm_danger m \<or> d = ToYellow (hm_danger m)"
  shows "inserted hf key h val m q (m\<lparr>hm_entries := hm_entries m @ [(key, val)], hm_positions := ps, hm_danger := d\<rparr>)"
proof -
  have len: "length (hm_entries m) < 24576" using room capacity_bound [OF inv] by simp
  have "entries_index (ps ! (q mod length (hm_positions m))) = length (hm_entries m)"
    using make_Pos_new [OF len] ps(1,4) by (simp add: slot_def)
  then show ?thesis
    using index_ok_append [OF table_inv_facts(5) [OF inv] ps(3) len] inv room ps d
    by (simp add: inserted_def table_inv_def Map_Capacity_def)
qed

lemma vacant_inserted:
  assumes inv: "table_inv hf m" and room: "length (hm_entries m) < Map_Capacity m" and un: "unmatched hf m h key t"
    and t: "t < length (hm_positions m)" and none: "IsNone (slot (hm_positions m) (h + t))"
  shows "inserted hf key h val m (h + t) (perform_vacant h t ((h + t) mod length (hm_positions m)) key val m)"
proof -
  let ?x = "make_Pos (length (hm_entries m)) h (GetHeaderIndexForInsertion key)" and ?ps = "hm_positions m"
  note f = table_inv_facts [OF inv]
  have len: "length (hm_entries m) < 24576" using room capacity_bound [OF inv] by simp
  have x: "IsSome ?x" "pos_hash ?x = h" using make_Pos_new [OF len] by simp_all
  have "fits ?ps (h + t) ?x" using passed_fits [of ?ps ?x t] un x(2) t by (simp add: unmatched_def)
  then have "RH (?ps[(h + t) mod length ?ps := ?x])"
    using place_none [of ?ps "h + t" ?x] RH_imp_rh_but [OF f(3)] none f(6) by simp
  moreover have "occ (?ps[(h + t) mod length ?ps := ?x]) = add_mset ?x (occ ?ps)"
    using occ_update [of "(h + t) mod length ?ps" ?ps ?x] none x(1) f(8) by (simp add: slot_def)
  moreover have "slot (?ps[(h + t) mod length ?ps := ?x]) (h + t) = ?x" using f(8) by (simp add: slot_update)
  ultimately have "inserted hf key h val m (h + t)
      (m\<lparr>hm_entries := hm_entries m @ [(key, val)], hm_positions := ?ps[(h + t) mod length ?ps := ?x], hm_danger := d\<rparr>)"
    if "d = hm_danger m \<or> d = ToYellow (hm_danger m)" for d
    using insertedI [OF inv room _ _ _ _ that] by simp
  from this [of "hm_danger m"] this [of "ToYellow (hm_danger m)"] show ?thesis
    by (simp add: perform_vacant_def InsertEntry_def Let_def)
qed

lemma robinhood_inserted:
  assumes inv: "table_inv hf m" and room: "length (hm_entries m) < Map_Capacity m" and un: "unmatched hf m h key t"
    and t: "t < length (hm_positions m)" and some: "IsSome (slot (hm_positions m) (h + t))" "dist (hm_positions m) (h + t) < t"
  obtains m' where "perform_robinhood h t ((h + t) mod length (hm_positions m)) key val m = Some m'"
    "inserted hf key h val m (h + t) m'"
proof -
  let ?x = "make_Pos (length (hm_entries m)) h (GetHeaderIndexForInsertion key)" and ?ps = "hm_positions m"
  note f = table_inv_facts [OF inv]
  have len: "length (hm_entries m) < 24576" using room capacity_bound [OF inv] by simp
  have x: "IsSome ?x" "pos_hash ?x = h" using make_Pos_new [OF len] by simp_all
  obtain z where z: "z < length ?ps" "IsNone (?ps ! z)" by (rule table_inv_None [OF inv])
  have fit: "fits ?ps (h + t) ?x" using passed_fits [of ?ps ?x t] un x(2) t by (simp add: unmatched_def)
  have le: "dist ?ps (h + t) \<le> pd (length ?ps) (pos_hash ?x) (h + t)" using some(2) x(2) pd_add [OF t, of h] by simp
  have N: "2 \<le> length ?ps" using f(6) by simp
  obtain idx n hand ps where "ProbeLoop (length ?ps) robinhood_body ((h + t) mod length ?ps) (0, ?x, ?ps) = Some (idx, n, hand, ps)"
    and ps: "length ps = length ?ps" "RH ps" "occ ps = add_mset ?x (occ ?ps)" "slot ps (h + t) = ?x"
    using robinhood_loop [OF N f(3) z x(1) fit le] by blast
  then have "perform_robinhood h t ((h + t) mod length ?ps) key val m = Some
      (m\<lparr>hm_entries := hm_entries m @ [(key, val)], hm_positions := ps,
         hm_danger := (if kForwardShiftThreshold \<le> t \<or> kDisplacementThreshold \<le> n then ToYellow (hm_danger m) else hm_danger m)\<rparr>)"
    by (simp add: perform_robinhood_def InsertEntry_def DoRobinhoodAtPosition_def)
  then show ?thesis using that insertedI [OF inv room ps] by auto
qed

definition insert_done ::
  "(nat \<Rightarrow> nat) \<Rightarrow> string \<Rightarrow> nat \<Rightarrow> string \<Rightarrow> InsertOrModifyOccupiedAction \<Rightarrow> HMap \<Rightarrow> nat \<Rightarrow> HMap \<Rightarrow> bool" where
  "insert_done hf key h val action m e m' \<longleftrightarrow>
     (if \<exists>i. match_at hf (hm_entries m) h key i
      then match_at hf (hm_entries m) h key e \<and> m' = perform_occupied action e val m
      else e = length (hm_entries m) \<and> (\<exists>q. inserted hf key h val m q m'))"

lemma inserter_step:
  assumes inv: "table_inv hf m" and room: "length (hm_entries m) < Map_Capacity m"
    and un: "unmatched hf m h key t" and t: "t \<le> pd (length (hm_positions m)) h z"
    and z: "z < length (hm_positions m)" "IsNone (hm_positions m ! z)"
  shows "\<exists>stop d m'. inserter key h val action ((h + t) mod length (hm_positions m)) (t, m) = Some (stop, d, m') \<and>
    (if stop then insert_done hf key h val action m (entries_index (hm_positions m' ! ((h + t) mod length (hm_positions m)))) m'
     else t < pd (length (hm_positions m)) h z \<and> d = Suc t \<and> m' = m \<and> unmatched hf m h key (Suc t))"
proof -
  let ?ps = "hm_positions m" and ?N = "length (hm_positions m)" and ?i = "(h + t) mod length (hm_positions m)"
  note f = table_inv_facts [OF inv] and at = probe_slot(1) [OF inv, of h t] and d = probe_slot(2) [OF inv, of h t]
  have tN: "t < ?N" using t pd_less [OF f(8), of h z] by linarith
  consider (none) "IsNone (slot ?ps (h + t))" | (hood) "IsSome (slot ?ps (h + t))" "dist ?ps (h + t) < t"
    | (go) "IsSome (slot ?ps (h + t))" "t \<le> dist ?ps (h + t)" by fastforce
  then show ?thesis
  proof cases
    case none
    let ?m = "perform_vacant h t ?i key val m"
    have "\<nexists>i. match_at hf (hm_entries m) h key i" using unmatched_stop [OF inv un] none by blast
    moreover have "inserter key h val action ?i (t, m) = Some (True, t, ?m)"
      using none at by (simp add: inserter_def)
    ultimately show ?thesis using vacant_inserted [OF inv room un tN none, of val] by (auto simp: insert_done_def inserted_def)
  next
    case hood
    obtain m' where m': "perform_robinhood h t ?i key val m = Some m'" "inserted hf key h val m (h + t) m'"
      by (rule robinhood_inserted [OF inv room un tN hood])
    have "\<nexists>i. match_at hf (hm_entries m) h key i" using unmatched_stop [OF inv un] hood by blast
    moreover have "inserter key h val action ?i (t, m) = Some (True, t, m')"
      using hood at d m'(1) by (simp add: inserter_def)
    ultimately show ?thesis using m'(2) by (auto simp: insert_done_def inserted_def)
  next
    case go
    have occ: "?ps ! ?i \<in># occ ?ps" using slot_in_occ [OF f(8)] go at by metis
    note match = match_pos [OF f(5) occ, of h key]
    show ?thesis
    proof (cases "match_at hf (hm_entries m) h key (entries_index (?ps ! ?i))")
      case True
      let ?m = "perform_occupied action (entries_index (?ps ! ?i)) val m"
      have "inserter key h val action ?i (t, m) = Some (True, t, ?m)"
        using True match go at d by (simp add: inserter_def Let_def)
      then show ?thesis using True by (auto simp: insert_done_def perform_occupied_def)
    next
      case False
      have "slot ?ps (h + pd ?N h z) = ?ps ! z" using pd_home [OF f(8), of h z] z by (simp add: slot_def)
      then have "t \<noteq> pd ?N h z" using go z(2) by auto
      moreover have "inserter key h val action ?i (t, m) = Some (False, Suc t, m)"
        using False match go at d by (auto simp: inserter_def Let_def)
      ultimately show ?thesis using unmatched_Suc [OF un] go at False t by auto
    qed
  qed
qed

lemma insert_table:
  assumes inv: "table_inv hf m" and room: "length (hm_entries m) < Map_Capacity m"
  obtains idx d m' where
    "ProbeLoop (length (hm_positions m)) (inserter key h val action) (DesiredPos (hm_mask m) h) (0, m) = Some (idx, d, m')"
    "insert_done hf key h val action m (entries_index (hm_positions m' ! idx)) m'"
proof -
  let ?N = "length (hm_positions m)"
  note f = table_inv_facts [OF inv]
  obtain z where z: "z < ?N" "IsNone (hm_positions m ! z)" by (rule table_inv_None [OF inv])
  let ?Inv = "\<lambda>t (d, m'). d = t \<and> m' = m \<and> unmatched hf m h key t"
  let ?Q = "\<lambda>t (d :: nat, m'). insert_done hf key h val action m (entries_index (hm_positions m' ! ((h + t) mod ?N))) m'"
  have step: "\<exists>stop s'. inserter key h val action ((h + t) mod ?N) s = Some (stop, s') \<and>
      (if stop then ?Q t s' else t < pd ?N h z \<and> ?Inv (Suc t) s')" if i: "?Inv t s" "t \<le> pd ?N h z" for t s
  proof -
    have "s = (t, m)" "unmatched hf m h key t" using i(1) by auto
    then show ?thesis using inserter_step [OF inv room _ i(2) z, of key val action] by (auto split: if_splits)
  qed
  have le: "h mod ?N \<le> ?N" using f(8) mod_less_divisor less_imp_le by blast
  have start: "?Inv 0 (0, m)" by (simp add: unmatched_def)
  obtain t d m' where "ProbeLoop ?N (inserter key h val action) (h mod ?N) (0, m) = Some ((h + t) mod ?N, d, m')" "?Q t (d, m')"
    using ProbeLoop_inv [where body = "inserter key h val action", OF f(8) le mod_mod_trivial start step] by fast
  then show ?thesis using that f(2) table_size_desired [OF f(1)] by simp
qed

subsection \<open>Growth\<close>

lemma UsableCapacity_mono: "a \<le> b \<Longrightarrow> UsableCapacity a \<le> UsableCapacity b"
proof (rule lift_Suc_mono_le [of UsableCapacity])
  show "UsableCapacity n \<le> UsableCapacity (Suc n)" for n by (simp add: UsableCapacity_def div_Suc diff_le_mono)
qed

lemma table_size_double: "table_size N \<Longrightarrow> N \<noteq> kMaxSize \<Longrightarrow> table_size (2 * N) \<and> N \<le> 16384"
proof -
  assume "table_size N" "N \<noteq> kMaxSize"
  then obtain k where k: "N = 2 ^ k" "5 \<le> k" "k \<le> 15" by (auto simp: table_size_def)
  have "k \<noteq> 15" using k(1) \<open>N \<noteq> kMaxSize\<close> by (auto simp: kMaxSize_def)
  then have le: "k \<le> 14" using k(3) by simp
  have "(2 :: nat) ^ k \<le> 2 ^ 14" by (rule power_increasing [OF le]) simp
  moreover have "table_size (2 * N)" unfolding table_size_def using k le by (intro exI [of _ "Suc k"]) simp
  ultimately show ?thesis using k(1) by simp
qed

lemma first_ideal_slot:
  assumes "table_inv hf m"
  shows "first_ideal m < length (hm_positions m)"
    and "IsSome (slot (hm_positions m) (first_ideal m)) \<Longrightarrow> dist (hm_positions m) (first_ideal m) = 0"
proof -
  let ?ps = "hm_positions m" and ?N = "length (hm_positions m)"
  note f = table_inv_facts [OF assms]
  have d: "ProbeDistance (hm_mask m) (pos_hash (?ps ! i)) i = dist ?ps i" if "i < ?N" for i
    using probe_slot [OF assms, of i 0] that by (simp add: slot_def)
  let ?P = "\<lambda>i. IsSome (?ps ! i) \<and> ProbeDistance (hm_mask m) (pos_hash (?ps ! i)) i = 0"
  have "first_ideal m < ?N \<and> (IsSome (slot ?ps (first_ideal m)) \<longrightarrow> dist ?ps (first_ideal m) = 0)"
  proof (cases "find ?P [0..<?N]")
    case None
    then have no: "\<not> ?P i" if "i < ?N" for i using that by (auto simp: find_None_iff)
    obtain z where z: "z < ?N" "IsNone (?ps ! z)" by (rule table_inv_None [OF assms])
    have "IsNone (?ps ! 0)"
    proof (rule ccontr)
      assume "IsSome (?ps ! 0)"
      then obtain i where "i < ?N" "IsSome (?ps ! i)" "dist ?ps i = 0" using ideal_exists [OF f(3) z f(8)] by blast
      then show False using no [of i] d [of i] by simp
    qed
    then show ?thesis using None f(8) by (simp add: first_ideal_def slot_def)
  next
    case (Some i)
    then have "i < ?N" "?P i" by (auto simp: find_Some_iff)
    then show ?thesis using Some d [of i] by (simp add: first_ideal_def)
  qed
  then show "first_ideal m < ?N" "IsSome (slot ?ps (first_ideal m)) \<Longrightarrow> dist ?ps (first_ideal m) = 0" by simp_all
qed

lemma reinsert_loop_grown:
  assumes rh: "RH ps" and ideal: "IsSome (slot ps f) \<Longrightarrow> dist ps f = 0" and N: "2 \<le> length ps" and size: "table_size (2 * length ps)"
    and "grown ps f v (hm_positions m)" and "hm_mask m = 2 * length ps - 1" and "f \<le> v" and "v \<le> f + length ps"
  shows "\<exists>qs. reinsert_loop (map (slot ps) [v..<f + length ps]) m = Some (m\<lparr>hm_positions := qs\<rparr>) \<and> grown ps f (f + length ps) qs"
  using assms(5-)
proof (induction "f + length ps - v" arbitrary: v m)
  case 0
  then have "v = f + length ps" by simp
  then show ?case using 0 by (auto intro!: exI [of _ "hm_positions m"])
next
  case (Suc n)
  let ?x = "slot ps v"
  have v: "v < f + length ps" using Suc.hyps(2) by simp
  then have upt: "map (slot ps) [v..<f + length ps] = ?x # map (slot ps) [Suc v..<f + length ps]" by (simp add: upt_rec)
  have len: "length (hm_positions m) = 2 * length ps" using Suc.prems by (simp add: grown_def)
  obtain qs where one: "ReinsertPositionInOrder ?x m = Some (m\<lparr>hm_positions := qs\<rparr>)" and g: "grown ps f (Suc v) qs"
  proof (cases "IsNone ?x")
    case True
    have "occ (map (slot ps) [f..<Suc v]) = occ (map (slot ps) [f..<v])" using True Suc.prems by (simp add: occ_def)
    moreover have "placed ps (Suc v) c x v' b" if "placed ps v c x v' b" for c x v' b using that by (auto simp: placed_def)
    ultimately have "grown ps f (Suc v) (hm_positions m)" using Suc.prems(1) unfolding grown_def by metis
    then show ?thesis using that [of "hm_positions m"] True by (simp add: ReinsertPositionInOrder_def)
  next
    case False
    obtain idx qs where "ProbeLoop (length (hm_positions m)) (reinsert_body ?x) (pos_hash ?x mod length (hm_positions m)) (hm_positions m) = Some (idx, qs)"
      "grown ps f (Suc v) qs"
      using grown_step [OF Suc.prems(1) rh ideal Suc.prems(3) v False N] by blast
    then show ?thesis using that [of qs] False table_size_desired [OF size] Suc.prems(2) len by (simp add: ReinsertPositionInOrder_def)
  qed
  have "\<exists>qs'. reinsert_loop (map (slot ps) [Suc v..<f + length ps]) (m\<lparr>hm_positions := qs\<rparr>) = Some (m\<lparr>hm_positions := qs, hm_positions := qs'\<rparr>)
      \<and> grown ps f (f + length ps) qs'"
    using Suc.hyps(1) [of "Suc v" "m\<lparr>hm_positions := qs\<rparr>"] Suc.hyps(2) Suc.prems g v by simp
  then show ?case using one upt by auto
qed

lemma reinsert_loop_append: "reinsert_loop (xs @ ys) m = Option.bind (reinsert_loop xs m) (reinsert_loop ys)"
  by (induction xs arbitrary: m) (auto split: bind_split)

lemma Map_Grow_ok:
  assumes inv: "table_inv hf m" and max: "length (hm_positions m) \<noteq> kMaxSize"
  obtains m' where "Map_Grow (length (hm_positions m) * 2) m = Some (Inr (), m')" "table_inv hf m'"
    "hm_entries m' = hm_entries m" "hm_danger m' = hm_danger m" "length (hm_positions m') = 2 * length (hm_positions m)"
proof -
  let ?ps = "hm_positions m" and ?N = "length (hm_positions m)" and ?f = "first_ideal m"
  note f = table_inv_facts [OF inv] and ideal = first_ideal_slot [OF inv]
  have size: "table_size (2 * ?N)" "?N \<le> 16384" using table_size_double [OF f(1) max] by simp_all
  let ?m = "m\<lparr>hm_positions := replicate (?N * 2) Pos_None, hm_mask := (?N * 2 - 1) mod 2 ^ 16\<rparr>"
  have mask: "hm_mask ?m = 2 * ?N - 1" using size(2) by (simp add: mult.commute)
  have "grown ?ps ?f ?f (hm_positions ?m)" using f(8) by (simp add: grown_def slot_def occ_def)
  then obtain qs where qs: "reinsert_loop (map (slot ?ps) [?f..<?f + ?N]) ?m = Some (?m\<lparr>hm_positions := qs\<rparr>)" and g: "grown ?ps ?f (?f + ?N) qs"
    using reinsert_loop_grown [OF f(3) ideal(2) _ size(1), of ?f ?m] mask f(6) by auto
  have "Map_Grow (?N * 2) m = Some (Inr (), ?m\<lparr>hm_positions := qs\<rparr>)"
    using qs size(2) unfolding rotated_slots [OF ideal(1), symmetric] reinsert_loop_append
    by (simp add: Map_Grow_def kMaxSize_def Let_def)
  moreover have "table_inv hf (?m\<lparr>hm_positions := qs\<rparr>)"
    using g f(4,5) size(1) mask occ_rotated [OF ideal(1)]
    by (simp add: table_inv_def grown_def index_ok_def Map_Capacity_def UsableCapacity_def)
  ultimately show ?thesis using that g by (auto simp: grown_def)
qed

lemma IsSafe_hash:
  "Map_HashKey sse2 (m\<lparr>hm_danger := ToYellow (hm_danger m)\<rparr>) = Map_HashKey sse2 m"
  "IsYellow (hm_danger m) \<Longrightarrow> Map_HashKey sse2 (m\<lparr>hm_danger := ToGreen (hm_danger m)\<rparr>) = Map_HashKey sse2 m"
  by (auto simp: fun_eq_iff Map_HashKey_def Danger_HashKey_def IsRed_def IsYellow_def ToYellow_def ToGreen_def SafeHash_def)

lemma HashKey_cong: "hm_danger m = hm_danger m' \<Longrightarrow> Map_HashKey sse2 m = Map_HashKey sse2 m'"
  by (simp add: fun_eq_iff Map_HashKey_def)

lemma ReserveOne_not_yellow_ok:
  assumes inv: "map_inv sse2 m" and room: "length (hm_entries m) \<noteq> UsableCapacity kMaxSize"
  obtains m' where "ReserveOne_not_yellow m = Some (Inr (), m')" "table_inv (map_hash sse2 m) m'"
    "hm_entries m' = hm_entries m" "hm_danger m' = hm_danger m" "length (hm_entries m) < Map_Capacity m'"
    "length (hm_positions m) \<le> length (hm_positions m')"
proof (cases "hm_positions m = []")
  case True
  let ?m = "m\<lparr>hm_mask := kOnStackPositionsCount - 1, hm_positions := replicate kOnStackPositionsCount Pos_None\<rparr>"
  have es: "hm_entries m = []" using inv True by (simp add: map_inv_def)
  have "table_size 32" unfolding table_size_def by (intro exI [of _ 5]) simp
  then have "table_inv (map_hash sse2 m) ?m"
    using es by (simp add: table_inv_def index_ok_def kOnStackPositionsCount_def)
  then show ?thesis using that [of ?m] es True
    by (simp add: ReserveOne_not_yellow_def Map_Capacity_def UsableCapacity_def kOnStackPositionsCount_def)
next
  case False
  then have tab: "table_inv (map_hash sse2 m) m" using inv by (simp add: map_inv_def)
  note f = table_inv_facts [OF tab]
  show ?thesis
  proof (cases "length (hm_entries m) = Map_Capacity m")
    case True
    then have "length (hm_positions m) \<noteq> kMaxSize" using room by (auto simp: Map_Capacity_def)
    then obtain m' where m': "Map_Grow (length (hm_positions m) * 2) m = Some (Inr (), m')" "table_inv (map_hash sse2 m) m'"
      "hm_entries m' = hm_entries m" "hm_danger m' = hm_danger m" "length (hm_positions m') = 2 * length (hm_positions m)"
      using Map_Grow_ok [OF tab] by blast
    moreover have "length (hm_entries m) \<noteq> 0" "length (hm_entries m) < Map_Capacity m'"
      using True m'(5) f(6) by (simp_all add: Map_Capacity_def UsableCapacity_def)
    ultimately show ?thesis using that [of m'] True by (simp add: ReserveOne_not_yellow_def)
  next
    case False
    then show ?thesis using that [of m] tab f(4) by (simp add: ReserveOne_not_yellow_def)
  qed
qed

lemma ReserveOne_not_yellow_full:
  assumes "map_inv sse2 m" and full: "length (hm_entries m) = UsableCapacity kMaxSize"
  shows "ReserveOne_not_yellow m = Some (Inl too_many_headers, m)"
proof -
  have cap: "UsableCapacity kMaxSize = 24576" by (simp add: UsableCapacity_def kMaxSize_def)
  have tab: "table_inv (map_hash sse2 m) m" using assms cap by (auto simp: map_inv_def split: if_splits)
  note f = table_inv_facts [OF tab]
  have "length (hm_positions m) = kMaxSize"
  proof (rule ccontr)
    assume "length (hm_positions m) \<noteq> kMaxSize"
    then have "length (hm_positions m) \<le> 16384" using table_size_double [OF f(1)] by simp
    then show False using f(4) full cap by (simp add: Map_Capacity_def UsableCapacity_def)
  qed
  then show ?thesis using full cap by (simp add: ReserveOne_not_yellow_def Map_Capacity_def Map_Grow_def kMaxSize_def)
qed

text \<open>
  A map is \<open>calm\<close> when the next insertion neither has to leave the fast hash nor runs into the
  size limit because of a collision.
\<close>

definition calm :: "HMap \<Rightarrow> bool" where
  "calm m \<longleftrightarrow> (IsYellow (hm_danger m) \<longrightarrow> load_factor_sane m \<and> length (hm_positions m) \<noteq> kMaxSize)"

lemma ReserveOne_ok:
  assumes inv: "map_inv sse2 m" and calm: "calm m" and room: "length (hm_entries m) \<noteq> UsableCapacity kMaxSize"
  obtains m' where "ReserveOne sse2 keys m = Some (Inr (), m')" "table_inv (map_hash sse2 m) m'"
    "hm_entries m' = hm_entries m" "Map_HashKey sse2 m' = Map_HashKey sse2 m" "length (hm_entries m) < Map_Capacity m'"
proof (cases "IsYellow (hm_danger m)")
  case False
  then show ?thesis using ReserveOne_not_yellow_ok [OF inv room] that HashKey_cong [of _ m sse2]
    by (metis ReserveOne_def)
next
  case True
  let ?m = "m\<lparr>hm_danger := ToGreen (hm_danger m)\<rparr>"
  have tab: "table_inv (map_hash sse2 m) m" using inv True by (auto simp: map_inv_def split: if_splits)
  then have "table_inv (map_hash sse2 m) ?m" by (simp add: table_inv_def Map_Capacity_def)
  then obtain m' where m': "Map_Grow (length (hm_positions m) * 2) ?m = Some (Inr (), m')" "table_inv (map_hash sse2 m) m'"
    "hm_entries m' = hm_entries m" "hm_danger m' = ToGreen (hm_danger m)" "length (hm_positions m') = 2 * length (hm_positions m)"
    using Map_Grow_ok [of "map_hash sse2 m" ?m] calm True by (auto simp: calm_def)
  have "Map_HashKey sse2 m' = Map_HashKey sse2 m"
    using IsSafe_hash(2) [OF True] HashKey_cong [of m' ?m] m'(4) by simp
  moreover have "length (hm_entries m) < Map_Capacity m'"
    using m'(5) table_inv_facts(4,6) [OF tab] by (simp add: Map_Capacity_def UsableCapacity_def)
  moreover have "ReserveOne sse2 keys m = Some (Inr (), m')" using True calm m'(1) by (simp add: ReserveOne_def calm_def load_factor_sane_def)
  ultimately show ?thesis using that m'(2,3) by blast
qed

subsection \<open>Maps and lists\<close>

lemma HashKey_icase: "StrIcaseEqual a b \<Longrightarrow> Map_HashKey sse2 m a = Map_HashKey sse2 m b"
  by (simp add: Map_HashKey_def Danger_HashKey_icase)

lemma header_pos_iff:
  assumes "distinct (header_names es)"
  shows "header_pos key es = Some i \<longleftrightarrow> i < length es \<and> StrIcaseEqual (fst (es ! i)) key"
proof
  assume "i < length es \<and> StrIcaseEqual (fst (es ! i)) key"
  then have i: "match_at (\<lambda>_. 0) es 0 key i" by (simp add: match_at_def)
  then have "header_pos key es \<noteq> None" by (auto simp: match_at_def header_pos_def find_pos_None_iff)
  then obtain j where j: "header_pos key es = Some j" by blast
  then have "match_at (\<lambda>_. 0) es 0 key j"
    by (simp add: match_at_def header_pos_Some_less StrIcaseEqual_def header_pos_Some_name)
  then show "header_pos key es = Some i" using match_at_unique [OF assms i] j by simp
qed (simp add: header_pos_Some_less StrIcaseEqual_def header_pos_Some_name)

lemma match_at_header_pos:
  assumes "distinct (header_names (hm_entries m))"
  shows "match_at (map_hash sse2 m) (hm_entries m) (Map_HashKey sse2 m key) key i \<longleftrightarrow> header_pos key (hm_entries m) = Some i"
  using header_pos_iff [OF assms, of key i] HashKey_icase by (auto simp: match_at_def map_hash_def)

lemma DoFind_map:
  assumes inv: "map_inv sse2 m" and ne: "hm_positions m \<noteq> []"
    and hindex: "\<And>b. hindex = GetHeaderIndexForInsertion b \<Longrightarrow> StrIcaseEqual b key"
  obtains r where "DoFind m key (Map_HashKey sse2 m key) hindex = Some r"
    "map_option snd r = header_pos key (hm_entries m)"
    "\<And>s i. r = Some (s, i) \<Longrightarrow> s < length (hm_positions m) \<and> IsSome (hm_positions m ! s) \<and> entries_index (hm_positions m ! s) = i"
proof -
  have tab: "table_inv (map_hash sse2 m) m" and dst: "distinct (header_names (hm_entries m))"
    using inv ne by (simp_all add: map_inv_def)
  have hi: "StrIcaseEqual (fst (hm_entries m ! entries_index p)) key" if "p \<in># occ (hm_positions m)" "hindex = header_index p" for p
    using table_inv_facts(5) [OF tab] that hindex by (simp add: index_ok_def)
  obtain r where r: "DoFind m key (Map_HashKey sse2 m key) hindex = Some r"
    "case r of None \<Rightarrow> \<forall>i. \<not> match_at (map_hash sse2 m) (hm_entries m) (Map_HashKey sse2 m key) key i
     | Some (s, i) \<Rightarrow> match_at (map_hash sse2 m) (hm_entries m) (Map_HashKey sse2 m key) key i \<and> s < length (hm_positions m)
         \<and> IsSome (hm_positions m ! s) \<and> entries_index (hm_positions m ! s) = i"
    using DoFind_table [OF tab hi] by blast
  show ?thesis
  proof (rule that [OF r(1)])
    show "map_option snd r = header_pos key (hm_entries m)"
      using r(2) unfolding match_at_header_pos [OF dst] by (cases r) auto
    show "s < length (hm_positions m) \<and> IsSome (hm_positions m ! s) \<and> entries_index (hm_positions m ! s) = i"
      if "r = Some (s, i)" for s i using r(2) that by simp
  qed
qed

lemma zero_hindex: "0 = GetHeaderIndexForInsertion b \<Longrightarrow> StrIcaseEqual b key"
  using GetHeaderIndexForInsertion_nonzero [of b] by simp

lemma Map_Find_eq:
  assumes "map_inv sse2 m"
  shows "Map_Find sse2 m key = Some (case header_pos key (hm_entries m) of None \<Rightarrow> Map_End | Some i \<Rightarrow> ToReverseIterator i)"
proof (cases "hm_positions m = []")
  case True
  then show ?thesis using assms by (simp add: map_inv_def Map_Find_def DoFind_def find_iter_def header_pos_def)
next
  case False
  obtain r where "DoFind m key (Map_HashKey sse2 m key) 0 = Some r" "map_option snd r = header_pos key (hm_entries m)"
    by (rule DoFind_map [OF assms False zero_hindex])
  then show ?thesis by (auto simp: Map_Find_def find_iter_def split: option.splits)
qed

lemma HashKey_predefined: "Map_HashKey_predefined sse2 m (make_PredefinedHeader name) = Map_HashKey sse2 m name"
  by (simp add: Map_HashKey_predefined_def Map_HashKey_def Danger_HashKey_predefined_def Danger_HashKey_def make_PredefinedHeader_def)

lemma Map_Find_predefined_eq:
  assumes "map_inv sse2 m"
  shows "Map_Find_predefined sse2 m (make_PredefinedHeader name) = Map_Find sse2 m name"
proof (cases "hm_positions m = []")
  case True
  then show ?thesis by (simp add: Map_Find_predefined_def Map_Find_def DoFind_def)
next
  case False
  have hi: "GetHeaderIndexForLookup name = GetHeaderIndexForInsertion b \<Longrightarrow> StrIcaseEqual b name" for b
    using header_index_match [of name b] StrIcaseEqual_sym by blast
  obtain r where r: "DoFind m name (Map_HashKey sse2 m name) (GetHeaderIndexForLookup name) = Some r"
    "map_option snd r = header_pos name (hm_entries m)"
    by (rule DoFind_map [OF assms False hi])
  have "find_iter r = (case map_option snd r of None \<Rightarrow> Map_End | Some i \<Rightarrow> ToReverseIterator i)"
    by (auto simp: find_iter_def split: option.splits)
  then show ?thesis using r Map_Find_eq [OF assms, of name] HashKey_predefined [of sse2 m name]
    by (simp add: Map_Find_predefined_def make_PredefinedHeader_def)
qed

lemma index_ok_cong:
  assumes "length es' = length es" and "\<And>e. e < length es \<Longrightarrow> hf' e = hf e \<and> fst (es' ! e) = fst (es ! e)"
  shows "index_ok hf' es' ps \<longleftrightarrow> index_ok hf es ps"
proof -
  have "index_ok hf' es' ps" if ok: "index_ok hf es ps" and len: "length es' = length es"
    and eq: "\<And>e. e < length es \<Longrightarrow> hf' e = hf e \<and> fst (es' ! e) = fst (es ! e)" for hf hf' es es'
    using ok len eq index_ok_less [OF ok] by (simp add: index_ok_def)
  from this [of hf es es' hf'] this [of hf' es' es hf] show ?thesis using assms by metis
qed

lemma perform_occupied_inv:
  assumes tab: "table_inv hf m" and e: "e < length (hm_entries m)"
  shows "table_inv hf (perform_occupied action e val m)"
proof -
  have "index_ok hf (hm_entries (perform_occupied action e val m)) (hm_positions m) \<longleftrightarrow> index_ok hf (hm_entries m) (hm_positions m)"
    using e by (intro index_ok_cong) (simp_all add: perform_occupied_def nth_list_update)
  then show ?thesis using tab by (simp add: table_inv_def perform_occupied_def Map_Capacity_def)
qed

lemma header_names_update: "i < length es \<Longrightarrow> header_names (es[i := (fst (es ! i), v)]) = header_names es"
  by (auto simp: header_names_def list_eq_iff_nth_eq nth_list_update)

text \<open>The probe of an insertion, after \<open>ReserveOne\<close> has made room in \<open>m1\<close>.\<close>

lemma insert_map:
  assumes inv: "map_inv sse2 m" and room: "length (hm_entries m) \<noteq> UsableCapacity kMaxSize"
    and res: "reserve m = Some (Inr (), m1)" "table_inv (map_hash sse2 m) m1" "hm_entries m1 = hm_entries m"
      "Map_HashKey sse2 m1 = Map_HashKey sse2 m" "length (hm_entries m) < Map_Capacity m1"
  obtains e m' es where "DoInsertOrModify_with reserve key (Map_HashKey sse2 m key) val action m = Some (Inr (ToReverseIterator e), m')"
    "InsertOrModify (occupied_value action) key val (hm_entries m) = Inr es" "hm_entries m' = es" "map_inv sse2 m'"
    "header_pos key es = Some e" "hm_danger m' = hm_danger m1 \<or> hm_danger m' = ToYellow (hm_danger m1)"
    "length (hm_positions m') = length (hm_positions m1)"
proof -
  let ?es = "hm_entries m" and ?h = "Map_HashKey sse2 m key"
  have dst: "distinct (header_names ?es)" using inv by (simp add: map_inv_def)
  note match = match_at_header_pos [OF dst, of sse2 key]
  have "length (hm_entries m1) < Map_Capacity m1" using res(3,5) by simp
  from insert_table [OF res(2) this] obtain idx d m' where
    loop: "ProbeLoop (length (hm_positions m1)) (inserter key ?h val action) (DesiredPos (hm_mask m1) ?h) (0, m1) = Some (idx, d, m')"
    and fin: "insert_done (map_hash sse2 m) key ?h val action m1 (entries_index (hm_positions m' ! idx)) m'" by blast
  let ?e = "entries_index (hm_positions m' ! idx)"
  have call: "DoInsertOrModify_with reserve key ?h val action m = Some (Inr (ToReverseIterator ?e), m')"
    using loop res(1) by (simp add: DoInsertOrModify_with_def hbind_def)
  show ?thesis
  proof (cases "header_pos key ?es")
    case (Some i)
    then have e: "?e = i" "m' = perform_occupied action i val m1" using fin match res(3) by (auto simp: insert_done_def)
    have i: "i < length ?es" using header_pos_Some_less [OF Some] .
    let ?es' = "?es[i := (fst (?es ! i), occupied_value action (snd (?es ! i)) val)]"
    have es': "hm_entries m' = ?es'" using e(2) res(3) by (simp add: perform_occupied_def)
    have names: "header_names ?es' = header_names ?es" by (rule header_names_update [OF i])
    have hash: "Map_HashKey sse2 m' = Map_HashKey sse2 m"
      using HashKey_cong [of m' m1] res(4) e(2) by (simp add: perform_occupied_def)
    have "table_inv (map_hash sse2 m) m'" using perform_occupied_inv [OF res(2)] e(2) i res(3) by simp
    moreover have "map_hash sse2 m' = map_hash sse2 m"
    proof -
      have "fst (?es' ! x) = fst (?es ! x)" for x using i by (cases "x = i") simp_all
      then show ?thesis using hash es' by (simp add: fun_eq_iff map_hash_def)
    qed
    moreover have "hm_positions m' \<noteq> []" using table_inv_facts(9) [OF \<open>table_inv (map_hash sse2 m) m'\<close>] .
    ultimately have "map_inv sse2 m'" using dst names es' by (simp add: map_inv_def)
    moreover have "header_pos key ?es' = Some i"
      using header_pos_iff [of ?es' key i] header_pos_iff [OF dst, of key i] Some dst names i by simp
    moreover have "InsertOrModify (occupied_value action) key val ?es = Inr ?es'" using Some room by (simp add: InsertOrModify_def)
    ultimately show ?thesis using that [of i m' ?es'] call e es' by (simp add: perform_occupied_def)
  next
    case None
    then obtain q where e: "?e = length ?es" and ins: "inserted (map_hash sse2 m) key ?h val m1 q m'"
      using fin match res(3) by (auto simp: insert_done_def)
    let ?es' = "?es @ [(key, val)]"
    have es': "hm_entries m' = ?es'" using ins res(3) by (simp add: inserted_def)
    have ok: "InsertOrModify (occupied_value action) key val ?es = Inr ?es'" using None room by (simp add: InsertOrModify_def)
    have dst': "distinct (header_names ?es')" using InsertOrModify_distinct [OF dst ok] .
    have danger: "hm_danger m' = hm_danger m1 \<or> hm_danger m' = ToYellow (hm_danger m1)" using ins by (simp add: inserted_def)
    then have hash: "Map_HashKey sse2 m' = Map_HashKey sse2 m"
      using IsSafe_hash(1) [of sse2 m1] HashKey_cong [of m' m1] HashKey_cong [of m' "m1\<lparr>hm_danger := ToYellow (hm_danger m1)\<rparr>"] res(4)
      by auto
    have tab: "table_inv ((map_hash sse2 m)(length ?es := ?h)) m'" using ins res(3) by (simp add: inserted_def)
    have "index_ok (map_hash sse2 m') ?es' (hm_positions m') \<longleftrightarrow>
        index_ok ((map_hash sse2 m)(length ?es := ?h)) ?es' (hm_positions m')"
      by (rule index_ok_cong) (auto simp: map_hash_def hash es' nth_append)
    then have "table_inv (map_hash sse2 m') m'" using tab es' by (simp add: table_inv_def)
    then have "map_inv sse2 m'" using dst' es' table_inv_facts(9) [OF tab] by (simp add: map_inv_def)
    moreover have "header_pos key ?es' = Some (length ?es)" using header_pos_iff [OF dst', of key] by simp
    moreover have "length (hm_positions m') = length (hm_positions m1)" using ins by (simp add: inserted_def)
    ultimately show ?thesis using that [of ?e m' ?es'] call e es' ok danger by simp
  qed
qed

lemma Map_InsertOrModify_ok:
  assumes "map_inv sse2 m" and "calm m" and "length (hm_entries m) \<noteq> UsableCapacity kMaxSize"
  obtains e m' es where "Map_InsertOrModify sse2 keys key val action m = Some (Inr (ToReverseIterator e), m')"
    "InsertOrModify (occupied_value action) key val (hm_entries m) = Inr es" "hm_entries m' = es" "map_inv sse2 m'"
    "header_pos key es = Some e"
proof -
  obtain m1 where m1: "ReserveOne sse2 keys m = Some (Inr (), m1)" "table_inv (map_hash sse2 m) m1" "hm_entries m1 = hm_entries m"
    "Map_HashKey sse2 m1 = Map_HashKey sse2 m" "length (hm_entries m) < Map_Capacity m1"
    by (rule ReserveOne_ok [OF assms])
  show ?thesis using insert_map [OF assms(1,3), of "ReserveOne sse2 keys" m1, OF m1] that
    by (metis Map_InsertOrModify_def DoInsertOrModify_def)
qed

lemma calm_full:
  assumes "map_inv sse2 m" and "calm m" and "length (hm_entries m) = UsableCapacity kMaxSize"
  shows "Map_InsertOrModify sse2 keys key val action m = Some (Inl too_many_headers, m)"
proof -
  have "\<not> IsYellow (hm_danger m)"
  proof
    assume y: "IsYellow (hm_danger m)"
    then have tab: "table_inv (map_hash sse2 m) m" using assms(1) by (auto simp: map_inv_def split: if_splits)
    have "length (hm_positions m) \<le> 16384"
      using table_size_double [OF table_inv_facts(1) [OF tab]] y assms(2) by (simp add: calm_def)
    then show False using table_inv_facts(4) [OF tab] assms(3)
      by (simp add: Map_Capacity_def UsableCapacity_def kMaxSize_def)
  qed
  then show ?thesis using ReserveOne_not_yellow_full [OF assms(1,3)]
    by (simp add: Map_InsertOrModify_def DoInsertOrModify_def DoInsertOrModify_with_def ReserveOne_def hbind_def)
qed

subsection \<open>Switching to the safe hash\<close>

text \<open>\<open>Rebuild\<close> inserts the entries anew, one by one, into the emptied table of a red map.\<close>

lemma rebuild_loop_ok:
  assumes "map_inv sse2 m" and "IsRed (hm_danger m)" and "hm_positions m \<noteq> []"
    and "distinct (header_names (hm_entries m @ es))" and "length (hm_entries m) + length es < UsableCapacity kMaxSize"
  shows "\<exists>m'. rebuild_loop sse2 es m = Some (Inr (), m') \<and> map_inv sse2 m' \<and> hm_entries m' = hm_entries m @ es
    \<and> hm_danger m' = hm_danger m \<and> length (hm_positions m) \<le> length (hm_positions m')"
  using assms
proof (induction es arbitrary: m)
  case Nil
  then show ?case by simp
next
  case (Cons kv es)
  obtain key val where kv: "kv = (key, val)" by (cases kv)
  have room: "length (hm_entries m) \<noteq> UsableCapacity kMaxSize" using Cons.prems(5) by simp
  obtain m1 where m1: "ReserveOne_not_yellow m = Some (Inr (), m1)" "table_inv (map_hash sse2 m) m1" "hm_entries m1 = hm_entries m"
    "hm_danger m1 = hm_danger m" "length (hm_entries m) < Map_Capacity m1" "length (hm_positions m) \<le> length (hm_positions m1)"
    by (rule ReserveOne_not_yellow_ok [OF Cons.prems(1) room])
  obtain e m' es' where ins: "DoInsertOrModify_with ReserveOne_not_yellow key (Map_HashKey sse2 m key) val kAssert m = Some (Inr (ToReverseIterator e), m')"
    "InsertOrModify (occupied_value kAssert) key val (hm_entries m) = Inr es'" "hm_entries m' = es'" "map_inv sse2 m'"
    "hm_danger m' = hm_danger m1 \<or> hm_danger m' = ToYellow (hm_danger m1)" "length (hm_positions m') = length (hm_positions m1)"
    by (rule insert_map [OF Cons.prems(1) room, of ReserveOne_not_yellow m1, OF m1(1,2,3) HashKey_cong [OF m1(4)] m1(5)])
  have "header_pos key (hm_entries m) = None"
    using Cons.prems(4) header_pos_None_iff [of key "hm_entries m"] by (simp add: kv header_names_def)
  then have es': "es' = hm_entries m @ [kv]" using ins(2) kv room by (simp add: InsertOrModify_def)
  have red: "hm_danger m' = hm_danger m" using ins(5) m1(4) Cons.prems(2) by (auto simp: IsRed_def ToYellow_def)
  have "hm_positions m' \<noteq> []" using ins(3,4) es' by (auto simp: map_inv_def split: if_splits)
  then have "\<exists>m''. rebuild_loop sse2 es m' = Some (Inr (), m'') \<and> map_inv sse2 m'' \<and> hm_entries m'' = hm_entries m' @ es
      \<and> hm_danger m'' = hm_danger m' \<and> length (hm_positions m') \<le> length (hm_positions m'')"
    using Cons.IH [of m'] ins(3,4) es' red Cons.prems by simp
  then show ?case using ins(1,3,6) m1(6) es' red kv by (auto simp: hbind_def)
qed

lemma Map_Rebuild_ok:
  assumes inv: "map_inv sse2 m" and ne: "hm_positions m \<noteq> []" and few: "length (hm_entries m) < UsableCapacity kMaxSize"
    and d: "IsRed d"
  obtains m' where "Map_Rebuild sse2 (m\<lparr>hm_danger := d\<rparr>) = Some (Inr (), m')" "map_inv sse2 m'" "hm_entries m' = hm_entries m"
    "hm_danger m' = d" "length (hm_positions m) \<le> length (hm_positions m')"
proof -
  let ?m = "m\<lparr>hm_danger := d, hm_positions := replicate (length (hm_positions m)) Pos_None, hm_entries := []\<rparr>"
  have "table_inv (map_hash sse2 ?m) ?m"
    using inv ne by (simp add: map_inv_def table_inv_def index_ok_def Map_Capacity_def)
  then have "map_inv sse2 ?m" using ne by (simp add: map_inv_def)
  then have "\<exists>m'. rebuild_loop sse2 (hm_entries m) ?m = Some (Inr (), m') \<and> map_inv sse2 m' \<and> hm_entries m' = hm_entries m
    \<and> hm_danger m' = d \<and> length (hm_positions m) \<le> length (hm_positions m')"
    using rebuild_loop_ok [of sse2 ?m "hm_entries m"] ne d few inv by (simp add: map_inv_def)
  then show ?thesis using that by (auto simp: Map_Rebuild_def)
qed

lemma red_hash_mismatch:
  assumes tab: "table_inv (hf(length es := h)) m" and es: "hm_entries m = es @ [(key, val)]" and dst: "distinct (header_names es)"
    and hf: "\<And>e. e < length es \<Longrightarrow> hf e = Map_HashKey sse2 m (fst (es ! e))" and h: "h \<noteq> Map_HashKey sse2 m key"
  shows "Map_Find sse2 m key = Some (case header_pos key es of None \<Rightarrow> Map_End | Some i \<Rightarrow> ToReverseIterator i)"
proof -
  let ?hf = "hf(length es := h)" and ?h = "Map_HashKey sse2 m key"
  have match: "match_at ?hf (hm_entries m) ?h key i \<longleftrightarrow> header_pos key es = Some i" for i
  proof (cases "i < length es")
    case True
    have "StrIcaseEqual (fst (es ! i)) key \<Longrightarrow> hf i = ?h" using hf [OF True] HashKey_icase [of "fst (es ! i)" key sse2 m] by simp
    then show ?thesis using header_pos_iff [OF dst, of key i] True by (auto simp: match_at_def es nth_append)
  next
    case False
    then show ?thesis using header_pos_iff [OF dst, of key i] h by (auto simp: match_at_def es)
  qed
  have hi: "StrIcaseEqual (fst (hm_entries m ! entries_index p)) key" if "p \<in># occ (hm_positions m)" "0 = header_index p" for p
    using table_inv_facts(5) [OF tab] that GetHeaderIndexForInsertion_nonzero by (simp add: index_ok_def)
  obtain r where r: "DoFind m key ?h 0 = Some r" "case r of None \<Rightarrow> \<forall>i. \<not> match_at ?hf (hm_entries m) ?h key i
      | Some (s, i) \<Rightarrow> match_at ?hf (hm_entries m) ?h key i \<and> s < length (hm_positions m)
         \<and> IsSome (hm_positions m ! s) \<and> entries_index (hm_positions m ! s) = i"
    using DoFind_table [OF tab hi] by blast
  then show ?thesis by (cases r) (auto simp: Map_Find_def find_iter_def match split: option.splits)
qed

lemma red_insert:
  assumes inv: "map_inv sse2 m" and yellow: "IsYellow (hm_danger m)" and load: "\<not> load_factor_sane m"
    and hash: "Map_HashKey sse2 m key \<noteq> Map_HashKey sse2 (m\<lparr>hm_danger := ToRed keys (hm_danger m)\<rparr>) key"
  shows "\<exists>m'. Map_InsertOrModify sse2 keys key val action m = Some (Inr (ToReverseIterator (length (hm_entries m))), m')
    \<and> hm_entries m' = hm_entries m @ [(key, val)] \<and> Map_Find sse2 m' key = Map_Find sse2 m key"
proof -
  let ?es = "hm_entries m" and ?h = "Map_HashKey sse2 m key" and ?d = "ToRed keys (hm_danger m)"
  have tab: "table_inv (map_hash sse2 m) m" and ne: "hm_positions m \<noteq> []" and dst: "distinct (header_names ?es)"
    using inv yellow by (auto simp: map_inv_def split: if_splits)
  have few: "length ?es < UsableCapacity kMaxSize" "length ?es < Map_Capacity m"
    using load table_inv_facts(6,7) [OF tab] by (simp_all add: load_factor_sane_def Map_Capacity_def UsableCapacity_def kMaxSize_def)
  have red: "IsRed ?d" by (simp add: ToRed_def IsRed_def)
  obtain m1 where m1: "Map_Rebuild sse2 (m\<lparr>hm_danger := ?d\<rparr>) = Some (Inr (), m1)" "map_inv sse2 m1" "hm_entries m1 = ?es"
    "hm_danger m1 = ?d" "length (hm_positions m) \<le> length (hm_positions m1)"
    by (rule Map_Rebuild_ok [OF inv ne few(1) red])
  have tab1: "table_inv (map_hash sse2 m1) m1" using m1(2,5) ne by (auto simp: map_inv_def split: if_splits)
  have room: "length (hm_entries m1) < Map_Capacity m1"
    using few(2) UsableCapacity_mono [OF m1(5)] m1(3) by (simp add: Map_Capacity_def)
  have key: "Map_HashKey sse2 m1 key \<noteq> ?h" using hash HashKey_cong [of m1 "m\<lparr>hm_danger := ?d\<rparr>"] m1(4) by simp
  from insert_table [OF tab1 room] obtain idx dd m' where
    loop: "ProbeLoop (length (hm_positions m1)) (inserter key ?h val action) (DesiredPos (hm_mask m1) ?h) (0, m1) = Some (idx, dd, m')"
    and fin: "insert_done (map_hash sse2 m1) key ?h val action m1 (entries_index (hm_positions m' ! idx)) m'" by blast
  have "\<not> match_at (map_hash sse2 m1) ?es ?h key i" for i
    using key HashKey_icase [of "fst (?es ! i)" key sse2 m1] by (auto simp: match_at_def map_hash_def m1(3))
  then obtain q where e: "entries_index (hm_positions m' ! idx) = length ?es" and ins: "inserted (map_hash sse2 m1) key ?h val m1 q m'"
    using fin m1(3) by (auto simp: insert_done_def)
  have es': "hm_entries m' = ?es @ [(key, val)]" using ins m1(3) by (simp add: inserted_def)
  have "hm_danger m' = hm_danger m1" using ins m1(4) by (auto simp: inserted_def ToRed_def ToYellow_def)
  then have hk: "Map_HashKey sse2 m' = Map_HashKey sse2 m1" by (rule HashKey_cong)
  have "Map_Find sse2 m' key = Map_Find sse2 m key"
    using red_hash_mismatch [of "map_hash sse2 m1" ?es ?h m' key val sse2] ins es' dst key hk Map_Find_eq [OF inv, of key] m1(3)
    by (simp add: inserted_def map_hash_def)
  moreover have "ReserveOne sse2 keys m = Some (Inr (), m1)" using yellow load m1(1) by (simp add: ReserveOne_def)
  ultimately show ?thesis using loop e es'
    by (simp add: Map_InsertOrModify_def DoInsertOrModify_def DoInsertOrModify_with_def hbind_def)
qed

subsection \<open>Removal\<close>

lemma hole_cong:
  assumes "length ps' = length ps"
    and "\<And>i. i < length ps \<Longrightarrow> (IsNone (ps' ! i) \<longleftrightarrow> IsNone (ps ! i)) \<and> pos_hash (ps' ! i) = pos_hash (ps ! i)"
    and "0 < length ps"
  shows "hole ps' q = hole ps q"
proof -
  have "IsNone (slot ps' i) \<longleftrightarrow> IsNone (slot ps i)" "pos_hash (slot ps' i) = pos_hash (slot ps i)" for i
    using assms(2) [of "i mod length ps"] assms(1,3) by (simp_all add: slot_def)
  then show ?thesis by (simp add: hole_def rh_at_def dist_def assms(1))
qed

lemma fix_index_loop:
  assumes "0 < length ps" and "q < length ps" "IsSome (ps ! q)" "len \<le> entries_index (ps ! q)"
  obtains s where "s < length ps" "IsSome (ps ! s)" "len \<le> entries_index (ps ! s)"
    "ProbeLoop (length ps) (fix_index_body len index h) (h mod length ps) ps
      = Some (s, ps[s := make_Pos index h (header_index (ps ! s))])"
proof -
  let ?N = "length ps" and ?L = "pd (length ps) h q"
  let ?Inv = "\<lambda>(t :: nat) ps'. ps' = ps"
  let ?good = "\<lambda>s. IsSome (ps ! s) \<and> len \<le> entries_index (ps ! s)"
  let ?Q = "\<lambda>t ps'. ?good ((h + t) mod ?N) \<and> ps' = ps[(h + t) mod ?N := make_Pos index h (header_index (ps ! ((h + t) mod ?N)))]"
  have home: "(h + ?L) mod ?N = q" using pd_home [OF assms(1), of h q] assms(2) by simp
  have step: "\<exists>stop s'. fix_index_body len index h ((h + t) mod ?N) s = Some (stop, s') \<and> (if stop then ?Q t s' else t < ?L \<and> ?Inv (Suc t) s')"
    if "?Inv t s" "t \<le> ?L" for t s
  proof (cases "?good ((h + t) mod ?N)")
    case True
    then show ?thesis using that by (auto simp: fix_index_body_def)
  next
    case False
    then have "t \<noteq> ?L" using home assms(3,4) by auto
    then show ?thesis using that False by (auto simp: fix_index_body_def)
  qed
  have le: "h mod ?N \<le> ?N" using assms(1) mod_less_divisor less_imp_le by blast
  have start: "?Inv 0 ps" by simp
  obtain t s' where "ProbeLoop ?N (fix_index_body len index h) (h mod ?N) ps = Some ((h + t) mod ?N, s')" "?Q t s'"
    using ProbeLoop_inv [where body = "fix_index_body len index h", OF assms(1) le mod_mod_trivial start step] by blast
  moreover have "(h + t) mod ?N < ?N" using assms(1) by simp
  ultimately show ?thesis using that by blast
qed

text \<open>
  The table after the position of entry \<open>i\<close> has been cleared and the last entry has moved to
  \<open>i\<close>: indices and hashes are those of the new entries, and there is a hole at \<open>s\<close>.
\<close>

lemma index_ok_remove:
  assumes ok: "index_ok hf es ps" and s: "s < length ps" "IsSome (ps ! s)" "entries_index (ps ! s) = i"
  shows "image_mset entries_index (occ (ps[s := Pos_None])) = mset_set ({..<length es} - {i})"
    and "\<And>p. p \<in># occ (ps[s := Pos_None]) \<Longrightarrow> p \<in># occ ps"
proof -
  have occ: "occ (ps[s := Pos_None]) + {#ps ! s#} = occ ps" using occ_update [OF s(1), of Pos_None] s(2) by simp
  have "i < length es" using index_ok_less [OF ok, of "ps ! s"] s by (auto simp: in_occ)
  have "image_mset entries_index (occ (ps[s := Pos_None]) + {#ps ! s#}) = mset_set {..<length es}"
    unfolding occ using ok by (simp add: index_ok_def)
  also have "mset_set {..<length es} = add_mset i (mset_set ({..<length es} - {i}))"
    using \<open>i < length es\<close> by (simp add: mset_set.remove)
  finally show "image_mset entries_index (occ (ps[s := Pos_None])) = mset_set ({..<length es} - {i})" using s(3) by simp
  show "p \<in># occ ps" if "p \<in># occ (ps[s := Pos_None])" for p using that occ by (metis union_iff)
qed

lemma lessThan_remove_last: "0 < n \<Longrightarrow> {..<n} - {n - 1} = {..<n - 1 :: nat}"
  by (cases n) auto

lemma index_ok_moved:
  assumes ok: "index_ok hf es ps" and i: "Suc i < length es" "length es \<le> 24576"
    and rest: "image_mset entries_index (occ ps1) = mset_set ({..<length es} - {i})" "\<And>p. p \<in># occ ps1 \<Longrightarrow> p \<in># occ ps"
    and s: "s < length ps1" "IsSome (ps1 ! s)" "length es - 1 \<le> entries_index (ps1 ! s)"
  defines "x \<equiv> make_Pos i (hf (length es - 1)) (header_index (ps1 ! s))" and "es' \<equiv> butlast (es[i := last es])"
  shows "index_ok (hf(i := hf (length es - 1))) es' (ps1[s := x])" and "pos_hash (ps1 ! s) = hf (length es - 1)"
proof -
  let ?n = "length es" and ?hf = "hf(i := hf (length es - 1))"
  have in1: "ps1 ! s \<in># occ ps1" using s by (auto simp: in_occ)
  have last: "entries_index (ps1 ! s) = ?n - 1" using s(3) index_ok_less [OF ok rest(2) [OF in1]] by simp
  have at: "pos_hash (ps1 ! s) = hf (?n - 1)" "header_index (ps1 ! s) = GetHeaderIndexForInsertion (fst (es ! (?n - 1)))"
    using ok rest(2) [OF in1] last by (simp_all add: index_ok_def)
  show "pos_hash (ps1 ! s) = hf (?n - 1)" by (rule at(1))
  have x: "IsSome x" "entries_index x = i" "pos_hash x = hf (?n - 1)" "header_index x = header_index (ps1 ! s)"
    using make_Pos_new [of i] i by (simp_all add: x_def make_Pos_def)
  obtain R where R: "occ ps1 = add_mset (ps1 ! s) R" using in1 by (metis insert_DiffM)
  have occ: "occ (ps1[s := x]) = add_mset x R" using occ_update [OF s(1), of x] s(2) x(1) R by simp
  have "?n - 1 \<in> {..<?n} - {i}" using i by auto
  then have "mset_set ({..<?n} - {i}) = add_mset (?n - 1) (mset_set ({..<?n} - {i} - {?n - 1}))" by (simp add: mset_set.remove)
  moreover have "{..<?n} - {i} - {?n - 1} = {..<?n - 1} - {i}" using i by auto
  ultimately have img: "image_mset entries_index R = mset_set ({..<?n - 1} - {i})" using rest(1) R last by simp
  have "i \<in> {..<?n - 1}" using i by simp
  then have "image_mset entries_index (occ (ps1[s := x])) = mset_set {..<length es'}"
    using occ img x(2) by (simp add: es'_def mset_set.remove)
  moreover have "pos_hash p = ?hf (entries_index p) \<and> header_index p = GetHeaderIndexForInsertion (fst (es' ! entries_index p))"
    if p: "p \<in># occ (ps1[s := x])" for p
  proof (cases "p = x")
    case True
    have "es \<noteq> []" using i by auto
    then show ?thesis using True x at i by (simp add: es'_def nth_butlast last_conv_nth)
  next
    case False
    then have pR: "p \<in># R" using p occ by simp
    then have "entries_index p \<in># image_mset entries_index R" by simp
    then have e: "entries_index p < ?n - 1" "entries_index p \<noteq> i" using img by simp_all
    have "p \<in># occ ps" using pR R rest(2) by simp
    then have "pos_hash p = hf (entries_index p)" "header_index p = GetHeaderIndexForInsertion (fst (es ! entries_index p))"
      using ok by (simp_all add: index_ok_def)
    then show ?thesis using e by (simp add: es'_def nth_butlast)
  qed
  ultimately show "index_ok ?hf es' (ps1[s := x])" by (simp add: index_ok_def)
qed

definition erase_entries :: "nat \<Rightarrow> headers \<Rightarrow> headers" where
  "erase_entries i es = butlast (if i + 1 \<noteq> length es then es[i := last es] else es)"

lemma erase_indices:
  assumes tab: "table_inv (map_hash sse2 m) m"
    and s: "s < length (hm_positions m)" "IsSome (hm_positions m ! s)" "entries_index (hm_positions m ! s) = i"
  defines "es \<equiv> erase_entries i (hm_entries m)" and "ps \<equiv> (hm_positions m)[s := Pos_None]"
  obtains ps' where "(if i < length es then
      map_option snd (ProbeLoop (length (hm_positions m)) (fix_index_body (length es) i (Map_HashKey sse2 m (fst (es ! i))))
        (DesiredPos (hm_mask m) (Map_HashKey sse2 m (fst (es ! i)))) ps) else Some ps) = Some ps'"
    "length ps' = length (hm_positions m)" "hole ps' s" "index_ok (\<lambda>e. Map_HashKey sse2 m (fst (es ! e))) es ps'"
    "\<forall>z<length (hm_positions m). z \<noteq> s \<longrightarrow> IsNone (hm_positions m ! z) \<longrightarrow> IsNone (ps' ! z)"
proof -
  let ?ps = "hm_positions m" and ?es = "hm_entries m" and ?n = "length (hm_entries m)" and ?hf = "map_hash sse2 m"
  note f = table_inv_facts [OF tab]
  have i: "i < ?n" using index_ok_less [OF f(5), of "?ps ! s"] s by (auto simp: in_occ)
  have hole: "hole ps s" using make_hole [OF _ f(3), of s] f(6) s(1) by (simp add: ps_def)
  have rest: "image_mset entries_index (occ ps) = mset_set ({..<?n} - {i})" "\<And>p. p \<in># occ ps \<Longrightarrow> p \<in># occ ?ps"
    using index_ok_remove [OF f(5) s] by (simp_all add: ps_def)
  have len: "length es = ?n - 1" by (simp add: es_def erase_entries_def)
  show ?thesis
  proof (cases "i < length es")
    case False
    then have last: "i = ?n - 1" "Suc i = ?n" using i len by simp_all
    then have es: "es = butlast ?es" by (simp add: es_def erase_entries_def)
    have "{..<?n} - {i} = {..<?n - 1}" using last by auto
    then have img: "image_mset entries_index (occ ps) = mset_set {..<length es}" using rest(1) es by simp
    have "index_ok (\<lambda>e. Map_HashKey sse2 m (fst (es ! e))) es ps"
      unfolding index_ok_def
    proof (intro conjI ballI)
      fix p assume p: "p \<in># occ ps"
      then have "entries_index p \<in># image_mset entries_index (occ ps)" by simp
      then have "entries_index p < length es" using img by simp
      moreover from this have "es ! entries_index p = ?es ! entries_index p" by (simp add: es nth_butlast)
      ultimately show "pos_hash p = Map_HashKey sse2 m (fst (es ! entries_index p))"
        "header_index p = GetHeaderIndexForInsertion (fst (es ! entries_index p))"
        using f(5) rest(2) [OF p] by (simp_all add: index_ok_def map_hash_def)
    qed (rule img)
    then show ?thesis using that [of ps] False hole by (auto simp: ps_def nth_list_update)
  next
    case True
    then have i': "Suc i < ?n" "?n \<le> 24576" using len f(4) capacity_bound [OF tab] by simp_all
    then have es: "es = butlast (?es[i := last ?es])" by (simp add: es_def erase_entries_def)
    have "es ! i = last ?es" using i' by (simp add: es nth_butlast)
    moreover have "last ?es = ?es ! (?n - 1)" using i' by (intro last_conv_nth) auto
    ultimately have hash: "Map_HashKey sse2 m (fst (es ! i)) = ?hf (?n - 1)" by (simp add: map_hash_def)
    have "?n - 1 \<in># image_mset entries_index (occ ps)" using rest(1) i' by auto
    then obtain q where q: "q < length ps" "IsSome (ps ! q)" "entries_index (ps ! q) = ?n - 1" by (auto simp: in_occ)
    have psN: "length ps = length ?ps" by (simp add: ps_def)
    obtain r where r: "r < length ps" "IsSome (ps ! r)" "length es \<le> entries_index (ps ! r)"
      and loop: "ProbeLoop (length ps) (fix_index_body (length es) i (?hf (?n - 1))) (?hf (?n - 1) mod length ps) ps
        = Some (r, ps[r := make_Pos i (?hf (?n - 1)) (header_index (ps ! r))])"
      using fix_index_loop [of ps q "length es" i "?hf (?n - 1)"] q f(8) psN len by auto
    let ?x = "make_Pos i (?hf (?n - 1)) (header_index (ps ! r))" and ?ps' = "ps[r := make_Pos i (?hf (?n - 1)) (header_index (ps ! r))]"
    note moved = index_ok_moved [OF f(5) i' rest r(1,2)]
    have ok: "index_ok (?hf(i := ?hf (?n - 1))) es ?ps'" and ph: "pos_hash (ps ! r) = ?hf (?n - 1)"
      using moved r(3) len es by simp_all
    have "index_ok (\<lambda>e. Map_HashKey sse2 m (fst (es ! e))) es ?ps' \<longleftrightarrow> index_ok (?hf(i := ?hf (?n - 1))) es ?ps'"
      using hash by (intro index_ok_cong) (auto simp: map_hash_def es nth_butlast nth_list_update)
    moreover have x: "IsSome ?x" "pos_hash ?x = ?hf (?n - 1)" using make_Pos_new [of i] i' by simp_all
    have "hole ?ps' s = hole ps s"
    proof (rule hole_cong)
      fix j assume "j < length ps"
      then show "IsNone (?ps' ! j) = IsNone (ps ! j) \<and> pos_hash (?ps' ! j) = pos_hash (ps ! j)"
        using x r(2) ph by (cases "j = r") simp_all
    qed (use f(8) psN in simp_all)
    moreover have "IsNone (?ps' ! z)" if "z < length ?ps" "z \<noteq> s" "IsNone (?ps ! z)" for z
      using that r(2) by (cases "z = r") (simp_all add: ps_def nth_list_update)
    ultimately show ?thesis
      using that [of ?ps'] True hash loop psN ok hole table_size_desired [OF f(1)] f(2) by simp
  qed
qed

lemma RH_empty: "occ ps = {#} \<Longrightarrow> 0 < length ps \<Longrightarrow> RH ps"
  using slot_in_occ [of ps] by (auto simp: RH_def rh_at_def)

lemma DoErase_found:
  assumes inv: "map_inv sse2 m" and find: "DoFind m key h 0 = Some (Some (s, i))" and ne: "hm_positions m \<noteq> []"
    and s: "s < length (hm_positions m)" "IsSome (hm_positions m ! s)" "entries_index (hm_positions m ! s) = i"
  obtains it m' where "DoErase sse2 key h m = Some (it, m')" "hm_entries m' = erase_entries i (hm_entries m)"
    "hm_danger m' = hm_danger m" "table_inv (map_hash sse2 m') m'"
    "it = (if i < length (hm_entries m') then ToReverseIterator i else Map_Begin m')"
proof -
  let ?es = "erase_entries i (hm_entries m)" and ?N = "length (hm_positions m)"
  have tab: "table_inv (map_hash sse2 m) m" using inv ne by (simp add: map_inv_def)
  note f = table_inv_facts [OF tab]
  obtain ps where fix_idx: "(if i < length ?es then
      map_option snd (ProbeLoop ?N (fix_index_body (length ?es) i (Map_HashKey sse2 m (fst (?es ! i))))
        (DesiredPos (hm_mask m) (Map_HashKey sse2 m (fst (?es ! i)))) ((hm_positions m)[s := Pos_None])) else Some ((hm_positions m)[s := Pos_None])) = Some ps"
    and ps: "length ps = ?N" "hole ps s" "index_ok (\<lambda>e. Map_HashKey sse2 m (fst (?es ! e))) ?es ps"
      "\<forall>z<?N. z \<noteq> s \<longrightarrow> IsNone (hm_positions m ! z) \<longrightarrow> IsNone (ps ! z)"
    by (rule erase_indices [OF tab s])
  obtain ps' where shift: "(if ?es \<noteq> [] then map_option (\<lambda>(_, _, ps). ps)
        (ProbeLoop ?N (backward_shift_body (hm_mask m)) (s + 1) (s, ps)) else Some ps) = Some ps'"
    and ps': "length ps' = ?N" "RH ps'" "occ ps' = occ ps"
  proof (cases "?es = []")
    case True
    then have "occ ps = {#}" using ps(3) by (simp add: index_ok_def)
    moreover have "0 < length ps" using f(8) ps(1) by simp
    ultimately show ?thesis using that [of ps] True ps(1) RH_empty [of ps] by simp
  next
    case False
    obtain z where z: "z < ?N" "IsNone (hm_positions m ! z)" by (rule table_inv_None [OF tab])
    have zs: "z \<noteq> s" using z s by auto
    obtain k where k: "?N = 2 ^ k" "k \<le> 15" using f(1) by (auto simp: table_size_def)
    obtain idx l ps' where "ProbeLoop (length ps) (backward_shift_body (length ps - 1)) (s + 1) (s, ps) = Some (idx, l, ps')"
      "length ps' = length ps" "RH ps'" "occ ps' = occ ps"
      using backward_shift_loop [of ps k s z] ps(1,2) ps(4) z zs k f(6) s(1) by auto
    then show ?thesis using that [of ps'] False ps(1) f(2) by simp
  qed
  let ?m = "m\<lparr>hm_positions := ps', hm_entries := ?es\<rparr>"
  let ?it = "if i < length ?es then ToReverseIterator i else Map_Begin ?m"
  have run: "DoErase sse2 key h m = Some (?it, ?m)"
    by (simp only: DoErase_def find bind.bind_lunit option.case prod.case Let_def erase_entries_def [symmetric] fix_idx shift)
  have cap: "length ?es \<le> Map_Capacity ?m" using f(4) ps'(1) by (auto simp: erase_entries_def Map_Capacity_def)
  have idx: "index_ok (map_hash sse2 ?m) ?es ps'"
    using ps(3) ps'(3) HashKey_cong [of ?m m sse2] by (simp add: index_ok_def map_hash_def)
  have "table_inv (map_hash sse2 ?m) ?m"
    unfolding table_inv_def using f(1,2) ps'(1,2) cap idx by simp
  then show ?thesis by (intro that [OF run]) simp_all
qed

lemma headers_erase_eq: "headers_erase key es = (case header_pos key es of None \<Rightarrow> es | Some i \<Rightarrow> erase_entries i es)"
  by (auto simp: headers_erase_def erase_entries_def split: option.splits)

lemma erase_entries_names:
  assumes "distinct (header_names es)" and "i < length es"
  shows "distinct (header_names (erase_entries i es))"
proof -
  let ?g = "\<lambda>e. if e = i then length es - 1 else e" and ?ns = "header_names es"
  have "es \<noteq> []" using assms(2) by auto
  then have nth: "header_names (erase_entries i es) ! e = ?ns ! ?g e" if "e < length es - 1" for e
    using that assms(2) by (auto simp: header_names_def erase_entries_def nth_butlast nth_list_update last_conv_nth)
  have len: "length (header_names (erase_entries i es)) = length es - 1" by (simp add: header_names_def erase_entries_def)
  have "?ns ! ?g a \<noteq> ?ns ! ?g b" if "a < length es - 1" "b < length es - 1" "a \<noteq> b" for a b
  proof -
    have "?g a < length ?ns" "?g b < length ?ns" "?g a \<noteq> ?g b" using that assms(2) by (auto simp: header_names_def)
    then show ?thesis using nth_eq_iff_index_eq [OF assms(1), of "?g a" "?g b"] by blast
  qed
  then show ?thesis using nth len by (simp add: distinct_conv_nth)
qed

lemma Map_Erase_ok:
  assumes inv: "map_inv sse2 m"
  obtains it m' where "Map_Erase sse2 key m = Some (it, m')" "hm_entries m' = headers_erase key (hm_entries m)" "map_inv sse2 m'"
    "it = (case header_pos key (hm_entries m) of
             None \<Rightarrow> Map_End
           | Some i \<Rightarrow> if i < length (hm_entries m') then ToReverseIterator i else Map_Begin m')"
proof (cases "hm_positions m = []")
  case True
  then show ?thesis using that [of Map_End m] inv
    by (simp add: map_inv_def Map_Erase_def DoErase_def DoFind_def headers_erase_def header_pos_def)
next
  case False
  obtain r where r: "DoFind m key (Map_HashKey sse2 m key) 0 = Some r" "map_option snd r = header_pos key (hm_entries m)"
    and s: "\<And>s i. r = Some (s, i) \<Longrightarrow> s < length (hm_positions m) \<and> IsSome (hm_positions m ! s) \<and> entries_index (hm_positions m ! s) = i"
    using DoFind_map [OF inv False zero_hindex] by blast
  show ?thesis
  proof (cases r)
    case None
    then show ?thesis using that [of Map_End m] r inv by (simp add: Map_Erase_def DoErase_def headers_erase_def)
  next
    case (Some p)
    obtain s i where p: "p = (s, i)" by (cases p)
    have hp: "header_pos key (hm_entries m) = Some i" using r(2) Some p by simp
    have find: "DoFind m key (Map_HashKey sse2 m key) 0 = Some (Some (s, i))" using r(1) Some p by simp
    have sl: "s < length (hm_positions m)" "IsSome (hm_positions m ! s)" "entries_index (hm_positions m ! s) = i"
      using s Some p by simp_all
    obtain it m' where m': "DoErase sse2 key (Map_HashKey sse2 m key) m = Some (it, m')" "hm_entries m' = erase_entries i (hm_entries m)"
      "hm_danger m' = hm_danger m" "table_inv (map_hash sse2 m') m'"
      "it = (if i < length (hm_entries m') then ToReverseIterator i else Map_Begin m')"
      by (rule DoErase_found [OF inv find False sl])
    have "distinct (header_names (hm_entries m'))"
      using erase_entries_names [of "hm_entries m" i] inv header_pos_Some_less [OF hp] m'(2) by (simp add: map_inv_def)
    then have "map_inv sse2 m'" using m'(4) table_inv_facts(9) [OF m'(4)] by (simp add: map_inv_def)
    then show ?thesis using that [of it m'] m' hp by (simp add: Map_Erase_def headers_erase_eq)
  qed
qed

lemma Map_Clear_inv: "map_inv sse2 m \<Longrightarrow> map_inv sse2 (Map_Clear m)"
  by (auto simp: map_inv_def Map_Clear_def table_inv_def index_ok_def initial_Danger_def IsYellow_def Map_Capacity_def)

lemma initial_HMap_inv: "map_inv sse2 initial_HMap"
  by (simp add: map_inv_def initial_HMap_def initial_Danger_def IsYellow_def)

subsection \<open>What a header map promises\<close>

text \<open>
  The interface that \<open>HttpRequest\<close> and \<open>HttpResponse\<close> rely on: search, insertion and removal act
  on the entries as the list operations of \<open>Http_Response\<close> do.  Under these laws a whole
  sequence of operations does.
\<close>

datatype header_op = OpInsert InsertOrModifyOccupiedAction string string | OpErase string

fun list_run :: "header_op list \<Rightarrow> headers \<Rightarrow> headers result" where
  "list_run [] hs = Inr hs"
| "list_run (OpInsert action key val # ops) hs = rbind (InsertOrModify (occupied_value action) key val hs) (list_run ops)"
| "list_run (OpErase key # ops) hs = list_run ops (headers_erase key hs)"

type_synonym 'm ins_fun = "InsertOrModifyOccupiedAction \<Rightarrow> string \<Rightarrow> string \<Rightarrow> 'm \<Rightarrow> ((exn + iter) \<times> 'm) option"
type_synonym 'm ers_fun = "string \<Rightarrow> 'm \<Rightarrow> (iter \<times> 'm) option"

fun op_step :: "'m ins_fun \<Rightarrow> 'm ers_fun \<Rightarrow> header_op \<Rightarrow> 'm \<Rightarrow> ((exn + iter) \<times> 'm) option" where
  "op_step ins ers (OpInsert action key val) m = ins action key val m"
| "op_step ins ers (OpErase key) m = map_option (\<lambda>(it, m'). (Inr it, m')) (ers key m)"

fun impl_run :: "'m ins_fun \<Rightarrow> 'm ers_fun \<Rightarrow> header_op list \<Rightarrow> 'm \<Rightarrow> ((exn + unit) \<times> 'm) option" where
  "impl_run ins ers [] m = Some (Inr (), m)"
| "impl_run ins ers (oper # ops) m =
     (case op_step ins ers oper m of
        None \<Rightarrow> None
      | Some (Inl e, m') \<Rightarrow> Some (Inl e, m')
      | Some (Inr _, m') \<Rightarrow> impl_run ins ers ops m')"

fun quiet_run :: "('m \<Rightarrow> bool) \<Rightarrow> 'm ins_fun \<Rightarrow> 'm ers_fun \<Rightarrow> header_op list \<Rightarrow> 'm \<Rightarrow> bool" where
  "quiet_run quiet ins ers [] m \<longleftrightarrow> True"
| "quiet_run quiet ins ers (oper # ops) m \<longleftrightarrow>
     quiet m \<and> (case op_step ins ers oper m of Some (Inr _, m') \<Rightarrow> quiet_run quiet ins ers ops m' | _ \<Rightarrow> True)"

locale header_store =
  fixes inv quiet :: "'m \<Rightarrow> bool" and entries :: "'m \<Rightarrow> headers"
    and ins :: "'m ins_fun" and ers :: "'m ers_fun" and look :: "'m \<Rightarrow> string \<Rightarrow> iter option"
  assumes insert_law: "inv m \<Longrightarrow> quiet m \<Longrightarrow>
      (case InsertOrModify (occupied_value action) key val (entries m) of
         Inl e \<Rightarrow> ins action key val m = Some (Inl e, m)
       | Inr es \<Rightarrow> \<exists>i m'. ins action key val m = Some (Inr (ToReverseIterator i), m') \<and> entries m' = es \<and> inv m'
           \<and> header_pos key es = Some i)"
    and erase_law: "inv m \<Longrightarrow> \<exists>it m'. ers key m = Some (it, m') \<and> entries m' = headers_erase key (entries m) \<and> inv m'"
    and look_law: "inv m \<Longrightarrow>
      look m key = Some (case header_pos key (entries m) of None \<Rightarrow> Map_End | Some i \<Rightarrow> ToReverseIterator i)"
begin

lemma look_insert:
  assumes "inv m" and "quiet m" and "ins action key val m = Some (Inr it, m')"
  shows "look m' key = Some it"
proof (cases "InsertOrModify (occupied_value action) key val (entries m)")
  case (Inl e)
  then show ?thesis using insert_law [OF assms(1,2), of action key val] assms(3) by simp
next
  case (Inr es)
  then show ?thesis using insert_law [OF assms(1,2), of action key val] assms(3) look_law [of m' key] by auto
qed

lemma run_refines:
  "inv m \<Longrightarrow> quiet_run quiet ins ers ops m \<Longrightarrow>
    (case list_run ops (entries m) of
       Inl e \<Rightarrow> \<exists>m'. impl_run ins ers ops m = Some (Inl e, m') \<and> inv m'
     | Inr es \<Rightarrow> \<exists>m'. impl_run ins ers ops m = Some (Inr (), m') \<and> entries m' = es \<and> inv m')"
proof (induction ops arbitrary: m)
  case Nil
  then show ?case by simp
next
  case (Cons oper ops)
  show ?case
  proof (cases oper)
    case (OpInsert action key val)
    note law = insert_law [OF Cons.prems(1), of action key val]
    have quiet: "quiet m" using Cons.prems(2) by simp
    show ?thesis
    proof (cases "InsertOrModify (occupied_value action) key val (entries m)")
      case (Inl e)
      then show ?thesis using law quiet OpInsert Cons.prems(1) by simp
    next
      case (Inr es)
      then obtain i m' where m': "ins action key val m = Some (Inr (ToReverseIterator i), m')" "entries m' = es" "inv m'"
        using law quiet by auto
      then have q: "quiet_run quiet ins ers ops m'" using Cons.prems(2) OpInsert by simp
      have eqs: "list_run (oper # ops) (entries m) = list_run ops (entries m')" "impl_run ins ers (oper # ops) m = impl_run ins ers ops m'"
        using m' Inr OpInsert by simp_all
      show ?thesis unfolding eqs by (rule Cons.IH [OF m'(3) q])
    qed
  next
    case (OpErase key)
    obtain it m' where m': "ers key m = Some (it, m')" "entries m' = headers_erase key (entries m)" "inv m'"
      using erase_law [OF Cons.prems(1)] by blast
    then have q: "quiet_run quiet ins ers ops m'" using Cons.prems(2) OpErase by simp
    have eqs: "list_run (oper # ops) (entries m) = list_run ops (entries m')" "impl_run ins ers (oper # ops) m = impl_run ins ers ops m'"
      using m' OpErase by simp_all
    show ?thesis unfolding eqs by (rule Cons.IH [OF m'(3) q])
  qed
qed

end

abbreviation map_ins :: "bool \<Rightarrow> u64 \<times> u64 \<Rightarrow> HMap ins_fun" where
  "map_ins sse2 keys \<equiv> \<lambda>action key val. Map_InsertOrModify sse2 keys key val action"

lemma Map_InsertOrModify_refines:
  assumes "map_inv sse2 m" and "calm m"
  shows "case InsertOrModify (occupied_value action) key val (hm_entries m) of
      Inl e \<Rightarrow> Map_InsertOrModify sse2 keys key val action m = Some (Inl e, m)
    | Inr es \<Rightarrow> \<exists>i m'. Map_InsertOrModify sse2 keys key val action m = Some (Inr (ToReverseIterator i), m')
        \<and> hm_entries m' = es \<and> map_inv sse2 m' \<and> header_pos key es = Some i"
proof (cases "length (hm_entries m) = UsableCapacity kMaxSize")
  case True
  then show ?thesis using calm_full [OF assms] by (simp add: InsertOrModify_def)
next
  case False
  show ?thesis by (rule Map_InsertOrModify_ok [OF assms False, of keys key val action]) auto
qed

interpretation hmap: header_store "map_inv sse2" calm hm_entries "map_ins sse2 keys" "Map_Erase sse2" "Map_Find sse2"
proof
  fix m key
  assume inv: "map_inv sse2 m"
  show "\<exists>it m'. Map_Erase sse2 key m = Some (it, m') \<and> hm_entries m' = headers_erase key (hm_entries m) \<and> map_inv sse2 m'"
    by (rule Map_Erase_ok [OF inv, of key]) blast
qed (rule Map_InsertOrModify_refines Map_Find_eq; assumption)+

subsection \<open>Output, comparison and \<open>emplace\<close>\<close>

lemma Map_OutputInHttpFormat_eq: "Map_OutputInHttpFormat m buffer = buffer @ OutputInHttpFormat (hm_entries m)"
proof -
  have "fold (\<lambda>entry buffer. buffer @ fst entry @ '': '' @ snd entry @ kCrlf) es b = b @ OutputInHttpFormat es" for es b
    by (induction es arbitrary: b) (simp_all add: OutputInHttpFormat_def OutputHeader_def)
  then show ?thesis by (simp add: Map_OutputInHttpFormat_def)
qed

lemma Map_equal_iff:
  assumes "map_inv sse2 other"
  shows "Map_equal sse2 m other = Some (length (hm_entries m) = length (hm_entries other)
    \<and> (\<forall>(name, val)\<in>set (hm_entries m). \<exists>val'. headers_find name (hm_entries other) = Some val' \<and> StrIcaseEqual val' val))"
proof -
  have "map_equal_loop sse2 es other =
      Some (\<forall>(name, val)\<in>set es. \<exists>val'. headers_find name (hm_entries other) = Some val' \<and> StrIcaseEqual val' val)" for es
    by (induction es)
      (auto simp: Map_Find_eq [OF assms] headers_find_def iter_deref_def Map_End_def ToReverseIterator_def split: option.splits)
  then show ?thesis by (auto simp: Map_equal_def Map_Size_def)
qed

text \<open>\<open>Emplace\<close> leaves a present header alone unless its value is empty.\<close>

lemma Emplace_present:
  assumes "map_inv sse2 m" and "calm m" and "length (hm_entries m) \<noteq> UsableCapacity kMaxSize"
    and pos: "header_pos key (hm_entries m) = Some i"
  shows "\<exists>m'. HeaderMap_Emplace sse2 keys key arg m = Some (Inr (), m') \<and> hm_entries m' =
    (if snd (hm_entries m ! i) = [] then (hm_entries m)[i := (fst (hm_entries m ! i), arg)] else hm_entries m)"
proof -
  obtain e m' es where m': "Map_InsertOrModify sse2 keys key [] kNoop m = Some (Inr (ToReverseIterator e), m')"
    "InsertOrModify (occupied_value kNoop) key [] (hm_entries m) = Inr es" "hm_entries m' = es" "map_inv sse2 m'" "header_pos key es = Some e"
    by (rule Map_InsertOrModify_ok [OF assms(1,2,3)])
  have "es = hm_entries m" using m'(2) pos assms(3) header_pos_Some_less [OF pos] by (simp add: InsertOrModify_def)
  then show ?thesis using m' pos
    by (auto simp: HeaderMap_Emplace_def HeaderMap_subscript_def hbind_def iter_deref_def ToReverseIterator_def)
qed

subsection \<open>Sample maps\<close>

text \<open>A map with one header, and an empty map that a flood of colliding names left yellow.\<close>

definition sample_map :: HMap where
  "sample_map = (case Map_InsertOrModify False (1, 2) ''Host'' ''h'' kReplace initial_HMap of Some (_, m) \<Rightarrow> m | None \<Rightarrow> initial_HMap)"

lemma initial_HMap_calm: "calm initial_HMap"
  by (simp add: calm_def initial_HMap_def initial_Danger_def IsYellow_def)

lemma sample_map_facts: "map_inv False sample_map" "hm_entries sample_map = [(''Host'', ''h'')]"
  using Map_InsertOrModify_refines [where action = kReplace and key = "''Host''" and val = "''h''" and keys = "(1, 2)", OF initial_HMap_inv [of False] initial_HMap_calm]
  by (auto simp: sample_map_def InsertOrModify_def initial_HMap_def header_pos_def UsableCapacity_def kMaxSize_def)

lemma sample_positions:
  "header_pos ''HOST'' [(''Host'', ''h'')] = Some 0"
  "header_pos ''host'' [(''Host'', ''h'')] = Some 0"
  "header_pos ''Cookie'' [(''Host'', ''h'')] = None"
  by code_simp+

definition yellow_map :: HMap where
  "yellow_map = \<lparr>hm_mask = 31, hm_positions = replicate 32 Pos_None, hm_entries = [],
     hm_danger = \<lparr>danger_state = kYellow, danger_k0 = 0, danger_k1 = 0\<rparr>\<rparr>"

lemma yellow_map_facts: "map_inv False yellow_map" "IsYellow (hm_danger yellow_map)" "\<not> load_factor_sane yellow_map"
  "hm_entries yellow_map = []"
proof -
  have "table_size 32" unfolding table_size_def by (intro exI [of _ 5]) simp
  then show "map_inv False yellow_map"
    by (simp add: yellow_map_def map_inv_def table_inv_def index_ok_def)
qed (simp_all add: yellow_map_def IsYellow_def load_factor_sane_def)

lemma sip_rounds_a:
  "sip_round \<lparr>v0 = 0x736f6d6570736574, v1 = 0x646f72616e646f6f, v2 = 0x6c7967656e657260, v3 = 0x7565646279746510\<rparr>
    = \<lparr>v0 = 0x649487975aa881db, v1 = 0xff651ba64bc87cfb, v2 = 0x3b140fde1b71bdd2, v3 = 0x32e4dea31818364d\<rparr>"
  "sip_round \<lparr>v0 = 0x659487975aa881ba, v1 = 0xff651ba64bc87cfb, v2 = 0x3b140fde1b71bd2d, v3 = 0x32e4dea31818364d\<rparr>
    = \<lparr>v0 = 0x59ccf54e6abe64db, v1 = 0xe10f0b1adfcafbc9, v2 = 0xdd7974d3358658c5, v3 = 0x8aec4dd659680fa5\<rparr>"
  "sip_round \<lparr>v0 = 0x59ccf54e6abe64db, v1 = 0xe10f0b1adfcafbc9, v2 = 0xdd7974d3358658c5, v3 = 0x8aec4dd659680fa5\<rparr>
    = \<lparr>v0 = 0x703cfc65bc27e2ef, v1 = 0xf30535d91dd57391, v2 = 0xa4dec4ef44251e39, v3 = 0x80cd519ece3549c\<rparr>"
  "sip_round \<lparr>v0 = 0x703cfc65bc27e2ef, v1 = 0xf30535d91dd57391, v2 = 0xa4dec4ef44251e39, v3 = 0x80cd519ece3549c\<rparr>
    = \<lparr>v0 = 0x53efcd6ac8d6ad17, v1 = 0x51ec449379565047, v2 = 0xa897dbb572e4ab8d, v3 = 0x8ea37fe593f99359\<rparr>"
  by code_simp+

lemma yellow_map_hashes:
  "Map_HashKey False yellow_map ''a'' = 20275"
  "Map_HashKey False (yellow_map\<lparr>hm_danger := ToRed (1, 2) (hm_danger yellow_map)\<rparr>) ''a'' = 17796"
proof -
  show "Map_HashKey False yellow_map ''a'' = 20275"
    by (simp add: yellow_map_def Map_HashKey_def Danger_HashKey_def IsRed_def UnsafeConstexprHasher_def murmur_loop.simps
        murmur_mul_def LoadN_def bytes_of_def u8_of_def kDeliberatelyBrokenLowercaseMask_def ShiftMix_def MaskHash_def kMaxSize_def)
  have "MaskHash (StrIcaseHash False (1, 2) ''a'') = 17796"
    by (simp add: StrIcaseHash_def SipHash_lowercase sip_by_blocks_def sip_blocks.simps bytes_of_def u8_of_def to_lower_def
        sip_init_def data_round_def finalize_def sip_rounds_a sip_result_def MaskHash_def kMaxSize_def)
  then show "Map_HashKey False (yellow_map\<lparr>hm_danger := ToRed (1, 2) (hm_danger yellow_map)\<rparr>) ''a'' = 17796"
    by (simp add: yellow_map_def Map_HashKey_def Danger_HashKey_def IsRed_def ToRed_def SafeHash_def)
qed

subsection \<open>Properties of the header map\<close>

text \<open>
  (C10) The map finds what it holds: on every map that satisfies the invariant the probe loop ends,
  by itself and not by exhausting the table, and the iterator it returns points to the entry
  whose name equals the key up to case, or is \<open>end()\<close> when there is none.  Searching with a
  \<open>PredefinedHeader\<close>, which may compare header numbers instead of names, gives the same.
\<close>

theorem header_map_lookup:
  assumes "map_inv sse2 m"
  shows "Map_Find sse2 m key = Some (case header_pos key (hm_entries m) of None \<Rightarrow> Map_End | Some i \<Rightarrow> ToReverseIterator i)
     \<and> Map_Find_predefined sse2 m (make_PredefinedHeader key) = Map_Find sse2 m key"
  using Map_Find_eq [OF assms] Map_Find_predefined_eq [OF assms] by simp

theorem header_map_lookup_witness:
  "Map_Find False sample_map ''HOST'' = Some 1 \<and> Map_Find_predefined False sample_map (make_PredefinedHeader ''Cookie'') = Some 0"
  using header_map_lookup [OF sample_map_facts(1), of "''HOST''"] header_map_lookup [OF sample_map_facts(1), of "''Cookie''"]
  by (simp add: sample_map_facts sample_positions Map_End_def ToReverseIterator_def)

text \<open>
  (C9) Insertion implements the list operation.  On a map that satisfies the invariant and is not
  about to change its hash function, \<open>InsertOrModify\<close> ends: it throws exactly when the list
  operation does and then leaves the map alone, and otherwise the entries are those of the list
  operation, the invariant holds again (growth, Robin Hood displacement and all), and the
  returned iterator is where the key is found afterwards.
\<close>

theorem header_map_insert:
  assumes "map_inv sse2 m" and "calm m"
  shows "case InsertOrModify (occupied_value action) key val (hm_entries m) of
      Inl e \<Rightarrow> Map_InsertOrModify sse2 keys key val action m = Some (Inl e, m)
    | Inr es \<Rightarrow> \<exists>it m'. Map_InsertOrModify sse2 keys key val action m = Some (Inr it, m')
        \<and> hm_entries m' = es \<and> map_inv sse2 m' \<and> Map_Find sse2 m' key = Some it"
proof (cases "InsertOrModify (occupied_value action) key val (hm_entries m)")
  case (Inl e)
  then show ?thesis using Map_InsertOrModify_refines [where action = action and key = key and val = val and keys = keys, OF assms] by simp
next
  case (Inr es)
  then obtain i m' where "Map_InsertOrModify sse2 keys key val action m = Some (Inr (ToReverseIterator i), m')"
    "hm_entries m' = es" "map_inv sse2 m'"
    using Map_InsertOrModify_refines [where action = action and key = key and val = val and keys = keys, OF assms] by auto
  then show ?thesis using Inr hmap.look_insert [where action = action and key = key and val = val and keys = keys, OF assms] by auto
qed

theorem header_map_insert_witness:
  "\<exists>it m'. Map_InsertOrModify False (1, 2) ''Host'' ''h'' kAppend initial_HMap = Some (Inr it, m')
     \<and> hm_entries m' = [(''Host'', ''h'')] \<and> map_inv False m' \<and> Map_Find False m' ''Host'' = Some it"
  using header_map_insert [where action = kAppend and key = "''Host''" and val = "''h''" and keys = "(1, 2)", OF initial_HMap_inv [of False] initial_HMap_calm]
  by (simp add: InsertOrModify_def initial_HMap_def header_pos_def UsableCapacity_def kMaxSize_def)

text \<open>
  (C11) Removal implements the list operation: \<open>Erase\<close> ends on every map that satisfies the
  invariant, moves the last entry into the hole, corrects its index, shifts the following
  positions back, and leaves a map that satisfies the invariant and no longer holds the key.
\<close>

theorem header_map_erase:
  assumes "map_inv sse2 m"
  shows "\<exists>it m'. Map_Erase sse2 key m = Some (it, m') \<and> hm_entries m' = headers_erase key (hm_entries m) \<and> map_inv sse2 m'
     \<and> it = (case header_pos key (hm_entries m) of
               None \<Rightarrow> Map_End
             | Some i \<Rightarrow> if i < length (hm_entries m') then ToReverseIterator i else Map_Begin m')"
  by (rule Map_Erase_ok [OF assms, of key]) blast

theorem header_map_erase_witness:
  "\<exists>m'. Map_Erase False ''host'' sample_map = Some (0, m') \<and> hm_entries m' = [] \<and> map_inv False m'"
  using header_map_erase [OF sample_map_facts(1), of "''host''"]
  by (auto simp: sample_map_facts headers_erase_def sample_positions Map_Begin_def)

text \<open>
  (C36) Any sequence of insertions and removals on a fresh map, as long as no map on the way is about
  to change its hash function, behaves as on the list of headers: it ends, throws where the list
  does, and otherwise leaves the same entries in a map that satisfies the invariant.
\<close>

theorem header_map_run:
  assumes "quiet_run calm (map_ins sse2 keys) (Map_Erase sse2) ops initial_HMap"
  shows "case list_run ops [] of
      Inl e \<Rightarrow> \<exists>m'. impl_run (map_ins sse2 keys) (Map_Erase sse2) ops initial_HMap = Some (Inl e, m')
    | Inr es \<Rightarrow> \<exists>m'. impl_run (map_ins sse2 keys) (Map_Erase sse2) ops initial_HMap = Some (Inr (), m')
        \<and> hm_entries m' = es \<and> map_inv sse2 m'"
  using hmap.run_refines [OF initial_HMap_inv [of sse2] assms] by (auto simp: initial_HMap_def split: sum.splits)

theorem header_map_run_witness:
  "\<exists>m'. impl_run (map_ins False (1, 2)) (Map_Erase False) [OpInsert kReplace ''Host'' ''h''] initial_HMap = Some (Inr (), m')
     \<and> hm_entries m' = [(''Host'', ''h'')] \<and> map_inv False m'"
  using header_map_run [of False "(1, 2)" "[OpInsert kReplace ''Host'' ''h'']"] initial_HMap_calm
  by (simp add: InsertOrModify_def header_pos_def UsableCapacity_def kMaxSize_def split: option.splits sum.splits prod.splits)

text \<open>
  (C12) The insertion that makes a map switch to the safe hash loses its header.  \<open>InsertOrModify\<close>
  computes the hash of the key before \<open>ReserveOne\<close> turns the map red and rebuilds it, and then
  stores the new entry under the old hash.  If the two hashes of the key differ, the header is
  appended to the entries and will be sent, but the search with the key finds what it found
  before: nothing, or the older entry of the same name, which is now there twice.
\<close>

theorem red_map_hides_header:
  assumes "map_inv sse2 m" and "IsYellow (hm_danger m)" and "\<not> load_factor_sane m"
    and "Map_HashKey sse2 m key \<noteq> Map_HashKey sse2 (m\<lparr>hm_danger := ToRed keys (hm_danger m)\<rparr>) key"
  shows "\<exists>m'. Map_InsertOrModify sse2 keys key val action m = Some (Inr (ToReverseIterator (length (hm_entries m))), m')
    \<and> hm_entries m' = hm_entries m @ [(key, val)] \<and> Map_Find sse2 m' key = Map_Find sse2 m key"
  by (rule red_insert [OF assms])

theorem red_map_hides_header_witness:
  "\<exists>m'. Map_InsertOrModify False (1, 2) ''a'' ''x'' kReplace yellow_map = Some (Inr 1, m')
     \<and> hm_entries m' = [(''a'', ''x'')] \<and> Map_Find False m' ''a'' = Some Map_End"
  using red_map_hides_header [OF yellow_map_facts(1,2,3), of "''a''" "(1, 2)" "''x''" kReplace]
    Map_Find_eq [OF yellow_map_facts(1), of "''a''"]
  by (simp add: yellow_map_hashes yellow_map_facts(4) ToReverseIterator_def header_pos_def)

end
