(* ===== verification/Double_Arith.thy ===== *)
theory Double_Arith
  imports Prelude "HOL-Library.Log_Nat"
begin

section \<open>Doubles\<close>

text \<open>
  The arithmetic of \<open>double\<close> as far as the limits of the congestion control use it: a finite
  value is a rational number, and every operation rounds the exact result to the nearest number
  with a significand of 53 bits, ties to even.  Infinities do not occur, since all
  operands are counters of 64 bits and percentages.
\<close>

definition round_half_even :: "rat \<Rightarrow> int" where
  "round_half_even x =
     (let f = \<lfloor>x\<rfloor>; d = x - of_int f in if d < 1 / 2 \<or> d = 1 / 2 \<and> even f then f else f + 1)"

text \<open>The exponent of a positive number: the largest power of two below it.\<close>

definition binary_exponent :: "rat \<Rightarrow> int" where
  "binary_exponent x =
     (if 1 \<le> x then int (floorlog 2 (nat \<lfloor>x\<rfloor>)) - 1 else - int (floorlog 2 (nat (\<lceil>1 / x\<rceil> - 1))))"

text \<open>The distance of neighbouring doubles around a number; \<open>-1074\<close> is the exponent of the smallest one.\<close>

definition quantum :: "rat \<Rightarrow> rat" where
  "quantum x =
     (let e = max (binary_exponent x - 52) (- 1074) in if 0 \<le> e then 2 ^ nat e else 1 / 2 ^ nat (- e))"

definition to_double :: "rat \<Rightarrow> rat" where
  "to_double x =
     (if x = 0 then 0
      else if 0 < x then of_int (round_half_even (x / quantum x)) * quantum x
      else - (of_int (round_half_even (- x / quantum (- x))) * quantum (- x)))"

definition double_add :: "rat \<Rightarrow> rat \<Rightarrow> rat" where
  "double_add x y = to_double (x + y)"

definition double_sub :: "rat \<Rightarrow> rat \<Rightarrow> rat" where
  "double_sub x y = to_double (x - y)"

definition double_mul :: "rat \<Rightarrow> rat \<Rightarrow> rat" where
  "double_mul x y = to_double (x * y)"

definition double_div :: "rat \<Rightarrow> rat \<Rightarrow> rat" where
  "double_div x y = to_double (x / y)"

text \<open>\<open>std::lround\<close>: to the nearest integer, halves away from zero.\<close>

definition lround :: "rat \<Rightarrow> int" where
  "lround x = (if 0 \<le> x then \<lfloor>x + 1 / 2\<rfloor> else - \<lfloor>- x + 1 / 2\<rfloor>)"

text \<open>The conversion of an integer to \<open>size_t\<close>.\<close>

definition to_size :: "int \<Rightarrow> nat" where
  "to_size z = nat (z mod 2 ^ 64)"

subsection \<open>Rounding\<close>

lemma round_half_even_of_int [simp]: "round_half_even (of_int k) = k"
  by (simp add: round_half_even_def)

lemma round_half_even_near: "\<bar>of_int (round_half_even x) - x\<bar> \<le> 1 / 2"
  unfolding round_half_even_def Let_def
  using of_int_floor_le [of x] floor_correct [of x] by (auto simp: abs_if) linarith+

lemma round_half_even_nonneg: "0 \<le> x \<Longrightarrow> 0 \<le> round_half_even x"
proof -
  assume "0 \<le> x"
  then have "0 \<le> \<lfloor>x\<rfloor>" by simp
  then show ?thesis by (auto simp: round_half_even_def Let_def)
qed

lemma quantum_pos [simp]: "0 < quantum x" by (simp add: quantum_def Let_def)

lemma to_double_nonneg: "0 \<le> x \<Longrightarrow> 0 \<le> to_double x"
  using round_half_even_nonneg [of "x / quantum x"] quantum_pos [of x]
  by (auto simp: to_double_def less_imp_le intro!: mult_nonneg_nonneg)

lemma to_double_near: "\<bar>to_double x - x\<bar> \<le> quantum \<bar>x\<bar> / 2"
proof -
  have pos: "\<bar>of_int (round_half_even (y / quantum y)) * quantum y - y\<bar> \<le> quantum y / 2" for y
  proof -
    have "of_int (round_half_even (y / quantum y)) * quantum y - y
        = (of_int (round_half_even (y / quantum y)) - y / quantum y) * quantum y"
      using less_imp_neq [OF quantum_pos [of y]] by (simp add: left_diff_distrib)
    then have "\<bar>of_int (round_half_even (y / quantum y)) * quantum y - y\<bar>
        = \<bar>of_int (round_half_even (y / quantum y)) - y / quantum y\<bar> * quantum y"
      by (simp add: abs_mult abs_of_pos)
    also have "\<dots> \<le> 1 / 2 * quantum y"
      by (intro mult_right_mono round_half_even_near) (simp add: less_imp_le)
    finally show ?thesis by simp
  qed
  show ?thesis
  proof (cases x "0 :: rat" rule: linorder_cases)
    case less
    then have "to_double x - x = - (of_int (round_half_even (- x / quantum (- x))) * quantum (- x) - (- x))"
      by (simp add: to_double_def)
    then show ?thesis using pos [of "- x"] less by (simp only: abs_minus_cancel abs_of_neg)
  next
    case equal
    then show ?thesis by (simp add: to_double_def less_imp_le)
  next
    case greater
    then show ?thesis using pos [of x] by (simp add: to_double_def)
  qed
qed

text \<open>The exponent is that of the number, so that a number of at most 53 bits is kept as it is.\<close>

lemma to_double_of_nat:
  assumes "n < 2 ^ 53"
  shows "to_double (of_nat n) = of_nat n"
proof (cases "n = 0")
  case False
  let ?e = "binary_exponent (of_nat n)"
  have "floorlog 2 n \<le> 53" using assms False by (simp add: floorlog_leI)
  moreover have e: "?e = int (floorlog 2 n) - 1" using False by (simp add: binary_exponent_def)
  ultimately have le: "?e - 52 \<le> 0" by simp
  have ge: "- 1074 \<le> ?e - 52" using e by simp
  obtain k where k: "?e - 52 = - int k" using le by (metis nonpos_int_cases)
  have q: "quantum (of_nat n) = 1 / 2 ^ k" using ge k by (simp add: quantum_def Let_def)
  have div: "of_nat n / quantum (of_nat n) = (of_int (int n * 2 ^ k) :: rat)" using q by simp
  have "round_half_even (of_nat n / quantum (of_nat n)) = int n * 2 ^ k" by (simp only: div round_half_even_of_int)
  then show ?thesis using False by (simp add: to_double_def q)
qed (simp add: to_double_def)

lemma to_double_numeral [simp]: "(numeral k :: nat) < 2 ^ 53 \<Longrightarrow> to_double (numeral k) = numeral k"
  using to_double_of_nat [of "numeral k"] by simp

lemma lround_nonneg: "0 \<le> x \<Longrightarrow> 0 \<le> lround x"
  by (simp add: lround_def)

lemma lround_of_nat [simp]: "lround (of_nat n) = int n"
proof -
  have "\<lfloor>(of_nat n :: rat) + 1 / 2\<rfloor> = int n" by (simp add: floor_eq_iff)
  then show ?thesis by (simp add: lround_def)
qed

lemma lround_numeral [simp]: "lround (numeral k) = numeral k"
  using lround_of_nat [of "numeral k"] by simp

lemma to_size_id [simp]: "0 \<le> z \<Longrightarrow> z < 2 ^ 64 \<Longrightarrow> to_size z = nat z"
  by (simp add: to_size_def)

lemma to_size_less [simp]: "to_size z < 2 ^ 64"
  by (simp add: to_size_def nat_less_iff)

end
