(* ===== verification/Congestion_Control.thy ===== *)
theory Congestion_Control
  imports Request_Handler Double_Arith
begin

section \<open>Congestion control\<close>

text \<open>
  The loop that limits the requests per second of a server whose main task processor is
  overloaded: the sensor (\<open>core/src/server/congestion_control/sensor.cpp\<close>), the controller with
  its state machine (\<open>core/src/congestion_control/controller.cpp\<close>), the limiter
  (\<open>core/src/server/congestion_control/limiter.cpp\<close>) and the watchdog that drives them once a
  second (\<open>core/src/congestion_control/watchdog.cpp\<close>), with the settings of the component
  (\<open>core/src/congestion_control/component.cpp\<close>).  The dynamic configuration, the clock and the
  counters of the task processor are inputs.  Logging and test points are left out.
\<close>

subsection \<open>The controller\<close>

record PolicyState =
  times_with_overload :: nat
  times_wo_overload :: nat
  is_overloaded :: bool
  current_limit :: "nat option"
  max_up_delta :: nat

record CcStats =
  no_limit :: nat
  not_overload_no_pressure :: nat
  not_overload_pressure :: nat
  overload_no_pressure :: nat
  overload_pressure :: nat
  current_state :: nat
  last_overload_pressure :: int

text \<open>The configuration variable \<open>USERVER_RPS_CCONTROL\<close>, with the ranges of its schema.\<close>

record Policy =
  min_limit :: nat
  up_rate_percent :: rat
  down_rate_percent :: rat
  overload_on_seconds :: nat
  overload_off_seconds :: nat
  up_level :: nat
  down_level :: nat
  load_limit_percent :: nat
  load_limit_crit_percent :: nat
  no_limit_seconds :: nat
  start_limit_factor :: rat

definition policy_ok :: "Policy \<Rightarrow> bool" where
  "policy_ok p \<longleftrightarrow>
     1 \<le> min_limit p \<and> min_limit p < 2 ^ 31 \<and>
     0 < up_rate_percent p \<and> up_rate_percent p \<le> 100 \<and> 0 < down_rate_percent p \<and> down_rate_percent p \<le> 100 \<and>
     1 \<le> overload_on_seconds p \<and> 1 \<le> overload_off_seconds p \<and>
     1 \<le> up_level p \<and> 1 \<le> down_level p \<and> load_limit_percent p \<le> 100 \<and> load_limit_crit_percent p \<le> 100 \<and>
     1 \<le> no_limit_seconds p"

definition default_policy :: Policy where
  "default_policy =
     \<lparr>min_limit = 10, up_rate_percent = 2, down_rate_percent = 2, overload_on_seconds = 3, overload_off_seconds = 3,
      up_level = 2, down_level = 1, load_limit_percent = 0, load_limit_crit_percent = 0, no_limit_seconds = 1000,
      start_limit_factor = 3 / 4\<rparr>"

record SensorData =
  current_load :: nat
  overload_events_count :: nat
  no_overload_events_count :: nat
  data_tp :: int

record Limit =
  load_limit :: "nat option"
  limit_current_load :: nat

record Controller =
  cc_limit :: Limit
  cc_state :: PolicyState
  cc_is_enabled :: bool
  cc_stats :: CcStats

definition initial_state :: PolicyState where
  "initial_state =
     \<lparr>times_with_overload = 0, times_wo_overload = 0, is_overloaded = False, current_limit = None, max_up_delta = 1\<rparr>"

definition initial_stats :: "int \<Rightarrow> CcStats" where
  "initial_stats now =
     \<lparr>no_limit = 0, not_overload_no_pressure = 0, not_overload_pressure = 0, overload_no_pressure = 0,
      overload_pressure = 0, current_state = 0, last_overload_pressure = now - 3600\<rparr>"

definition no_Limit :: Limit where
  "no_Limit = \<lparr>load_limit = None, limit_current_load = 0\<rparr>"

definition new_Controller :: "int \<Rightarrow> Controller" where
  "new_Controller now =
     \<lparr>cc_limit = no_Limit, cc_state = initial_state, cc_is_enabled = True, cc_stats = initial_stats now\<rparr>"

definition IsThresholdReached :: "SensorData \<Rightarrow> nat \<Rightarrow> bool" where
  "IsThresholdReached data percent \<longleftrightarrow>
     size_mod (size_mod (overload_events_count data + no_overload_events_count data) * percent)
       \<le> size_mod (overload_events_count data * 100)"

definition IsOverloadedNow :: "PolicyState \<Rightarrow> SensorData \<Rightarrow> Policy \<Rightarrow> bool" where
  "IsOverloadedNow st data policy \<longleftrightarrow>
     (let overload_limit = (if is_overloaded st then down_level policy else up_level policy)
      in if overload_events_count data \<le> overload_limit then False
         else if \<not> IsThresholdReached data (load_limit_percent policy) then False
         else True)"

text \<open>
  \<open>CalcNewLimit\<close>: the first limit is a share of the load; afterwards the limit shrinks
  by a rate, at least by one, or grows by a rate, at least by one and at most by \<open>max_up_delta\<close>.
\<close>

definition start_limit :: "SensorData \<Rightarrow> Policy \<Rightarrow> nat" where
  "start_limit data policy =
     max (min_limit policy)
       (to_size (lround (double_mul (to_double (of_nat (current_load data))) (start_limit_factor policy))))"

definition limit_down :: "nat \<Rightarrow> Policy \<Rightarrow> nat" where
  "limit_down load policy =
     max (min_limit policy)
       (min (to_size \<lfloor>double_div (double_mul (to_double (of_nat load)) (double_sub 100 (down_rate_percent policy))) 100\<rfloor>)
            (load - 1))"

definition limit_up :: "nat \<Rightarrow> nat \<Rightarrow> Policy \<Rightarrow> nat" where
  "limit_up load up_delta policy =
     (let max_up = lround (double_div (double_mul (to_double (of_nat load)) (double_add 100 (up_rate_percent policy))) 100);
          up = min (to_size max_up) (size_mod (load + up_delta))
      in max up (size_mod (load + 1)))"

definition CalcNewLimit :: "PolicyState \<Rightarrow> SensorData \<Rightarrow> Policy \<Rightarrow> nat" where
  "CalcNewLimit st data policy =
     (case current_limit st of
        None \<Rightarrow> start_limit data policy
      | Some limit \<Rightarrow>
          (let load = (if limit = 0 then 1 else limit)
           in if is_overloaded st then limit_down load policy else limit_up load (max_up_delta st) policy))"

text \<open>\<open>Feed\<close>: the counters of seconds, then the state machine, then the removal of the limit.\<close>

definition count_seconds :: "bool \<Rightarrow> PolicyState \<Rightarrow> PolicyState" where
  "count_seconds pressure st =
     (if pressure then
        st\<lparr>times_with_overload := size_mod (times_with_overload st + 1), times_wo_overload := 0, max_up_delta := 1\<rparr>
      else
        st\<lparr>times_with_overload := 0, times_wo_overload := size_mod (times_wo_overload st + 1),
           max_up_delta := (if max_up_delta st < 10000 then size_mod (max_up_delta st * 2) else max_up_delta st)\<rparr>)"

definition change_state ::
  "int \<Rightarrow> Policy \<Rightarrow> SensorData \<Rightarrow> bool \<Rightarrow> PolicyState \<times> CcStats \<Rightarrow> PolicyState \<times> CcStats" where
  "change_state now policy data pressure = (\<lambda>(st, stats).
     if is_overloaded st then
       if pressure then
         (st\<lparr>current_limit := Some (CalcNewLimit st data policy)\<rparr>,
          stats\<lparr>overload_pressure := size_mod (overload_pressure stats + 1), last_overload_pressure := now,
                current_state := 4\<rparr>)
       else
         (if overload_off_seconds policy < times_wo_overload st then st\<lparr>is_overloaded := False\<rparr> else st,
          stats\<lparr>overload_no_pressure := size_mod (overload_no_pressure stats + 1), current_state := 3\<rparr>)
     else if \<not> pressure then
       (case current_limit st of
          Some _ \<Rightarrow>
            (st\<lparr>current_limit := Some (CalcNewLimit st data policy)\<rparr>,
             stats\<lparr>not_overload_no_pressure := size_mod (not_overload_no_pressure stats + 1), current_state := 1\<rparr>)
        | None \<Rightarrow> (st, stats\<lparr>no_limit := size_mod (no_limit stats + 1), current_state := 0\<rparr>))
     else
       (if overload_on_seconds policy < times_with_overload st \<or> IsThresholdReached data (load_limit_crit_percent policy)
        then st\<lparr>is_overloaded := True\<rparr> else st,
        stats\<lparr>not_overload_pressure := size_mod (not_overload_pressure stats + 1), current_state := 2\<rparr>))"

definition drop_limit :: "Policy \<Rightarrow> PolicyState \<Rightarrow> PolicyState" where
  "drop_limit policy st =
     (if \<not> is_overloaded st \<and> no_limit_seconds policy < times_wo_overload st then st\<lparr>current_limit := None\<rparr> else st)"

definition Feed :: "Policy \<Rightarrow> int \<Rightarrow> SensorData \<Rightarrow> Controller \<Rightarrow> Controller" where
  "Feed policy now data c =
     (let is_overloaded_pressure = IsOverloadedNow (cc_state c) data policy;
          st1 = count_seconds is_overloaded_pressure (cc_state c);
          (st2, stats) = change_state now policy data is_overloaded_pressure (st1, cc_stats c);
          st3 = drop_limit policy st2
      in c\<lparr>cc_state := st3, cc_stats := stats,
           cc_limit := \<lparr>load_limit = current_limit st3, limit_current_load = current_load data\<rparr>\<rparr>)"

definition GetLimit :: "Controller \<Rightarrow> Limit" where
  "GetLimit c = (if cc_is_enabled c then cc_limit c else no_Limit)"

definition SetEnabled :: "bool \<Rightarrow> Controller \<Rightarrow> Controller" where
  "SetEnabled enabled c = c\<lparr>cc_is_enabled := enabled\<rparr>"

subsection \<open>The sensor of the server\<close>

record Sensor =
  last_fetch_tp :: int
  last_overloads :: nat
  last_no_overloads :: nat
  last_requests :: nat

definition new_Sensor :: Sensor where
  "new_Sensor = \<lparr>last_fetch_tp = 0, last_overloads = 0, last_no_overloads = 0, last_requests = 0\<rparr>"

text \<open>
  What is read: the clock in nanoseconds, the counters of the task processor, and the total
  requests of every registered source.
\<close>

record CounterReading =
  rd_now :: int
  rd_overloads :: nat
  rd_no_overloads :: nat
  rd_total_requests :: "nat list"

text \<open>\<open>(value - last) * kSecond / duration\<close> in \<open>uint64_t\<close>, the duration in milliseconds.\<close>

definition per_second :: "nat \<Rightarrow> nat \<Rightarrow> nat \<Rightarrow> nat" where
  "per_second v last_v ms = size_mod (to_size (int v - int last_v) * 1000) div ms"

definition FetchCurrent :: "CounterReading \<Rightarrow> Sensor \<Rightarrow> SensorData \<times> Sensor" where
  "FetchCurrent rd s =
     (let first_fetch = (last_fetch_tp s = 0);
          now = rd_now rd;
          duration_ms0 = nat ((now - last_fetch_tp s) div 1000000);
          duration_ms = (if duration_ms0 = 0 then 1 else duration_ms0);
          overloads_ps = per_second (rd_overloads rd) (last_overloads s) duration_ms;
          no_overloads_ps = per_second (rd_no_overloads rd) (last_no_overloads s) duration_ms;
          requests = fold (\<lambda>n acc. size_mod (acc + n)) (rd_total_requests rd) 0;
          rps = per_second requests (last_requests s) duration_ms
      in (\<lparr>current_load = (if first_fetch then 0 else rps),
           overload_events_count = (if first_fetch then 0 else overloads_ps),
           no_overload_events_count = (if first_fetch then 0 else no_overloads_ps), data_tp = now\<rparr>,
          \<lparr>last_fetch_tp = now, last_overloads = rd_overloads rd, last_no_overloads = rd_no_overloads rd,
           last_requests = requests\<rparr>))"

subsection \<open>The limiter and the watchdog\<close>

text \<open>The limitees of the limiter are servers; \<open>Server::SetLimit\<close> is \<open>SetRpsRatelimit\<close>.\<close>

definition Server_SetLimit :: "int \<Rightarrow> nat option \<Rightarrow> HttpRequestHandler \<Rightarrow> HttpRequestHandler result" where
  "Server_SetLimit now new_limit srv = SetRpsRatelimit now new_limit srv"

primrec set_all :: "('s \<Rightarrow> 's result) \<Rightarrow> 's list \<Rightarrow> 's list result" where
  "set_all f [] = Inr []"
| "set_all f (x # xs) = rbind (f x) (\<lambda>y. rbind (set_all f xs) (\<lambda>ys. Inr (y # ys)))"

definition Limiter_SetLimit :: "int \<Rightarrow> Limit \<Rightarrow> HttpRequestHandler list \<Rightarrow> HttpRequestHandler list result" where
  "Limiter_SetLimit now new_limit limitees = set_all (Server_SetLimit now (load_limit new_limit)) limitees"

record ControllerInfo =
  ci_sensor :: Sensor
  ci_limiter :: "HttpRequestHandler list"
  ci_controller :: Controller

text \<open>The body of the loop of \<open>Watchdog::Check\<close>, for one registered controller.\<close>

definition check_one :: "Policy \<Rightarrow> CounterReading \<Rightarrow> ControllerInfo \<Rightarrow> ControllerInfo result" where
  "check_one policy rd ci =
     (let (data, sensor) = FetchCurrent rd (ci_sensor ci);
          controller = Feed policy (rd_now rd div 1000000000) data (ci_controller ci);
          limit = GetLimit controller
      in rbind (Limiter_SetLimit (rd_now rd) limit (ci_limiter ci)) (\<lambda>limitees.
           Inr \<lparr>ci_sensor = sensor, ci_limiter = limitees, ci_controller = controller\<rparr>))"

definition Watchdog_Check :: "Policy \<Rightarrow> CounterReading \<Rightarrow> ControllerInfo list \<Rightarrow> ControllerInfo list result" where
  "Watchdog_Check policy rd infos = set_all (check_one policy rd) infos"

text \<open>A life of the watchdog: one check per second, each with the configuration of its moment.\<close>

primrec watch :: "(Policy \<times> CounterReading) list \<Rightarrow> ControllerInfo list \<Rightarrow> ControllerInfo list result" where
  "watch [] infos = Inr infos"
| "watch (x # xs) infos = rbind (Watchdog_Check (fst x) (snd x) infos) (watch xs)"

subsection \<open>The component\<close>

record CcComponent =
  comp_fake_mode :: bool
  comp_force_disabled :: bool
  comp_last_activate_factor :: nat
  comp_info :: ControllerInfo

record CcConfig =
  cfg_fake_mode :: "bool option"
  cfg_min_cpu :: "nat option"
  cfg_only_rtc :: "bool option"
  cfg_status_code :: "StatusCode option"

definition OnConfigUpdate :: "bool \<Rightarrow> nat \<Rightarrow> CcComponent \<Rightarrow> CcComponent" where
  "OnConfigUpdate is_enabled_dynamic activated_factor cmp =
     (let enabled = (\<not> comp_fake_mode cmp \<and> \<not> comp_force_disabled cmp);
          enabled' = (if enabled \<and> \<not> is_enabled_dynamic then False else enabled)
      in cmp\<lparr>comp_last_activate_factor := activated_factor,
              comp_info := (comp_info cmp)\<lparr>ci_controller := SetEnabled enabled' (ci_controller (comp_info cmp))\<rparr>\<rparr>)"

definition make_CcComponent ::
  "CcConfig \<Rightarrow> bool \<Rightarrow> rat option \<Rightarrow> bool \<Rightarrow> nat \<Rightarrow> int \<Rightarrow> HttpRequestHandler \<Rightarrow> CcComponent result" where
  "make_CcComponent config is_in_rtc cpu_limit is_enabled_dynamic activated_factor now server =
     (let fake_mode = the_default False (cfg_fake_mode config);
          min_threads = the_default 1 (cfg_min_cpu config);
          only_rtc = the_default True (cfg_only_rtc config);
          server1 = SetRpsRatelimitStatusCode (the_default HttpStatus_kTooManyRequests (cfg_status_code config)) server
      in if \<not> fake_mode \<and> only_rtc \<and> \<not> is_in_rtc then
           Inl (RuntimeError (''Started outside of RTC, don'' @ [CHR 0x27] @ ''t know how to get number of CPU cores. '' @
             ''You have to pass CPU_LIMIT environment variable with the correct value in order CC to work properly.''))
         else
           (let fake_mode' = (if \<not> fake_mode \<and> the_default 0 cpu_limit < of_nat min_threads then True else fake_mode)
            in Inr (OnConfigUpdate is_enabled_dynamic activated_factor
                 \<lparr>comp_fake_mode = fake_mode', comp_force_disabled = False, comp_last_activate_factor = 1,
                  comp_info = \<lparr>ci_sensor = new_Sensor, ci_limiter = [server1], ci_controller = new_Controller now\<rparr>\<rparr>)))"

definition OnAllComponentsLoaded :: "nat \<Rightarrow> bool \<Rightarrow> nat \<Rightarrow> CcComponent \<Rightarrow> CcComponent" where
  "OnAllComponentsLoaded throttlable_handlers is_enabled_dynamic activated_factor cmp =
     (if throttlable_handlers = 0
      then OnConfigUpdate is_enabled_dynamic activated_factor (cmp\<lparr>comp_force_disabled := True\<rparr>)
      else cmp)"

text \<open>The metrics of the component, in the order they are written.\<close>

definition FormatStats :: "int \<Rightarrow> Controller \<Rightarrow> nat \<Rightarrow> (string \<times> int) list" where
  "FormatStats now_ns c activated_factor =
     (let limit = GetLimit c; stats = cc_stats c in
      [(''is-enabled'', if cc_is_enabled c then 1 else 0),
       (''is-activated'',
        case load_limit limit of
          Some l \<Rightarrow> if size_mod (limit_current_load limit * activated_factor) < l then 1 else 0
        | None \<Rightarrow> 0)] @
      (case load_limit limit of Some l \<Rightarrow> [(''limit'', int l)] | None \<Rightarrow> []) @
      [(''states.no-limit'', int (no_limit stats)),
       (''states.not-overloaded-no-pressure'', int (not_overload_no_pressure stats)),
       (''states.not-overloaded-under-pressure'', int (not_overload_pressure stats)),
       (''states.overloaded-no-pressure'', int (overload_no_pressure stats)),
       (''states.overloaded-under-pressure'', int (overload_pressure stats)),
       (''time-from-last-overloaded-under-pressure-secs'',
        (now_ns - last_overload_pressure stats * 1000000000) div 1000000000),
       (''current-state'', int (current_state stats))])"

definition ExtendWriter :: "int \<Rightarrow> CcComponent \<Rightarrow> (string \<times> int) list" where
  "ExtendWriter now_ns cmp =
     (if comp_force_disabled cmp then []
      else FormatStats now_ns (ci_controller (comp_info cmp)) (comp_last_activate_factor cmp))"

end
