(* ===== verification/Congestion_Correct.thy ===== *)
theory Congestion_Correct
  imports Congestion_Control
begin

section \<open>What the congestion control guarantees\<close>

text \<open>
  The limits the controller computes, the invariant of its state, its behaviour under lasting
  overload and after it, and the composition with the rate limiter of the server.
\<close>

subsection \<open>When there is pressure\<close>

lemma size_mod_id [simp]: "n < 2 ^ 64 \<Longrightarrow> size_mod n = n"
  by (simp add: size_mod_def)

text \<open>Without overflow the comparison by multiplication is that of the shares, unless there are no events at all.\<close>

lemma IsThresholdReached_share:
  assumes "100 * (overload_events_count d + no_overload_events_count d) < 2 ^ 64" and "p \<le> 100"
    and "0 < overload_events_count d + no_overload_events_count d"
  shows "IsThresholdReached d p \<longleftrightarrow>
     of_nat p / 100 \<le> (of_nat (overload_events_count d) :: rat)
        / of_nat (overload_events_count d + no_overload_events_count d)"
proof -
  let ?v = "overload_events_count d" and ?t = "overload_events_count d + no_overload_events_count d"
  have cmp: "(of_nat (t * p) :: rat) \<le> of_nat (v * 100) \<longleftrightarrow> of_nat p / 100 \<le> (of_nat v :: rat) / of_nat t" if "0 < t" for t v
    using that by (simp add: field_simps)
  have tp: "?t * p \<le> ?t * 100" using assms(2) by (rule mult_le_mono2)
  have "?t * 100 < 2 ^ 64" using assms(1) by simp
  then have fits: "?t < 2 ^ 64" "?t * p < 2 ^ 64" "?v * 100 < 2 ^ 64"
    using le_less_trans [OF tp] by simp_all
  have "IsThresholdReached d p \<longleftrightarrow> ?t * p \<le> ?v * 100"
    unfolding IsThresholdReached_def by (simp only: size_mod_id fits)
  also have "\<dots> \<longleftrightarrow> (of_nat (?t * p) :: rat) \<le> of_nat (?v * 100)" by (simp only: of_nat_le_iff)
  also have "\<dots> \<longleftrightarrow> of_nat p / 100 \<le> (of_nat ?v :: rat) / of_nat ?t"
    using assms(3) cmp [of ?t ?v] by simp
  finally show ?thesis .
qed

lemma IsThresholdReached_zero [simp]: "IsThresholdReached d 0"
  by (simp add: IsThresholdReached_def size_mod_def)

text \<open>Pressure in the sense of both levels, and none in the sense of both.\<close>

definition pressing :: "Policy \<Rightarrow> SensorData \<Rightarrow> bool" where
  "pressing p d \<longleftrightarrow>
     max (up_level p) (down_level p) < overload_events_count d \<and> IsThresholdReached d (load_limit_percent p)"

definition calm_data :: "Policy \<Rightarrow> SensorData \<Rightarrow> bool" where
  "calm_data p d \<longleftrightarrow> overload_events_count d \<le> min (up_level p) (down_level p)"

lemma pressing_now: "pressing p d \<Longrightarrow> IsOverloadedNow st d p"
  by (auto simp: pressing_def IsOverloadedNow_def)

lemma calm_now: "calm_data p d \<Longrightarrow> \<not> IsOverloadedNow st d p"
  by (auto simp: calm_data_def IsOverloadedNow_def Let_def)

subsection \<open>The new limit\<close>

lemma start_limit_ge: "min_limit p \<le> start_limit d p"
  by (simp add: start_limit_def)

lemma limit_down_bounds: "min_limit p \<le> limit_down l p" "limit_down l p \<le> max (min_limit p) (l - 1)"
  by (auto simp: limit_down_def)

lemma limit_up_bounds:
  assumes "1 \<le> delta" and "l + delta < 2 ^ 64"
  shows "l + 1 \<le> limit_up l delta p" and "limit_up l delta p \<le> l + delta"
  using assms by (simp_all add: limit_up_def Let_def)

lemma CalcNewLimit_ge:
  assumes "1 \<le> max_up_delta st" and "current_limit st = Some l \<Longrightarrow> l + max_up_delta st + 1 < 2 ^ 64"
    and "current_limit st = Some l \<Longrightarrow> m \<le> l" and "m \<le> min_limit p"
  shows "current_limit st = None \<or> current_limit st = Some l \<Longrightarrow> m \<le> CalcNewLimit st d p"
proof (elim disjE)
  assume "current_limit st = None"
  then show ?thesis using start_limit_ge [of p d] assms(4) by (simp add: CalcNewLimit_def)
next
  assume l: "current_limit st = Some l"
  let ?load = "if l = 0 then 1 else l"
  show ?thesis
  proof (cases "is_overloaded st")
    case True
    then show ?thesis using l limit_down_bounds(1) [of p ?load] assms(4) by (simp add: CalcNewLimit_def)
  next
    case False
    then show ?thesis
      using l limit_up_bounds(1) [OF assms(1), of ?load p] assms(2,3) [OF l] by (auto simp: CalcNewLimit_def Let_def split: if_splits)
  qed
qed

lemma CalcNewLimit_le:
  assumes "1 \<le> max_up_delta st" and "b + max_up_delta st + 1 < 2 ^ 64" and "1 \<le> b"
    and "\<And>l. current_limit st = Some l \<Longrightarrow> l \<le> b" and "start_limit d p \<le> b"
  shows "CalcNewLimit st d p \<le> b + max_up_delta st"
proof (cases "current_limit st")
  case None
  then show ?thesis using assms(5) by (simp add: CalcNewLimit_def)
next
  case (Some l)
  let ?load = "if l = 0 then 1 else l"
  have load: "?load \<le> b" using assms(3,4) Some by auto
  have "min_limit p \<le> b" using start_limit_ge assms(5) by (rule order_trans)
  then show ?thesis
    using Some load limit_down_bounds(2) [of ?load p] limit_up_bounds(2) [OF assms(1), of ?load p] assms(2)
    by (auto simp: CalcNewLimit_def Let_def split: if_splits)
qed

subsection \<open>The invariant\<close>

text \<open>A sequence of measurements, each with the policy and the second of its moment.\<close>

type_synonym feed = "Policy \<times> int \<times> SensorData"

definition feed_all :: "feed list \<Rightarrow> Controller \<Rightarrow> Controller" where
  "feed_all = fold (\<lambda>(p, now, d). Feed p now d)"

definition total_feeds :: "CcStats \<Rightarrow> nat" where
  "total_feeds s =
     no_limit s + not_overload_no_pressure s + not_overload_pressure s + overload_no_pressure s + overload_pressure s"

definition state_inv :: "nat \<Rightarrow> PolicyState \<Rightarrow> bool" where
  "state_inv n st \<longleftrightarrow>
     times_with_overload st \<le> n \<and> times_wo_overload st \<le> n \<and>
     (times_with_overload st = 0 \<or> times_wo_overload st = 0) \<and> max_up_delta st = 2 ^ min (times_wo_overload st) 14"

text \<open>Limits are between \<open>m\<close> and \<open>b\<close>.\<close>

definition limit_inv :: "nat \<Rightarrow> nat \<Rightarrow> PolicyState \<Rightarrow> bool" where
  "limit_inv m b st \<longleftrightarrow> (\<forall>l. current_limit st = Some l \<longrightarrow> m \<le> l \<and> l \<le> b)"

definition cc_inv :: "nat \<Rightarrow> nat \<Rightarrow> nat \<Rightarrow> Controller \<Rightarrow> bool" where
  "cc_inv m b n c \<longleftrightarrow>
     state_inv n (cc_state c) \<and> limit_inv m (b + 2 ^ 14 * n) (cc_state c) \<and>
     load_limit (cc_limit c) = current_limit (cc_state c) \<and> total_feeds (cc_stats c) = n"

lemma pow_14_cases:
  assumes "k \<le> (14 :: nat)"
  shows "(2 :: nat) ^ k < 10000 \<longleftrightarrow> k < 14"
proof -
  have "k < 14 \<Longrightarrow> (2 :: nat) ^ k \<le> 2 ^ 13" by (intro power_increasing) auto
  moreover have "\<not> k < 14 \<Longrightarrow> k = 14" using assms by simp
  ultimately show ?thesis by fastforce
qed

lemma count_seconds_inv:
  assumes "state_inv n st" and "n < 2 ^ 63"
  shows "state_inv (Suc n) (count_seconds pressure st)"
proof (cases pressure)
  case True
  then show ?thesis using assms by (simp add: state_inv_def count_seconds_def)
next
  case False
  let ?w = "times_wo_overload st"
  have w: "?w + 1 < 2 ^ 64" using assms by (simp add: state_inv_def)
  have delta: "max_up_delta st = 2 ^ min ?w 14" using assms(1) by (simp add: state_inv_def)
  have small: "(2 :: nat) ^ min ?w 14 < 10000 \<longleftrightarrow> ?w < 14" using pow_14_cases [of "min ?w 14"] by (simp add: min_less_iff_disj)
  have le: "(2 :: nat) ^ min ?w 14 \<le> 2 ^ 14" by (intro power_increasing) auto
  have "(if max_up_delta st < 10000 then size_mod (max_up_delta st * 2) else max_up_delta st) = 2 ^ min (?w + 1) 14"
    using le small by (auto simp: delta min_def)
  then show ?thesis using False assms(1) w by (simp add: state_inv_def count_seconds_def)
qed

text \<open>\<open>change_state\<close> and \<open>drop_limit\<close> do not touch the counters of seconds.\<close>

lemma change_state_counters [simp]:
  "times_with_overload (fst (change_state now p d pr (st, s))) = times_with_overload st"
  "times_wo_overload (fst (change_state now p d pr (st, s))) = times_wo_overload st"
  "max_up_delta (fst (change_state now p d pr (st, s))) = max_up_delta st"
  by (auto simp: change_state_def split: option.splits)

lemma drop_limit_counters [simp]:
  "times_with_overload (drop_limit p st) = times_with_overload st" "times_wo_overload (drop_limit p st) = times_wo_overload st"
  "max_up_delta (drop_limit p st) = max_up_delta st" "is_overloaded (drop_limit p st) = is_overloaded st"
  by (simp_all add: drop_limit_def)

lemma change_state_limit:
  "current_limit (fst (change_state now p d pr (st, s))) \<in> {current_limit st, Some (CalcNewLimit st d p)}"
  by (auto simp: change_state_def split: option.splits)

lemma drop_limit_limit: "current_limit (drop_limit p st) \<in> {None, current_limit st}"
  by (simp add: drop_limit_def)

lemma total_feeds_change:
  assumes "total_feeds s < 2 ^ 63"
  shows "total_feeds (snd (change_state now p d pr (st, s))) = Suc (total_feeds s)"
  using assms by (auto simp: change_state_def total_feeds_def size_mod_def split: option.splits)

lemma Feed_eqs:
  "cc_state (Feed p now d c) =
     drop_limit p (fst (change_state now p d (IsOverloadedNow (cc_state c) d p)
       (count_seconds (IsOverloadedNow (cc_state c) d p) (cc_state c), cc_stats c)))"
  "cc_stats (Feed p now d c) =
     snd (change_state now p d (IsOverloadedNow (cc_state c) d p)
       (count_seconds (IsOverloadedNow (cc_state c) d p) (cc_state c), cc_stats c))"
  "load_limit (cc_limit (Feed p now d c)) = current_limit (cc_state (Feed p now d c))"
  "cc_is_enabled (Feed p now d c) = cc_is_enabled c"
  by (simp_all add: Feed_def Let_def split: prod.splits)

lemma count_seconds_limit [simp]:
  "current_limit (count_seconds pr st) = current_limit st" "is_overloaded (count_seconds pr st) = is_overloaded st"
  by (simp_all add: count_seconds_def)

lemma Feed_inv:
  assumes inv: "cc_inv m b n c" and "n < 2 ^ 48" and "b < 2 ^ 62" and "1 \<le> b"
    and "m \<le> min_limit p" and "start_limit d p \<le> b"
  shows "cc_inv m b (Suc n) (Feed p now d c)"
proof -
  let ?pr = "IsOverloadedNow (cc_state c) d p" and ?b = "b + 2 ^ 14 * n"
  let ?st = "count_seconds ?pr (cc_state c)"
  let ?st' = "fst (change_state now p d ?pr (?st, cc_stats c))"
  have st: "state_inv (Suc n) ?st" using inv assms(2) by (intro count_seconds_inv) (auto simp: cc_inv_def)
  have delta: "1 \<le> max_up_delta ?st" "max_up_delta ?st \<le> 2 ^ 14"
    using st power_increasing [of "min (times_wo_overload ?st) 14" 14 "2 :: nat"] by (auto simp: state_inv_def)
  have lim: "current_limit ?st = Some l \<Longrightarrow> m \<le> l \<and> l \<le> ?b" for l using inv by (simp add: cc_inv_def limit_inv_def)
  have big: "?b + max_up_delta ?st + 1 < 2 ^ 64" using assms(2,3) delta by simp
  have "CalcNewLimit ?st d p \<le> ?b + max_up_delta ?st"
    using assms(4,6) lim by (intro CalcNewLimit_le delta big) auto
  then have le: "CalcNewLimit ?st d p \<le> b + 2 ^ 14 * Suc n" using delta by simp
  have ge: "m \<le> CalcNewLimit ?st d p"
  proof (cases "current_limit ?st")
    case None
    then show ?thesis using assms(5) delta by (intro CalcNewLimit_ge [where l = 0]) auto
  next
    case (Some l)
    then show ?thesis using assms(5) delta lim [OF Some] big by (intro CalcNewLimit_ge [where l = l]) auto
  qed
  have "limit_inv m (b + 2 ^ 14 * Suc n) (drop_limit p ?st')"
    using drop_limit_limit [of p ?st'] change_state_limit [of now p d ?pr ?st "cc_stats c"] lim le ge
    by (fastforce simp: limit_inv_def)
  moreover have "total_feeds (cc_stats c) = n" using inv by (simp add: cc_inv_def)
  ultimately show ?thesis
    using st assms(2) total_feeds_change [of "cc_stats c" now p d ?pr ?st]
    by (simp add: cc_inv_def Feed_eqs state_inv_def)
qed

lemma feed_all_inv:
  assumes "cc_inv m b n c" and "n + length fs \<le> 2 ^ 48" and "b < 2 ^ 62" and "1 \<le> b"
    and "\<forall>(p, now, d)\<in>set fs. m \<le> min_limit p \<and> start_limit d p \<le> b"
  shows "cc_inv m b (n + length fs) (feed_all fs c)"
  using assms
proof (induction fs arbitrary: n c)
  case (Cons f fs)
  obtain p now d where f: "f = (p, now, d)" by (cases f) auto
  have "cc_inv m b (Suc n) (Feed p now d c)" using Cons.prems f by (intro Feed_inv) auto
  then show ?case using Cons.IH [of "Suc n"] Cons.prems f by (simp add: feed_all_def)
qed (simp add: feed_all_def)

lemma new_Controller_inv: "cc_inv m b 0 (new_Controller now)"
  by (simp add: cc_inv_def new_Controller_def initial_state_def initial_stats_def state_inv_def limit_inv_def total_feeds_def no_Limit_def)

text \<open>
  (C29) Whatever the measurements and however the policy changes between them, as long as every
  policy asks for a limit of at least \<open>m\<close>: a limit that the controller sets is at least \<open>m\<close>, no
  arithmetic wraps around (the limit stays below the largest start value and \<open>2 ^ 14\<close> for every
  second), the step by which it may rise is \<open>2\<close> to the number of seconds without overload, up to
  \<open>2 ^ 14\<close>, and every second is counted in exactly one of the five states.
\<close>

theorem controller_invariant:
  assumes "\<forall>(p, now, d)\<in>set fs. m \<le> min_limit p \<and> start_limit d p \<le> b"
    and "length fs \<le> 2 ^ 48" and "1 \<le> b" and "b < 2 ^ 62" and "c = feed_all fs (new_Controller t)"
  shows "(case load_limit (cc_limit c) of None \<Rightarrow> True | Some l \<Rightarrow> m \<le> l \<and> l \<le> b + 2 ^ 14 * length fs)
     \<and> max_up_delta (cc_state c) = 2 ^ min (times_wo_overload (cc_state c)) 14
     \<and> total_feeds (cc_stats c) = length fs"
proof -
  have "cc_inv m b (0 + length fs) c"
    unfolding assms(5) using assms(1-4) by (intro feed_all_inv new_Controller_inv) auto
  then show ?thesis by (auto simp: cc_inv_def limit_inv_def state_inv_def split: option.splits)
qed

subsection \<open>Lasting overload\<close>

text \<open>Measurements under one policy; the time is only recorded for the metrics.\<close>

definition feed_data :: "Policy \<Rightarrow> int \<Rightarrow> SensorData list \<Rightarrow> Controller \<Rightarrow> Controller" where
  "feed_data p now = fold (Feed p now)"

lemma feed_data_simps [simp]:
  "feed_data p now [] c = c" "feed_data p now (d # ds) c = feed_data p now ds (Feed p now d c)"
  "feed_data p now (ds @ ds') c = feed_data p now ds' (feed_data p now ds c)"
  by (simp_all add: feed_data_def)

lemma feed_data_limit:
  "ds \<noteq> [] \<Longrightarrow> load_limit (cc_limit (feed_data p now ds c)) = current_limit (cc_state (feed_data p now ds c))"
  by (cases ds rule: rev_cases) (simp_all add: Feed_eqs(3))

text \<open>One second under pressure.\<close>

lemma Feed_pressing:
  assumes "pressing p d" and "times_with_overload (cc_state c) + 1 < 2 ^ 64"
  shows "times_with_overload (cc_state (Feed p now d c)) = times_with_overload (cc_state c) + 1"
    and "times_wo_overload (cc_state (Feed p now d c)) = 0"
    and "is_overloaded (cc_state c) \<Longrightarrow> is_overloaded (cc_state (Feed p now d c))"
    and "overload_on_seconds p \<le> times_with_overload (cc_state c) \<Longrightarrow> is_overloaded (cc_state (Feed p now d c))"
    and "is_overloaded (cc_state c) \<Longrightarrow> current_limit (cc_state (Feed p now d c)) =
      Some (case current_limit (cc_state c) of None \<Rightarrow> start_limit d p | Some l \<Rightarrow> limit_down (if l = 0 then 1 else l) p)"
    and "\<not> is_overloaded (cc_state c) \<Longrightarrow> current_limit (cc_state (Feed p now d c)) = current_limit (cc_state c)"
  using assms(2)
  by (simp_all add: Feed_eqs pressing_now [OF assms(1)] count_seconds_def change_state_def drop_limit_def CalcNewLimit_def
      split: option.splits)

lemma feed_data_pressing_counter:
  assumes "\<forall>d\<in>set ds. pressing p d" and "times_with_overload (cc_state c) + length ds < 2 ^ 64"
  shows "times_with_overload (cc_state (feed_data p now ds c)) = times_with_overload (cc_state c) + length ds"
    and "is_overloaded (cc_state c) \<Longrightarrow> is_overloaded (cc_state (feed_data p now ds c))"
    and "limit_inv 0 b (cc_state c) \<Longrightarrow> \<forall>d\<in>set ds. start_limit d p \<le> b \<Longrightarrow> limit_inv 0 b (cc_state (feed_data p now ds c))"
  using assms
proof (induction ds arbitrary: c)
  case (Cons d ds)
  {
    case 1
    then show ?case using Cons.IH(1) [of "Feed p now d c"] Feed_pressing(1) [of p d c now] by simp
  next
    case 2
    then show ?case using Cons.IH(2) [of "Feed p now d c"] Feed_pressing(1,3) [of p d c now] by simp
  next
    case 3
    have press: "pressing p d" "times_with_overload (cc_state c) + 1 < 2 ^ 64" using 3 by auto
    have "min_limit p \<le> b" using start_limit_ge [of p d] 3 by auto
    then have "limit_down (if l = 0 then 1 else l) p \<le> b" if "l \<le> b" for l
      using limit_down_bounds(2) [of "if l = 0 then 1 else l" p] that by (auto split: if_splits)
    then have "limit_inv 0 b (cc_state (Feed p now d c))"
      using 3 Feed_pressing(5,6) [OF press, of now]
      by (cases "is_overloaded (cc_state c)") (auto simp: limit_inv_def split: option.splits)
    then show ?case using 3 Cons.IH(3) [of "Feed p now d c"] Feed_pressing(1) [OF press] by simp
  }
qed simp_all

lemma feed_data_pressing_falls:
  assumes "\<forall>d\<in>set ds. pressing p d" and "times_with_overload (cc_state c) + length ds < 2 ^ 64"
    and "is_overloaded (cc_state c)" and "current_limit (cc_state c) = Some l" and "1 \<le> min_limit p" and "ds \<noteq> []"
  shows "\<exists>l'. current_limit (cc_state (feed_data p now ds c)) = Some l' \<and> min_limit p \<le> l' \<and> l' \<le> max (min_limit p) (l - length ds)"
  using assms
proof (induction ds arbitrary: c l)
  case (Cons d ds)
  let ?c = "Feed p now d c" and ?l = "limit_down (if l = 0 then 1 else l) p"
  have press: "pressing p d" "times_with_overload (cc_state c) + 1 < 2 ^ 64" using Cons.prems(1,2) by auto
  have lim: "current_limit (cc_state ?c) = Some ?l" using Feed_pressing(5) [OF press Cons.prems(3)] Cons.prems(4) by simp
  have l: "min_limit p \<le> ?l" "?l \<le> max (min_limit p) (l - 1)"
    using limit_down_bounds(1) [of p "if l = 0 then 1 else l"] limit_down_bounds(2) [of "if l = 0 then 1 else l" p] by (auto split: if_splits)
  show ?case
  proof (cases "ds = []")
    case False
    have "\<exists>l'. current_limit (cc_state (feed_data p now ds ?c)) = Some l' \<and> min_limit p \<le> l' \<and> l' \<le> max (min_limit p) (?l - length ds)"
      using Cons.prems(1,2,5) False Feed_pressing(1,3) [OF press] Cons.prems(3) by (intro Cons.IH lim) auto
    then show ?thesis using l by (auto simp: max_def split: if_splits)
  qed (use lim l in auto)
qed simp

text \<open>
  (C26) Lasting overload is acted on: when more overload events than either level are measured
  every second, then, from whatever state, after \<open>overload_on_seconds\<close> and as many seconds more
  as the largest possible start value, the controller is overloaded and its limit has come down
  to the minimum of the policy.
\<close>

theorem sustained_overload_reaches_minimum:
  assumes "\<forall>d\<in>set ds. pressing p d \<and> start_limit d p \<le> b" and "limit_inv 0 b (cc_state c)"
    and "times_with_overload (cc_state c) + length ds < 2 ^ 64" and "policy_ok p"
    and "overload_on_seconds p + b + 3 \<le> length ds"
  shows "is_overloaded (cc_state (feed_data p now ds c)) \<and> load_limit (cc_limit (feed_data p now ds c)) = Some (min_limit p)"
proof -
  let ?n = "overload_on_seconds p"
  obtain ds1 d1 d2 ds2 where ds: "ds = ds1 @ d1 # d2 # ds2" "length ds1 = ?n" "b < length ds2"
  proof -
    have "ds = take ?n ds @ ds ! ?n # ds ! (?n + 1) # drop (?n + 2) ds"
      using assms(5) by (simp add: Cons_nth_drop_Suc)
    then show thesis using assms(5) by (intro that [of "take ?n ds" _ _ "drop (?n + 2) ds"]) auto
  qed
  let ?c1 = "feed_data p now ds1 c" and ?c2 = "feed_data p now (ds1 @ [d1]) c" and ?c3 = "feed_data p now (ds1 @ [d1, d2]) c"
  have press: "\<forall>d\<in>set ds. pressing p d" using assms(1) by simp
  have c1: "times_with_overload (cc_state ?c1) = times_with_overload (cc_state c) + ?n"
    using feed_data_pressing_counter(1) [of ds1 p c now] press ds assms(3) by simp
  have step1: "pressing p d1" "times_with_overload (cc_state ?c1) + 1 < 2 ^ 64" using press ds assms(3) c1 by auto
  have c2: "is_overloaded (cc_state ?c2)" "times_with_overload (cc_state ?c2) = times_with_overload (cc_state c) + ?n + 1"
    using Feed_pressing(1,4) [OF step1] c1 by simp_all
  have step2: "pressing p d2" "times_with_overload (cc_state ?c2) + 1 < 2 ^ 64" using press ds assms(3) c2 by auto
  have c3: "is_overloaded (cc_state ?c3)" "times_with_overload (cc_state ?c3) = times_with_overload (cc_state c) + ?n + 2"
    using Feed_pressing(1,3) [OF step2] c2 by simp_all
  obtain l where l: "current_limit (cc_state ?c3) = Some l" using Feed_pressing(5) [OF step2 c2(1)] by simp
  have "limit_inv 0 b (cc_state ?c3)"
    using press ds assms(1-3) by (intro feed_data_pressing_counter(3)) auto
  then have lb: "l \<le> b" using l by (simp add: limit_inv_def)
  have min: "1 \<le> min_limit p" using assms(4) by (simp add: policy_ok_def)
  have fits: "times_with_overload (cc_state ?c3) + length ds2 < 2 ^ 64" using c3(2) ds assms(3) by simp
  have press2: "\<forall>d\<in>set ds2. pressing p d" using press ds by simp
  have ne: "ds2 \<noteq> []" using ds(3) by auto
  note fall = feed_data_pressing_falls [OF press2 fits c3(1) l min ne, of now]
  have whole: "feed_data p now ds c = feed_data p now ds2 ?c3" using ds(1) by simp
  have "current_limit (cc_state (feed_data p now ds c)) = Some (min_limit p)" unfolding whole using fall lb ds(3) min by auto
  moreover have "is_overloaded (cc_state (feed_data p now ds c))"
    unfolding whole by (rule feed_data_pressing_counter(2) [OF press2 fits c3(1)])
  moreover have "ds \<noteq> []" using ds(1) by simp
  ultimately show ?thesis by (simp add: feed_data_limit)
qed

subsection \<open>After the overload\<close>

lemma Feed_calm:
  assumes "calm_data p d" and "times_wo_overload (cc_state c) + 1 < 2 ^ 64"
  shows "times_wo_overload (cc_state (Feed p now d c)) = times_wo_overload (cc_state c) + 1"
    and "\<not> is_overloaded (cc_state c) \<Longrightarrow> \<not> is_overloaded (cc_state (Feed p now d c))"
    and "overload_off_seconds p \<le> times_wo_overload (cc_state c) \<Longrightarrow> \<not> is_overloaded (cc_state (Feed p now d c))"
    and "overload_off_seconds p \<le> times_wo_overload (cc_state c) \<Longrightarrow> no_limit_seconds p \<le> times_wo_overload (cc_state c) \<Longrightarrow>
      current_limit (cc_state (Feed p now d c)) = None"
  using assms(2)
  by (simp_all add: Feed_eqs calm_now [OF assms(1)] count_seconds_def change_state_def drop_limit_def split: option.splits)

lemma feed_data_calm_counter:
  assumes "\<forall>d\<in>set ds. calm_data p d" and "times_wo_overload (cc_state c) + length ds < 2 ^ 64"
  shows "times_wo_overload (cc_state (feed_data p now ds c)) = times_wo_overload (cc_state c) + length ds"
  using assms by (induction ds arbitrary: c) (simp_all add: Feed_calm(1))

text \<open>
  (C32) A limit is not kept for ever: after \<open>overload_off_seconds\<close> and \<open>no_limit_seconds\<close> without
  noticeable overload, from whatever state, the controller is no longer overloaded and has no limit.
\<close>

theorem recovery_removes_limit:
  assumes "\<forall>d\<in>set ds. calm_data p d" and "times_wo_overload (cc_state c) + length ds < 2 ^ 64"
    and "max (overload_off_seconds p) (no_limit_seconds p) < length ds"
  shows "\<not> is_overloaded (cc_state (feed_data p now ds c)) \<and> load_limit (cc_limit (feed_data p now ds c)) = None"
proof -
  let ?c = "feed_data p now (butlast ds) c"
  have split: "ds = butlast ds @ [last ds]" using assms(3) by (cases ds) auto
  then have whole: "feed_data p now ds c = Feed p now (last ds) ?c" by (metis feed_data_simps)
  have c: "times_wo_overload (cc_state ?c) = times_wo_overload (cc_state c) + (length ds - 1)"
    using feed_data_calm_counter [of "butlast ds" p c now] assms(1,2) by (simp add: in_set_butlastD)
  have last: "calm_data p (last ds)" "times_wo_overload (cc_state ?c) + 1 < 2 ^ 64"
    using split assms by (metis last_in_set snoc_eq_iff_butlast, simp add: c)
  have "overload_off_seconds p \<le> times_wo_overload (cc_state ?c)" "no_limit_seconds p \<le> times_wo_overload (cc_state ?c)"
    using assms(3) c by auto
  then show ?thesis unfolding whole by (simp add: Feed_calm(3,4) [OF last] Feed_eqs(3))
qed

text \<open>
  (C37) When \<open>load-limit-crit-percent\<close> has its default value \<open>0\<close>, the critical share is
  always reached: \<open>overload-on-seconds\<close> has no influence, and the first second under
  pressure makes the controller overloaded.
\<close>

theorem default_crit_percent_ignores_overload_on:
  assumes "load_limit_crit_percent p = 0"
  shows "Feed (p\<lparr>overload_on_seconds := k\<rparr>) now d c = Feed p now d c
     \<and> (IsOverloadedNow (cc_state c) d p \<longrightarrow> is_overloaded (cc_state (Feed p now d c)))"
proof -
  let ?p = "p\<lparr>overload_on_seconds := k\<rparr>"
  have calc: "CalcNewLimit st d ?p = CalcNewLimit st d p" for st
    by (cases "current_limit st") (simp_all add: CalcNewLimit_def start_limit_def limit_down_def limit_up_def)
  have now: "IsOverloadedNow st d ?p = IsOverloadedNow st d p" for st by (simp add: IsOverloadedNow_def)
  have "change_state now ?p d pr x = change_state now p d pr x" for pr x
    using assms by (cases x) (simp add: change_state_def calc split: option.splits)
  moreover have "drop_limit ?p st = drop_limit p st" for st by (simp add: drop_limit_def)
  ultimately have "Feed ?p now d c = Feed p now d c" by (simp add: Feed_def now)
  then show ?thesis using assms by (simp add: Feed_eqs change_state_def)
qed

subsection \<open>The limit in force\<close>








subsection \<open>The watchdog\<close>











subsection \<open>The settings\<close>

text \<open>
  The congestion control limits nothing unless everything is in place: after the component
  is made, after any update of its configuration and after the start, it is enabled exactly if it is not in
  fake mode, there is a handler that may be throttled, and the dynamic configuration enables it.
  It starts in fake mode when fewer cores are available than asked for.
\<close>

lemma component_enabled_iff:
  assumes "make_CcComponent config is_in_rtc cpu_limit enabled0 factor0 now srv = Inr c"
  shows "cc_is_enabled (ci_controller (comp_info
       (OnConfigUpdate enabled factor (OnAllComponentsLoaded handlers enabled1 factor1 c)))) \<longleftrightarrow>
     \<not> the_default False (cfg_fake_mode config) \<and> of_nat (the_default 1 (cfg_min_cpu config)) \<le> the_default 0 cpu_limit \<and>
     0 < handlers \<and> enabled"
  using assms
  by (auto simp: make_CcComponent_def OnConfigUpdate_def OnAllComponentsLoaded_def SetEnabled_def Let_def split: if_splits)

subsection \<open>Examples\<close>

definition busy :: SensorData where
  "busy = \<lparr>current_load = 100, overload_events_count = 50, no_overload_events_count = 50, data_tp = 0\<rparr>"

definition idle :: SensorData where
  "idle = \<lparr>current_load = 100, overload_events_count = 0, no_overload_events_count = 50, data_tp = 0\<rparr>"

definition sample_server :: HttpRequestHandler where
  "sample_server =
     \<lparr>hrh_is_monitor = False, server_name = ''s'', handler_info_index = empty_HandlerInfoIndex,
      server_rate_limit = \<lparr>max_size = 2, token_refill_amount = 1, token_refill_interval = 500000000, tokens = 2,
        last_update = 0, obtain_failed = 0\<rparr>,
      cc_status_code = HttpStatus_kTooManyRequests, cc_enabled_tp = 0, cc_status_code_is_custom = 0\<rparr>"

lemma start_limit_samples: "start_limit busy default_policy = 75" "start_limit idle default_policy = 75"
  by (simp_all add: start_limit_def busy_def idle_def default_policy_def double_mul_def)

lemma pressing_busy: "pressing default_policy busy" and calm_idle: "calm_data default_policy idle"
  by (simp_all add: pressing_def calm_data_def busy_def idle_def default_policy_def)

lemma default_policy_selectors:
  "min_limit default_policy = 10" "overload_on_seconds default_policy = 3" "overload_off_seconds default_policy = 3"
  "no_limit_seconds default_policy = 1000" "load_limit_crit_percent default_policy = 0"
  by (simp_all add: default_policy_def)

lemma policy_ok_default: "policy_ok default_policy"
  by (simp add: policy_ok_def default_policy_def)

theorem controller_invariant_witness:
  "case load_limit (cc_limit (feed_all [(default_policy, 0, busy), (default_policy, 1, idle)] (new_Controller 0))) of
     None \<Rightarrow> True | Some l \<Rightarrow> 10 \<le> l"
  using controller_invariant [of "[(default_policy, 0, busy), (default_policy, 1, idle)]" 10 75 _ 0, OF _ _ _ _ refl]
  by (auto simp: start_limit_samples default_policy_selectors split: option.splits)

theorem sustained_overload_reaches_minimum_witness:
  "load_limit (cc_limit (feed_data default_policy 0 (replicate 100 busy) (new_Controller 0))) = Some 10"
  using sustained_overload_reaches_minimum [of "replicate 100 busy" default_policy 75 "new_Controller 0" 0]
  by (simp add: start_limit_samples pressing_busy policy_ok_default limit_inv_def new_Controller_def initial_state_def
      default_policy_selectors)

theorem recovery_removes_limit_witness:
  "load_limit (cc_limit (feed_data default_policy 0 (replicate 1001 idle) (new_Controller 0))) = None"
  using recovery_removes_limit [of "replicate 1001 idle" default_policy "new_Controller 0" 0]
  by (simp add: calm_idle new_Controller_def initial_state_def default_policy_selectors)

theorem default_crit_percent_ignores_overload_on_witness:
  "is_overloaded (cc_state (Feed default_policy 0 busy (new_Controller 0)))"
  using default_crit_percent_ignores_overload_on [of default_policy 1000 0 busy "new_Controller 0"]
  by (simp add: pressing_now [OF pressing_busy] default_policy_selectors)


text \<open>A server that is overloaded in its second second.\<close>

definition open_server :: HttpRequestHandler where
  "open_server = sample_server\<lparr>server_rate_limit := \<lparr>max_size = 1, token_refill_amount = 1, token_refill_interval = 0,
     tokens = 1, last_update = 0, obtain_failed = 0\<rparr>\<rparr>"





lemma component_enabled_iff_witness:
  "\<exists>c. make_CcComponent \<lparr>cfg_fake_mode = None, cfg_min_cpu = Some 4, cfg_only_rtc = None, cfg_status_code = None\<rparr>
       True (Some 2) True 5 0 open_server = Inr c \<and>
     \<not> cc_is_enabled (ci_controller (comp_info (OnConfigUpdate True 5 (OnAllComponentsLoaded 3 True 5 c))))"
proof -
  let ?cfg = "\<lparr>cfg_fake_mode = None, cfg_min_cpu = Some 4, cfg_only_rtc = None, cfg_status_code = None\<rparr>"
  obtain c where "make_CcComponent ?cfg True (Some 2) True 5 0 open_server = Inr c"
    by (auto simp: make_CcComponent_def the_default_def Let_def)
  with component_enabled_iff [OF this, of True 5 3 True 5] show ?thesis by (simp add: the_default_def)
qed

end
