(* ===== verification/Multipart_Correct.thy ===== *)
theory Multipart_Correct
  imports Request_Correct
begin

section \<open>What the parser of multipart bodies accepts\<close>

text \<open>
  The search for the end of a part is a search for the delimiter; the arguments that are
  collected are never empty lists, so that reading one does not throw; and a form that is written
  the way RFC 7578 describes is read back.
\<close>

subsection \<open>The search for the delimiter\<close>

abbreviation delimiter :: "string \<Rightarrow> string \<Rightarrow> string" where
  "delimiter crlf boundary \<equiv> crlf @ ''--'' @ boundary"

text \<open>What the search relies on: the first byte of a line break occurs nowhere else in the delimiter.\<close>

definition delimiter_ok :: "string \<Rightarrow> string \<Rightarrow> bool" where
  "delimiter_ok crlf boundary \<longleftrightarrow>
     crlf \<noteq> [] \<and> hd crlf \<notin> set (tl crlf) \<and> hd crlf \<noteq> CHR ''-'' \<and> hd crlf \<notin> set boundary"

lemma delimiter_ok_head: "delimiter_ok crlf boundary \<Longrightarrow> hd crlf \<notin> set (tl (delimiter crlf boundary))"
  by (cases crlf) (auto simp: delimiter_ok_def)

lemma match_len_take: "take (match_len w s) s = take (match_len w s) w"
  by (induction w s rule: match_len.induct) auto

lemma match_len_le: "match_len w s \<le> length w" "match_len w s \<le> length s"
  by (induction w s rule: match_len.induct) auto

lemma match_len_full: "match_len w s = length w \<longleftrightarrow> take (length w) s = w"
  by (induction w s rule: match_len.induct) auto

text \<open>A word whose first byte does not occur again cannot overlap with itself.\<close>

lemma find_sub_skip:
  assumes "pat = c # cs" and "c \<notin> set xs" and "take (length pat) (c # xs @ ys) \<noteq> pat"
  shows "find_sub pat (c # xs @ ys) = map_option (\<lambda>i. Suc (length xs) + i) (find_sub pat ys)"
  using find_sub_append_miss [OF assms(1,2), of ys] assms(3) by (cases "find_sub pat ys") auto

lemma find_sub_delimited:
  assumes "pat = c # cs" and "c \<notin> set cs" and "find_sub pat v = None"
  shows "find_sub pat (v @ pat @ rest) = Some (length v)"
  using assms(3)
proof (induction v)
  case Nil
  then show ?case using assms(1) by simp
next
  case (Cons x v)
  have none: "take (length pat) (x # v) \<noteq> pat" "find_sub pat v = None"
    using Cons.prems by (auto split: if_splits)
  have "take (length pat) ((x # v) @ pat @ rest) \<noteq> pat"
  proof
    assume eq: "take (length pat) ((x # v) @ pat @ rest) = pat"
    show False
    proof (cases "length pat \<le> length (x # v)")
      case True
      then have "take (length pat) ((x # v) @ pat @ rest) = take (length pat) (x # v)" by (subst take_append) simp
      then show False using eq none(1) by simp
    next
      case False
      let ?n = "length (x # v)"
      have "pat ! ?n = ((x # v) @ pat @ rest) ! ?n" using False eq by (metis not_le nth_take)
      also have "\<dots> = c" using assms(1) by (simp only: nth_append_length_plus [where n = 0, simplified] nth_append) simp
      finally have "cs ! length v = c" "length v < length cs" using False assms(1) by simp_all
      then show False using assms(2) nth_mem by metis
    qed
  qed
  then show ?case using Cons.IH [OF none(2)] by simp
qed

lemma find_sub_end: "find_sub pat s = Some i \<Longrightarrow> i + length pat \<le> length s"
proof (induction s arbitrary: i)
  case (Cons x s)
  then show ?case by (auto split: if_splits) (metis length_Cons length_take min.cobounded1)
qed (simp split: if_splits)

lemma find_boundary_from_spec:
  assumes "delimiter_ok crlf boundary"
  shows "find_boundary_from body boundary crlf pos =
     map_option (\<lambda>i. pos + i + length (delimiter crlf boundary)) (find_sub (delimiter crlf boundary) (drop pos body))"
proof (induction "length body - pos" arbitrary: pos rule: less_induct)
  case less
  let ?d = "delimiter crlf boundary"
  obtain c cs where crlf: "crlf = c # cs" using assms by (cases crlf) (auto simp: delimiter_ok_def)
  have c: "c \<notin> set cs" "c \<noteq> CHR ''-''" "c \<notin> set boundary" using assms crlf by (auto simp: delimiter_ok_def)
  show ?case
  proof (cases "pos < length body")
    case False
    then show ?thesis by (simp add: find_boundary_from.simps crlf)
  next
    case True
    note round = find_boundary_round [OF True, of crlf boundary]
    have IH: "find_boundary_from body boundary crlf q =
        map_option (\<lambda>i. q + i + length ?d) (find_sub ?d (drop q body))" if "pos < q" for q
      using less.hyps [of q] True that by auto
    show ?thesis
    proof (cases "pos + length crlf < length body \<and> substr pos (length crlf) body = crlf")
      case False
      have "take (length ?d) (drop pos body) \<noteq> ?d"
      proof
        assume eq: "take (length ?d) (drop pos body) = ?d"
        then have "length ?d \<le> length body - pos" by (metis length_drop length_take min.cobounded1 min_def)
        moreover have "take (length crlf) (drop pos body) = crlf"
          using arg_cong [OF eq, of "take (length crlf)"] by (simp add: min_def)
        ultimately show False using False by (simp add: substr_def)
      qed
      then have "find_sub ?d (drop pos body) = map_option Suc (find_sub ?d (drop (pos + 1) body))"
        using True by (simp add: Cons_nth_drop_Suc [symmetric])
      then show ?thesis
        using round False IH [of "pos + 1"] crlf by (cases "find_sub ?d (drop (pos + 1) body)") auto
    next
      case match: True
      let ?s = "drop (pos + length crlf) body" and ?w = "''--'' @ boundary"
      let ?k = "match_len ?w ?s"
      have tail: "drop pos body = crlf @ ?s"
        using match append_take_drop_id [of "length crlf" "drop pos body"] by (simp add: substr_def add.commute)
      show ?thesis
      proof (cases "?k = length boundary + 2")
        case True
        then have "take (length ?w) ?s = ?w" using match_len_full [of ?w ?s] by simp
        then have "take (length ?d) (drop pos body) = ?d" unfolding tail by simp
        then have "find_sub ?d (drop pos body) = Some 0" by (cases "drop pos body") (auto simp: crlf)
        then show ?thesis using round match True crlf by (simp add: Let_def)
      next
        case False
        have "take (length ?w) ?s \<noteq> ?w" using False match_len_full [of ?w ?s] by auto
        then have ne: "take (length ?d) (crlf @ ?s) \<noteq> ?d" by simp
        have xs: "c \<notin> set (cs @ take ?k ?s)"
          using c match_len_take [of ?w ?s] set_take_subset [of ?k ?w] by (auto dest: in_set_takeD)
        have "crlf @ ?s = c # (cs @ take ?k ?s) @ drop ?k ?s" by (simp add: crlf del: drop_drop)
        then have "find_sub ?d (drop pos body) = map_option (\<lambda>i. length crlf + ?k + i) (find_sub ?d (drop (pos + length crlf + ?k) body))"
          using find_sub_skip [of ?d c "cs @ ''--'' @ boundary" "cs @ take ?k ?s" "drop ?k ?s"] xs ne match_len_le(2) [of ?w ?s]
          unfolding tail by (simp add: crlf add.commute add.left_commute)
        then show ?thesis
          using round match False crlf IH [of "pos + length crlf + ?k"]
          by (cases "find_sub ?d (drop (pos + length crlf + ?k) body)") (simp_all add: Let_def)
      qed
    qed
  qed
qed

text \<open>
  The search for the end of a part finds the first occurrence of the delimiter, although it never
  steps back after a partial match: the position returned is just behind the first line break that is
  followed by two hyphens and the boundary, and none is returned only if there is none.
\<close>

theorem find_boundary_end_is_search:
  assumes "delimiter_ok crlf boundary"
  shows "FindBoundaryEnd body boundary crlf =
     map_option (\<lambda>i. i + length (crlf @ ''--'' @ boundary)) (find_sub (crlf @ ''--'' @ boundary) body)"
  using find_boundary_from_spec [OF assms, of body 0] by (simp add: FindBoundaryEnd_def)

theorem find_boundary_end_is_search_witness:
  "FindBoundaryEnd ([kCr, kLf] @ ''--ab'' @ [kCr, kLf] @ ''--abc'') ''abc'' [kCr, kLf] = Some 13"
  using find_boundary_end_is_search [of "[kCr, kLf]" "''abc''" "[kCr, kLf] @ ''--ab'' @ [kCr, kLf] @ ''--abc''"]
  by (simp add: delimiter_ok_def kCr_def kLf_def)

subsection \<open>The collected arguments\<close>

definition form_args_wf :: "FormDataArgs \<Rightarrow> bool" where
  "form_args_wf args \<longleftrightarrow> (\<forall>name as. args name = Some as \<longrightarrow> as \<noteq> [] \<and> (\<forall>a\<in>set as. fd_content_disposition a \<noteq> []))"

lemma add_form_arg_wf:
  "form_args_wf args \<Longrightarrow> fd_content_disposition arg \<noteq> [] \<Longrightarrow> form_args_wf (add_form_arg name arg args)"
  by (cases "args name") (fastforce simp: form_args_wf_def add_form_arg_def split: if_splits)+

lemma set_charset_wf: "form_args_wf args \<Longrightarrow> form_args_wf (set_charset charset args)"
  by (auto simp: form_args_wf_def set_charset_def)

lemma ParseMultipartFormDataValue_wf:
  "ParseMultipartFormDataValue body boundary info charset args crlf = Some (rest, charset', args') \<Longrightarrow> form_args_wf args
     \<Longrightarrow> form_args_wf args'"
  by (auto simp: ParseMultipartFormDataValue_def Let_def add_form_arg_wf split: if_splits option.splits)

lemma parts_loop_wf: "form_args_wf args \<Longrightarrow> form_args_wf (snd (parts_loop boundary crlf body charset args))"
proof (induction boundary crlf body charset args rule: parts_loop.induct)
  case (1 boundary crlf body charset args)
  show ?case
    using "1.prems"
    by (subst parts_loop.simps)
      (auto simp: set_charset_wf split: option.splits intro: "1.IH" ParseMultipartFormDataValue_wf)
qed

lemma ParseMultipartFormData_wf:
  "form_args_wf args \<Longrightarrow> form_args_wf (snd (ParseMultipartFormData content_type body args strict_cr_lf))"
  by (auto simp: ParseMultipartFormData_def ParseMultipartFormDataBody_def Let_def parts_loop_wf split: option.splits prod.splits)

subsection \<open>Writing a form\<close>

abbreviation CRLF :: string where
  "CRLF \<equiv> [kCr, kLf]"

record form_part =
  part_name :: string
  part_filename :: "string option"
  part_type :: "string option"
  part_value :: string

definition escape :: "char \<Rightarrow> string" where
  "escape c = (if c = CHR 0x22 \<or> c = CHR 0x5C then [CHR 0x5C, c] else [c])"

definition quote :: "string \<Rightarrow> string" where
  "quote s = [CHR 0x22] @ concat (map escape s) @ [CHR 0x22]"

definition param :: "string \<Rightarrow> string option \<Rightarrow> string" where
  "param key v = (case v of None \<Rightarrow> [] | Some s \<Rightarrow> ''; '' @ key @ ''='' @ quote s)"

definition disposition :: "form_part \<Rightarrow> string" where
  "disposition p = ''form-data'' @ param ''name'' (Some (part_name p)) @ param ''filename'' (part_filename p)"

definition header_line :: "string \<Rightarrow> string \<Rightarrow> string" where
  "header_line name v = name @ '': '' @ v @ CRLF"

definition encode_part :: "string \<Rightarrow> form_part \<Rightarrow> string" where
  "encode_part boundary p =
     CRLF @ header_line ''Content-Disposition'' (disposition p) @
     (case part_type p of None \<Rightarrow> [] | Some t \<Rightarrow> header_line ''Content-Type'' t) @
     CRLF @ part_value p @ delimiter CRLF boundary"

definition encode_form :: "string \<Rightarrow> form_part list \<Rightarrow> string" where
  "encode_form boundary parts = ''--'' @ boundary @ concat (map (encode_part boundary) parts) @ ''--'' @ CRLF"

definition form_content_type :: "string \<Rightarrow> string option \<Rightarrow> string" where
  "form_content_type boundary charset = ''multipart/form-data'' @ param ''boundary'' (Some boundary) @ param ''charset'' charset"

text \<open>Header values have no control characters and no spaces around them; the delimiter does not occur in the content.\<close>

definition trimmed :: "string \<Rightarrow> bool" where
  "trimmed v \<longleftrightarrow> v \<noteq> [] \<and> \<not> IsWsp (hd v) \<and> \<not> IsWsp (last v) \<and> (\<forall>c\<in>set v. field_char c)"

definition part_ok :: "string \<Rightarrow> form_part \<Rightarrow> bool" where
  "part_ok boundary p \<longleftrightarrow>
     part_name p \<noteq> [] \<and> part_name p \<noteq> ''_charset_'' \<and> (\<forall>c\<in>set (part_name p). field_char c) \<and>
     (case part_filename p of None \<Rightarrow> True | Some f \<Rightarrow> \<forall>c\<in>set f. field_char c) \<and>
     (case part_type p of None \<Rightarrow> True | Some t \<Rightarrow> trimmed t) \<and>
     find_sub (delimiter CRLF boundary) (part_value p) = None"

definition part_arg :: "string option \<Rightarrow> form_part \<Rightarrow> FormDataArg" where
  "part_arg charset p =
     \<lparr>fd_value = part_value p, fd_content_disposition = disposition p, fd_filename = part_filename p,
      fd_default_charset = charset, fd_content_type = part_type p\<rparr>"

subsection \<open>Reading it back\<close>

lemma SkipOptionalSpaces_Cons [simp]: "\<not> IsWsp c \<Longrightarrow> SkipOptionalSpaces (c # s) = c # s"
  by simp

lemma read_quoted_escape: "read_quoted (escape c @ s) v = read_quoted s (v @ [c])"
  by (simp add: escape_def)

lemma read_quoted_quote: "read_quoted (concat (map escape s) @ CHR 0x22 # rest) v = Some (v @ s, rest)"
proof (induction s arbitrary: v)
  case (Cons c s)
  show ?case using Cons.IH [of "v @ [c]"] by (simp only: list.map concat.simps append_assoc read_quoted_escape) simp
qed simp

lemma ParseHeaderParamValue_quote: "ParseHeaderParamValue (quote s @ rest) = Some (s, rest)"
  by (simp add: ParseHeaderParamValue_def quote_def IsWsp_def read_quoted_quote)

lemma ReadToken_append:
  assumes "\<forall>c\<in>set name. token_char c" and "rest = [] \<or> \<not> token_char (hd rest)"
  shows "ReadToken (name @ rest) = (name, rest)"
  using assms by (cases rest) (auto simp: ReadToken_def takeWhile_append2 dropWhile_append2)

lemma space_no_token: "IsWsp c \<Longrightarrow> \<not> token_char c"
  unfolding IsWsp_def by (elim disjE) (simp_all add: token_char_def)

lemma param_loop_param:
  assumes "\<forall>c\<in>set key. token_char c" and "key \<noteq> []"
  shows "param_loop assign (param key v @ rest) a =
     (case v of None \<Rightarrow> param_loop assign rest a | Some s \<Rightarrow> param_loop assign (SkipOptionalSpaces rest) (assign key s a))"
proof (cases v)
  case (Some s)
  have "\<not> IsWsp (hd key)" using assms space_no_token by (cases key) auto
  then have skip: "SkipOptionalSpaces (CHR '' '' # key @ rest') = key @ rest'" for rest'
    using assms(2) by (cases key) (auto simp: IsWsp_def)
  have "ReadToken (key @ CHR ''='' # quote s @ rest) = (key, CHR ''='' # quote s @ rest)"
    using assms(1) by (intro ReadToken_append) (auto simp: token_char_def)
  then show ?thesis
    using Some assms(2) skip
    by (subst param_loop.simps) (simp add: param_def SkipSymbol_def IsWsp_def ParseHeaderParamValue_quote)
qed (simp add: param_def)

lemma param_loop_Nil [simp]: "param_loop assign [] a = Some a"
  by (simp add: param_loop.simps)

lemma key_chars:
  "\<forall>c\<in>set ''name''. token_char c" "\<forall>c\<in>set ''filename''. token_char c" "\<forall>c\<in>set ''boundary''. token_char c"
  "\<forall>c\<in>set ''charset''. token_char c" "\<forall>c\<in>set ''form-data''. token_char c" "\<forall>c\<in>set ''Content-Disposition''. token_char c"
  "\<forall>c\<in>set ''Content-Type''. token_char c"
  by (simp_all add: token_char_def)

lemma TrimOws_trimmed:
  assumes "trimmed v"
  shows "TrimOws (CHR '' '' # v) = v"
proof -
  obtain c w where v: "v = c # w" using assms by (cases v) (auto simp: trimmed_def)
  have l: "LtrimOws (CHR '' '' # v) = v" using assms v by (simp add: LtrimOws_def IsWsp_def trimmed_def)
  obtain u d where u: "v = u @ [d]" using assms by (cases v rule: rev_cases) (auto simp: trimmed_def)
  have "rfind_pos (\<lambda>c. \<not> IsWsp c) v = Some (length v - 1)" using assms u by (simp add: rfind_pos_def trimmed_def)
  then show ?thesis unfolding TrimOws_def l RtrimOws_def using u by simp
qed

lemma field_char_special: "field_char (CHR '' '')" "\<not> field_char kCr" "field_char (CHR 0x22)" "field_char (CHR 0x5C)"
  by (simp_all add: field_char_def kCr_def)

lemma ReadHeaderValue_line:
  assumes "trimmed v"
  shows "ReadHeaderValue (CHR '' '' # v @ kCr # rest) = (v, kCr # rest)"
proof -
  have "\<forall>c\<in>set (CHR '' '' # v). field_char c" using assms field_char_special by (simp add: trimmed_def)
  then have "takeWhile field_char ((CHR '' '' # v) @ kCr # rest) = CHR '' '' # v"
      "dropWhile field_char ((CHR '' '' # v) @ kCr # rest) = kCr # rest"
    using field_char_special(2) by (simp_all only: takeWhile_append2 dropWhile_append2, simp_all)
  then show ?thesis using TrimOws_trimmed [OF assms] by (simp add: ReadHeaderValue_def)
qed

lemma headers_step:
  assumes "\<forall>c\<in>set name. token_char c" and "name \<noteq> []" and "hd name \<noteq> kCr" and "trimmed v"
  shows "ParseMultipartFormDataHeaders CRLF (header_line name v @ rest) info =
     (case ProcessMultipartFormDataHeader name v info of
        None \<Rightarrow> None | Some info' \<Rightarrow> ParseMultipartFormDataHeaders CRLF rest info')"
proof -
  have token: "ReadToken (name @ CHR '':'' # s) = (name, CHR '':'' # s)" for s
    using assms(1) by (intro ReadToken_append) (auto simp: token_char_def)
  have "take 2 (name @ s) \<noteq> CRLF" for s using assms(2,3) by (cases name) auto
  then show ?thesis
    using assms(2) token ReadHeaderValue_line [OF assms(4)]
    by (subst ParseMultipartFormDataHeaders.simps) (simp add: header_line_def SkipSymbol_def eval_nat_numeral)
qed

lemma headers_done: "ParseMultipartFormDataHeaders CRLF (CRLF @ rest) info = Some (rest, info)"
  by (subst ParseMultipartFormDataHeaders.simps) (simp add: SkipSymbol_def)

lemma disposition_trimmed:
  assumes "part_ok boundary p"
  shows "trimmed (disposition p)"
proof -
  have esc: "\<forall>c\<in>set s. field_char c \<Longrightarrow> \<forall>c\<in>set (quote s). field_char c" for s
    using field_char_special by (auto simp: quote_def escape_def)
  have last: "last (quote s) = CHR 0x22" "quote s \<noteq> []" for s by (simp_all add: quote_def)
  have lit: "\<forall>c\<in>set ''form-data; name=''. field_char c" "\<forall>c\<in>set ''; filename=''. field_char c" by (simp_all add: field_char_def)
  show ?thesis
    using assms lit esc last
    by (auto simp: trimmed_def disposition_def param_def part_ok_def IsWsp_def split: option.splits)
qed

lemma ParseContentDisposition_disposition:
  assumes "part_name p \<noteq> []"
  shows "ParseContentDisposition (disposition p) info =
     Some (info\<lparr>info_name := part_name p,
       info_arg := (case part_filename p of None \<Rightarrow> info_arg info | Some f \<Rightarrow> (info_arg info)\<lparr>fd_filename := Some f\<rparr>)\<rparr>)"
proof -
  let ?rest = "param ''name'' (Some (part_name p)) @ param ''filename'' (part_filename p)"
  have "ReadToken (''form-data'' @ ?rest) = (''form-data'', ?rest)"
    using key_chars(5) by (intro ReadToken_append) (auto simp: param_def token_char_def)
  moreover have "SkipOptionalSpaces ?rest = ?rest" by (simp add: param_def IsWsp_def)
  moreover have "SkipOptionalSpaces (param ''filename'' v) = param ''filename'' v" for v
    by (simp add: param_def IsWsp_def split: option.splits)
  moreover have "param_loop assign_disposition (param ''filename'' v) i =
      Some (case v of None \<Rightarrow> i | Some f \<Rightarrow> i\<lparr>info_arg := (info_arg i)\<lparr>fd_filename := Some f\<rparr>\<rparr>)" for v i
    using param_loop_param [OF key_chars(2), of assign_disposition v "[]" i]
    by (simp add: assign_disposition_def StrIcaseEqual_def split: option.splits)
  ultimately show ?thesis
    using assms param_loop_param [OF key_chars(1), of assign_disposition "Some (part_name p)" "param ''filename'' (part_filename p)" info]
    by (simp add: ParseContentDisposition_def disposition_def StrIcaseEqual_def assign_disposition_def split: option.splits)
qed

lemma part_headers:
  assumes "part_ok boundary p"
  shows "ParseMultipartFormDataHeaders CRLF
       (header_line ''Content-Disposition'' (disposition p) @
        (case part_type p of None \<Rightarrow> [] | Some t \<Rightarrow> header_line ''Content-Type'' t) @ CRLF @ rest) new_info =
     Some (rest, \<lparr>info_name = part_name p, info_arg = (part_arg None p)\<lparr>fd_value := []\<rparr>\<rparr>)"
proof -
  have name: "part_name p \<noteq> []" using assms by (simp add: part_ok_def)
  let ?info = "\<lparr>info_name = part_name p, info_arg = (part_arg None p)\<lparr>fd_value := [], fd_content_type := None\<rparr>\<rparr>"
  have disp: "ProcessMultipartFormDataHeader ''Content-Disposition'' (disposition p) new_info = Some ?info"
    using ParseContentDisposition_disposition [OF name]
    by (simp add: ProcessMultipartFormDataHeader_def StrIcaseEqual_def new_info_def empty_FormDataArg_def part_arg_def split: option.splits)
  have type: "ProcessMultipartFormDataHeader ''Content-Type'' t i = Some (i\<lparr>info_arg := (info_arg i)\<lparr>fd_content_type := Some t\<rparr>\<rparr>)" for t i
    by (simp add: ProcessMultipartFormDataHeader_def StrIcaseEqual_def to_lower_def)
  have "ParseMultipartFormDataHeaders CRLF ((case part_type p of None \<Rightarrow> [] | Some t \<Rightarrow> header_line ''Content-Type'' t) @ CRLF @ rest) ?info
      = Some (rest, \<lparr>info_name = part_name p, info_arg = (part_arg None p)\<lparr>fd_value := []\<rparr>\<rparr>)"
  proof (cases "part_type p")
    case None
    then show ?thesis using headers_done [of rest ?info] by (simp add: part_arg_def)
  next
    case (Some t)
    have "trimmed t" using assms Some by (simp add: part_ok_def)
    then show ?thesis
      using Some headers_step [OF key_chars(7), of t "CRLF @ rest" ?info] headers_done [of rest] type [of t ?info]
      by (simp add: part_arg_def kCr_def)
  qed
  then show ?thesis
    using headers_step [OF key_chars(6), of "disposition p"] disposition_trimmed [OF assms] disp by (simp add: kCr_def)
qed

lemma part_content:
  assumes "part_ok boundary p" and "kCr \<notin> set boundary"
  shows "ParseMultipartFormDataValue (part_value p @ delimiter CRLF boundary @ rest) boundary
       \<lparr>info_name = part_name p, info_arg = (part_arg None p)\<lparr>fd_value := []\<rparr>\<rparr> charset args CRLF =
     Some (SkipOptionalSpaces rest, charset, add_form_arg (part_name p) (part_arg None p) args)"
proof -
  have "delimiter_ok CRLF boundary" using assms(2) by (auto simp: delimiter_ok_def kCr_def kLf_def)
  then have "FindBoundaryEnd (part_value p @ delimiter CRLF boundary @ rest) boundary CRLF =
      map_option (\<lambda>i. i + length (delimiter CRLF boundary)) (find_sub (delimiter CRLF boundary) (part_value p @ delimiter CRLF boundary @ rest))"
    using find_boundary_from_spec [of CRLF boundary "part_value p @ delimiter CRLF boundary @ rest" 0] by (simp add: FindBoundaryEnd_def)
  also have "find_sub (delimiter CRLF boundary) (part_value p @ delimiter CRLF boundary @ rest) = Some (length (part_value p))"
    using assms by (intro find_sub_delimited [of _ kCr "kLf # ''--'' @ boundary"]) (auto simp: part_ok_def kCr_def kLf_def)
  finally have pos: "FindBoundaryEnd (part_value p @ delimiter CRLF boundary @ rest) boundary CRLF =
      Some (length (part_value p) + length (delimiter CRLF boundary))" by simp
  have "disposition p \<noteq> []" by (simp add: disposition_def)
  then show ?thesis
    using assms(1) unfolding ParseMultipartFormDataValue_def pos
    by (simp add: Let_def part_ok_def part_arg_def eval_nat_numeral)
qed

lemma parts_loop_form:
  assumes "\<forall>p\<in>set parts. part_ok boundary p" and "kCr \<notin> set boundary"
  shows "parts_loop boundary CRLF (concat (map (encode_part boundary) parts) @ ''--'' @ CRLF) charset args =
     (True, set_charset charset (fold (\<lambda>p. add_form_arg (part_name p) (part_arg None p)) parts args))"
  using assms(1)
proof (induction parts arbitrary: args)
  case Nil
  have "closing CRLF (''--'' @ CRLF)"
    by (simp add: closing_def SkipDoubleHyphen_def SkipSymbol_def IsWsp_def kCr_def Let_def)
  then show ?case by (subst parts_loop.simps) simp
next
  case (Cons p parts)
  let ?tail = "concat (map (encode_part boundary) parts) @ ''--'' @ CRLF"
  let ?headers = "header_line ''Content-Disposition'' (disposition p) @ (case part_type p of None \<Rightarrow> [] | Some t \<Rightarrow> header_line ''Content-Type'' t) @ CRLF"
  let ?content = "part_value p @ delimiter CRLF boundary @ ?tail"
  have p: "part_ok boundary p" using Cons.prems by simp
  have whole: "concat (map (encode_part boundary) (p # parts)) @ ''--'' @ CRLF = CRLF @ ?headers @ ?content"
    by (simp add: encode_part_def)
  have skip: "SkipCrLf CRLF (CRLF @ ?headers @ ?content) = Some (?headers @ ?content)" by (simp only: SkipCrLf_Some)
  have tail: "SkipOptionalSpaces ?tail = ?tail"
    by (cases parts) (simp_all add: encode_part_def IsWsp_def kCr_def)
  have headers: "ParseMultipartFormDataHeaders CRLF (?headers @ ?content) new_info =
      Some (?content, \<lparr>info_name = part_name p, info_arg = (part_arg None p)\<lparr>fd_value := []\<rparr>\<rparr>)"
    using part_headers [OF p, of ?content] by (simp only: append_assoc)
  have "parts_loop boundary CRLF (CRLF @ ?headers @ ?content) charset args =
      parts_loop boundary CRLF ?tail charset (add_form_arg (part_name p) (part_arg None p) args)"
    using skip headers part_content [OF p assms(2), of ?tail charset args] tail
    by (subst parts_loop.simps) (simp add: kCr_def)
  then show ?case unfolding whole using Cons by simp
qed

lemma ParseMultipartFormData_form:
  assumes "boundary \<noteq> []" and "kCr \<notin> set boundary" and "\<forall>p\<in>set parts. part_ok boundary p" and "charset \<noteq> Some []"
  shows "ParseMultipartFormData (form_content_type boundary charset) (encode_form boundary parts) args strict_cr_lf =
     (True, set_charset charset (fold (\<lambda>p. add_form_arg (part_name p) (part_arg None p)) parts args))"
proof -
  let ?body = "concat (map (encode_part boundary) parts) @ ''--'' @ CRLF"
  have ct: "IsMultipartFormDataContentType (form_content_type boundary charset)"
    by (simp add: IsMultipartFormDataContentType_def form_content_type_def StrIcaseEqual_def param_def)
  have skip: "SkipOptionalSpaces (param ''boundary'' (Some boundary) @ s) = param ''boundary'' (Some boundary) @ s"
    "SkipOptionalSpaces (param ''charset'' v) = param ''charset'' v" for s v
    by (simp_all add: param_def IsWsp_def split: option.splits)
  have "param_loop assign_content_type (param ''charset'' charset) (boundary, []) = Some (boundary, case charset of None \<Rightarrow> [] | Some c \<Rightarrow> c)"
    using param_loop_param [OF key_chars(4), of assign_content_type charset "[]" "(boundary, [])"]
    by (simp add: assign_content_type_def StrIcaseEqual_def split: option.splits)
  then have params: "param_loop assign_content_type (SkipOptionalSpaces (param ''boundary'' (Some boundary) @ param ''charset'' charset)) ([], [])
      = Some (boundary, case charset of None \<Rightarrow> [] | Some c \<Rightarrow> c)"
    using param_loop_param [OF key_chars(3), of assign_content_type "Some boundary" "param ''charset'' charset" "([], [])"] skip
    by (simp add: assign_content_type_def StrIcaseEqual_def)
  have first: "hd ?body = CHR ''-'' \<or> (\<exists>s. ?body = CRLF @ s)" by (cases parts) (auto simp: encode_part_def)
  then have crlf: "AutoDetectCrLf ?body CRLF = CRLF" by (auto simp: AutoDetectCrLf_def kCr_def kLf_def split: list.splits)
  have tail: "SkipOptionalSpaces ?body = ?body"
    by (cases parts) (simp_all add: encode_part_def IsWsp_def kCr_def)
  have "ParseMultipartFormDataBody (encode_form boundary parts) boundary cs args strict_cr_lf =
      parts_loop boundary CRLF ?body (if cs \<noteq> [] then Some cs else None) args" for cs
    using crlf tail by (simp add: ParseMultipartFormDataBody_def encode_form_def substr_def Let_def)
  then show ?thesis
    using ct params assms(1,4) parts_loop_form [OF assms(3,2)]
    by (cases charset) (auto simp: ParseMultipartFormData_def form_content_type_def)
qed

lemma fold_add_form_arg:
  "(case fold (\<lambda>p. add_form_arg (part_name p) (f p)) parts args n of None \<Rightarrow> [] | Some as \<Rightarrow> as) =
     (case args n of None \<Rightarrow> [] | Some as \<Rightarrow> as) @ map f (filter (\<lambda>p. part_name p = n) parts)"
  by (induction parts arbitrary: args) (auto simp: add_form_arg_def split: option.splits)

text \<open>
  (C14) A form that is written part by part, names and file names quoted and the delimiter not
  occurring in a content, is read back whether or not line breaks are checked strictly: under every
  name there are exactly the parts of that name in their order, each with its content, file name,
  type and the character set of the form.
\<close>

theorem multipart_roundtrip:
  assumes "boundary \<noteq> []" and "kCr \<notin> set boundary" and "\<forall>p\<in>set parts. part_ok boundary p" and "charset \<noteq> Some []"
  shows "\<exists>args. ParseMultipartFormData (form_content_type boundary charset) (encode_form boundary parts) Map.empty strict_cr_lf = (True, args)
     \<and> (\<forall>n. (case args n of None \<Rightarrow> [] | Some as \<Rightarrow> as) = map (part_arg charset) (filter (\<lambda>p. part_name p = n) parts))"
proof -
  let ?args = "fold (\<lambda>p. add_form_arg (part_name p) (part_arg None p)) parts Map.empty"
  have arg: "(\<lambda>a. if charset \<noteq> None then a\<lparr>fd_default_charset := charset\<rparr> else a) \<circ> part_arg None = part_arg charset"
    by (auto simp: part_arg_def fun_eq_iff)
  have "(case set_charset charset ?args n of None \<Rightarrow> [] | Some as \<Rightarrow> as) =
      map (\<lambda>a. if charset \<noteq> None then a\<lparr>fd_default_charset := charset\<rparr> else a) (case ?args n of None \<Rightarrow> [] | Some as \<Rightarrow> as)" for n
    by (simp add: set_charset_def split: option.splits)
  then have "(case set_charset charset ?args n of None \<Rightarrow> [] | Some as \<Rightarrow> as) = map (part_arg charset) (filter (\<lambda>p. part_name p = n) parts)" for n
    by (simp only: fold_add_form_arg option.case append_Nil map_map arg)
  then show ?thesis using ParseMultipartFormData_form [OF assms] by auto
qed

definition sample_part :: form_part where
  "sample_part = \<lparr>part_name = ''photo'', part_filename = Some ''a.png'', part_type = Some ''image/png'', part_value = CRLF @ ''--''\<rparr>"

theorem multipart_roundtrip_witness:
  "\<exists>args. ParseMultipartFormData (form_content_type ''xyz'' None) (encode_form ''xyz'' [sample_part]) Map.empty False = (True, args)
     \<and> (case args ''photo'' of None \<Rightarrow> [] | Some as \<Rightarrow> as) = [part_arg None sample_part]"
proof -
  have "part_ok ''xyz'' sample_part"
    by (simp add: part_ok_def sample_part_def trimmed_def field_char_def IsWsp_def kCr_def kLf_def)
  with multipart_roundtrip [of "''xyz''" "[sample_part]" None False] show ?thesis
    by (fastforce simp: kCr_def sample_part_def)
qed

subsection \<open>The arguments of a delivered request\<close>

definition form_inv :: "HttpRequestConstructor \<Rightarrow> bool" where
  "form_inv c \<longleftrightarrow> form_args_wf (form_data_args (builder c))"

lemma form_args_wf_empty [simp]: "form_args_wf Map.empty"
  by (simp add: form_args_wf_def)

lemma form_data_args_kept [simp]:
  "form_data_args (SetPathArgs as r) = form_data_args r" "form_data_args (AddRequestArg kv r) = form_data_args r"
  "form_data_args (SetRequestBody b r) = form_data_args r" "form_data_args (Build r) = form_data_args r"
  "Request_AddHeader name v r = Inr r' \<Longrightarrow> form_data_args r' = form_data_args r"
  by (auto simp: SetPathArgs_def AddRequestArg_def SetRequestBody_def Build_def ParseCookies_def Request_AddHeader_def
      result_simps split: prod.splits)

lemma fold_AddRequestArg_form [simp]: "form_data_args (fold AddRequestArg kvs r) = form_data_args r"
  by (induction kvs arbitrary: r) simp_all

lemma account_form:
  "preserves form_inv (AccountRequestSize n)" "preserves form_inv (AccountUrlSize n)" "preserves form_inv (AccountHeadersSize n)"
  by (auto simp: preserves_def form_inv_def account_defs)

lemma AddHeader_form: "preserves form_inv AddHeader"
  by (auto simp: preserves_def form_inv_def AddHeader_def SetCtorStatus_def split: sum.splits)

lemma form_modify: "(\<And>c. form_data_args (builder (f c)) = form_data_args (builder c)) \<Longrightarrow> preserves form_inv (act_modify f)"
  by (rule preserves_modify) (simp add: form_inv_def)

lemma apply_match_form [simp]: "form_data_args (builder (apply_match env res c)) = form_data_args (builder c)"
  by (simp add: apply_match_def SetCtorStatus_def Let_def split: option.splits)

lemma append_form:
  "preserves form_inv (AppendUrl data)" "preserves form_inv (AppendHeaderField data)" "preserves form_inv (AppendHeaderValue data)"
  "preserves form_inv (AppendBody data)"
proof -
  have "preserves form_inv
      (act_then (if b then act_then AddHeader (act_modify (\<lambda>c. c\<lparr>header_value_flag := False\<rparr>)) else act_return ())
      (act_then (act_modify (\<lambda>c. c\<lparr>header_field_flag := True\<rparr>))
      (act_then (AccountHeadersSize (length data))
      (act_then (AccountRequestSize (length data))
         (act_modify (\<lambda>c. c\<lparr>header_field := header_field c @ data\<rparr>))))))" for b
    by (auto intro!: preserves_then account_form AddHeader_form form_modify)
  then show "preserves form_inv (AppendHeaderField data)" by (simp add: preserves_def AppendHeaderField_def)
qed (auto simp: AppendUrl_def AppendHeaderValue_def AppendBody_def intro!: preserves_then account_form form_modify)

lemma ParseUrl_form: "preserves form_inv (ParseUrl env)"
proof -
  have rest: "preserves form_inv
      (act_then (act_modify (\<lambda>c. apply_match env res (c\<lparr>builder := SetPathArgs (args_from_path res) (builder c)\<rparr>)))
      (act_then (AccountUrlSize 0) (act_then (AccountRequestSize 0)
         (act_modify (\<lambda>c. c\<lparr>builder := (builder c)\<lparr>req_url := ctor_url c\<rparr>, ctor_url := [], url_parsed := True\<rparr>)))))" for res
    by (auto intro!: preserves_then account_form form_modify)
  show ?thesis
    unfolding preserves_def ParseUrl_def
    using rest by (auto simp: form_inv_def SetCtorStatus_def preserves_def Let_def split: option.splits sum.splits prod.splits)
qed

lemma parse_multipart_form: "form_inv c \<Longrightarrow> form_inv (parse_multipart c)"
  using ParseMultipartFormData_wf [of Map.empty "Request_GetHeader (builder c) ''Content-Type''" "request_body (builder c)" False]
  by (auto simp: parse_multipart_def form_inv_def SetCtorStatus_def Let_def split: prod.splits bool.splits)

lemma ParseArgs_form: "preserves form_inv (ParseArgs_text t)" "preserves form_inv ParseArgs_url"
proof -
  show *: "preserves form_inv (ParseArgs_text t)" for t
    by (auto simp: preserves_def ParseArgs_text_def form_inv_def Let_def split: prod.splits option.splits)
  show "preserves form_inv ParseArgs_url"
    using * by (auto simp: preserves_def ParseArgs_url_def form_inv_def split: option.splits prod.splits)
qed

lemma FinalizeImpl_form: "form_inv c \<Longrightarrow> form_inv (FinalizeImpl c)"
proof -
  assume c: "form_inv c"
  let ?c = "c\<lparr>builder := SetRequestBody (ctor_body c) (builder c), ctor_body := []\<rparr>"
  let ?args = "act_then ParseArgs_url
    (\<lambda>c. if parse_args_from_body (config c) \<and> (\<not> decompress_request (config c) \<or> \<not> IsBodyCompressed (builder c))
         then ParseArgs_text (request_body (builder c)) c else (Inr (), c))"
  have "preserves form_inv ?args"
    using ParseArgs_form(1) by (intro preserves_then ParseArgs_form(2)) (simp add: preserves_def)
  moreover have c': "form_inv ?c" using c by (simp add: form_inv_def)
  ultimately have "form_inv (snd (?args ?c))" by (simp add: preserves_def split: prod.splits)
  then show ?thesis
    using c' by (auto simp: FinalizeImpl_def Let_def parse_multipart_form form_inv_def SetCtorStatus_def split: prod.splits sum.splits)
      (simp_all add: form_inv_def [symmetric] parse_multipart_form)
qed

definition parser_form_inv :: "HttpRequestParser \<Rightarrow> bool" where
  "parser_form_inv p \<longleftrightarrow>
     (\<forall>c. request_constructor p = Some c \<longrightarrow> form_inv c) \<and> (\<forall>r\<in>set (new_requests p). form_args_wf (form_data_args r))"

lemma on_ctor_form: "preserves form_inv f \<Longrightarrow> parser_form_inv p \<Longrightarrow> parser_form_inv (snd (on_ctor f p))"
  by (auto simp: parser_form_inv_def on_ctor_def preserves_def split: option.splits prod.splits)

lemma CheckUrlComplete_form: "parser_form_inv p \<Longrightarrow> parser_form_inv (snd (CheckUrlComplete env m j n p))"
proof -
  assume p: "parser_form_inv p"
  have "preserves form_inv (act_then (act_modify (\<lambda>c. SetHttpVersion j n (SetMethod m c))) (ParseUrl env))"
    by (intro preserves_then form_modify ParseUrl_form) (simp add: SetHttpVersion_def SetMethod_def)
  moreover have "parser_form_inv (p\<lparr>url_complete := True\<rparr>)" using p by (simp add: parser_form_inv_def)
  ultimately have on: "parser_form_inv (snd (on_ctor (act_then (act_modify (\<lambda>c. SetHttpVersion j n (SetMethod m c))) (ParseUrl env))
      (p\<lparr>url_complete := True\<rparr>)))" by (rule on_ctor_form)
  show ?thesis by (cases "url_complete p") (simp_all only: CheckUrlComplete_def if_True if_False snd_conv p on)
qed

lemma after_url_form: "preserves form_inv f \<Longrightarrow> parser_form_inv p \<Longrightarrow> parser_form_inv (snd (after_url env m j n f p))"
  using CheckUrlComplete_form [of p env m j n] on_ctor_form [of f] by (auto simp: after_url_def split: prod.splits bool.splits)

lemma new_constructor_form: "form_inv (new_constructor cfg)"
  by (simp add: form_inv_def new_constructor_def initial_request_def)

lemma FinalizeRequest_form: "parser_form_inv p \<Longrightarrow> parser_form_inv (FinalizeRequest env p)"
proof -
  have "form_inv c \<Longrightarrow> form_args_wf (form_data_args (Finalize c))" for c
    using FinalizeImpl_form [of c]
    by (auto simp: Finalize_def CheckStatus_def form_inv_def SetResponseStatus_def Let_def split: option.splits)
  then show "parser_form_inv p \<Longrightarrow> parser_form_inv (FinalizeRequest env p)"
    using new_constructor_form by (auto simp: parser_form_inv_def FinalizeRequest_def Let_def split: option.splits)
qed

lemma callback_form: "parser_form_inv p \<Longrightarrow> parser_form_inv (snd (callback env e p))"
proof (cases e)
  case OnMessageBegin
  assume "parser_form_inv p"
  then show ?thesis using OnMessageBegin new_constructor_form by (simp add: CreateRequestConstructor_def parser_form_inv_def)
next
  case (OnUrl m data)
  assume "parser_form_inv p"
  then show ?thesis
    using OnUrl by (auto intro!: on_ctor_form preserves_then form_modify append_form simp: SetMethod_def)
next
  case (OnMessageComplete m j n upgrade keep_alive)
  assume p: "parser_form_inv p"
  let ?on = "on_ctor (act_modify (\<lambda>c. c\<lparr>builder := (builder c)\<lparr>is_final := \<not> keep_alive\<rparr>\<rparr>)) p"
  have "parser_form_inv (snd ?on)" using p by (intro on_ctor_form form_modify) simp
  then show ?thesis
    using OnMessageComplete p CheckUrlComplete_form [of "snd ?on" env m j n] FinalizeRequest_form
    by (auto split: prod.splits bool.splits)
qed (auto intro: after_url_form append_form)

lemma parser_reach_form: "parser_reach env p \<Longrightarrow> parser_form_inv p"
proof (induction rule: parser_reach.induct)
  case (reach_callback p e ok p')
  then show ?case using callback_form [of p env e] by simp
qed (simp_all add: FinalizeRequest_form, simp add: parser_form_inv_def initial_parser_def)

text \<open>
  (C15) Reading an argument of a form never throws, whatever the client has sent: for every request
  the parser hands over, \<open>GetFormDataArg\<close> returns the first argument of that name, or the
  empty one if there is none, and an argument that is there came with a content disposition.
\<close>

theorem form_data_arg_never_throws:
  assumes "parser_reach env p" and "r \<in> set (new_requests p)"
  shows "\<exists>arg. GetFormDataArg r name = Inr arg
     \<and> (if HasFormDataArg r name then arg = hd (GetFormDataArgVector r name) \<and> fd_content_disposition arg \<noteq> []
        else arg = empty_FormDataArg)"
proof -
  have wf: "form_args_wf (form_data_args r)" using parser_reach_form [OF assms(1)] assms(2) by (simp add: parser_form_inv_def)
  show ?thesis
  proof (cases "form_data_args r name")
    case (Some as)
    then obtain a as' where "as = a # as'" using wf by (cases as) (auto simp: form_args_wf_def)
    then show ?thesis using Some wf
      by (auto simp: GetFormDataArg_def HasFormDataArg_def GetFormDataArgVector_def form_args_wf_def)
  qed (simp add: GetFormDataArg_def HasFormDataArg_def)
qed

theorem form_data_arg_never_throws_witness:
  "\<exists>p r arg. parser_reach sample_env p \<and> r \<in> set (new_requests p) \<and> GetFormDataArg r ''photo'' = Inr arg"
proof -
  obtain p r where run: "run_callbacks sample_env
      [OnMessageBegin, OnUrl kHead ''/users'', OnUrl kHead ''/'', OnHeadersComplete kHead 1 1, OnMessageComplete kHead 1 1 False True]
      initial_parser = (True, p)" and r: "new_requests p = [r]"
    using sample_run by blast
  have reach: "parser_reach sample_env p" by (rule run_callbacks_reach [OF reach_init run])
  have "r \<in> set (new_requests p)" using r by simp
  with form_data_arg_never_throws [OF reach this] reach show ?thesis by blast
qed

end
