(* ===== verification/Response_Cookie.thy ===== *)
theory Response_Cookie
  imports Services
begin

section \<open>Cookies of a response\<close>

text \<open>
  \<open>core/src/server/http/http_response_cookie.cpp\<close>: cookies, their checks, their text and the
  parser of that text, and the cookies of a response (\<open>HttpResponse::SetCookie\<close>).  A time point is
  the number of its nanoseconds; printing and parsing of times (\<open>utils::datetime\<close>, over a time
  zone library) are inputs.
\<close>

subsection \<open>Cookies\<close>

record Cookie =
  ck_name :: string
  ck_value :: string
  ck_path :: string
  ck_domain :: string
  ck_same_site :: string
  ck_secure :: bool
  ck_http_only :: bool
  ck_expires :: "int option"
  ck_max_age :: "int option"

definition bad_cookie_name_char :: "char \<Rightarrow> bool" where
  "bad_cookie_name_char c \<longleftrightarrow>
     byte c < 32 \<or> 127 \<le> byte c \<or> c \<in> set (''()<>@,;:/[]?={} '' @ [CHR 0x5C, CHR 0x22, CHR 0x09])"

definition bad_cookie_value_char :: "char \<Rightarrow> bool" where
  "bad_cookie_value_char c \<longleftrightarrow>
     byte c \<le> 32 \<or> 127 \<le> byte c \<or> c = CHR 0x22 \<or> c = CHR 0x2C \<or> c = CHR 0x3B \<or> c = CHR 0x5C"

definition bad_cookie_error :: "string \<Rightarrow> char \<Rightarrow> exn" where
  "bad_cookie_error what c =
     RuntimeError (''Invalid character in cookie '' @ what @ '': '' @ [CHR 0x27, c, CHR 0x27] @ '' (#'' @ dec (byte c) @ '')'')"

definition ValidateName :: "string \<Rightarrow> unit result" where
  "ValidateName name =
     (if name = [] then Inl (RuntimeError ''Empty cookie name'')
      else (case find bad_cookie_name_char name of Some c \<Rightarrow> Inl (bad_cookie_error ''name'' c) | None \<Rightarrow> Inr ()))"

text \<open>A pair of quotes around the value is allowed.\<close>

definition unquoted :: "string \<Rightarrow> string" where
  "unquoted v =
     (if 1 < length v \<and> hd v = CHR 0x22 \<and> last v = CHR 0x22 then substr 1 (length v - 2) v else v)"

definition ValidateValue :: "string \<Rightarrow> unit result" where
  "ValidateValue v =
     (case find bad_cookie_value_char (unquoted v) of Some c \<Rightarrow> Inl (bad_cookie_error ''value'' c) | None \<Rightarrow> Inr ())"

definition make_Cookie :: "string \<Rightarrow> string \<Rightarrow> Cookie result" where
  "make_Cookie name v =
     rbind (ValidateName name) (\<lambda>_. rbind (ValidateValue v) (\<lambda>_.
       Inr \<lparr>ck_name = name, ck_value = v, ck_path = [], ck_domain = [], ck_same_site = [], ck_secure = False,
            ck_http_only = False, ck_expires = None, ck_max_age = None\<rparr>))"

definition kTimePointMax :: int where
  "kTimePointMax = 2 ^ 63 - 1"

definition SetSecure :: "Cookie \<Rightarrow> Cookie" where "SetSecure c = c\<lparr>ck_secure := True\<rparr>"
definition SetHttpOnly :: "Cookie \<Rightarrow> Cookie" where "SetHttpOnly c = c\<lparr>ck_http_only := True\<rparr>"
definition SetExpires :: "int \<Rightarrow> Cookie \<Rightarrow> Cookie" where "SetExpires t c = c\<lparr>ck_expires := Some t\<rparr>"
definition SetPermanent :: "Cookie \<Rightarrow> Cookie" where "SetPermanent c = c\<lparr>ck_expires := Some kTimePointMax\<rparr>"
definition SetPath :: "string \<Rightarrow> Cookie \<Rightarrow> Cookie" where "SetPath v c = c\<lparr>ck_path := v\<rparr>"
definition SetDomain :: "string \<Rightarrow> Cookie \<Rightarrow> Cookie" where "SetDomain v c = c\<lparr>ck_domain := v\<rparr>"
definition SetSameSite :: "string \<Rightarrow> Cookie \<Rightarrow> Cookie" where "SetSameSite v c = c\<lparr>ck_same_site := v\<rparr>"
definition SetMaxAge :: "int \<Rightarrow> Cookie \<Rightarrow> Cookie" where "SetMaxAge s c = c\<lparr>ck_max_age := Some s\<rparr>"

definition IsPermanent :: "Cookie \<Rightarrow> bool" where
  "IsPermanent c \<longleftrightarrow> ck_expires c = Some kTimePointMax"

definition Cookie_Expires :: "Cookie \<Rightarrow> int" where
  "Cookie_Expires c = (case ck_expires c of Some t \<Rightarrow> t | None \<Rightarrow> 0)"

definition Cookie_MaxAge :: "Cookie \<Rightarrow> int" where
  "Cookie_MaxAge c = (case ck_max_age c of Some s \<Rightarrow> s | None \<Rightarrow> 0)"

definition Cookie_AppendToString :: "(int \<Rightarrow> string) \<Rightarrow> string \<Rightarrow> Cookie \<Rightarrow> string" where
  "Cookie_AppendToString timestring os c =
     os @ ck_name c @ ''='' @ ck_value c
     @ (if ck_domain c \<noteq> [] then ''; Domain='' @ ck_domain c else [])
     @ (if ck_path c \<noteq> [] then ''; Path='' @ ck_path c else [])
     @ (case ck_expires c of Some t \<Rightarrow> ''; Expires='' @ timestring t | None \<Rightarrow> [])
     @ (case ck_max_age c of Some s \<Rightarrow> ''; Max-Age='' @ dec_int s | None \<Rightarrow> [])
     @ (if ck_secure c then ''; Secure'' else [])
     @ (if ck_same_site c \<noteq> [] then ''; SameSite='' @ ck_same_site c else [])
     @ (if ck_http_only c then ''; HttpOnly'' else [])"

definition Cookie_ToString :: "(int \<Rightarrow> string) \<Rightarrow> Cookie \<Rightarrow> string" where
  "Cookie_ToString timestring c = Cookie_AppendToString timestring [] c"

subsection \<open>Parsing\<close>

datatype KeyType = kDomain | kExpires | kHttpOnly | kMaxAge | kPath | kSecure | kSameSite | kUnknownKey

definition kKeyTypes :: "(string \<times> KeyType) list" where
  "kKeyTypes =
     [(''domain'', kDomain), (''expires'', kExpires), (''httponly'', kHttpOnly), (''max-age'', kMaxAge), (''path'', kPath),
      (''secure'', kSecure), (''samesite'', kSameSite)]"

definition GetKeyType :: "string \<Rightarrow> KeyType" where
  "GetKeyType type =
     (case find (\<lambda>e. StrIcaseEqual (fst e) type) kKeyTypes of Some e \<Rightarrow> snd e | None \<Rightarrow> kUnknownKey)"

datatype time_error = DateParseError | TimezoneLookupError

type_synonym stringtime = "string \<Rightarrow> string \<Rightarrow> string \<Rightarrow> time_error + int"

definition kTimeFormat :: string where
  "kTimeFormat = ''%a, %d %b %Y %H:%M:%S %Z''"

definition kObsoleteTimeFormat :: string where
  "kObsoleteTimeFormat = ''%a, %d-%b-%Y %H:%M:%S %Z''"

definition ParseTime :: "stringtime \<Rightarrow> string \<Rightarrow> int option" where
  "ParseTime stringtime timestring =
     (if length timestring < 3 then None
      else (let timezone = drop (length timestring - 3) timestring in
            case stringtime timestring timezone kTimeFormat of
              Inr t \<Rightarrow> Some t
            | Inl TimezoneLookupError \<Rightarrow> None
            | Inl DateParseError \<Rightarrow>
                (case stringtime timestring timezone kObsoleteTimeFormat of Inr t \<Rightarrow> Some t | Inl _ \<Rightarrow> None)))"

text \<open>\<open>shift\<close>, key and value of the first pair; an empty value counts as none.\<close>

definition GetCookieKeyValueOpt :: "string \<Rightarrow> (nat \<times> string \<times> string option) option" where
  "GetCookieKeyValueOpt data0 =
     (case find_pos (\<lambda>c. c \<noteq> CHR '' '') data0 of
        None \<Rightarrow> None
      | Some first_non_space \<Rightarrow>
          (let data1 = drop first_non_space data0;
               (shift, data) =
                 (case find_pos (\<lambda>c. c = CHR '';'') data1 of
                    None \<Rightarrow> (first_non_space + length data1, data1)
                  | Some end_pair_pos \<Rightarrow> (first_non_space + end_pair_pos + 1, take end_pair_pos data1))
           in case find_pos (\<lambda>c. c = CHR ''='') data of
                None \<Rightarrow> Some (shift, data, None)
              | Some equal_pos \<Rightarrow>
                  if equal_pos + 1 = length data then Some (shift, take equal_pos data, None)
                  else Some (shift, take equal_pos data, Some (drop (equal_pos + 1) data))))"

definition stoll :: "string \<Rightarrow> int result" where
  "stoll s = sto_int 64 s"

text \<open>The \<open>switch\<close> over the key; only \<open>std::stoll\<close> can throw.\<close>

definition apply_option :: "stringtime \<Rightarrow> string \<times> string option \<Rightarrow> Cookie \<Rightarrow> Cookie result" where
  "apply_option stringtime kv c =
     (case (GetKeyType (fst kv), snd kv) of
        (kDomain, Some v) \<Rightarrow> Inr (SetDomain v c)
      | (kPath, Some v) \<Rightarrow> Inr (SetPath v c)
      | (kMaxAge, Some v) \<Rightarrow> rbind (stoll v) (\<lambda>s. Inr (SetMaxAge s c))
      | (kExpires, Some v) \<Rightarrow> Inr (case ParseTime stringtime v of Some t \<Rightarrow> SetExpires t c | None \<Rightarrow> c)
      | (kSameSite, Some v) \<Rightarrow> Inr (SetSameSite v c)
      | (kHttpOnly, _) \<Rightarrow> Inr (SetHttpOnly c)
      | (kSecure, _) \<Rightarrow> Inr (SetSecure c)
      | _ \<Rightarrow> Inr c)"

lemma GetCookieKeyValueOpt_shift:
  assumes "GetCookieKeyValueOpt s = Some (shift, kv)"
  shows "0 < shift \<and> s \<noteq> []"
  using assms by (auto simp: GetCookieKeyValueOpt_def Let_def split: option.splits if_splits dest: find_pos_less)

function options_loop :: "stringtime \<Rightarrow> string \<Rightarrow> Cookie \<Rightarrow> Cookie result" where
  "options_loop stringtime data c =
     (case GetCookieKeyValueOpt data of
        None \<Rightarrow> Inr c
      | Some (shift, kv) \<Rightarrow> rbind (apply_option stringtime kv c) (options_loop stringtime (drop shift data)))"
  by pat_completeness auto
termination
  by (relation "measure (\<lambda>(stringtime, data, c). length data)") (auto dest: GetCookieKeyValueOpt_shift)

declare options_loop.simps [simp del]

definition ParseSingleCookie :: "stringtime \<Rightarrow> string \<Rightarrow> Cookie option result" where
  "ParseSingleCookie stringtime data =
     (case GetCookieKeyValueOpt data of
        None \<Rightarrow> Inr None
      | Some (shift, key, v) \<Rightarrow>
          (case make_Cookie key (case v of Some s \<Rightarrow> s | None \<Rightarrow> []) of
             Inl _ \<Rightarrow> Inr None
           | Inr c \<Rightarrow> rbind (options_loop stringtime (drop shift data) c) (\<lambda>c. Inr (Some c))))"

definition Cookie_FromString :: "stringtime \<Rightarrow> string \<Rightarrow> Cookie option result" where
  "Cookie_FromString stringtime cookie = ParseSingleCookie stringtime cookie"

subsection \<open>The cookies of a response\<close>

text \<open>An unordered map keeps its nodes in some order, here in that of insertion.\<close>

type_synonym CookiesMap = "(string \<times> Cookie) list"

text \<open>A node whose key is taken already is not inserted: the first cookie of a name stays.\<close>

definition SetCookie :: "Cookie \<Rightarrow> CookiesMap \<Rightarrow> CookiesMap result" where
  "SetCookie cookie cookies =
     rbind (CheckHeaderValue (ck_name cookie)) (\<lambda>_. rbind (CheckHeaderValue (ck_value cookie)) (\<lambda>_.
       Inr (if map_of cookies (ck_name cookie) = None then cookies @ [(ck_name cookie, cookie)] else cookies)))"

definition ClearCookies :: "CookiesMap \<Rightarrow> CookiesMap" where
  "ClearCookies cookies = []"

text \<open>
  \<open>cookies_.at(cookie_name.data())\<close>: the key is the C string at the start of the view, here of a
  view that ends with a NUL character as one of a \<open>std::string\<close> does.
\<close>

definition Response_GetCookie :: "string \<Rightarrow> CookiesMap \<Rightarrow> Cookie result" where
  "Response_GetCookie cookie_name cookies =
     (case map_of cookies (takeWhile (\<lambda>c. c \<noteq> CHR 0x00) cookie_name) of Some c \<Rightarrow> Inr c | None \<Rightarrow> Inl OutOfRange)"

text \<open>The response with the lines of its cookies, as \<open>SendResponse\<close> writes them.\<close>

definition with_cookies :: "(int \<Rightarrow> string) \<Rightarrow> CookiesMap \<Rightarrow> HttpResponse \<Rightarrow> HttpResponse" where
  "with_cookies timestring cookies r = r\<lparr>resp_cookies := map (\<lambda>e. Cookie_AppendToString timestring [] (snd e)) cookies\<rparr>"

end
