(* ===== verification/Cookie_Correct.thy ===== *)
theory Cookie_Correct
  imports Response_Cookie Services_Correct
begin

section \<open>What a cookie can carry\<close>

text \<open>
  The text of a cookie is read back; names and values of cookies cannot break out of their line
  of the response, but paths, domains and same-site policies can, since nothing checks them.
\<close>

subsection \<open>Reading the text of a cookie\<close>

text \<open>The text after the name and value as a list of options.\<close>

definition option_text :: "string \<times> string option \<Rightarrow> string" where
  "option_text kv = fst kv @ (case snd kv of None \<Rightarrow> [] | Some v \<Rightarrow> ''='' @ v)"

definition options_text :: "(string \<times> string option) list \<Rightarrow> string" where
  "options_text kvs = concat (map (\<lambda>kv. ''; '' @ option_text kv) kvs)"

definition cookie_options :: "(int \<Rightarrow> string) \<Rightarrow> Cookie \<Rightarrow> (string \<times> string option) list" where
  "cookie_options timestring c =
     (if ck_domain c \<noteq> [] then [(''Domain'', Some (ck_domain c))] else [])
     @ (if ck_path c \<noteq> [] then [(''Path'', Some (ck_path c))] else [])
     @ (case ck_expires c of Some t \<Rightarrow> [(''Expires'', Some (timestring t))] | None \<Rightarrow> [])
     @ (case ck_max_age c of Some s \<Rightarrow> [(''Max-Age'', Some (dec_int s))] | None \<Rightarrow> [])
     @ (if ck_secure c then [(''Secure'', None)] else [])
     @ (if ck_same_site c \<noteq> [] then [(''SameSite'', Some (ck_same_site c))] else [])
     @ (if ck_http_only c then [(''HttpOnly'', None)] else [])"

lemma Cookie_ToString_options:
  "Cookie_ToString timestring c = ck_name c @ ''='' @ ck_value c @ options_text (cookie_options timestring c)"
  by (simp add: Cookie_ToString_def Cookie_AppendToString_def options_text_def option_text_def cookie_options_def split: option.splits)

text \<open>A pair that can be found again: no separator in it, no space or equals sign in its key.\<close>

definition pair_ok :: "string \<times> string option \<Rightarrow> bool" where
  "pair_ok kv \<longleftrightarrow>
     fst kv \<noteq> [] \<and> hd (fst kv) \<noteq> CHR '' '' \<and> CHR ''='' \<notin> set (fst kv) \<and> CHR '';'' \<notin> set (option_text kv) \<and> snd kv \<noteq> Some []"

text \<open>What is left after a pair: the next pairs without the separator that was consumed.\<close>

fun after_pair :: "(string \<times> string option) list \<Rightarrow> string" where
  "after_pair [] = []"
| "after_pair (kv # kvs) = '' '' @ option_text kv @ options_text kvs"

lemma find_pos_in_append:
  assumes "\<forall>x\<in>set xs. \<not> P x"
  shows "find_pos P (xs @ ys) = (case find_pos P ys of None \<Rightarrow> None | Some i \<Rightarrow> Some (length xs + i))"
  using find_pos_append_miss [OF assms] by (simp split: option.splits)

lemma GetCookieKeyValueOpt_text:
  assumes pair: "piece \<noteq> []" "hd piece \<noteq> CHR '' ''" "CHR '';'' \<notin> set piece"
    and pad: "pad = [] \<or> pad = '' ''"
  shows "GetCookieKeyValueOpt (pad @ piece @ options_text kvs) =
     Some (length (pad @ piece) + (if kvs = [] then 0 else 1),
       (case find_pos (\<lambda>c. c = CHR ''='') piece of
          None \<Rightarrow> (piece, None)
        | Some i \<Rightarrow> (take i piece, if i + 1 = length piece then None else Some (drop (i + 1) piece))))"
proof -
  obtain c cs where c: "piece = c # cs" "c \<noteq> CHR '' ''" using pair by (cases piece) auto
  have first: "find_pos (\<lambda>c. c \<noteq> CHR '' '') (pad @ piece @ options_text kvs) = Some (length pad)" using pad c by auto
  have rest: "drop (length pad) (pad @ piece @ options_text kvs) = piece @ options_text kvs" by simp
  have miss: "\<forall>x\<in>set piece. \<not> x = CHR '';''" using pair(3) by auto
  show ?thesis
  proof (cases kvs)
    case Nil
    have "find_pos (\<lambda>c. c = CHR '';'') piece = None" using miss by (simp add: find_pos_None_iff)
    then show ?thesis
      unfolding GetCookieKeyValueOpt_def first option.case rest Let_def by (simp add: Nil options_text_def split: option.split)
  next
    case (Cons kv kvs')
    have "find_pos (\<lambda>c. c = CHR '';'') (piece @ options_text kvs) = Some (length piece)"
      using find_pos_in_append [OF miss, of "options_text kvs"] by (simp add: Cons options_text_def)
    then show ?thesis
      unfolding GetCookieKeyValueOpt_def first option.case rest Let_def by (simp add: Cons split: option.split)
  qed
qed

lemma drop_pair:
  assumes "pad = [] \<or> pad = '' ''"
  shows "drop (length (pad @ piece) + (if kvs = [] then 0 else 1)) (pad @ piece @ options_text kvs) = after_pair kvs"
  by (cases kvs) (simp_all add: options_text_def)

lemma option_pair:
  assumes "pair_ok kv"
  shows "(case find_pos (\<lambda>c. c = CHR ''='') (option_text kv) of
      None \<Rightarrow> (option_text kv, None)
    | Some i \<Rightarrow> (take i (option_text kv), if i + 1 = length (option_text kv) then None else Some (drop (i + 1) (option_text kv)))) = kv"
proof -
  obtain k v where kv: "kv = (k, v)" by fastforce
  have "find_pos (\<lambda>c. c = CHR ''='') (k @ s) = (case find_pos (\<lambda>c. c = CHR ''='') s of None \<Rightarrow> None | Some i \<Rightarrow> Some (length k + i))" for s
    using assms kv by (intro find_pos_in_append) (auto simp: pair_ok_def)
  from this [of "case v of None \<Rightarrow> [] | Some w \<Rightarrow> ''='' @ w"] show ?thesis
    using assms kv by (cases v) (auto simp: pair_ok_def option_text_def)
qed

lemma options_loop_text:
  assumes "\<forall>kv\<in>set kvs. pair_ok kv"
  shows "options_loop stringtime (after_pair kvs) c = foldr_result (apply_option stringtime) kvs c"
  using assms
proof (induction kvs arbitrary: c)
  case Nil
  show ?case by (subst options_loop.simps) (simp add: GetCookieKeyValueOpt_def)
next
  case (Cons kv kvs)
  have kv: "option_text kv \<noteq> []" "hd (option_text kv) \<noteq> CHR '' ''" "CHR '';'' \<notin> set (option_text kv)" "pair_ok kv"
    using Cons.prems by (auto simp: pair_ok_def option_text_def)
  have "GetCookieKeyValueOpt (after_pair (kv # kvs)) = Some (length ('' '' @ option_text kv) + (if kvs = [] then 0 else 1), kv)"
    using GetCookieKeyValueOpt_text [OF kv(1-3), of "'' ''" kvs] option_pair [OF kv(4)] by (simp only: after_pair.simps) simp
  moreover have "drop (length ('' '' @ option_text kv) + (if kvs = [] then 0 else 1)) (after_pair (kv # kvs)) = after_pair kvs"
    using drop_pair [of "'' ''" "option_text kv" kvs] by (simp only: after_pair.simps) simp
  ultimately have "options_loop stringtime (after_pair (kv # kvs)) c =
      rbind (apply_option stringtime kv c) (options_loop stringtime (after_pair kvs))"
    by (subst options_loop.simps) (simp only: option.case prod.case)
  then show ?case using Cons by (cases "apply_option stringtime kv c") simp_all
qed

text \<open>What the constructor accepts.\<close>

definition valid_cookie :: "string \<Rightarrow> string \<Rightarrow> bool" where
  "valid_cookie name v \<longleftrightarrow> name \<noteq> [] \<and> (\<forall>c\<in>set name. \<not> bad_cookie_name_char c) \<and> (\<forall>c\<in>set (unquoted v). \<not> bad_cookie_value_char c)"

lemma make_Cookie_iff:
  "make_Cookie name v = Inr c \<longleftrightarrow>
     valid_cookie name v \<and>
     c = \<lparr>ck_name = name, ck_value = v, ck_path = [], ck_domain = [], ck_same_site = [], ck_secure = False,
          ck_http_only = False, ck_expires = None, ck_max_age = None\<rparr>"
  by (auto simp: make_Cookie_def ValidateName_def ValidateValue_def valid_cookie_def find_None_iff find_Some_iff
      split: option.splits if_splits)

lemma set_unquoted: "set v \<subseteq> insert (CHR 0x22) (set (unquoted v))"
proof (cases "1 < length v \<and> hd v = CHR 0x22 \<and> last v = CHR 0x22")
  case True
  then obtain m where "v = CHR 0x22 # m @ [CHR 0x22]" by (cases v; cases "tl v" rule: rev_cases) auto
  then show ?thesis by (auto simp: unquoted_def substr_def)
qed (auto simp: unquoted_def)

lemma bad_value_is_bad_cookie:
  "bad_value_char c \<Longrightarrow> bad_cookie_name_char c" "bad_value_char c \<Longrightarrow> bad_cookie_value_char c" "\<not> bad_value_char (CHR 0x22)"
  by (auto simp: bad_cookie_name_char_def bad_cookie_value_char_def bad_value_char_def)

lemma valid_cookie_chars:
  assumes "valid_cookie name v"
  shows "name \<noteq> []" "hd name \<noteq> CHR '' ''" "CHR ''='' \<notin> set name" "CHR '';'' \<notin> set name" "CHR '';'' \<notin> set v"
    "\<forall>c\<in>set name. \<not> bad_value_char c" "\<forall>c\<in>set v. \<not> bad_value_char c"
proof -
  have name: "name \<noteq> []" "\<And>c. c \<in> set name \<Longrightarrow> \<not> bad_cookie_name_char c" using assms by (auto simp: valid_cookie_def)
  have bad: "bad_cookie_name_char (CHR '' '')" "bad_cookie_name_char (CHR ''='')" "bad_cookie_name_char (CHR '';'')"
    "bad_cookie_value_char (CHR '';'')" by (simp_all add: bad_cookie_name_char_def bad_cookie_value_char_def)
  have v: "c = CHR 0x22 \<or> \<not> bad_cookie_value_char c" if "c \<in> set v" for c
    using that assms set_unquoted [of v] by (auto simp: valid_cookie_def)
  show "name \<noteq> []" by (rule name)
  show "hd name \<noteq> CHR '' ''" using name bad(1) hd_in_set by metis
  show "CHR ''='' \<notin> set name" "CHR '';'' \<notin> set name" using name(2) bad by blast+
  show "CHR '';'' \<notin> set v" using v [of "CHR '';''"] bad(4) by auto
  show "\<forall>c\<in>set name. \<not> bad_value_char c"
    using name(2) bad_value_is_bad_cookie(1) by blast
  show "\<forall>c\<in>set v. \<not> bad_value_char c"
    using v bad_value_is_bad_cookie(2,3) by blast
qed

lemma GetKeyType_names [simp]:
  "GetKeyType ''Domain'' = kDomain" "GetKeyType ''Path'' = kPath" "GetKeyType ''Expires'' = kExpires" "GetKeyType ''Max-Age'' = kMaxAge"
  "GetKeyType ''Secure'' = kSecure" "GetKeyType ''SameSite'' = kSameSite" "GetKeyType ''HttpOnly'' = kHttpOnly"
  by code_simp+

lemma foldr_result_append: "foldr_result f (xs @ ys) s = rbind (foldr_result f xs s) (foldr_result f ys)"
  by (induction xs arbitrary: s) (auto simp: rbind_def split: sum.split)

text \<open>
  A cookie whose text can be read back: its parts have no separator, its time is one that the
  time zone library reads as it printed it, and its age is an \<open>int64_t\<close>.
\<close>

definition cookie_printable :: "(int \<Rightarrow> string) \<Rightarrow> stringtime \<Rightarrow> Cookie \<Rightarrow> bool" where
  "cookie_printable timestring stringtime c \<longleftrightarrow>
     valid_cookie (ck_name c) (ck_value c)
     \<and> CHR '';'' \<notin> set (ck_domain c) \<and> CHR '';'' \<notin> set (ck_path c) \<and> CHR '';'' \<notin> set (ck_same_site c)
     \<and> (case ck_expires c of None \<Rightarrow> True | Some t \<Rightarrow> CHR '';'' \<notin> set (timestring t) \<and> ParseTime stringtime (timestring t) = Some t)
     \<and> (case ck_max_age c of None \<Rightarrow> True | Some s \<Rightarrow> in_int 64 True s)"

lemma semicolon_dec_int: "CHR '';'' \<notin> set (dec_int i)"
  using dec_digits [of "CHR '';''"] by (auto simp: is_digit_def dec_int_def split: if_splits)

lemma cookie_options_ok:
  assumes "cookie_printable timestring stringtime c"
  shows "\<forall>kv\<in>set (cookie_options timestring c). pair_ok kv"
proof -
  have "ParseTime stringtime [] = None" by (simp add: ParseTime_def)
  then have "timestring t \<noteq> []" if "ParseTime stringtime (timestring t) = Some t" for t using that by auto
  then show ?thesis
    using assms semicolon_dec_int dec_int_not_Nil
    by (auto simp: cookie_printable_def cookie_options_def pair_ok_def option_text_def split: if_splits option.splits)
qed

lemma cookie_options_applied:
  assumes "cookie_printable timestring stringtime c" and "make_Cookie (ck_name c) (ck_value c) = Inr c0"
  shows "foldr_result (apply_option stringtime) (cookie_options timestring c) c0 = Inr c"
proof -
  have exp: "foldr_result (apply_option stringtime)
      (case ck_expires c of Some t \<Rightarrow> [(''Expires'', Some (timestring t))] | None \<Rightarrow> []) x =
      Inr (case ck_expires c of Some t \<Rightarrow> SetExpires t x | None \<Rightarrow> x)" for x
    using assms(1) by (auto simp: cookie_printable_def apply_option_def split: option.split_asm option.split)
  have age: "foldr_result (apply_option stringtime)
      (case ck_max_age c of Some s \<Rightarrow> [(''Max-Age'', Some (dec_int s))] | None \<Rightarrow> []) x =
      Inr (case ck_max_age c of Some s \<Rightarrow> SetMaxAge s x | None \<Rightarrow> x)" for x
    using assms(1) by (auto simp: cookie_printable_def apply_option_def stoll_def sto_int_dec split: option.split_asm option.split)
  have opt: "foldr_result (apply_option stringtime) (if b then [kv] else []) x = Inr (if b then y else x)"
    if "apply_option stringtime kv x = Inr y" for b kv x y
    using that by simp
  have keys: "apply_option stringtime (''Domain'', Some v) x = Inr (SetDomain v x)"
    "apply_option stringtime (''Path'', Some v) x = Inr (SetPath v x)"
    "apply_option stringtime (''SameSite'', Some v) x = Inr (SetSameSite v x)"
    "apply_option stringtime (''Secure'', None) x = Inr (SetSecure x)"
    "apply_option stringtime (''HttpOnly'', None) x = Inr (SetHttpOnly x)" for v x
    by (simp_all add: apply_option_def)
  show ?thesis
    using assms(2)
    unfolding cookie_options_def foldr_result_append opt [OF keys(1)] opt [OF keys(2)] opt [OF keys(3)] opt [OF keys(4)]
      opt [OF keys(5)] exp age rbind_simps make_Cookie_iff
    by (cases c; cases "ck_expires c"; cases "ck_max_age c")
       (simp_all add: SetDomain_def SetPath_def SetSameSite_def SetSecure_def SetHttpOnly_def SetExpires_def SetMaxAge_def)
qed

text \<open>
  (C19) A cookie survives its text: reading what \<open>ToString\<close> printed gives the same cookie, with
  all its attributes, for every cookie the constructor accepts whose attributes have no
  semicolon and whose time of expiry the time zone library reads back.
\<close>

theorem cookie_roundtrip:
  assumes "cookie_printable timestring stringtime c"
  shows "Cookie_FromString stringtime (Cookie_ToString timestring c) = Inr (Some c)"
proof -
  let ?kvs = "cookie_options timestring c" and ?piece = "ck_name c @ ''='' @ ck_value c"
  have valid: "valid_cookie (ck_name c) (ck_value c)" using assms by (simp add: cookie_printable_def)
  note chars = valid_cookie_chars [OF valid]
  have piece: "?piece \<noteq> []" "hd ?piece \<noteq> CHR '' ''" "CHR '';'' \<notin> set ?piece" using chars by auto
  have "find_pos (\<lambda>c. c = CHR ''='') ?piece = Some (length (ck_name c))"
    using find_pos_in_append [of "ck_name c" "\<lambda>c. c = CHR ''=''" "''='' @ ck_value c"] chars(3) by auto
  then have get: "GetCookieKeyValueOpt (?piece @ options_text ?kvs) =
      Some (length ?piece + (if ?kvs = [] then 0 else 1), ck_name c, if ck_value c = [] then None else Some (ck_value c))"
    using GetCookieKeyValueOpt_text [OF piece, of "[]" ?kvs] by simp
  have drop: "drop (length ?piece + (if ?kvs = [] then 0 else 1)) (?piece @ options_text ?kvs) = after_pair ?kvs"
    using drop_pair [of "[]" ?piece ?kvs] by simp
  obtain c0 where c0: "make_Cookie (ck_name c) (ck_value c) = Inr c0" using valid by (simp add: make_Cookie_iff)
  have val: "(case (if ck_value c = [] then None else Some (ck_value c)) of Some s \<Rightarrow> s | None \<Rightarrow> []) = ck_value c" by simp
  have loop: "options_loop stringtime (after_pair ?kvs) c0 = Inr c"
    using options_loop_text [OF cookie_options_ok [OF assms]] cookie_options_applied [OF assms c0] by simp
  have str: "Cookie_ToString timestring c = ?piece @ options_text ?kvs" by (simp add: Cookie_ToString_options)
  show ?thesis
    unfolding Cookie_FromString_def ParseSingleCookie_def str get option.case prod.case val c0 sum.case drop loop by simp
qed

subsection \<open>Cookies in the head of a response\<close>

lemma SetCookie_ok:
  "SetCookie c cookies = Inr cookies' \<Longrightarrow>
     (\<forall>x\<in>set (ck_name c) \<union> set (ck_value c). \<not> bad_value_char x) \<and> set cookies' \<subseteq> insert (ck_name c, c) (set cookies)"
  by (auto simp: SetCookie_def rbind_eq_Inr CheckHeaderValue_ok split: if_splits)

text \<open>The attributes that no operation checks, and that a handler has to keep free of line feeds.\<close>

definition attributes_clean :: "(int \<Rightarrow> string) \<Rightarrow> Cookie \<Rightarrow> bool" where
  "attributes_clean timestring c \<longleftrightarrow>
     LF \<notin> set (ck_path c) \<and> LF \<notin> set (ck_domain c) \<and> LF \<notin> set (ck_same_site c)
     \<and> (case ck_expires c of None \<Rightarrow> True | Some t \<Rightarrow> LF \<notin> set (timestring t))"

lemma cookie_text_clean:
  assumes "\<forall>x\<in>set (ck_name c) \<union> set (ck_value c). \<not> bad_value_char x" and "attributes_clean timestring c"
  shows "LF \<notin> set (Cookie_AppendToString timestring [] c)"
  using assms bad_LF(2) LF_dec(2)
  by (auto simp: Cookie_AppendToString_def attributes_clean_def split: option.splits)

lemma SetCookies_clean:
  assumes "foldr_result SetCookie cs [] = Inr cookies" and "\<forall>c\<in>set cs. attributes_clean timestring c"
  shows "\<forall>e\<in>set cookies. LF \<notin> set (Cookie_AppendToString timestring [] (snd e))"
proof -
  let ?P = "\<lambda>cookies. \<forall>e\<in>set cookies. LF \<notin> set (Cookie_AppendToString timestring [] (snd e))"
  have "?P m'" if "c \<in> set cs" "?P m" "SetCookie c m = Inr m'" for c m m'
    using SetCookie_ok [OF that(3)] cookie_text_clean [of c timestring] that(1,2) assms(2) by fastforce
  then show ?thesis using assms(1) by (intro foldr_result_invariant [where P = ?P, OF _ _ assms(1)]) auto
qed

text \<open>
  (C18) The cookies of a response stay in their lines: whatever names and values a handler gives
  to \<open>SetCookie\<close>, as long as paths, domains, same-site policies and times have no line feed, the
  head that goes to the socket has the status line, one line for each header and one for each
  cookie, and nothing else.
\<close>

theorem cookies_no_injection:
  assumes "resp_step\<^sup>*\<^sup>* initial_response r" and "LF \<notin> set date"
    and "foldr_result SetCookie cs [] = Inr cookies" and "\<forall>c\<in>set cs. attributes_clean timestring c"
  shows "split_on LF (response_head date major minor fin (with_cookies timestring cookies r)) =
     map (\<lambda>l. l @ [CR])
       ((''HTTP/'' @ dec_int major @ ''.'' @ dec_int minor @ '' '' @ dec (unat (resp_status r)) @ '' '' @ StatusCodeString (resp_status r))
        # header_lines date fin (erase_content_length (with_cookies timestring cookies r))) @ [[]]"
proof -
  have "resp_inv r" using assms(1) by (rule resp_inv_steps) simp
  then have "resp_inv (with_cookies timestring cookies r)" by (simp add: resp_inv_def with_cookies_def)
  moreover have "resp_status (with_cookies timestring cookies r) = resp_status r" by (simp add: with_cookies_def)
  ultimately show ?thesis
    using head_no_injection [of "with_cookies timestring cookies r" date major minor fin] assms(2)
      SetCookies_clean [OF assms(3,4)] by (simp add: with_cookies_def)
qed

lemma split_on_append_any: "\<exists>p ps. split_on sep (xs @ sep # ys) = p # ps @ split_on sep ys"
proof (induction xs)
  case (Cons x xs)
  then obtain p ps where "split_on sep (xs @ sep # ys) = p # ps @ split_on sep ys" by blast
  then show ?case by (cases "x = sep") (auto intro: exI [of _ "p # ps"])
qed simp

lemma split_on_mem: "sep \<notin> set q \<Longrightarrow> q \<in> set (split_on sep (xs @ sep # q @ sep # ys))"
  using split_on_append_any [of sep xs "q @ sep # ys"] by (auto simp: split_on_append_sep)

lemma line_in_lines: "l \<in> set ls \<Longrightarrow> \<exists>xs ys. concat (map (\<lambda>l. l @ sep) ls) = xs @ l @ sep @ ys"
  by (auto dest!: split_list) (metis append.assoc)

text \<open>
  (C17) The path of a cookie can add a line to the head: \<open>SetPath\<close> checks nothing and \<open>SetCookie\<close>
  checks the name and the value only, so that a path with a line break is accepted for every
  valid name and value, and what follows the break is a line of its own.
\<close>

theorem cookie_path_injects:
  assumes "make_Cookie name v = Inr c" and "LF \<notin> set q"
  shows "\<exists>cookies. SetCookie (SetPath (p @ [CR, LF] @ q) c) [] = Inr cookies \<and>
     q @ [CR] \<in> set (split_on LF (response_head date major minor fin (with_cookies timestring cookies r)))"
proof -
  let ?c = "SetPath (p @ [CR, LF] @ q) c"
  have valid: "valid_cookie name v" and c: "ck_name c = name" "ck_value c = v" "ck_expires c = None" "ck_max_age c = None"
    "\<not> ck_secure c" "ck_same_site c = []" "\<not> ck_http_only c"
    using assms(1) by (auto simp: make_Cookie_iff)
  have set: "SetCookie ?c [] = Inr [(name, ?c)]"
    using valid_cookie_chars(6,7) [OF valid] c by (simp add: SetCookie_def SetPath_def rbind_eq_Inr CheckHeaderValue_ok)
  obtain xs where txt_of: "Cookie_AppendToString timestring [] ?c = xs @ LF # q"
    using c by (auto simp: Cookie_AppendToString_def SetPath_def)
  have "''Set-Cookie: '' @ Cookie_AppendToString timestring [] ?c
      \<in> set (header_lines date fin (erase_content_length (with_cookies timestring [(name, ?c)] r)))"
    by (simp add: header_lines_def with_cookies_def erase_content_length_def)
  from line_in_lines [OF list.set_intros(2) [OF this], of kCrlf]
  obtain ys zs where "response_head date major minor fin (with_cookies timestring [(name, ?c)] r)
      = ys @ (''Set-Cookie: '' @ xs @ LF # q) @ kCrlf @ zs"
    unfolding head_lines txt_of by blast
  then have head: "response_head date major minor fin (with_cookies timestring [(name, ?c)] r)
      = (ys @ ''Set-Cookie: '' @ xs) @ LF # (q @ [CR]) @ LF # zs" by (simp add: kCrlf_def)
  have "q @ [CR] \<in> set (split_on LF (response_head date major minor fin (with_cookies timestring [(name, ?c)] r)))"
    unfolding head using assms(2) by (intro split_on_mem) simp
  with set show ?thesis by blast
qed

subsection \<open>Examples\<close>

definition sample_cookie :: Cookie where
  "sample_cookie =
     \<lparr>ck_name = ''sid'', ck_value = ''a=1'', ck_path = ''/'', ck_domain = ''example.com'', ck_same_site = ''Lax'', ck_secure = True,
      ck_http_only = True, ck_expires = Some 0, ck_max_age = Some (- 5)\<rparr>"

definition sample_timestring :: "int \<Rightarrow> string" where
  "sample_timestring t = ''Thu, 01 Jan 1970 00:00:00 GMT''"

definition sample_stringtime :: stringtime where
  "sample_stringtime s tz fmt = (if tz \<noteq> ''GMT'' then Inl TimezoneLookupError else if fmt = kTimeFormat then Inr 0 else Inl DateParseError)"

theorem cookie_roundtrip_witness:
  "Cookie_FromString sample_stringtime
     ''sid=a=1; Domain=example.com; Path=/; Expires=Thu, 01 Jan 1970 00:00:00 GMT; Max-Age=-5; Secure; SameSite=Lax; HttpOnly''
   = Inr (Some sample_cookie)"
proof -
  have "cookie_printable sample_timestring sample_stringtime sample_cookie" by code_simp
  moreover have "Cookie_ToString sample_timestring sample_cookie =
      ''sid=a=1; Domain=example.com; Path=/; Expires=Thu, 01 Jan 1970 00:00:00 GMT; Max-Age=-5; Secure; SameSite=Lax; HttpOnly''"
    by code_simp
  ultimately show ?thesis using cookie_roundtrip [of sample_timestring sample_stringtime sample_cookie] by (simp only:)
qed

theorem cookies_no_injection_witness:
  "\<exists>ls. split_on LF (response_head ''Thu, 01 Jan 1970 00:00:00 UTC'' 1 1 True
     (with_cookies sample_timestring [(''sid'', sample_cookie)] sample_response)) = map (\<lambda>l. l @ [CR]) ls @ [[]]"
proof -
  have "foldr_result SetCookie [sample_cookie] [] = Inr [(''sid'', sample_cookie)]" by code_simp
  moreover have "\<forall>c\<in>set [sample_cookie]. attributes_clean sample_timestring c" by code_simp
  moreover have "LF \<notin> set ''Thu, 01 Jan 1970 00:00:00 UTC''" by simp
  ultimately show ?thesis
    using cookies_no_injection [OF sample_response_steps, of "''Thu, 01 Jan 1970 00:00:00 UTC''" "[sample_cookie]"] by blast
qed

theorem cookie_path_injects_witness:
  "\<exists>c cookies. make_Cookie ''sid'' ''1'' = Inr c \<and> SetCookie (SetPath ([CR, LF] @ ''X-Admin: yes'') c) [] = Inr cookies \<and>
     ''X-Admin: yes'' @ [CR] \<in> set (split_on LF (response_head [] 1 1 True (with_cookies sample_timestring cookies initial_response)))"
proof -
  obtain c where c: "make_Cookie ''sid'' ''1'' = Inr c" by (simp add: make_Cookie_iff valid_cookie_def unquoted_def
        bad_cookie_name_char_def bad_cookie_value_char_def)
  then show ?thesis using cookie_path_injects [OF c, of "''X-Admin: yes''" "[]"] by simp
qed

end
