(* ===== verification/Decimal64.thy ===== *)
theory Decimal64
  imports Prelude "HOL-Library.Signed_Division"
begin

section \<open>Fixed-point decimals\<close>

text \<open>
  \<open>universal/include/userver/decimal64/decimal64.hpp\<close> and \<open>universal/src/decimal64/decimal64.cpp\<close>: the
  class \<open>Decimal\<close>, the type of money and of \<open>NUMERIC\<close> columns.  A decimal is its \<open>int64_t\<close>; the
  template parameters, the number of fractional digits and the rounding policy, are arguments.
  An \<open>int64_t\<close> is an \<open>int\<close>, the operations that report an overflow (\<open>__builtin_mul_overflow\<close>) test
  it, and \<open>/\<close> and \<open>%\<close> are the truncating \<open>sdiv\<close> and \<open>smod\<close>.  Conversions from and to floating-point
  numbers and the stream operators are left out; \<open>UASSERT\<close> is a check of debug builds.
\<close>

subsection \<open>Integers of 64 bits\<close>

datatype dec_error =
    OutOfBoundsError
  | DivisionByZeroError
  | DecimalParseError string
  | DecimalRuntimeError string
  | ArrayOverrun

type_synonym 'a dresult = "dec_error + 'a"

definition dbind :: "'a dresult \<Rightarrow> ('a \<Rightarrow> 'b dresult) \<Rightarrow> 'b dresult" where
  "dbind r f = (case r of Inl e \<Rightarrow> Inl e | Inr x \<Rightarrow> f x)"

lemma dbind_simps [simp]: "dbind (Inl e) f = Inl e" "dbind (Inr x) f = f x"
  by (simp_all add: dbind_def)

definition kMaxInt64 :: int where "kMaxInt64 = 2 ^ 63 - 1"
definition kMinInt64 :: int where "kMinInt64 = - (2 ^ 63)"
definition kMaxDecimalDigits :: nat where "kMaxDecimalDigits = 18"

definition int64 :: "int \<Rightarrow> bool" where
  "int64 v \<longleftrightarrow> kMinInt64 \<le> v \<and> v \<le> kMaxInt64"

text \<open>The result of an operation with an overflow check.\<close>

definition checked :: "int \<Rightarrow> int dresult" where
  "checked v = (if int64 v then Inr v else Inl OutOfBoundsError)"

definition Pow10 :: "int \<Rightarrow> int dresult" where
  "Pow10 exp =
     (if exp < 0 \<or> int kMaxDecimalDigits < exp then Inl (DecimalRuntimeError ''Pow10: invalid power of 10'') else Inr (10 ^ nat exp))"

definition kPow10 :: "nat \<Rightarrow> int" where
  "kPow10 P = 10 ^ P"

definition Sign :: "int \<Rightarrow> int" where
  "Sign v = (if 0 < v then 1 else 0) - (if v < 0 then 1 else 0)"

definition Abs :: "int \<Rightarrow> int dresult" where
  "Abs v = (if v = kMinInt64 then Inl OutOfBoundsError else Inr (if 0 \<le> v then v else - v))"

subsection \<open>Rounding policies\<close>

text \<open>A policy is its function \<open>DivRounded\<close>.\<close>

type_synonym policy = "int \<Rightarrow> int \<Rightarrow> bool \<Rightarrow> int dresult"

definition DefRound_DivRounded :: policy where
  "DefRound_DivRounded a b extra_odd_quotient =
     dbind (Abs (b sdiv 2)) (\<lambda>divisor_corr.
       if 0 \<le> a then
         (if kMaxInt64 - a < divisor_corr then Inl OutOfBoundsError else Inr ((a + divisor_corr) sdiv b))
       else
         (if - (kMinInt64 - a) < divisor_corr then Inl OutOfBoundsError else Inr ((a - divisor_corr) sdiv b)))"

text \<open>\<open>ShouldRoundAwayFromZeroDiv\<close> of the three policies for halves, on the absolute values.\<close>

definition HalfUp_away :: "int \<Rightarrow> int \<Rightarrow> bool \<Rightarrow> bool" where
  "HalfUp_away abs_a abs_b extra_odd_quotient =
     (let half_b = abs_b sdiv 2; abs_remainder = abs_a smod abs_b
      in if abs_b smod 2 = 0 then half_b \<le> abs_remainder else half_b < abs_remainder)"

definition HalfDown_away :: "int \<Rightarrow> int \<Rightarrow> bool \<Rightarrow> bool" where
  "HalfDown_away abs_a abs_b extra_odd_quotient = (abs_b sdiv 2 < abs_a smod abs_b)"

definition HalfEven_away :: "int \<Rightarrow> int \<Rightarrow> bool \<Rightarrow> bool" where
  "HalfEven_away abs_a abs_b extra_odd_quotient =
     (let half_b = abs_b sdiv 2; abs_remainder = abs_a smod abs_b
      in if abs_b smod 2 = 0 \<and> abs_remainder = half_b then ((abs_a sdiv abs_b) smod 2 = 0) = extra_odd_quotient
         else half_b < abs_remainder)"

definition HalfRound_DivRounded :: "(int \<Rightarrow> int \<Rightarrow> bool \<Rightarrow> bool) \<Rightarrow> policy" where
  "HalfRound_DivRounded away a b extra_odd_quotient =
     dbind (Abs a) (\<lambda>abs_a. dbind (Abs b) (\<lambda>abs_b.
       Inr (if away abs_a abs_b extra_odd_quotient then (a sdiv b) + Sign a * Sign b else a sdiv b)))"

definition Ceiling_DivRounded :: policy where
  "Ceiling_DivRounded a b extra_odd_quotient =
     (let quotient_positive = ((0 \<le> a) = (0 \<le> b))
      in Inr (a sdiv b + (if a smod b \<noteq> 0 \<and> quotient_positive then 1 else 0)))"

definition Floor_DivRounded :: policy where
  "Floor_DivRounded a b extra_odd_quotient =
     (let quotient_negative = ((a < 0) \<noteq> (b < 0))
      in Inr (a sdiv b - (if a smod b \<noteq> 0 \<and> quotient_negative then 1 else 0)))"

definition RoundDown_DivRounded :: policy where
  "RoundDown_DivRounded a b extra_odd_quotient = Inr (a sdiv b)"

definition RoundUp_DivRounded :: policy where
  "RoundUp_DivRounded a b extra_odd_quotient =
     Inr (a sdiv b + (if a smod b \<noteq> 0 then 1 else 0) * (Sign a * Sign b))"

datatype RoundPolicy =
    DefRoundPolicy | HalfDownRoundPolicy | HalfUpRoundPolicy | HalfEvenRoundPolicy | CeilingRoundPolicy | FloorRoundPolicy
  | RoundDownRoundPolicy | RoundUpRoundPolicy

primrec DivRounded :: "RoundPolicy \<Rightarrow> policy" where
  "DivRounded DefRoundPolicy = DefRound_DivRounded"
| "DivRounded HalfDownRoundPolicy = HalfRound_DivRounded HalfDown_away"
| "DivRounded HalfUpRoundPolicy = HalfRound_DivRounded HalfUp_away"
| "DivRounded HalfEvenRoundPolicy = HalfRound_DivRounded HalfEven_away"
| "DivRounded CeilingRoundPolicy = Ceiling_DivRounded"
| "DivRounded FloorRoundPolicy = Floor_DivRounded"
| "DivRounded RoundDownRoundPolicy = RoundDown_DivRounded"
| "DivRounded RoundUpRoundPolicy = RoundUp_DivRounded"

definition Div :: "policy \<Rightarrow> int \<Rightarrow> int \<Rightarrow> bool \<Rightarrow> int dresult" where
  "Div policy nominator denominator extra_odd_quotient =
     (if denominator = 0 then Inl DivisionByZeroError
      else if denominator = -1 then
        (if nominator = kMinInt64 then Inl OutOfBoundsError else Inr (- nominator))
      else policy nominator denominator extra_odd_quotient)"

text \<open>On a 64-bit platform the product is one of 128 bits.\<close>

definition MulDiv :: "policy \<Rightarrow> int \<Rightarrow> int \<Rightarrow> int \<Rightarrow> int dresult" where
  "MulDiv policy value1 value2 divisor =
     (if divisor = 0 then Inl DivisionByZeroError
      else
        (let prod = value1 * value2; whole = prod sdiv divisor; rem = prod smod divisor
         in if whole \<le> kMinInt64 \<or> kMaxInt64 \<le> whole then Inl OutOfBoundsError
            else dbind (Div policy rem divisor (whole smod 2 \<noteq> 0)) (\<lambda>rem_divided. Inr (whole + rem_divided))))"

subsection \<open>Arithmetic\<close>

text \<open>
  \<open>Decimal<P, R>\<close> is the value \<open>value_ / 10 ^ P\<close>.  The second operand has \<open>Q\<close> digits; addition and
  subtraction give a result with the larger number of digits.
\<close>

definition FromDecimal :: "nat \<Rightarrow> policy \<Rightarrow> nat \<Rightarrow> int \<Rightarrow> int dresult" where
  "FromDecimal P policy Q source =
     (if Q < P then checked (source * kPow10 (P - Q))
      else if P < Q then Div policy source (kPow10 (Q - P)) False
      else Inr source)"

text \<open>\<open>decimal_cast\<close> rounds with the policy of the target.\<close>

definition decimal_cast :: "nat \<Rightarrow> policy \<Rightarrow> nat \<Rightarrow> int \<Rightarrow> int dresult" where
  "decimal_cast P policy Q arg = FromDecimal P policy Q arg"

text \<open>\<open>Decimal(Int)\<close>: the source is a \<open>Decimal<0>\<close>; an unsigned 64-bit integer may be too large.\<close>

definition ToInt64 :: "int \<Rightarrow> int dresult" where
  "ToInt64 v = (if kMaxInt64 < v then Inl OutOfBoundsError else Inr v)"

definition Decimal_ofInt :: "nat \<Rightarrow> policy \<Rightarrow> int \<Rightarrow> int dresult" where
  "Decimal_ofInt P policy v = dbind (ToInt64 v) (FromDecimal P policy 0)"

definition Decimal_uminus :: "int \<Rightarrow> int dresult" where
  "Decimal_uminus a = (if a = kMinInt64 then Inl OutOfBoundsError else Inr (- a))"

definition Decimal_plus :: "policy \<Rightarrow> nat \<Rightarrow> int \<Rightarrow> nat \<Rightarrow> int \<Rightarrow> int dresult" where
  "Decimal_plus policy P a Q b =
     (if P < Q then dbind (FromDecimal Q policy P a) (\<lambda>a'. checked (a' + b))
      else if Q < P then dbind (FromDecimal P policy Q b) (\<lambda>b'. checked (a + b'))
      else checked (a + b))"

definition Decimal_minus :: "policy \<Rightarrow> nat \<Rightarrow> int \<Rightarrow> nat \<Rightarrow> int \<Rightarrow> int dresult" where
  "Decimal_minus policy P a Q b =
     (if P < Q then dbind (FromDecimal Q policy P a) (\<lambda>a'. checked (a' - b))
      else if Q < P then dbind (FromDecimal P policy Q b) (\<lambda>b'. checked (a - b'))
      else checked (a - b))"

definition Decimal_times_int :: "int \<Rightarrow> int \<Rightarrow> int dresult" where
  "Decimal_times_int a rhs = (if kMaxInt64 < rhs then Inl OutOfBoundsError else checked (a * rhs))"

definition Decimal_times :: "policy \<Rightarrow> nat \<Rightarrow> int \<Rightarrow> int \<Rightarrow> int dresult" where
  "Decimal_times policy Q a b = MulDiv policy a b (kPow10 Q)"

definition Decimal_divide_int :: "policy \<Rightarrow> int \<Rightarrow> int \<Rightarrow> int dresult" where
  "Decimal_divide_int policy a rhs = Div policy a rhs False"

definition Decimal_divide :: "policy \<Rightarrow> nat \<Rightarrow> int \<Rightarrow> int \<Rightarrow> int dresult" where
  "Decimal_divide policy Q a b = MulDiv policy a (kPow10 Q) b"

definition RoundToMultipleOf :: "policy \<Rightarrow> int \<Rightarrow> int \<Rightarrow> int dresult" where
  "RoundToMultipleOf policy a base =
     (if base < 0 then Inl OutOfBoundsError
      else dbind (Decimal_divide_int policy a base) (\<lambda>q. Decimal_times_int q base))"

definition ToInteger :: "policy \<Rightarrow> nat \<Rightarrow> int \<Rightarrow> int dresult" where
  "ToInteger policy P a = Div policy a (kPow10 P) False"

definition FromBiased :: "nat \<Rightarrow> policy \<Rightarrow> int \<Rightarrow> int \<Rightarrow> int dresult" where
  "FromBiased P policy original_unbiased original_precision =
     (let exponent_for_pack = int P - original_precision
      in if 0 \<le> exponent_for_pack
         then dbind (Pow10 exponent_for_pack) (Decimal_times_int original_unbiased)
         else dbind (Pow10 (- exponent_for_pack)) (\<lambda>d. Div policy original_unbiased d False))"

end
