(* ===== verification/Decimal64_Text.thy ===== *)
theory Decimal64_Text
  imports Decimal64
begin

section \<open>Decimals as text\<close>

text \<open>
  The parser of \<open>decimal64.hpp\<close>, a state machine over characters with options, and the printing of
  decimals (\<open>fmt::formatter\<close>, \<open>ToString\<close> with format options).  The end of the input is reported as
  the character NUL, as \<open>StringCharSequence\<close> does.  The counters \<open>after_digit_count\<close> and \<open>exponent\<close>
  have 8 bits.
\<close>

subsection \<open>Packing\<close>

definition FromUnpacked :: "nat \<Rightarrow> int \<Rightarrow> int \<Rightarrow> int dresult" where
  "FromUnpacked P int_part after = dbind (checked (int_part * kPow10 P)) (\<lambda>result. checked (result + after))"

definition FromUnpacked_prec :: "nat \<Rightarrow> policy \<Rightarrow> int \<Rightarrow> int \<Rightarrow> nat \<Rightarrow> int dresult" where
  "FromUnpacked_prec P policy int_part after original_precision =
     (if original_precision \<le> P then
        dbind (Pow10 (int (P - original_precision))) (\<lambda>factor. FromUnpacked P int_part (after * factor))
      else
        dbind (Pow10 (int (original_precision - P))) (\<lambda>factor.
          dbind (Div policy after factor False) (\<lambda>rounded_after. FromUnpacked P int_part rounded_after)))"

text \<open>The precision after the leading zeros of a number below one were moved into the exponent.\<close>

definition shifted_precision :: "int \<Rightarrow> int \<Rightarrow> int \<Rightarrow> int \<Rightarrow> bool \<Rightarrow> int \<Rightarrow> int" where
  "shifted_precision int_part after original_precision exponent is_negative_exponent leading_zeros =
     (if int_part = 0 \<and> after \<noteq> 0 \<and> \<not> is_negative_exponent then
        (if leading_zeros \<le> exponent then original_precision - leading_zeros else original_precision - exponent)
      else original_precision)"

definition FromUnpackedWithExponent ::
  "nat \<Rightarrow> policy \<Rightarrow> int \<Rightarrow> int \<Rightarrow> int \<Rightarrow> int \<Rightarrow> bool \<Rightarrow> int \<Rightarrow> int dresult" where
  "FromUnpackedWithExponent P policy int_part after original_precision exponent is_negative_exponent leading_zeros =
     (if int_part = 0 \<and> after = 0 then Inr 0
      else
        (let effective_exponent = (if is_negative_exponent then - exponent else exponent) in
         if effective_exponent + int P < - int kMaxDecimalDigits then Inr 0
         else
           (let total_scale = effective_exponent + int P - original_precision;
                original_precision' =
                  shifted_precision int_part after original_precision exponent is_negative_exponent leading_zeros
            in dbind (Pow10 original_precision') (\<lambda>factor.
               dbind (checked (int_part * factor)) (\<lambda>value0.
               dbind (checked (value0 + after)) (\<lambda>v.
                 if 0 < total_scale then
                   (if int kMaxDecimalDigits < total_scale then Inl OutOfBoundsError
                    else dbind (Pow10 total_scale) (\<lambda>factor. checked (v * factor)))
                 else if total_scale < 0 then
                   dbind (Pow10 (- total_scale)) (\<lambda>divisor. Div policy v divisor False)
                 else Inr v))))))"

definition AsUnpacked :: "nat \<Rightarrow> int \<Rightarrow> int \<times> int" where
  "AsUnpacked P d = (d sdiv kPow10 P, d smod kPow10 P)"

definition AsUnpacked_prec :: "nat \<Rightarrow> policy \<Rightarrow> int \<Rightarrow> int \<Rightarrow> (int \<times> int) dresult" where
  "AsUnpacked_prec P policy d new_prec =
     (if new_prec = int P then Inr (AsUnpacked P d)
      else
        dbind
          (if int P < new_prec then dbind (Pow10 (new_prec - int P)) (\<lambda>factor. checked (d * factor))
           else dbind (Pow10 (int P - new_prec)) (\<lambda>divisor. Div policy d divisor False))
          (\<lambda>result. dbind (Pow10 new_prec) (\<lambda>dec_factor. Inr (result sdiv dec_factor, result smod dec_factor))))"

subsection \<open>The parser\<close>

definition IsSpace :: "char \<Rightarrow> bool" where
  "IsSpace c \<longleftrightarrow> c = CHR '' '' \<or> c = CHR 0x09 \<or> c = CHR 0x0D \<or> c = CHR 0x0A \<or> c = CHR 0x0B"

datatype ParseOptions = kAllowSpaces | kAllowTrailingJunk | kAllowBoundaryDot | kAllowRounding | kAllowExponent

datatype ParseErrorCode =
    kWrongChar | kNoDigits | kOverflow | kSpace | kTrailingJunk | kBoundaryDot | kRounding | kExponentNotAllowed | kNoExponentDigits

datatype ParseState =
    kSign | kBeforeFirstDig | kLeadingZeros | kBeforeDec | kAfterDec | kZerosAfterDec | kIgnoringAfterDec | kExpSign
  | kExpFirstDigit | kExpDigits | kEnd

text \<open>The local variables of \<open>ParseUnpacked\<close>.\<close>

record Parser =
  pr_before :: int
  pr_after :: int
  pr_negative :: bool
  pr_position :: int
  pr_state :: ParseState
  pr_error :: "ParseErrorCode option"
  pr_before_digits :: nat
  pr_after_digits :: nat
  pr_negative_exp :: bool
  pr_exponent :: nat
  pr_zeros :: nat

definition initial_parser :: Parser where
  "initial_parser =
     \<lparr>pr_before = 0, pr_after = 0, pr_negative = False, pr_position = -1, pr_state = kSign, pr_error = None, pr_before_digits = 0,
      pr_after_digits = 0, pr_negative_exp = False, pr_exponent = 0, pr_zeros = 0\<rparr>"

definition digit :: "char \<Rightarrow> int" where
  "digit c = int (byte c) - 48"

definition nonzero_digit :: "char \<Rightarrow> bool" where
  "nonzero_digit c \<longleftrightarrow> 49 \<le> byte c \<and> byte c \<le> 57"

text \<open>\<open>if (!error) error = e;\<close>\<close>

definition set_error :: "ParseErrorCode \<Rightarrow> Parser \<Rightarrow> Parser" where
  "set_error e p = (case pr_error p of None \<Rightarrow> p\<lparr>pr_error := Some e\<rparr> | Some _ \<Rightarrow> p)"

definition require :: "ParseOptions set \<Rightarrow> ParseOptions \<Rightarrow> ParseErrorCode \<Rightarrow> Parser \<Rightarrow> Parser" where
  "require options opt e p = (if opt \<in> options then p else set_error e p)"

definition StateToExpSign :: "ParseOptions set \<Rightarrow> Parser \<Rightarrow> Parser" where
  "StateToExpSign options p = (require options kAllowExponent kExponentNotAllowed p)\<lparr>pr_state := kExpSign\<rparr>"

definition is_exp :: "char \<Rightarrow> bool" where
  "is_exp c \<longleftrightarrow> c = CHR ''e'' \<or> c = CHR ''E''"

definition step_sign :: "ParseOptions set \<Rightarrow> char \<Rightarrow> Parser \<Rightarrow> Parser" where
  "step_sign options c p =
     (if c = CHR ''-'' then p\<lparr>pr_negative := True, pr_state := kBeforeFirstDig\<rparr>
      else if c = CHR ''+'' then p\<lparr>pr_state := kBeforeFirstDig\<rparr>
      else if c = CHR ''0'' then p\<lparr>pr_state := kLeadingZeros, pr_before_digits := 1\<rparr>
      else if nonzero_digit c then p\<lparr>pr_state := kBeforeDec, pr_before := digit c, pr_before_digits := 1\<rparr>
      else if c = CHR ''.'' then (require options kAllowBoundaryDot kBoundaryDot p)\<lparr>pr_state := kZerosAfterDec\<rparr>
      else if IsSpace c then
        (if kAllowSpaces \<in> options then p else p\<lparr>pr_state := kEnd, pr_error := Some kSpace\<rparr>)
      else p\<lparr>pr_state := kEnd, pr_error := Some kWrongChar\<rparr>)"

definition step_before_first_dig :: "ParseOptions set \<Rightarrow> char \<Rightarrow> Parser \<Rightarrow> Parser" where
  "step_before_first_dig options c p =
     (if c = CHR ''0'' then p\<lparr>pr_state := kLeadingZeros, pr_before_digits := 1\<rparr>
      else if nonzero_digit c then p\<lparr>pr_state := kBeforeDec, pr_before := digit c, pr_before_digits := 1\<rparr>
      else if c = CHR ''.'' then (require options kAllowBoundaryDot kBoundaryDot p)\<lparr>pr_state := kAfterDec\<rparr>
      else p\<lparr>pr_state := kEnd, pr_error := Some kWrongChar\<rparr>)"

definition step_leading_zeros :: "ParseOptions set \<Rightarrow> char \<Rightarrow> Parser \<Rightarrow> Parser" where
  "step_leading_zeros options c p =
     (if c = CHR ''0'' then p
      else if nonzero_digit c then p\<lparr>pr_state := kBeforeDec, pr_before := digit c\<rparr>
      else if c = CHR ''.'' then p\<lparr>pr_state := kZerosAfterDec\<rparr>
      else if is_exp c then StateToExpSign options p
      else p\<lparr>pr_state := kEnd\<rparr>)"

definition step_before_dec :: "ParseOptions set \<Rightarrow> char \<Rightarrow> Parser \<Rightarrow> Parser" where
  "step_before_dec options c p =
     (if is_digit c then
        (if pr_before_digits p < kMaxDecimalDigits
         then p\<lparr>pr_before := 10 * pr_before p + digit c, pr_before_digits := pr_before_digits p + 1\<rparr>
         else set_error kOverflow p)
      else if c = CHR ''.'' then p\<lparr>pr_state := kZerosAfterDec\<rparr>
      else if is_exp c then StateToExpSign options p
      else p\<lparr>pr_state := kEnd\<rparr>)"

definition step_after_dec :: "ParseOptions set \<Rightarrow> char \<Rightarrow> Parser \<Rightarrow> Parser" where
  "step_after_dec options c p0 =
     (let p = p0\<lparr>pr_state := kAfterDec\<rparr> in
      if is_digit c then
        (if pr_after_digits p < kMaxDecimalDigits
         then p\<lparr>pr_after := 10 * pr_after p + digit c, pr_after_digits := pr_after_digits p + 1\<rparr>
         else (let p' = (require options kAllowRounding kRounding p)\<lparr>pr_state := kIgnoringAfterDec\<rparr>
               in if 53 \<le> byte c then p'\<lparr>pr_after := pr_after p' + 1\<rparr> else p'))
      else if is_exp c then StateToExpSign options p
      else (if pr_after_digits p = 0 then require options kAllowBoundaryDot kBoundaryDot p else p)\<lparr>pr_state := kEnd\<rparr>)"

definition step_zeros_after_dec :: "ParseOptions set \<Rightarrow> char \<Rightarrow> Parser \<Rightarrow> Parser" where
  "step_zeros_after_dec options c p =
     (if c = CHR ''0'' then p\<lparr>pr_zeros := pr_zeros p + 1, pr_after_digits := (pr_after_digits p + 1) mod 256\<rparr>
      else step_after_dec options c p)"

definition step_ignoring :: "ParseOptions set \<Rightarrow> char \<Rightarrow> Parser \<Rightarrow> Parser" where
  "step_ignoring options c p =
     (if is_digit c then p else if is_exp c then StateToExpSign options p else p\<lparr>pr_state := kEnd\<rparr>)"

definition step_exp_sign :: "ParseOptions set \<Rightarrow> char \<Rightarrow> Parser \<Rightarrow> Parser" where
  "step_exp_sign options c p =
     (if c = CHR ''+'' then p\<lparr>pr_negative_exp := False, pr_state := kExpFirstDigit\<rparr>
      else if c = CHR ''-'' then p\<lparr>pr_negative_exp := True, pr_state := kExpFirstDigit\<rparr>
      else if is_digit c then p\<lparr>pr_exponent := nat (digit c), pr_state := kExpDigits\<rparr>
      else (set_error kWrongChar p)\<lparr>pr_state := kEnd\<rparr>)"

definition step_exp_first_digit :: "ParseOptions set \<Rightarrow> char \<Rightarrow> Parser \<Rightarrow> Parser" where
  "step_exp_first_digit options c p =
     (if is_digit c then p\<lparr>pr_exponent := nat (digit c), pr_state := kExpDigits\<rparr>
      else (set_error kWrongChar p)\<lparr>pr_state := kEnd\<rparr>)"

text \<open>Both built-ins store the wrapped result; the addition is not reached when the product overflows.\<close>

definition step_exp_digits :: "ParseOptions set \<Rightarrow> char \<Rightarrow> Parser \<Rightarrow> Parser" where
  "step_exp_digits options c p =
     (if is_digit c then
        (let prod = 10 * pr_exponent p;
             sum = (if 256 \<le> prod then prod else nat (digit c) + prod);
             p' = p\<lparr>pr_exponent := sum mod 256\<rparr>
         in if 256 \<le> sum then
              (if pr_negative_exp p' then require options kAllowRounding kRounding p' else set_error kOverflow p')
            else p')
      else p\<lparr>pr_state := kEnd\<rparr>)"

definition parse_step :: "ParseOptions set \<Rightarrow> char \<Rightarrow> Parser \<Rightarrow> Parser" where
  "parse_step options c p0 =
     (let p = (if pr_error p0 = None then p0\<lparr>pr_position := pr_position p0 + 1\<rparr> else p0) in
      case pr_state p of
        kSign \<Rightarrow> step_sign options c p
      | kBeforeFirstDig \<Rightarrow> step_before_first_dig options c p
      | kLeadingZeros \<Rightarrow> step_leading_zeros options c p
      | kBeforeDec \<Rightarrow> step_before_dec options c p
      | kZerosAfterDec \<Rightarrow> step_zeros_after_dec options c p
      | kAfterDec \<Rightarrow> step_after_dec options c p
      | kIgnoringAfterDec \<Rightarrow> step_ignoring options c p
      | kExpSign \<Rightarrow> step_exp_sign options c p
      | kExpFirstDigit \<Rightarrow> step_exp_first_digit options c p
      | kExpDigits \<Rightarrow> step_exp_digits options c p
      | kEnd \<Rightarrow> p)"

text \<open>The loop; the character that leads to \<open>kEnd\<close> is put back.\<close>

fun parse_loop :: "ParseOptions set \<Rightarrow> string \<Rightarrow> Parser \<Rightarrow> Parser \<times> string" where
  "parse_loop options [] p = (p, [])"
| "parse_loop options (c # input) p =
     (if c = CHR 0x00 then (p, input)
      else (let p' = parse_step options c p
            in if pr_state p' = kEnd then (p', c # input) else parse_loop options input p'))"

text \<open>The loop over what follows the number.\<close>

fun trailing_loop :: "string \<Rightarrow> Parser \<Rightarrow> Parser" where
  "trailing_loop [] p = p"
| "trailing_loop (c # input) p =
     (if c = CHR 0x00 then p
      else if IsSpace c then trailing_loop input (p\<lparr>pr_position := pr_position p + 1\<rparr>)
      else p\<lparr>pr_position := pr_position p + 1, pr_error := Some kTrailingJunk\<rparr>)"

definition check_trailing :: "ParseOptions set \<Rightarrow> string \<Rightarrow> Parser \<Rightarrow> Parser" where
  "check_trailing options input p =
     (if pr_state p = kEnd \<and> pr_error p = None \<and> kAllowTrailingJunk \<notin> options
      then trailing_loop input ((require options kAllowSpaces kSpace p)\<lparr>pr_position := pr_position p - 1\<rparr>)
      else p)"

definition check_digits :: "ParseOptions set \<Rightarrow> Parser \<Rightarrow> Parser" where
  "check_digits options p0 =
     (let p1 = (if pr_before_digits p0 = 0 \<and> pr_after_digits p0 = 0 then set_error kNoDigits p0 else p0);
          p2 = (if pr_state p1 = kZerosAfterDec \<and> pr_after_digits p1 = 0 then require options kAllowBoundaryDot kBoundaryDot p1 else p1);
          p3 = (if pr_state p2 = kExpSign \<or> pr_state p2 = kExpFirstDigit then set_error kNoExponentDigits p2 else p2)
      in if kMaxDecimalDigits \<le> pr_zeros p3 then p3\<lparr>pr_after_digits := 0, pr_after := 0, pr_zeros := 0\<rparr> else p3)"

definition ParseUnpacked :: "string \<Rightarrow> ParseOptions set \<Rightarrow> Parser" where
  "ParseUnpacked input options =
     (let (p, rest) = parse_loop options input initial_parser in check_digits options (check_trailing options rest p))"

datatype ParseResult = ParseOk int | ParseFailed ParseErrorCode nat

definition Decimal_Parse :: "nat \<Rightarrow> policy \<Rightarrow> string \<Rightarrow> ParseOptions set \<Rightarrow> ParseResult dresult" where
  "Decimal_Parse P policy input options =
     (let parsed = ParseUnpacked input options in
      case pr_error parsed of
        Some e \<Rightarrow> Inr (ParseFailed e (nat (pr_position parsed mod 2 ^ 32)))
      | None \<Rightarrow>
          if kAllowRounding \<notin> options \<and> P < pr_after_digits parsed then Inr (ParseFailed kRounding 0)
          else if kMaxInt64 sdiv kPow10 P \<le> pr_before parsed then Inr (ParseFailed kOverflow 0)
          else
            (let decimal_digits = (if pr_after parsed = 0 then 0 else pr_after_digits parsed);
                 zeros = (if pr_after parsed = 0 \<and> 0 < pr_after_digits parsed then 0 else pr_zeros parsed);
                 int_part = (if pr_negative parsed then - pr_before parsed else pr_before parsed);
                 after = (if pr_negative parsed then - pr_after parsed else pr_after parsed)
             in dbind
                  (if pr_exponent parsed \<noteq> 0
                   then FromUnpackedWithExponent P policy int_part after (int decimal_digits) (int (pr_exponent parsed))
                          (pr_negative_exp parsed) (int zeros)
                   else FromUnpacked_prec P policy int_part after decimal_digits)
                  (\<lambda>v. Inr (ParseOk v))))"

definition ErrorDescription :: "ParseErrorCode \<Rightarrow> string" where
  "ErrorDescription error_code =
     (case error_code of
        kWrongChar \<Rightarrow> ''wrong character''
      | kNoDigits \<Rightarrow> ''the input contains no digits''
      | kOverflow \<Rightarrow> ''overflow''
      | kSpace \<Rightarrow> ''extra spaces are disallowed''
      | kTrailingJunk \<Rightarrow> ''extra characters after the number are disallowed''
      | kRounding \<Rightarrow> ''the input contains more fractional digits than in target precision, while implicit rounding is disallowed''
      | kBoundaryDot \<Rightarrow> ''the input includes leading or trailing dot (like '' @ [CHR 0x27] @ ''42.'' @ [CHR 0x27] @ ''), while such notation is disallowed''
      | kExponentNotAllowed \<Rightarrow> ''the input contains an exponent character, but exponent notation is disabled''
      | kNoExponentDigits \<Rightarrow> ''exponent detected, but no digits follow it (or its sign)'')"

definition GetErrorMessage :: "string \<Rightarrow> string \<Rightarrow> nat \<Rightarrow> ParseErrorCode \<Rightarrow> string" where
  "GetErrorMessage source path position reason =
     ''While parsing Decimal at '' @ [CHR 0x27] @ path @ [CHR 0x27] @ '' from '' @ [CHR 0x27] @ source @ [CHR 0x27] @ '', error at char #''
     @ dec (position + 1) @ '': '' @ ErrorDescription reason"

definition parsed_decimal :: "string \<Rightarrow> ParseResult dresult \<Rightarrow> int dresult" where
  "parsed_decimal input r =
     dbind r (\<lambda>res. case res of
         ParseOk v \<Rightarrow> Inr v
       | ParseFailed e position \<Rightarrow> Inl (DecimalParseError (GetErrorMessage input ''<string>'' position e)))"

text \<open>\<open>Decimal(std::string_view)\<close> and \<open>FromStringPermissive\<close>.\<close>

definition Decimal_ofString :: "nat \<Rightarrow> policy \<Rightarrow> string \<Rightarrow> int dresult" where
  "Decimal_ofString P policy s = parsed_decimal s (Decimal_Parse P policy s {})"

definition FromStringPermissive :: "nat \<Rightarrow> policy \<Rightarrow> string \<Rightarrow> int dresult" where
  "FromStringPermissive P policy s =
     parsed_decimal s (Decimal_Parse P policy s {kAllowSpaces, kAllowBoundaryDot, kAllowRounding, kAllowExponent})"

subsection \<open>Printing\<close>

definition trim_step :: "nat \<Rightarrow> int \<times> int \<Rightarrow> int \<times> int" where
  "trim_step k = (\<lambda>(after, after_precision).
     if after smod kPow10 k = 0 then (after sdiv kPow10 k, after_precision - int k) else (after, after_precision))"

definition TrimTrailingZeros :: "int \<times> int \<Rightarrow> int \<times> int" where
  "TrimTrailingZeros ap =
     (if fst ap = 0 then (0, 0) else trim_step 1 (trim_step 2 (trim_step 4 (trim_step 8 (trim_step 16 ap)))))"

text \<open>\<open>{:0{}}\<close>: the decimal digits with zeros on the left up to a width.\<close>

definition zero_padded :: "nat \<Rightarrow> nat \<Rightarrow> string" where
  "zero_padded w n = replicate (w - length (dec n)) (CHR ''0'') @ dec n"

definition format_decimal :: "nat \<Rightarrow> policy \<Rightarrow> bool \<Rightarrow> int option \<Rightarrow> int \<Rightarrow> string dresult" where
  "format_decimal P policy remove_trailing_zeros custom_precision d =
     (let digits = (case custom_precision of Some n \<Rightarrow> n | None \<Rightarrow> int P) in
      dbind (AsUnpacked_prec P policy d digits) (\<lambda>(int_part, after0).
        let (after, after_digits) = (if remove_trailing_zeros then TrimTrailingZeros (after0, digits) else (after0, digits))
        in Inr (if 0 < after_digits then
                  (if Sign d = -1
                   then ''-'' @ dec_int (- int_part) @ ''.'' @ zero_padded (nat after_digits) (nat (- after))
                   else dec_int int_part @ ''.'' @ zero_padded (nat after_digits) (nat after))
                else dec_int int_part)))"

definition Decimal_ToString :: "nat \<Rightarrow> policy \<Rightarrow> int \<Rightarrow> string dresult" where
  "Decimal_ToString P policy d = format_decimal P policy True None d"

definition ToStringTrailingZeros :: "nat \<Rightarrow> policy \<Rightarrow> int \<Rightarrow> string dresult" where
  "ToStringTrailingZeros P policy d = format_decimal P policy False None d"

definition ToStringFixed :: "nat \<Rightarrow> nat \<Rightarrow> policy \<Rightarrow> int \<Rightarrow> string dresult" where
  "ToStringFixed N P policy d = dbind (decimal_cast N policy P d) (ToStringTrailingZeros N policy)"

subsection \<open>Printing with format options\<close>

record FormatOptions =
  decimal_point :: string
  thousands_sep :: string
  grouping :: string
  negative_sign :: string
  positive_sign :: string
  precision :: "int option"
  is_fixed :: bool

text \<open>The groups of digits from the right, as value and width; the arrays have \<open>kMaxDecimalDigits\<close> slots.\<close>

type_synonym groups = "(int \<times> nat) list"

definition push_group :: "int \<times> nat \<Rightarrow> groups \<Rightarrow> groups dresult" where
  "push_group g gs = (if length gs < kMaxDecimalDigits then Inr (gs @ [g]) else Inl ArrayOverrun)"

text \<open>\<open>char\<close> is signed.\<close>

definition valid_group :: "char \<Rightarrow> bool" where
  "valid_group g \<longleftrightarrow> 0 < byte g \<and> byte g \<le> kMaxDecimalDigits"

text \<open>The loop over the rule of grouping: the rest of the number, the groups, and the last rule seen.\<close>

fun grouping_loop :: "string \<Rightarrow> int \<Rightarrow> groups \<Rightarrow> char \<Rightarrow> (int \<times> groups \<times> char) dresult" where
  "grouping_loop [] int_part gs last_group = Inr (int_part, gs, last_group)"
| "grouping_loop (g # rules) int_part gs last_group =
     (if int_part = 0 \<or> \<not> valid_group g then Inr (int_part, gs, g)
      else dbind (Abs (int_part smod kPow10 (byte g))) (\<lambda>v. dbind (push_group (v, byte g) gs) (\<lambda>gs'.
             grouping_loop rules (int_part sdiv kPow10 (byte g)) gs' g)))"

lemma sdiv_pow10_less: "int_part \<noteq> 0 \<Longrightarrow> 0 < k \<Longrightarrow> nat \<bar>int_part sdiv kPow10 k\<bar> < nat \<bar>int_part\<bar>"
proof -
  assume *: "int_part \<noteq> 0" "0 < k"
  then have "1 < kPow10 k" by (simp add: kPow10_def)
  then have "\<bar>int_part\<bar> div kPow10 k < \<bar>int_part\<bar>" using * by (intro int_div_less_self) simp_all
  moreover have "\<bar>int_part sdiv kPow10 k\<bar> = \<bar>int_part\<bar> div kPow10 k"
    using \<open>1 < kPow10 k\<close> * by (simp add: signed_divide_int_def abs_mult pos_imp_zdiv_nonneg_iff)
  ultimately show ?thesis using *(1) by linarith
qed

function repeat_group :: "nat \<Rightarrow> int \<Rightarrow> groups \<Rightarrow> (int \<times> groups) dresult" where
  "repeat_group k int_part gs =
     (if int_part = 0 \<or> k = 0 then Inr (int_part, gs)
      else dbind (Abs (int_part smod kPow10 k)) (\<lambda>v. dbind (push_group (v, k) gs) (\<lambda>gs'.
             repeat_group k (int_part sdiv kPow10 k) gs')))"
  by pat_completeness auto
termination
  by (relation "measure (\<lambda>(k, int_part, gs). nat \<bar>int_part\<bar>)") (auto dest: sdiv_pow10_less)

declare repeat_group.simps [simp del]

definition group_digits :: "string \<Rightarrow> int \<Rightarrow> groups dresult" where
  "group_digits rules int_part0 =
     dbind (grouping_loop rules int_part0 [] (CHR 0x00)) (\<lambda>(int_part1, gs1, last_group).
     dbind (if valid_group last_group then repeat_group (byte last_group) int_part1 gs1 else Inr (int_part1, gs1)) (\<lambda>(int_part, gs).
       if int_part \<noteq> 0 \<or> gs = [] then dbind (Abs int_part) (\<lambda>v. push_group (v, 0) gs) else Inr gs))"

definition print_groups :: "string \<Rightarrow> groups \<Rightarrow> string" where
  "print_groups sep gs =
     dec_int (fst (last gs)) @ concat (map (\<lambda>g. sep @ zero_padded (snd g) (nat (fst g))) (rev (butlast gs)))"

definition impl_ToString :: "FormatOptions \<Rightarrow> int \<Rightarrow> int \<Rightarrow> int \<Rightarrow> string dresult" where
  "impl_ToString opts int_part after0 precision0 =
     (let (after, prec) = (if is_fixed opts then (after0, precision0) else TrimTrailingZeros (after0, precision0)) in
      dbind (group_digits (grouping opts) int_part) (\<lambda>gs.
      dbind (Abs after) (\<lambda>abs_after.
        Inr ((if after + int_part < 0 then negative_sign opts else positive_sign opts)
          @ print_groups (thousands_sep opts) gs
          @ (if after \<noteq> 0 \<or> is_fixed opts \<and> prec \<noteq> 0 then decimal_point opts @ zero_padded (nat prec) (nat abs_after) else [])))))"

definition ToString_options :: "nat \<Rightarrow> policy \<Rightarrow> FormatOptions \<Rightarrow> int \<Rightarrow> string dresult" where
  "ToString_options P policy opts d =
     (let prec0 = (case precision opts of Some n \<Rightarrow> n | None \<Rightarrow> int P);
          prec = (if is_fixed opts then prec0 else min prec0 (int P))
      in dbind (AsUnpacked_prec P policy d prec) (\<lambda>(int_part, after). impl_ToString opts int_part after prec))"

end
