(* ===== verification/Decimal64_Correct.thy ===== *)
theory Decimal64_Correct
  imports Decimal64 Complex_Main
begin

section \<open>Decimals round as their policy says\<close>

text \<open>
  Every rounding policy against its definition on rational numbers; division, multiplication and
  the conversions between precisions under any policy.
\<close>

subsection \<open>What the policies mean\<close>

definition round_half_up :: "rat \<Rightarrow> int" where
  "round_half_up x = (if 0 \<le> x then \<lfloor>x + 1 / 2\<rfloor> else \<lceil>x - 1 / 2\<rceil>)"

definition round_half_down :: "rat \<Rightarrow> int" where
  "round_half_down x = (if 0 \<le> x then \<lceil>x - 1 / 2\<rceil> else \<lfloor>x + 1 / 2\<rfloor>)"

definition round_half_even :: "rat \<Rightarrow> int" where
  "round_half_even x =
     (let n = \<lfloor>x\<rfloor> in
      if x - of_int n < 1 / 2 then n else if 1 / 2 < x - of_int n then n + 1 else if even n then n else n + 1)"

definition round_down :: "rat \<Rightarrow> int" where
  "round_down x = (if 0 \<le> x then \<lfloor>x\<rfloor> else \<lceil>x\<rceil>)"

definition round_up :: "rat \<Rightarrow> int" where
  "round_up x = (if 0 \<le> x then \<lceil>x\<rceil> else \<lfloor>x\<rfloor>)"

primrec rounded :: "RoundPolicy \<Rightarrow> rat \<Rightarrow> int" where
  "rounded DefRoundPolicy = round_half_up"
| "rounded HalfDownRoundPolicy = round_half_down"
| "rounded HalfUpRoundPolicy = round_half_up"
| "rounded HalfEvenRoundPolicy = round_half_even"
| "rounded CeilingRoundPolicy = ceiling"
| "rounded FloorRoundPolicy = floor"
| "rounded RoundDownRoundPolicy = round_down"
| "rounded RoundUpRoundPolicy = round_up"

text \<open>When a policy throws: the intermediate results of some do not fit.\<close>

definition spill_def :: "int \<Rightarrow> int \<Rightarrow> bool" where
  "spill_def a b \<longleftrightarrow> (if 0 \<le> a then kMaxInt64 < a + \<bar>b\<bar> div 2 else a - \<bar>b\<bar> div 2 < kMinInt64)"

definition spill_half :: "int \<Rightarrow> int \<Rightarrow> bool" where
  "spill_half a b \<longleftrightarrow> a = kMinInt64 \<or> b = kMinInt64"

primrec spill :: "RoundPolicy \<Rightarrow> int \<Rightarrow> int \<Rightarrow> bool" where
  "spill DefRoundPolicy = spill_def"
| "spill HalfDownRoundPolicy = spill_half"
| "spill HalfUpRoundPolicy = spill_half"
| "spill HalfEvenRoundPolicy = spill_half"
| "spill CeilingRoundPolicy = (\<lambda>_ _. False)"
| "spill FloorRoundPolicy = (\<lambda>_ _. False)"
| "spill RoundDownRoundPolicy = (\<lambda>_ _. False)"
| "spill RoundUpRoundPolicy = (\<lambda>_ _. False)"

subsection \<open>A number as whole part, sign and fraction\<close>

lemma floor_ceiling_parts:
  fixes f :: rat
  assumes "s = 1 \<or> s = -1" and "0 \<le> f" "f < 1"
  shows "\<lfloor>of_int T + of_int s * f\<rfloor> = (if s = -1 \<and> f \<noteq> 0 then T - 1 else T)"
    "\<lceil>of_int T + of_int s * f\<rceil> = (if s = 1 \<and> f \<noteq> 0 then T + 1 else T)"
  using assms by (auto simp: floor_eq_iff ceiling_eq_iff)

lemma parts_sign:
  fixes f :: rat
  assumes "s = 1 \<or> s = -1" and "0 \<le> f" "f < 1" and "0 \<le> s * T"
  shows "0 \<le> of_int T + of_int s * f \<longleftrightarrow> s = 1 \<or> T = 0 \<and> f = 0"
proof -
  have "of_int T \<le> (0 :: rat)" if "s = -1" using assms(4) that by simp
  moreover have "0 \<le> (of_int T :: rat)" if "s = 1" using assms(4) that by simp
  ultimately show ?thesis using assms(1-3) by (auto simp: add_nonneg_nonneg)
qed

lemma rounded_parts:
  fixes f :: rat
  assumes "s = 1 \<or> s = -1" and "0 \<le> f" "f < 1" and "0 \<le> s * T"
  shows "round_half_up (of_int T + of_int s * f) = (if 1 / 2 \<le> f then T + s else T)"
    "round_half_down (of_int T + of_int s * f) = (if 1 / 2 < f then T + s else T)"
    "round_half_even (of_int T + of_int s * f) = (if 1 / 2 < f \<or> f = 1 / 2 \<and> odd T then T + s else T)"
    "round_down (of_int T + of_int s * f) = T"
    "round_up (of_int T + of_int s * f) = (if f \<noteq> 0 then T + s else T)"
proof -
  note sign = parts_sign [OF assms] and fc = floor_ceiling_parts [OF assms(1-3)]
  show "round_half_up (of_int T + of_int s * f) = (if 1 / 2 \<le> f then T + s else T)"
    unfolding round_half_up_def sign using assms by (auto simp: floor_eq_iff ceiling_eq_iff)
  show "round_half_down (of_int T + of_int s * f) = (if 1 / 2 < f then T + s else T)"
    unfolding round_half_down_def sign using assms by (auto simp: floor_eq_iff ceiling_eq_iff)
  show "round_half_even (of_int T + of_int s * f) = (if 1 / 2 < f \<or> f = 1 / 2 \<and> odd T then T + s else T)"
    unfolding round_half_even_def fc using assms by (auto simp: Let_def)
  show "round_down (of_int T + of_int s * f) = T" unfolding round_down_def sign fc using assms(1) by auto
  show "round_up (of_int T + of_int s * f) = (if f \<noteq> 0 then T + s else T)" unfolding round_up_def sign fc using assms(1) by auto
qed

text \<open>The quotient of two integers, together with a whole number on the same side of zero.\<close>

definition qsign :: "int \<Rightarrow> int \<Rightarrow> int \<Rightarrow> int" where
  "qsign w a b = (if a = 0 then (if 0 \<le> w then 1 else -1) else sgn a * sgn b)"

definition qfrac :: "int \<Rightarrow> int \<Rightarrow> rat" where
  "qfrac a b = of_int (\<bar>a\<bar> mod \<bar>b\<bar>) / of_int \<bar>b\<bar>"

definition same_side :: "int \<Rightarrow> int \<Rightarrow> int \<Rightarrow> bool" where
  "same_side w a b \<longleftrightarrow> w = 0 \<or> a = 0 \<or> sgn w = sgn a * sgn b"

lemma quotient_parts:
  assumes "b \<noteq> 0" and "same_side w a b"
  shows "qsign w a b = 1 \<or> qsign w a b = -1" "0 \<le> qfrac a b" "qfrac a b < 1" "0 \<le> qsign w a b * (w + a sdiv b)"
    "of_int w + of_int a / of_int b = of_int (w + a sdiv b) + of_int (qsign w a b) * qfrac a b"
proof -
  show "qsign w a b = 1 \<or> qsign w a b = -1" using assms(1) by (auto simp: qsign_def sgn_if)
  have lt: "(of_int (\<bar>a\<bar> mod \<bar>b\<bar>) :: rat) < of_int \<bar>b\<bar>" using assms(1) by (subst of_int_less_iff) simp
  have pos: "0 < (of_int \<bar>b\<bar> :: rat)" using assms(1) by simp
  show "0 \<le> qfrac a b" using assms(1) by (simp add: qfrac_def)
  show "qfrac a b < 1" using lt unfolding qfrac_def divide_less_eq_1_pos [OF pos] .
  show "0 \<le> qsign w a b * (w + a sdiv b)"
  proof (cases "a = 0")
    case False
    have "0 \<le> (sgn a * sgn b) * w" using assms(2) False by (auto simp: same_side_def sgn_if split: if_splits)
    moreover have "(sgn a * sgn b) * (a sdiv b) = \<bar>a\<bar> div \<bar>b\<bar>"
      using False assms(1) by (simp add: signed_divide_int_def sgn_if)
    moreover have "0 \<le> \<bar>a\<bar> div \<bar>b\<bar>" using assms(1) by (simp add: pos_imp_zdiv_nonneg_iff)
    ultimately show ?thesis using False by (simp add: qsign_def distrib_left)
  qed (simp add: qsign_def)
  have "(of_int \<bar>a\<bar> :: rat) = of_int (\<bar>a\<bar> div \<bar>b\<bar>) * of_int \<bar>b\<bar> + of_int (\<bar>a\<bar> mod \<bar>b\<bar>)"
    by (metis div_mult_mod_eq of_int_add of_int_mult)
  then have "(of_int \<bar>a\<bar> :: rat) / of_int \<bar>b\<bar> = of_int (\<bar>a\<bar> div \<bar>b\<bar>) + qfrac a b"
    using assms(1) by (simp add: qfrac_def add_divide_distrib)
  moreover have "(of_int a :: rat) / of_int b = of_int (sgn a * sgn b) * (of_int \<bar>a\<bar> / of_int \<bar>b\<bar>)"
    using assms(1) by (auto simp: sgn_if)
  ultimately have "(of_int a :: rat) / of_int b = of_int (a sdiv b) + of_int (sgn a * sgn b) * qfrac a b"
    by (simp add: signed_divide_int_def distrib_left)
  then show "of_int w + of_int a / of_int b = of_int (w + a sdiv b) + of_int (qsign w a b) * qfrac a b"
    by (simp add: qsign_def qfrac_def)
qed

lemma rounded_quotient:
  assumes "b \<noteq> 0" and "same_side w a b"
  shows "round_half_up (of_int w + of_int a / of_int b) = (if 1 / 2 \<le> qfrac a b then (w + a sdiv b) + qsign w a b else w + a sdiv b)"
    "round_half_down (of_int w + of_int a / of_int b) = (if 1 / 2 < qfrac a b then (w + a sdiv b) + qsign w a b else w + a sdiv b)"
    "round_half_even (of_int w + of_int a / of_int b) =
       (if 1 / 2 < qfrac a b \<or> qfrac a b = 1 / 2 \<and> odd (w + a sdiv b) then (w + a sdiv b) + qsign w a b else w + a sdiv b)"
    "round_down (of_int w + of_int a / of_int b) = w + a sdiv b"
    "round_up (of_int w + of_int a / of_int b) = (if qfrac a b \<noteq> 0 then (w + a sdiv b) + qsign w a b else w + a sdiv b)"
    "\<lfloor>of_int w + of_int a / (of_int b :: rat)\<rfloor> = (if qsign w a b = -1 \<and> qfrac a b \<noteq> 0 then w + a sdiv b - 1 else w + a sdiv b)"
    "\<lceil>of_int w + of_int a / (of_int b :: rat)\<rceil> = (if qsign w a b = 1 \<and> qfrac a b \<noteq> 0 then w + a sdiv b + 1 else w + a sdiv b)"
  unfolding quotient_parts(5) [OF assms] rounded_parts [OF quotient_parts(1-4) [OF assms]]
    floor_ceiling_parts [OF quotient_parts(1-3) [OF assms]] by (rule refl)+

lemma qfrac_half:
  assumes "b \<noteq> 0"
  shows "1 / 2 \<le> qfrac a b \<longleftrightarrow> \<bar>b\<bar> \<le> 2 * (\<bar>a\<bar> mod \<bar>b\<bar>)" "1 / 2 < qfrac a b \<longleftrightarrow> \<bar>b\<bar> < 2 * (\<bar>a\<bar> mod \<bar>b\<bar>)"
    "qfrac a b = 1 / 2 \<longleftrightarrow> \<bar>b\<bar> = 2 * (\<bar>a\<bar> mod \<bar>b\<bar>)" "qfrac a b = 0 \<longleftrightarrow> a smod b = 0"
proof -
  have b: "0 < (of_int \<bar>b\<bar> :: rat)" using assms by simp
  have le: "x / of_int \<bar>b\<bar> * 2 = 2 * x / of_int \<bar>b\<bar>" for x :: rat by simp
  have "1 / 2 \<le> qfrac a b \<longleftrightarrow> (of_int \<bar>b\<bar> :: rat) \<le> of_int (2 * (\<bar>a\<bar> mod \<bar>b\<bar>))"
    using b by (simp add: qfrac_def field_simps)
  then show "1 / 2 \<le> qfrac a b \<longleftrightarrow> \<bar>b\<bar> \<le> 2 * (\<bar>a\<bar> mod \<bar>b\<bar>)" by (simp only: of_int_le_iff)
  have "1 / 2 < qfrac a b \<longleftrightarrow> (of_int \<bar>b\<bar> :: rat) < of_int (2 * (\<bar>a\<bar> mod \<bar>b\<bar>))"
    using b by (simp add: qfrac_def field_simps)
  then show "1 / 2 < qfrac a b \<longleftrightarrow> \<bar>b\<bar> < 2 * (\<bar>a\<bar> mod \<bar>b\<bar>)" by (simp only: of_int_less_iff)
  have "qfrac a b = 1 / 2 \<longleftrightarrow> (of_int \<bar>b\<bar> :: rat) = of_int (2 * (\<bar>a\<bar> mod \<bar>b\<bar>))"
    using b by (simp add: qfrac_def field_simps)
  then show "qfrac a b = 1 / 2 \<longleftrightarrow> \<bar>b\<bar> = 2 * (\<bar>a\<bar> mod \<bar>b\<bar>)" by (simp only: of_int_eq_iff)
  show "qfrac a b = 0 \<longleftrightarrow> a smod b = 0" using assms by (auto simp: qfrac_def signed_modulo_int_def sgn_if)
qed

lemma same_side_smod: "d \<noteq> 0 \<Longrightarrow> same_side (p sdiv d) (p smod d) d"
proof -
  assume "d \<noteq> 0"
  have "sgn (p smod d) = sgn p" if "p smod d \<noteq> 0"
  proof -
    have "0 \<le> \<bar>p\<bar> mod \<bar>d\<bar>" using \<open>d \<noteq> 0\<close> by simp
    then have "0 < \<bar>p\<bar> mod \<bar>d\<bar>" using that by (auto simp: signed_modulo_int_def)
    then show ?thesis by (simp add: signed_modulo_int_def sgn_mult)
  qed
  then show ?thesis using sgn_sdiv_eq_sgn_mult [of p d] by (cases "p smod d = 0") (auto simp: same_side_def sgn_mult)
qed

subsection \<open>The interface of a policy\<close>

text \<open>
  What division expects of a policy: unless it throws, its result rounds the quotient, also when
  the quotient is the part of a number after a whole part whose parity is given.
\<close>

locale rounding =
  fixes divr :: policy and rnd :: "rat \<Rightarrow> int" and spl :: "int \<Rightarrow> int \<Rightarrow> bool"
  assumes divr_rounds: "int64 a \<Longrightarrow> int64 b \<Longrightarrow> b \<noteq> 0 \<Longrightarrow> b \<noteq> -1 \<Longrightarrow> same_side w a b \<Longrightarrow>
      divr a b (odd w) = (if spl a b then Inl OutOfBoundsError else Inr (rnd (of_int w + of_int a / of_int b) - w))"
    and rnd_whole: "rnd (of_int w) = w"
begin

lemma Div_rounds:
  assumes "int64 a" and "int64 b"
  shows "Div divr a b False =
     (if b = 0 then Inl DivisionByZeroError
      else if (if b = -1 then a = kMinInt64 else spl a b) then Inl OutOfBoundsError
      else Inr (rnd (of_int a / of_int b)))"
  using divr_rounds [OF assms, of 0] rnd_whole [of "- a"] by (simp add: Div_def same_side_def)

lemma MulDiv_rounds:
  assumes "int64 d"
  shows "MulDiv divr v1 v2 d =
     (if d = 0 then Inl DivisionByZeroError
      else if v1 * v2 sdiv d \<le> kMinInt64 \<or> kMaxInt64 \<le> v1 * v2 sdiv d \<or> d \<noteq> -1 \<and> spl (v1 * v2 smod d) d
      then Inl OutOfBoundsError
      else Inr (rnd (of_int (v1 * v2) / of_int d)))"
proof (cases "d = 0 \<or> v1 * v2 sdiv d \<le> kMinInt64 \<or> kMaxInt64 \<le> v1 * v2 sdiv d")
  case False
  let ?p = "v1 * v2" and ?w = "v1 * v2 sdiv d" and ?r = "v1 * v2 smod d"
  have d: "d \<noteq> 0" using False by simp
  have rem: "?r \<in> {- \<bar>d\<bar> + 1..\<bar>d\<bar> - 1}" using d by (rule smod_int_range)
  then have small: "int64 ?r" "?r \<noteq> kMinInt64" using assms by (auto simp: int64_def kMinInt64_def kMaxInt64_def)
  have side: "same_side ?w ?r d" using d by (rule same_side_smod)
  have parity: "(?w smod 2 \<noteq> 0) = odd ?w" by (auto simp: signed_modulo_int_def sgn_if) presburger+
  have "of_int ?w + of_int ?r / of_int d = (of_int (?w * d + ?r) :: rat) / of_int d" using d by (simp add: add_divide_distrib)
  then have sum: "of_int ?w + of_int ?r / of_int d = (of_int ?p :: rat) / of_int d" by (simp only: sdiv_mult_smod_eq)
  have "Div divr ?r d (odd ?w) =
      (if d \<noteq> -1 \<and> spl ?r d then Inl OutOfBoundsError else Inr (rnd (of_int ?p / of_int d) - ?w))"
  proof (cases "d = -1")
    case True
    have "rnd (of_int (- ?p)) = - ?p" by (rule rnd_whole)
    then show ?thesis using True small(2) by (simp add: Div_def signed_modulo_int_def kMinInt64_def)
  next
    case False
    then show ?thesis using d divr_rounds [OF small(1) assms d False side] by (simp only: Div_def sum if_False simp_thms)
  qed
  then show ?thesis using False by (simp add: MulDiv_def Let_def parity)
qed (auto simp: MulDiv_def Let_def)

end

subsection \<open>The policies of the library\<close>

lemma Sign_sgn: "Sign v = sgn v"
  by (simp add: Sign_def sgn_if)

lemma signed_nonneg:
  fixes x y :: int
  assumes "0 \<le> x" and "0 < y"
  shows "x sdiv y = x div y" "x smod y = x mod y"
proof -
  have "0 \<le> x div y" using assms by (simp add: pos_imp_zdiv_nonneg_iff)
  then show "x sdiv y = x div y" "x smod y = x mod y" using assms by (auto simp: signed_divide_int_def signed_modulo_int_def sgn_if)
qed

lemma rounded_away:
  assumes "C \<longrightarrow> a \<noteq> 0"
  shows "(if C then a sdiv b + Sign a * Sign b else a sdiv b) = (if C then (w + a sdiv b) + qsign w a b else w + a sdiv b) - w"
  using assms by (auto simp: Sign_sgn qsign_def)

lemma HalfRound_spec:
  assumes "int64 a" "int64 b" "b \<noteq> 0" and "away \<bar>a\<bar> \<bar>b\<bar> odd_q = C" and "C \<longrightarrow> a \<noteq> 0"
  shows "HalfRound_DivRounded away a b odd_q =
     (if spill_half a b then Inl OutOfBoundsError
      else Inr ((if C then (w + a sdiv b) + qsign w a b else w + a sdiv b) - w))"
proof (cases "spill_half a b")
  case False
  then have "Abs a = Inr \<bar>a\<bar>" "Abs b = Inr \<bar>b\<bar>" by (simp_all add: Abs_def spill_half_def)
  then show ?thesis
    using False unfolding rounded_away [OF assms(5), symmetric] HalfRound_DivRounded_def by (simp add: assms(4))
qed (auto simp: HalfRound_DivRounded_def Abs_def spill_half_def)

lemma away_iff:
  assumes "b \<noteq> 0"
  shows "HalfUp_away \<bar>a\<bar> \<bar>b\<bar> odd_q = (1 / 2 \<le> qfrac a b)" "HalfDown_away \<bar>a\<bar> \<bar>b\<bar> odd_q = (1 / 2 < qfrac a b)"
    "HalfEven_away \<bar>a\<bar> \<bar>b\<bar> (odd w) = (1 / 2 < qfrac a b \<or> qfrac a b = 1 / 2 \<and> odd (w + a sdiv b))"
proof -
  have b: "0 < \<bar>b\<bar>" using assms by simp
  note sn = signed_nonneg [OF abs_ge_zero b, of a] signed_nonneg [OF abs_ge_zero zero_less_numeral, of b]
    signed_nonneg [OF _ zero_less_numeral, of "\<bar>a\<bar> div \<bar>b\<bar>"]
  have q: "0 \<le> \<bar>a\<bar> div \<bar>b\<bar>" using b by (simp add: pos_imp_zdiv_nonneg_iff)
  have par: "odd (w + a sdiv b) = (odd w \<noteq> odd (\<bar>a\<bar> div \<bar>b\<bar>))"
    using assms by (auto simp: signed_divide_int_def sgn_if)
  have half: "(if n mod 2 = 0 then n div 2 \<le> m else n div 2 < m) = (n \<le> 2 * m)" "(n div 2 < m) = (n < 2 * m)"
    "(n mod 2 = 0 \<and> m = n div 2) = (n = 2 * m)" for m n :: int by presburger+
  show "HalfUp_away \<bar>a\<bar> \<bar>b\<bar> odd_q = (1 / 2 \<le> qfrac a b)"
    unfolding qfrac_half(1) [OF assms] HalfUp_away_def sn Let_def by (rule half)
  show "HalfDown_away \<bar>a\<bar> \<bar>b\<bar> odd_q = (1 / 2 < qfrac a b)"
    unfolding qfrac_half(2) [OF assms] HalfDown_away_def sn by (rule half)
  show "HalfEven_away \<bar>a\<bar> \<bar>b\<bar> (odd w) = (1 / 2 < qfrac a b \<or> qfrac a b = 1 / 2 \<and> odd (w + a sdiv b))"
    unfolding qfrac_half(2,3) [OF assms] HalfEven_away_def sn sn(5,6) [OF q] Let_def par half by (auto simp: even_iff_mod_2_eq_zero)
qed

lemma half_not_zero: "b \<noteq> 0 \<Longrightarrow> 1 / 2 \<le> qfrac a b \<longrightarrow> a \<noteq> 0"
  by (auto simp: qfrac_def)

lemma rounded_whole:
  "round_half_up (of_int w) = w" "round_half_down (of_int w) = w" "round_half_even (of_int w) = w" "round_down (of_int w) = w"
  "round_up (of_int w) = w"
  by (auto simp: round_half_up_def round_half_down_def round_half_even_def round_down_def round_up_def Let_def
      floor_eq_iff ceiling_eq_iff)

interpretation half_up: rounding "HalfRound_DivRounded HalfUp_away" round_half_up spill_half
proof (unfold_locales, goal_cases)
  case (1 a b w)
  show ?case unfolding rounded_quotient(1) [OF 1(3,5)]
    using away_iff(1) [OF 1(3)] half_not_zero [OF 1(3)] by (rule HalfRound_spec [OF 1(1-3)])
qed (rule rounded_whole)

interpretation half_down: rounding "HalfRound_DivRounded HalfDown_away" round_half_down spill_half
proof (unfold_locales, goal_cases)
  case (1 a b w)
  have "1 / 2 < qfrac a b \<longrightarrow> a \<noteq> 0" using half_not_zero [OF 1(3), of a] by auto
  with away_iff(2) [OF 1(3)] show ?case unfolding rounded_quotient(2) [OF 1(3,5)] by (rule HalfRound_spec [OF 1(1-3)])
qed (rule rounded_whole)

interpretation half_even: rounding "HalfRound_DivRounded HalfEven_away" round_half_even spill_half
proof (unfold_locales, goal_cases)
  case (1 a b w)
  have "1 / 2 < qfrac a b \<or> qfrac a b = 1 / 2 \<and> odd (w + a sdiv b) \<longrightarrow> a \<noteq> 0" using half_not_zero [OF 1(3), of a] by auto
  with away_iff(3) [OF 1(3)] show ?case unfolding rounded_quotient(3) [OF 1(3,5)] by (rule HalfRound_spec [OF 1(1-3)])
qed (rule rounded_whole)

text \<open>Adding half of the divisor before a truncating division rounds halves away from zero.\<close>

lemma div_plus_half:
  fixes A B :: int
  assumes "0 \<le> A" and "0 < B"
  shows "(A + B div 2) div B = A div B + (if B \<le> 2 * (A mod B) then 1 else 0)"
proof -
  have r: "0 \<le> A mod B" "A mod B < B" using assms by simp_all
  have "A + B div 2 = (A mod B + B div 2) + B * (A div B)" by simp
  then have "(A + B div 2) div B = ((A mod B + B div 2) + B * (A div B)) div B" by (simp only:)
  also have "\<dots> = A div B + (A mod B + B div 2) div B" using assms(2) by (intro div_mult_self2) simp
  also have "(A mod B + B div 2) div B = (if B \<le> 2 * (A mod B) then 1 else 0)"
  proof (cases "B \<le> 2 * (A mod B)")
    case True
    then have "(A mod B + B div 2) div B = 1" using r by (intro int_div_pos_eq [of _ _ _ "A mod B + B div 2 - B"]) linarith+
    then show ?thesis using True by simp
  next
    case False
    then have "(A mod B + B div 2) div B = 0" using r assms by (intro div_pos_pos_trivial) linarith+
    then show ?thesis using False by simp
  qed
  finally show ?thesis by simp
qed

lemma DefRound_quotient:
  assumes "b \<noteq> 0"
  shows "(if 0 \<le> a then (a + \<bar>b\<bar> div 2) sdiv b else (a - \<bar>b\<bar> div 2) sdiv b) = (if 1 / 2 \<le> qfrac a b then a sdiv b + Sign a * Sign b else a sdiv b)"
proof -
  have B: "0 < \<bar>b\<bar>" using assms by simp
  have c: "0 \<le> \<bar>b\<bar> div 2" by (simp add: pos_imp_zdiv_nonneg_iff)
  note step = div_plus_half [OF abs_ge_zero B, of a] and h = qfrac_half(1) [OF assms, of a]
  consider "a = 0" | "0 < a" | "a < 0" by linarith
  then show ?thesis
  proof cases
    case 1
    have "\<bar>b\<bar> div 2 < \<bar>b\<bar>" using assms by linarith
    then have "(\<bar>b\<bar> div 2) div \<bar>b\<bar> = 0" using c by (intro div_pos_pos_trivial) simp_all
    then show ?thesis using 1 half_not_zero [OF assms, of a] c by (simp add: signed_divide_int_def)
  next
    case 2
    then have "sgn (a + \<bar>b\<bar> div 2) = 1" "\<bar>a + \<bar>b\<bar> div 2\<bar> = \<bar>a\<bar> + \<bar>b\<bar> div 2" using c by simp_all
    then have "(a + \<bar>b\<bar> div 2) sdiv b = sgn b * ((\<bar>a\<bar> + \<bar>b\<bar> div 2) div \<bar>b\<bar>)" by (simp only: signed_divide_int_def mult_1)
    then show ?thesis using 2 unfolding step h by (simp add: signed_divide_int_def Sign_sgn distrib_left)
  next
    case 3
    then have "sgn (a - \<bar>b\<bar> div 2) = -1" "\<bar>a - \<bar>b\<bar> div 2\<bar> = \<bar>a\<bar> + \<bar>b\<bar> div 2" using c by simp_all
    then have "(a - \<bar>b\<bar> div 2) sdiv b = - sgn b * ((\<bar>a\<bar> + \<bar>b\<bar> div 2) div \<bar>b\<bar>)" by (simp only: signed_divide_int_def)
    then show ?thesis using 3 unfolding step h by (simp add: signed_divide_int_def Sign_sgn distrib_left)
  qed
qed

interpretation def_round: rounding DefRound_DivRounded round_half_up spill_def
proof (unfold_locales, goal_cases)
  case (1 a b w)
  have "b sdiv 2 = sgn b * (\<bar>b\<bar> div 2)" by (simp add: signed_divide_int_def)
  moreover have "\<bar>b\<bar> div 2 \<le> 2 ^ 62" "0 \<le> \<bar>b\<bar> div 2" using 1(2) by (auto simp: int64_def kMinInt64_def kMaxInt64_def)
  ultimately have corr: "Abs (b sdiv 2) = Inr (\<bar>b\<bar> div 2)" using 1(3) by (cases "0 < b") (auto simp: Abs_def kMinInt64_def sgn_if)
  have spl: "spill_def a b = (if 0 \<le> a then kMaxInt64 - a < \<bar>b\<bar> div 2 else - (kMinInt64 - a) < \<bar>b\<bar> div 2)"
    unfolding spill_def_def by (auto simp: algebra_simps)
  show ?case
    using DefRound_quotient [OF 1(3), of a] half_not_zero [OF 1(3), of a]
    unfolding rounded_quotient(1) [OF 1(3,5)] rounded_away [OF half_not_zero [OF 1(3)], symmetric]
    by (auto simp: DefRound_DivRounded_def corr spl)
qed (rule rounded_whole)

lemma qsign_iff:
  assumes "b \<noteq> 0" and "a smod b \<noteq> 0"
  shows "qsign w a b = sgn a * sgn b" "qsign w a b = 1 \<longleftrightarrow> (0 \<le> a) = (0 \<le> b)" "qsign w a b = -1 \<longleftrightarrow> (a < 0) \<noteq> (b < 0)"
proof -
  have "a \<noteq> 0" using assms(2) by auto
  then show "qsign w a b = sgn a * sgn b" "qsign w a b = 1 \<longleftrightarrow> (0 \<le> a) = (0 \<le> b)" "qsign w a b = -1 \<longleftrightarrow> (a < 0) \<noteq> (b < 0)"
    using assms(1) by (auto simp: qsign_def sgn_if)
qed

interpretation ceiling_round: rounding Ceiling_DivRounded ceiling "\<lambda>_ _. False"
proof (unfold_locales, goal_cases)
  case (1 a b w)
  show ?case unfolding rounded_quotient(7) [OF 1(3,5)] qfrac_half(4) [OF 1(3)]
    by (cases "a smod b = 0") (simp_all add: Ceiling_DivRounded_def qsign_iff(2,3) [OF 1(3)])
qed simp

interpretation floor_round: rounding Floor_DivRounded floor "\<lambda>_ _. False"
proof (unfold_locales, goal_cases)
  case (1 a b w)
  show ?case unfolding rounded_quotient(6) [OF 1(3,5)] qfrac_half(4) [OF 1(3)]
    by (cases "a smod b = 0") (simp_all add: Floor_DivRounded_def qsign_iff(2,3) [OF 1(3)])
qed simp

interpretation round_down: rounding RoundDown_DivRounded round_down "\<lambda>_ _. False"
proof (unfold_locales, goal_cases)
  case (1 a b w)
  show ?case unfolding rounded_quotient(4) [OF 1(3,5)] by (simp add: RoundDown_DivRounded_def)
qed (rule rounded_whole)

interpretation round_up: rounding RoundUp_DivRounded round_up "\<lambda>_ _. False"
proof (unfold_locales, goal_cases)
  case (1 a b w)
  show ?case unfolding rounded_quotient(5) [OF 1(3,5)] qfrac_half(4) [OF 1(3)]
    by (cases "a smod b = 0") (simp_all add: RoundUp_DivRounded_def Sign_sgn qsign_iff(1) [OF 1(3)])
qed (rule rounded_whole)

lemma rounding_policy: "rounding (DivRounded p) (rounded p) (spill p)"
  by (cases p) (simp_all add: half_up.rounding_axioms half_down.rounding_axioms half_even.rounding_axioms def_round.rounding_axioms
      ceiling_round.rounding_axioms floor_round.rounding_axioms round_down.rounding_axioms round_up.rounding_axioms)

subsection \<open>Arithmetic\<close>

text \<open>
  (C30) Division of decimals by integers, the conversion to fewer digits and the rounding to a
  multiple all divide with \<open>Div\<close>: for each of the eight policies it returns the quotient rounded
  as the policy is defined on rational numbers; it throws exactly for a zero divisor, for the
  one quotient that does not fit, and, under four of the policies, when an intermediate result
  does not fit.
\<close>

theorem decimal_div_rounds:
  assumes "int64 a" and "int64 b"
  shows "Div (DivRounded p) a b False =
     (if b = 0 then Inl DivisionByZeroError
      else if (if b = -1 then a = kMinInt64 else spill p a b) then Inl OutOfBoundsError
      else Inr (rounded p (of_int a / of_int b)))"
  using assms by (rule rounding.Div_rounds [OF rounding_policy])

lemma kPow10_bounds: "Q \<le> kMaxDecimalDigits \<Longrightarrow> 1 \<le> kPow10 Q \<and> kPow10 Q \<le> 10 ^ 18"
  using power_increasing [of Q 18 "10 :: int"] by (simp add: kPow10_def kMaxDecimalDigits_def)

text \<open>A remainder by a power of ten is far from the limits, so that no policy throws for it.\<close>

lemma no_spill_pow10:
  assumes "Q \<le> kMaxDecimalDigits"
  shows "\<not> spill p (v smod kPow10 Q) (kPow10 Q)"
proof -
  note b = kPow10_bounds [OF assms]
  then have "v smod kPow10 Q \<in> {- \<bar>kPow10 Q\<bar> + 1..\<bar>kPow10 Q\<bar> - 1}" by (intro smod_int_range) linarith
  then have "- (10 ^ 18) < v smod kPow10 Q" "v smod kPow10 Q < 10 ^ 18" using b by auto
  then show ?thesis
    using b by (cases p) (auto simp: spill_def_def spill_half_def kMaxInt64_def kMinInt64_def)
qed

lemma sdiv_bounds:
  fixes v d m :: int
  assumes "0 < d" and "0 < m"
  shows "m \<le> v sdiv d \<longleftrightarrow> m * d \<le> v" "v sdiv d \<le> - m \<longleftrightarrow> v \<le> - m * d"
proof -
  have ge: "m \<le> x sdiv d \<longleftrightarrow> m * d \<le> x" for x
  proof (cases "0 \<le> x")
    case True
    have "m \<le> x div d \<longleftrightarrow> m * d \<le> x"
    proof
      assume "m \<le> x div d"
      then have "m * d \<le> x div d * d" using assms(1) by (intro mult_right_mono) simp_all
      also have "\<dots> \<le> x" using div_mult_mod_eq [of x d] pos_mod_sign [of d x] assms(1) by linarith
      finally show "m * d \<le> x" .
    next
      assume "m * d \<le> x"
      then have "m * d div d \<le> x div d" using assms(1) by (intro zdiv_mono1)
      then show "m \<le> x div d" using assms(1) by simp
    qed
    then show ?thesis using True assms(1) by (simp add: signed_nonneg)
  next
    case False
    then have "x sdiv d \<le> 0" using assms(1) by (auto simp: signed_divide_int_def pos_imp_zdiv_nonneg_iff)
    moreover have "0 < m * d" using assms by simp
    ultimately show ?thesis using False assms by linarith
  qed
  show "m \<le> v sdiv d \<longleftrightarrow> m * d \<le> v" by (rule ge)
  show "v sdiv d \<le> - m \<longleftrightarrow> v \<le> - m * d" using ge [of "- v"] by auto
qed

text \<open>The number a decimal stands for.\<close>

definition dec_value :: "nat \<Rightarrow> int \<Rightarrow> rat" where
  "dec_value P v = of_int v / 10 ^ P"

text \<open>
  (C22) The product of two decimals is the exact product, rounded once to the digits of the left
  operand as the policy says, and never wrapped: \<open>OutOfBoundsError\<close> is thrown exactly when the
  product is at or beyond the limits.
\<close>

theorem decimal_times_rounds:
  assumes "Q \<le> kMaxDecimalDigits"
  shows "Decimal_times (DivRounded p) Q a b =
     (if a * b \<le> kMinInt64 * 10 ^ Q \<or> kMaxInt64 * 10 ^ Q \<le> a * b then Inl OutOfBoundsError
      else Inr (rounded p (dec_value P a * dec_value Q b * 10 ^ P)))"
proof -
  note Q = kPow10_bounds [OF assms]
  have "int64 (kPow10 Q)" using Q by (auto simp: int64_def kMinInt64_def kMaxInt64_def)
  note md = rounding.MulDiv_rounds [OF rounding_policy this, of p a b]
  have "a * b sdiv kPow10 Q \<le> kMinInt64 \<longleftrightarrow> a * b \<le> kMinInt64 * 10 ^ Q"
    using sdiv_bounds(2) [of "kPow10 Q" "2 ^ 63"] Q by (simp add: kMinInt64_def kPow10_def)
  moreover have "kMaxInt64 \<le> a * b sdiv kPow10 Q \<longleftrightarrow> kMaxInt64 * 10 ^ Q \<le> a * b"
    using sdiv_bounds(1) [of "kPow10 Q" kMaxInt64] Q by (simp add: kMaxInt64_def kPow10_def)
  moreover have "(of_int (a * b) / of_int (kPow10 Q) :: rat) = dec_value P a * dec_value Q b * 10 ^ P"
    by (simp add: dec_value_def kPow10_def)
  ultimately show ?thesis
    unfolding Decimal_times_def md using Q no_spill_pow10 [OF assms] by auto
qed

text \<open>Sums are exact.\<close>

lemma Decimal_plus_exact:
  assumes "P \<le> kMaxDecimalDigits" "Q \<le> kMaxDecimalDigits" and "Decimal_plus pol P a Q b = Inr c"
  shows "dec_value (max P Q) c = dec_value P a + dec_value Q b \<and> int64 c"
proof -
  have scale: "dec_value n (x * kPow10 (n - m)) = dec_value m x" if "m < n" for m n x
  proof -
    have "(10 :: rat) ^ n = 10 ^ (n - m) * 10 ^ m" using that by (simp flip: power_add)
    then show ?thesis by (simp add: dec_value_def kPow10_def)
  qed
  have sum: "dec_value n (x + y) = dec_value n x + dec_value n y" for n x y by (simp add: dec_value_def add_divide_distrib)
  consider "P < Q" | "Q < P" | "P = Q" by linarith
  then show ?thesis
    using assms(3) scale [of P Q a] scale [of Q P b]
    by cases (auto simp: Decimal_plus_def FromDecimal_def checked_def sum max_def split: if_splits)
qed

lemma Decimal_divide_rounds:
  assumes "int64 b" and "b \<noteq> 0"
  shows "Decimal_divide (DivRounded p) Q a b =
     (if a * kPow10 Q sdiv b \<le> kMinInt64 \<or> kMaxInt64 \<le> a * kPow10 Q sdiv b \<or> b \<noteq> -1 \<and> spill p (a * kPow10 Q smod b) b
      then Inl OutOfBoundsError
      else Inr (rounded p (dec_value P a / dec_value Q b * 10 ^ P)))"
  using rounding.MulDiv_rounds [OF rounding_policy assms(1), of p a "kPow10 Q"] assms(2)
  by (simp add: Decimal_divide_def dec_value_def kPow10_def)

subsection \<open>Examples\<close>

theorem decimal_div_rounds_witness: "Div (DivRounded HalfEvenRoundPolicy) (-5) 2 False = Inr (-2)"
proof -
  have "Div (DivRounded HalfEvenRoundPolicy) (-5) 2 False = Inr (rounded HalfEvenRoundPolicy (of_int (-5) / of_int 2))"
    using decimal_div_rounds [of "-5" 2 HalfEvenRoundPolicy] by (simp add: int64_def kMinInt64_def kMaxInt64_def spill_half_def)
  moreover have "rounded HalfEvenRoundPolicy (of_int (-5) / of_int 2) = -2"
    using rounded_quotient(3) [of 2 0 "-5"] by (simp add: same_side_def qfrac_def signed_divide_int_def qsign_def)
  ultimately show ?thesis by (simp only:)
qed

theorem decimal_times_rounds_witness: "Decimal_times (DivRounded CeilingRoundPolicy) 2 105 (-250) = Inr (-262)"
proof -
  have "Decimal_times (DivRounded CeilingRoundPolicy) 2 105 (-250) = Inr (rounded CeilingRoundPolicy (dec_value 2 105 * dec_value 2 (-250) * 10 ^ 2))"
    using decimal_times_rounds [of 2 CeilingRoundPolicy 105 "-250" 2] by (simp add: kMaxDecimalDigits_def kMinInt64_def kMaxInt64_def)
  moreover have "\<lceil>dec_value 2 105 * dec_value 2 (-250) * 10 ^ 2\<rceil> = -262" by (simp add: dec_value_def ceiling_eq_iff)
  ultimately show ?thesis by (simp only: rounded.simps)
qed

end
