(* ===== verification/Decimal64_Text_Correct.thy ===== *)
theory Decimal64_Text_Correct
  imports Decimal64_Text Decimal64_Correct
begin

section \<open>What the decimal parser accepts\<close>

text \<open>
  The strict parser accepts exactly plain decimal literals and reads their exact value; what is
  printed is read back.  The permissive parser has an exponent of 8 bits that wraps around.
\<close>

subsection \<open>Digits\<close>

definition all_digits :: "string \<Rightarrow> bool" where
  "all_digits ds \<longleftrightarrow> (\<forall>c\<in>set ds. is_digit c)"

lemma undec_snoc: "undec (ds @ [c]) = 10 * undec ds + (byte c - 48)"
  by (simp add: undec_def)

lemma undec_append: "undec (xs @ ys) = undec xs * 10 ^ length ys + undec ys"
proof (induction ys rule: rev_induct)
  case (snoc c ys)
  have "undec (xs @ ys @ [c]) = 10 * undec (xs @ ys) + (byte c - 48)" using undec_snoc [of "xs @ ys" c] by simp
  then show ?case using snoc by (simp add: undec_snoc algebra_simps)
qed (simp add: undec_def)

lemma undec_zeros: "undec (replicate n (CHR ''0'')) = 0"
  by (induction n) (simp_all add: undec_def foldl_conv_fold)

lemma digit_int: "is_digit c \<Longrightarrow> digit c = int (byte c - 48)"
  by (simp add: is_digit_def digit_def)

lemma undec_bound: "all_digits ds \<Longrightarrow> undec ds < 10 ^ length ds"
proof (induction ds rule: rev_induct)
  case (snoc c ds)
  then have "byte c - 48 \<le> 9" "undec ds < 10 ^ length ds" by (auto simp: all_digits_def is_digit_def)
  then show ?case by (simp add: undec_snoc)
qed (simp add: undec_def)

lemma zero_or_nonzero: "is_digit c \<longleftrightarrow> c = CHR ''0'' \<or> nonzero_digit c"
proof -
  have "byte c = byte (CHR ''0'') \<longleftrightarrow> c = CHR ''0''" by (simp only: of_char_eq_iff)
  then show ?thesis by (auto simp: is_digit_def nonzero_digit_def)
qed

subsection \<open>Literals\<close>

text \<open>A literal that is being read: sign, digits, whether the point was seen, digits after it.\<close>

record literal =
  lit_sign :: string
  lit_int :: string
  lit_dot :: bool
  lit_frac :: string

definition lit_text :: "literal \<Rightarrow> string" where
  "lit_text l = lit_sign l @ lit_int l @ (if lit_dot l then ''.'' else []) @ lit_frac l"

definition all_zeros :: "string \<Rightarrow> bool" where
  "all_zeros ds \<longleftrightarrow> (\<forall>c\<in>set ds. c = CHR ''0'')"

definition significant :: "string \<Rightarrow> string" where
  "significant ds = dropWhile (\<lambda>c. c = CHR ''0'') ds"

text \<open>The digits the parser has room for.\<close>

definition lit_fits :: "literal \<Rightarrow> bool" where
  "lit_fits l \<longleftrightarrow> length (significant (lit_int l)) \<le> kMaxDecimalDigits \<and> (all_zeros (lit_frac l) \<or> length (lit_frac l) \<le> kMaxDecimalDigits)"

definition lit_wf :: "literal \<Rightarrow> bool" where
  "lit_wf l \<longleftrightarrow>
     lit_sign l \<in> {[], ''+'', ''-''} \<and> all_digits (lit_int l) \<and> all_digits (lit_frac l)
     \<and> (lit_dot l \<longrightarrow> lit_int l \<noteq> []) \<and> (\<not> lit_dot l \<longrightarrow> lit_frac l = [])"

text \<open>The next character of a literal.\<close>

definition extend :: "char \<Rightarrow> literal \<Rightarrow> literal option" where
  "extend c l =
     (if (c = CHR ''+'' \<or> c = CHR ''-'') \<and> lit_sign l = [] \<and> lit_int l = [] \<and> \<not> lit_dot l then Some (l\<lparr>lit_sign := [c]\<rparr>)
      else if is_digit c then Some (if lit_dot l then l\<lparr>lit_frac := lit_frac l @ [c]\<rparr> else l\<lparr>lit_int := lit_int l @ [c]\<rparr>)
      else if c = CHR ''.'' \<and> lit_int l \<noteq> [] \<and> \<not> lit_dot l then Some (l\<lparr>lit_dot := True\<rparr>)
      else None)"

text \<open>The parser after the characters of a literal, without an error.\<close>

definition int_state :: "literal \<Rightarrow> Parser \<Rightarrow> bool" where
  "int_state l p \<longleftrightarrow>
     pr_after p = 0 \<and> pr_after_digits p = 0 \<and> pr_zeros p = 0 \<and>
     (if lit_int l = [] then
        pr_before_digits p = 0 \<and> pr_before p = 0 \<and> pr_state p = (if lit_sign l = [] then kSign else kBeforeFirstDig)
      else if all_zeros (lit_int l) then pr_state p = kLeadingZeros \<and> pr_before p = 0 \<and> pr_before_digits p = 1
      else pr_state p = kBeforeDec \<and> pr_before p = int (undec (lit_int l)) \<and> pr_before_digits p = length (significant (lit_int l)))"

definition frac_state :: "literal \<Rightarrow> Parser \<Rightarrow> bool" where
  "frac_state l p \<longleftrightarrow>
     pr_before p = int (undec (lit_int l)) \<and> pr_before_digits p \<noteq> 0 \<and> pr_after p = int (undec (lit_frac l))
     \<and> pr_after_digits p = length (lit_frac l) \<and>
     (if all_zeros (lit_frac l) then pr_state p = kZerosAfterDec \<and> pr_zeros p = length (lit_frac l)
      else pr_state p = kAfterDec \<and> pr_zeros p < length (lit_frac l))"

definition reads :: "literal \<Rightarrow> Parser \<Rightarrow> bool" where
  "reads l p \<longleftrightarrow>
     lit_wf l \<and> lit_fits l \<and> pr_error p = None \<and> pr_exponent p = 0 \<and> pr_negative p = (lit_sign l = ''-'')
     \<and> (if lit_dot l then frac_state l p else int_state l p)"

lemma all_zeros_undec: "all_zeros ds \<Longrightarrow> undec ds = 0"
proof -
  assume "all_zeros ds"
  then have "ds = replicate (length ds) (CHR ''0'')" by (intro replicate_eqI) (auto simp: all_zeros_def)
  then show ?thesis by (metis undec_zeros)
qed

lemma all_zeros_simps [simp]: "all_zeros []" "all_zeros (xs @ [c]) \<longleftrightarrow> all_zeros xs \<and> c = CHR ''0''"
  by (auto simp: all_zeros_def)

lemma all_digits_simps [simp]: "all_digits []" "all_digits (xs @ ys) \<longleftrightarrow> all_digits xs \<and> all_digits ys"
  "all_digits (c # xs) \<longleftrightarrow> is_digit c \<and> all_digits xs"
  by (auto simp: all_digits_def)

lemma significant_zeros: "all_zeros ds \<longleftrightarrow> significant ds = []"
  by (auto simp: all_zeros_def significant_def dropWhile_eq_Nil_conv)

lemma significant_snoc:
  "significant (ds @ [c]) = (if all_zeros ds then (if c = CHR ''0'' then [] else [c]) else significant ds @ [c])"
  by (auto simp: significant_def all_zeros_def dropWhile_append)

lemma digit_not_special: "is_digit c \<Longrightarrow> c \<noteq> CHR ''+'' \<and> c \<noteq> CHR ''-'' \<and> c \<noteq> CHR ''.'' \<and> c \<noteq> CHR 0x00 \<and> \<not> is_exp c"
  by (auto simp: is_digit_def is_exp_def)

lemma nonzero_digit_not: "\<not> nonzero_digit (CHR ''0'')" "nonzero_digit c \<Longrightarrow> is_digit c" "is_digit (CHR ''0'')" "digit (CHR ''0'') = 0"
  by (auto simp: nonzero_digit_def is_digit_def digit_def)

subsection \<open>One step of the strict parser\<close>

text \<open>Either the character continues the literal, or there is an error or the end of the number.\<close>

definition step_ok :: "char \<Rightarrow> literal \<Rightarrow> Parser \<Rightarrow> bool" where
  "step_ok c l p' \<longleftrightarrow>
     (case extend c l of
        Some l' \<Rightarrow> if lit_fits l' then reads l' p' else pr_error p' \<noteq> None
      | None \<Rightarrow> pr_error p' \<noteq> None \<or> pr_state p' = kEnd)"

lemmas parser_steps = step_sign_def step_before_first_dig_def step_leading_zeros_def step_before_dec_def step_zeros_after_dec_def
  step_after_dec_def require_def set_error_def StateToExpSign_def

lemma parse_step_unfold:
  "pr_error p = None \<Longrightarrow> pr_state p = st \<Longrightarrow> parse_step options c p =
     (let p = p\<lparr>pr_position := pr_position p + 1\<rparr> in
      case st of
        kSign \<Rightarrow> step_sign options c p
      | kBeforeFirstDig \<Rightarrow> step_before_first_dig options c p
      | kLeadingZeros \<Rightarrow> step_leading_zeros options c p
      | kBeforeDec \<Rightarrow> step_before_dec options c p
      | kZerosAfterDec \<Rightarrow> step_zeros_after_dec options c p
      | kAfterDec \<Rightarrow> step_after_dec options c p
      | kIgnoringAfterDec \<Rightarrow> step_ignoring options c p
      | kExpSign \<Rightarrow> step_exp_sign options c p
      | kExpFirstDigit \<Rightarrow> step_exp_first_digit options c p
      | kExpDigits \<Rightarrow> step_exp_digits options c p
      | kEnd \<Rightarrow> p)"
  by (simp add: parse_step_def)

lemma step_first:
  assumes "reads l p" and "\<not> lit_dot l" and "lit_int l = []"
  shows "step_ok c l (parse_step {} c p)"
proof -
  have st: "pr_error p = None" "pr_state p = (if lit_sign l = [] then kSign else kBeforeFirstDig)" "lit_frac l = []"
    "pr_before p = 0" "pr_before_digits p = 0"
    using assms by (auto simp: reads_def int_state_def lit_wf_def)
  consider "c = CHR ''0''" | "nonzero_digit c" | "\<not> is_digit c" using zero_or_nonzero by blast
  then show ?thesis
  proof cases
    case 1
    then show ?thesis using assms st
      by (auto simp: step_ok_def extend_def reads_def lit_wf_def lit_fits_def int_state_def parse_step_unfold parser_steps
          nonzero_digit_not significant_def all_zeros_def Let_def)
  next
    case 2
    then have c: "is_digit c" "c \<noteq> CHR ''0''" "c \<noteq> CHR ''-''" "c \<noteq> CHR ''+''" "c \<noteq> CHR ''.''"
      using nonzero_digit_not digit_not_special by blast+
    then show ?thesis using assms st 2
      by (auto simp: step_ok_def extend_def reads_def lit_wf_def lit_fits_def int_state_def parse_step_unfold parser_steps
          significant_def all_zeros_def Let_def undec_def digit_int kMaxDecimalDigits_def)
  next
    case 3
    then have "\<not> nonzero_digit c" "c \<noteq> CHR ''0''" using nonzero_digit_not by blast+
    then show ?thesis using assms st 3
      by (auto simp: step_ok_def extend_def reads_def lit_wf_def lit_fits_def int_state_def parse_step_unfold parser_steps
          Let_def split: option.splits)
  qed
qed

lemma step_int:
  assumes "reads l p" and "\<not> lit_dot l" and "lit_int l \<noteq> []"
  shows "step_ok c l (parse_step {} c p)"
proof -
  have st: "pr_error p = None" "pr_state p = (if all_zeros (lit_int l) then kLeadingZeros else kBeforeDec)" "lit_frac l = []"
    "pr_before p = int (undec (lit_int l))" "pr_before_digits p = (if all_zeros (lit_int l) then 1 else length (significant (lit_int l)))"
    using assms all_zeros_undec [of "lit_int l"] by (auto simp: reads_def int_state_def lit_wf_def split: if_splits)
  consider "c = CHR ''0''" | "nonzero_digit c" | "\<not> is_digit c" using zero_or_nonzero by blast
  then show ?thesis
  proof cases
    case 1
    then show ?thesis using assms st
      by (auto simp: step_ok_def extend_def reads_def lit_wf_def lit_fits_def int_state_def parse_step_unfold parser_steps
          nonzero_digit_not significant_snoc undec_snoc Let_def kMaxDecimalDigits_def)
  next
    case 2
    then have c: "is_digit c" "c \<noteq> CHR ''0''" "c \<noteq> CHR ''-''" "c \<noteq> CHR ''+''" "c \<noteq> CHR ''.''"
      using nonzero_digit_not digit_not_special by blast+
    then show ?thesis using assms st 2 all_zeros_undec [of "lit_int l"]
      by (auto simp: step_ok_def extend_def reads_def lit_wf_def lit_fits_def int_state_def parse_step_unfold parser_steps
          significant_snoc undec_snoc digit_int Let_def kMaxDecimalDigits_def)
  next
    case 3
    then have "\<not> nonzero_digit c" "c \<noteq> CHR ''0''" using nonzero_digit_not by blast+
    then show ?thesis using assms st 3 significant_zeros [of "lit_int l"]
      by (auto simp: step_ok_def extend_def reads_def lit_wf_def lit_fits_def int_state_def frac_state_def parse_step_unfold parser_steps
          Let_def undec_def split: option.splits)
  qed
qed

lemma step_frac:
  assumes "reads l p" and "lit_dot l" and "length (lit_frac l) < 255"
  shows "step_ok c l (parse_step {} c p)"
proof -
  have st: "pr_error p = None" "pr_state p = (if all_zeros (lit_frac l) then kZerosAfterDec else kAfterDec)"
    "pr_after_digits p = length (lit_frac l)" "pr_after p = int (undec (lit_frac l))"
    using assms by (auto simp: reads_def frac_state_def)
  consider "c = CHR ''0''" | "nonzero_digit c" | "\<not> is_digit c" using zero_or_nonzero by blast
  then show ?thesis
  proof cases
    case 1
    then show ?thesis using assms st
      by (auto simp: step_ok_def extend_def reads_def lit_wf_def lit_fits_def frac_state_def parse_step_unfold parser_steps
          nonzero_digit_not undec_snoc all_zeros_undec Let_def)
  next
    case 2
    then have c: "is_digit c" "c \<noteq> CHR ''0''" "c \<noteq> CHR ''-''" "c \<noteq> CHR ''+''" "c \<noteq> CHR ''.''"
      using nonzero_digit_not digit_not_special by blast+
    then show ?thesis using assms st
      by (auto simp: step_ok_def extend_def reads_def lit_wf_def lit_fits_def frac_state_def parse_step_unfold parser_steps
          undec_snoc digit_int Let_def)
  next
    case 3
    then have "\<not> nonzero_digit c" "c \<noteq> CHR ''0''" using nonzero_digit_not by blast+
    then show ?thesis using assms st 3
      by (auto simp: step_ok_def extend_def reads_def lit_wf_def lit_fits_def frac_state_def parse_step_unfold parser_steps
          Let_def split: option.splits)
  qed
qed

lemma parse_step_reads: "reads l p \<Longrightarrow> length (lit_frac l) < 255 \<Longrightarrow> step_ok c l (parse_step {} c p)"
  using step_first step_int step_frac by blast




lemma extend_text: "extend c l = Some l' \<Longrightarrow> lit_wf l \<Longrightarrow> lit_text l' = lit_text l @ [c] \<and> length (lit_frac l') \<le> Suc (length (lit_frac l))"
  by (auto simp: extend_def lit_text_def lit_wf_def split: if_splits)


subsection \<open>Whole literals\<close>

fun extend_all :: "string \<Rightarrow> literal \<Rightarrow> literal option" where
  "extend_all [] l = Some l"
| "extend_all (c # s) l = (case extend c l of None \<Rightarrow> None | Some l' \<Rightarrow> if lit_fits l' then extend_all s l' else None)"

lemma extend_all_append: "extend_all (s @ t) l = (case extend_all s l of None \<Rightarrow> None | Some l' \<Rightarrow> extend_all t l')"
  by (induction s arbitrary: l) (auto split: option.splits)

lemma reads_not_end: "reads l p \<Longrightarrow> pr_state p \<noteq> kEnd"
  by (auto simp: reads_def frac_state_def int_state_def split: if_splits)

lemma extend_not_nul: "extend c l \<noteq> None \<Longrightarrow> c \<noteq> CHR 0x00"
  by (auto simp: extend_def is_digit_def)

lemma parse_loop_complete:
  assumes "reads l p" and "extend_all s l = Some l'" and "length (lit_frac l) + length s < 256"
  shows "\<exists>p'. parse_loop {} s p = (p', []) \<and> reads l' p'"
  using assms
proof (induction s arbitrary: l p)
  case (Cons c s)
  then obtain l1 where l1: "extend c l = Some l1" "lit_fits l1" "extend_all s l1 = Some l'" by (auto split: option.splits if_splits)
  have "step_ok c l (parse_step {} c p)" using Cons.prems(1,3) by (intro parse_step_reads) simp_all
  then have r: "reads l1 (parse_step {} c p)" using l1 by (simp add: step_ok_def)
  moreover have "length (lit_frac l1) \<le> Suc (length (lit_frac l))" using extend_text [OF l1(1)] Cons.prems(1) by (simp add: reads_def)
  ultimately show ?case
    using Cons.IH [OF r l1(3)] Cons.prems(3) reads_not_end [OF r] extend_not_nul [of c l] l1(1) by (simp add: Let_def)
qed simp

lemma significant_append_le: "length (significant xs) \<le> length (significant (xs @ ys))"
  by (induction xs) (auto simp: significant_def)

lemma extend_int:
  assumes "all_digits ds" and "\<not> lit_dot l" and "lit_fits (l\<lparr>lit_int := lit_int l @ ds\<rparr>)"
  shows "extend_all ds l = Some (l\<lparr>lit_int := lit_int l @ ds\<rparr>)"
  using assms
proof (induction ds arbitrary: l)
  case (Cons c ds)
  let ?l = "l\<lparr>lit_int := lit_int l @ [c]\<rparr>"
  have "extend c l = Some ?l" using Cons.prems digit_not_special [of c] by (auto simp: extend_def)
  moreover have "lit_fits ?l"
    using Cons.prems(3) significant_append_le [of "lit_int l @ [c]" ds] by (auto simp: lit_fits_def)
  ultimately show ?case using Cons.IH [of ?l] Cons.prems by simp
qed simp

lemma extend_frac:
  assumes "all_digits fs" and "lit_dot l" and "lit_fits (l\<lparr>lit_frac := lit_frac l @ fs\<rparr>)"
  shows "extend_all fs l = Some (l\<lparr>lit_frac := lit_frac l @ fs\<rparr>)"
  using assms
proof (induction fs arbitrary: l)
  case (Cons c fs)
  let ?l = "l\<lparr>lit_frac := lit_frac l @ [c]\<rparr>"
  have "extend c l = Some ?l" using Cons.prems digit_not_special [of c] by (auto simp: extend_def)
  moreover have "lit_fits ?l" using Cons.prems(3) by (auto simp: lit_fits_def all_zeros_def)
  ultimately show ?case using Cons.IH [of ?l] Cons.prems by simp
qed simp

definition empty_literal :: literal where
  "empty_literal = \<lparr>lit_sign = [], lit_int = [], lit_dot = False, lit_frac = []\<rparr>"

lemma reads_initial: "reads empty_literal initial_parser"
  by (simp add: reads_def empty_literal_def initial_parser_def lit_wf_def lit_fits_def int_state_def significant_def)

lemma extend_literal:
  assumes "lit_wf l" and "lit_fits l"
  shows "extend_all (lit_text l) empty_literal = Some l"
proof -
  let ?l0 = "empty_literal\<lparr>lit_sign := lit_sign l\<rparr>"
  have "extend_all (lit_sign l) empty_literal = Some ?l0"
    using assms(1) by (auto simp: lit_wf_def extend_def empty_literal_def lit_fits_def significant_def)
  moreover have "extend_all (lit_int l) ?l0 = Some (?l0\<lparr>lit_int := lit_int l\<rparr>)"
    using extend_int [of "lit_int l" ?l0] assms by (simp add: lit_wf_def lit_fits_def empty_literal_def)
  moreover have "extend_all ((if lit_dot l then ''.'' else []) @ lit_frac l) (?l0\<lparr>lit_int := lit_int l\<rparr>) = Some l"
  proof (cases "lit_dot l")
    case True
    let ?l1 = "?l0\<lparr>lit_int := lit_int l, lit_dot := True\<rparr>"
    have "extend (CHR ''.'') (?l0\<lparr>lit_int := lit_int l\<rparr>) = Some ?l1"
      using True assms(1) by (simp add: extend_def empty_literal_def lit_wf_def is_digit_def)
    moreover have "lit_fits ?l1" using assms(2) by (simp add: lit_fits_def empty_literal_def)
    moreover have "extend_all (lit_frac l) ?l1 = Some l"
      using extend_frac [of "lit_frac l" ?l1] assms True by (simp add: lit_wf_def lit_fits_def empty_literal_def)
    ultimately show ?thesis using True by simp
  next
    case False
    then show ?thesis using assms(1) by (simp add: lit_wf_def empty_literal_def)
  qed
  ultimately show ?thesis by (simp add: lit_text_def extend_all_append)
qed

subsection \<open>The result of the strict parser\<close>

definition lit_complete :: "literal \<Rightarrow> bool" where
  "lit_complete l \<longleftrightarrow> lit_wf l \<and> lit_fits l \<and> lit_int l \<noteq> [] \<and> (lit_dot l \<longrightarrow> lit_frac l \<noteq> [])"


definition lit_scaled :: "nat \<Rightarrow> literal \<Rightarrow> int" where
  "lit_scaled P l =
     (if lit_sign l = ''-'' then -1 else 1)
       * (int (undec (lit_int l)) * 10 ^ P + int (undec (lit_frac l)) * 10 ^ (P - length (lit_frac l)))"


lemma check_digits_reads:
  assumes "reads l p"
  shows "(pr_error (check_digits {} p) = None) = lit_complete l"
    "lit_complete l \<Longrightarrow> pr_exponent (check_digits {} p) = 0 \<and> pr_negative (check_digits {} p) = (lit_sign l = ''-'')
       \<and> pr_before (check_digits {} p) = int (undec (lit_int l)) \<and> pr_after (check_digits {} p) = int (undec (lit_frac l))
       \<and> pr_after_digits (check_digits {} p) =
           (if all_zeros (lit_frac l) \<and> kMaxDecimalDigits \<le> length (lit_frac l) then 0 else length (lit_frac l))"
proof -
  note defs = reads_def lit_complete_def check_digits_def Let_def require_def set_error_def
  show "(pr_error (check_digits {} p) = None) = lit_complete l"
  proof (cases "lit_dot l")
    case True
    then show ?thesis using assms by (auto simp: defs frac_state_def lit_wf_def split: if_splits)
  next
    case False
    then show ?thesis using assms significant_zeros [of "lit_int l"] by (auto simp: defs int_state_def lit_wf_def split: if_splits)
  qed
  assume full: "lit_complete l"
  show "pr_exponent (check_digits {} p) = 0 \<and> pr_negative (check_digits {} p) = (lit_sign l = ''-'')
       \<and> pr_before (check_digits {} p) = int (undec (lit_int l)) \<and> pr_after (check_digits {} p) = int (undec (lit_frac l))
       \<and> pr_after_digits (check_digits {} p) =
           (if all_zeros (lit_frac l) \<and> kMaxDecimalDigits \<le> length (lit_frac l) then 0 else length (lit_frac l))"
  proof (cases "lit_dot l")
    case True
    then show ?thesis
      using assms full all_zeros_undec [of "lit_frac l"] by (auto simp: defs frac_state_def lit_fits_def split: if_splits)
  next
    case False
    then have "lit_frac l = []" using full by (simp add: lit_complete_def lit_wf_def)
    then show ?thesis
      using assms full False significant_zeros [of "lit_int l"] all_zeros_undec [of "lit_int l"]
      by (auto simp: defs int_state_def undec_def kMaxDecimalDigits_def split: if_splits)
  qed
qed

lemma ParseUnpacked_reads:
  assumes "parse_loop {} s initial_parser = (p, rest)" and "reads l p"
  shows "ParseUnpacked s {} = check_digits {} p"
  using assms reads_not_end [OF assms(2)] by (simp add: ParseUnpacked_def check_trailing_def)

lemma pack_fits:
  assumes "P \<le> kMaxDecimalDigits" and "int b < kMaxInt64 div kPow10 P" and "int a < kPow10 P"
  shows "int64 (int b * kPow10 P)" "int64 (int b * kPow10 P + int a)" "int64 (- (int b * kPow10 P))"
    "int64 (- (int b * kPow10 P) - int a)"
proof -
  have pos: "0 < kPow10 P" using kPow10_bounds [OF assms(1)] by linarith
  have "(int b + 1) * kPow10 P \<le> kMaxInt64 div kPow10 P * kPow10 P" using assms(2) pos by (intro mult_right_mono) simp_all
  also have "\<dots> \<le> kMaxInt64" using div_mult_mod_eq [of kMaxInt64 "kPow10 P"] pos_mod_sign [OF pos, of kMaxInt64] by linarith
  finally have "int b * kPow10 P + kPow10 P \<le> kMaxInt64" by (simp add: distrib_right)
  moreover have "0 \<le> int b * kPow10 P" using pos by simp
  moreover have "kMinInt64 \<le> - kMaxInt64" by (simp add: kMinInt64_def kMaxInt64_def)
  ultimately show "int64 (int b * kPow10 P)" "int64 (int b * kPow10 P + int a)" "int64 (- (int b * kPow10 P))"
    "int64 (- (int b * kPow10 P) - int a)"
    using pos assms(3) unfolding int64_def by linarith+
qed

lemma frac_scaled:
  assumes "length fs \<le> P" and "all_digits fs"
  shows "int (undec fs) * 10 ^ (P - length fs) < kPow10 P"
proof -
  have "int (undec fs) < 10 ^ length fs" using undec_bound [OF assms(2)] by (metis of_nat_less_iff of_nat_numeral of_nat_power)
  then have "int (undec fs) * 10 ^ (P - length fs) < 10 ^ length fs * 10 ^ (P - length fs)" by (intro mult_strict_right_mono) simp_all
  also have "\<dots> = kPow10 P" using assms(1) by (simp add: kPow10_def flip: power_add)
  finally show ?thesis .
qed

lemma FromUnpacked_literal:
  assumes "P \<le> kMaxDecimalDigits" and "lit_complete l" and "length (lit_frac l) \<le> P \<or> undec (lit_frac l) = 0"
    and "int (undec (lit_int l)) < kMaxInt64 div kPow10 P"
    and "d = (if undec (lit_frac l) = 0 then 0 else length (lit_frac l))"
    and "sg = (if lit_sign l = ''-'' then -1 else 1)"
  shows "FromUnpacked_prec P pol (sg * int (undec (lit_int l))) (sg * int (undec (lit_frac l))) d = Inr (lit_scaled P l)"
proof -
  let ?f = "undec (lit_frac l) * 10 ^ (P - length (lit_frac l))"
  have digits: "all_digits (lit_frac l)" using assms(2) by (simp add: lit_complete_def lit_wf_def)
  have "int ?f < kPow10 P"
    using frac_scaled [OF _ digits, of P] assms(3) kPow10_bounds [OF assms(1)] by (cases "undec (lit_frac l) = 0") auto
  note fits = pack_fits [OF assms(1,4) this]
  have d: "d \<le> P" using assms(3,5) by auto
  then have "Pow10 (int (P - d)) = Inr (10 ^ (P - d))" using assms(1) by (simp add: Pow10_def)
  moreover have "sg * int (undec (lit_frac l)) * 10 ^ (P - d) = sg * int ?f" using assms(5) by simp
  moreover have "checked (sg * int (undec (lit_int l)) * kPow10 P) = Inr (sg * int (undec (lit_int l)) * kPow10 P)"
    using fits assms(6) by (simp add: checked_def)
  moreover have "checked (sg * int (undec (lit_int l)) * kPow10 P + sg * int ?f) = Inr (lit_scaled P l)"
    using fits assms(6) by (auto simp: checked_def lit_scaled_def kPow10_def algebra_simps)
  ultimately show ?thesis using d by (simp only: FromUnpacked_prec_def FromUnpacked_def if_True dbind_simps)
qed

text \<open>
  Which fractions the strict parser accepts: the documentation of the constructor allows no more
  digits than the precision, but the parser forgets the digits of a fraction of 18 or more zeros.
\<close>

definition frac_accepted :: "nat \<Rightarrow> string \<Rightarrow> bool" where
  "frac_accepted P fs \<longleftrightarrow> length fs \<le> P \<or> all_zeros fs \<and> kMaxDecimalDigits \<le> length fs"

lemma Parse_literal:
  assumes "P \<le> kMaxDecimalDigits" and "parse_loop {} s initial_parser = (p, rest)" and "reads l p" and "lit_complete l"
  shows "Decimal_Parse P pol s {} =
     (if \<not> frac_accepted P (lit_frac l) then Inr (ParseFailed kRounding 0)
      else if kMaxInt64 div kPow10 P \<le> int (undec (lit_int l)) then Inr (ParseFailed kOverflow 0)
      else Inr (ParseOk (lit_scaled P l)))"
proof -
  let ?q = "check_digits {} p"
  have err: "pr_error ?q = None" using check_digits_reads(1) [OF assms(3)] assms(4) by simp
  note q = check_digits_reads(2) [OF assms(3,4)]
  have div: "kMaxInt64 sdiv kPow10 P = kMaxInt64 div kPow10 P"
    using kPow10_bounds [OF assms(1)] by (intro signed_nonneg) (simp_all add: kMaxInt64_def)
  have acc: "(P < pr_after_digits ?q) = (\<not> frac_accepted P (lit_frac l))" using q assms(1) by (auto simp: frac_accepted_def)
  have zero: "pr_after_digits ?q = length (lit_frac l) \<or> undec (lit_frac l) = 0" using q all_zeros_undec by auto
  show ?thesis
  proof (cases "frac_accepted P (lit_frac l) \<and> int (undec (lit_int l)) < kMaxInt64 div kPow10 P")
    case True
    then have ok: "length (lit_frac l) \<le> P \<or> undec (lit_frac l) = 0" using all_zeros_undec by (auto simp: frac_accepted_def)
    have d: "(if pr_after ?q = 0 then 0 else pr_after_digits ?q) = (if undec (lit_frac l) = 0 then 0 else length (lit_frac l))"
      using q zero by auto
    have "FromUnpacked_prec P pol (if pr_negative ?q then - pr_before ?q else pr_before ?q)
        (if pr_negative ?q then - pr_after ?q else pr_after ?q) (if pr_after ?q = 0 then 0 else pr_after_digits ?q) = Inr (lit_scaled P l)"
      using FromUnpacked_literal [OF assms(1,4) ok _ d refl, of pol] True q by (cases "lit_sign l = ''-''") simp_all
    then show ?thesis
      using True q err acc unfolding Decimal_Parse_def ParseUnpacked_reads [OF assms(2,3)] Let_def div by simp
  next
    case False
    then show ?thesis
      using q err acc unfolding Decimal_Parse_def ParseUnpacked_reads [OF assms(2,3)] Let_def div by auto
  qed
qed




lemma Decimal_ofString_literal:
  assumes "P \<le> kMaxDecimalDigits" and "lit_complete l" and "length (lit_text l) < 256"
  shows "(Decimal_ofString P pol (lit_text l) = Inr v) =
     (frac_accepted P (lit_frac l) \<and> int (undec (lit_int l)) < kMaxInt64 div kPow10 P \<and> v = lit_scaled P l)"
proof -
  have "extend_all (lit_text l) empty_literal = Some l" using assms(2) by (intro extend_literal) (simp_all add: lit_complete_def)
  then obtain p where p: "parse_loop {} (lit_text l) initial_parser = (p, [])" "reads l p"
    using parse_loop_complete [OF reads_initial] assms(3) by (fastforce simp: empty_literal_def)
  show ?thesis
    unfolding Decimal_ofString_def Parse_literal [OF assms(1) p assms(2)] by (auto simp: parsed_decimal_def)
qed



text \<open>The input ends at the first NUL character.\<close>

definition until_nul :: "string \<Rightarrow> string" where
  "until_nul s = takeWhile (\<lambda>c. c \<noteq> CHR 0x00) s"

lemma trailing_loop_until_nul: "trailing_loop (until_nul s) p = trailing_loop s p"
  by (induction s p rule: trailing_loop.induct) (auto simp: until_nul_def)

lemma parse_loop_until_nul:
  assumes "pr_state p \<noteq> kEnd" and "parse_loop options s p = (q, rest)"
  shows "\<exists>rest'. parse_loop options (until_nul s) p = (q, rest') \<and> (pr_state q = kEnd \<longrightarrow> rest' = until_nul rest)"
  using assms
proof (induction options s p rule: parse_loop.induct)
  case (2 options c input p)
  show ?case
  proof (cases "c = CHR 0x00 \<or> pr_state (parse_step options c p) = kEnd")
    case True
    then show ?thesis using 2(2,3) by (auto simp: until_nul_def Let_def split: if_splits)
  next
    case False
    then show ?thesis using 2(1) [of "parse_step options c p"] 2(2,3) by (simp add: until_nul_def Let_def)
  qed
qed (simp add: until_nul_def)

lemma ParseUnpacked_until_nul: "ParseUnpacked (until_nul s) options = ParseUnpacked s options"
proof -
  obtain q rest where q: "parse_loop options s initial_parser = (q, rest)" by fastforce
  moreover have "pr_state initial_parser \<noteq> kEnd" by (simp add: initial_parser_def)
  ultimately obtain rest' where "parse_loop options (until_nul s) initial_parser = (q, rest')"
      "pr_state q = kEnd \<longrightarrow> rest' = until_nul rest"
    using parse_loop_until_nul by blast
  then show ?thesis using q by (simp add: ParseUnpacked_def check_trailing_def trailing_loop_until_nul)
qed

lemma Decimal_ofString_until_nul: "Decimal_ofString P pol (until_nul s) = Inr v \<longleftrightarrow> Decimal_ofString P pol s = Inr v"
proof -
  have "Decimal_Parse P pol (until_nul s) {} = Decimal_Parse P pol s {}"
    unfolding Decimal_Parse_def ParseUnpacked_until_nul ..
  then show ?thesis
    by (auto simp: Decimal_ofString_def parsed_decimal_def dbind_def split: sum.splits ParseResult.splits)
qed


text \<open>The documentation does not allow this literal for a decimal without fractional digits.\<close>

lemma long_zeros_accepted:
  "Decimal_ofString 0 (DivRounded DefRoundPolicy) ''1.000000000000000000'' = Inr 1"
  "Decimal_ofString 0 (DivRounded DefRoundPolicy) ''1.00000000000000000'' \<noteq> Inr 1"
  by code_simp+

subsection \<open>Printing and reading back\<close>

lemma dec_length: "n < 10 ^ w \<Longrightarrow> 0 < w \<Longrightarrow> length (dec n) \<le> w"
proof (induction w arbitrary: n)
  case (Suc w)
  show ?case
  proof (cases "n < 10")
    case False
    then have "n div 10 < 10 ^ w" "0 < w" using Suc.prems by (auto intro: Suc_leI gr0I)
    then show ?thesis using Suc.IH [of "n div 10"] False by (simp add: dec.simps [of n])
  qed (simp add: dec.simps [of n])
qed simp

lemma all_digits_dec: "all_digits (dec n)"
  by (auto simp: all_digits_def dest: dec_digits)

lemma zero_padded_spec:
  assumes "n < 10 ^ w" and "0 < w"
  shows "length (zero_padded w n) = w" "all_digits (zero_padded w n)" "undec (zero_padded w n) = n"
proof -
  show "length (zero_padded w n) = w" using dec_length [OF assms] by (simp add: zero_padded_def)
  show "all_digits (zero_padded w n)" using all_digits_dec [of n] by (auto simp: zero_padded_def all_digits_def is_digit_def)
  show "undec (zero_padded w n) = n" by (simp add: zero_padded_def undec_append undec_zeros)
qed

text \<open>The removal of zeros moves a power of ten from the digits to the precision.\<close>

definition moved_zeros :: "int \<times> int \<Rightarrow> int \<times> int \<Rightarrow> bool" where
  "moved_zeros x y \<longleftrightarrow> (\<exists>j. fst x = fst y * 10 ^ j \<and> snd y = snd x - int j)"

lemma moved_zeros_step: "moved_zeros x y \<Longrightarrow> moved_zeros x (trim_step k y)"
proof -
  assume "moved_zeros x y"
  then obtain j where j: "fst x = fst y * 10 ^ j" "snd y = snd x - int j" by (auto simp: moved_zeros_def)
  have "fst y = fst y sdiv kPow10 k * 10 ^ k" if "fst y smod kPow10 k = 0"
    using sdiv_mult_smod_eq [of "fst y" "kPow10 k"] that by (simp add: kPow10_def)
  then show ?thesis
    using j unfolding moved_zeros_def trim_step_def
    by (cases "fst y smod kPow10 k = 0") (auto simp: split_beta power_add intro: exI [of _ "k + j"])
qed

lemma TrimTrailingZeros_moves: "a \<noteq> 0 \<Longrightarrow> moved_zeros (a, n) (TrimTrailingZeros (a, n))"
  unfolding TrimTrailingZeros_def by (simp add: moved_zeros_step moved_zeros_def [of _ "(a, n)"])

definition printed_literal :: "int \<Rightarrow> nat \<Rightarrow> nat \<Rightarrow> nat \<Rightarrow> literal" where
  "printed_literal v b w f =
     \<lparr>lit_sign = (if v < 0 then ''-'' else []), lit_int = dec b, lit_dot = (0 < w), lit_frac = (if 0 < w then zero_padded w f else [])\<rparr>"

lemma printed_literal_complete:
  assumes "b < 10 ^ 18" and "f < 10 ^ w" and "w \<le> kMaxDecimalDigits"
  shows "lit_complete (printed_literal v b w f)" "length (lit_text (printed_literal v b w f)) < 256"
proof -
  note len = dec_length [OF assms(1)]
  have sig: "length (significant (dec b)) \<le> 18"
    using len length_dropWhile_le [of "\<lambda>c. c = CHR ''0''" "dec b"] by (simp add: significant_def)
  have "length (zero_padded w f) = w \<and> all_digits (zero_padded w f) \<and> zero_padded w f \<noteq> []" if "0 < w"
    using zero_padded_spec [OF assms(2) that] that by auto
  then show "lit_complete (printed_literal v b w f)" "length (lit_text (printed_literal v b w f)) < 256"
    using sig len all_digits_dec assms(3)
    by (auto simp: lit_complete_def lit_wf_def lit_fits_def printed_literal_def lit_text_def kMaxDecimalDigits_def)
qed

lemma printed_literal_scaled:
  assumes "f < 10 ^ w" and "w \<le> P" and "\<bar>v\<bar> = int b * 10 ^ P + int f * 10 ^ (P - w)"
  shows "lit_scaled P (printed_literal v b w f) = v"
proof -
  have "undec (lit_frac (printed_literal v b w f)) = f \<and> length (lit_frac (printed_literal v b w f)) = w"
    using zero_padded_spec [OF assms(1)] assms(1) by (auto simp: printed_literal_def undec_def)
  then have "lit_scaled P (printed_literal v b w f) = (if v < 0 then -1 else 1) * \<bar>v\<bar>"
    unfolding assms(3) by (simp add: lit_scaled_def) (simp add: printed_literal_def)
  then show ?thesis by simp
qed

lemma Decimal_ToString_literal:
  assumes "P \<le> kMaxDecimalDigits"
  shows "\<exists>w f. Decimal_ToString P pol v = Inr (lit_text (printed_literal v (nat (\<bar>v\<bar> div 10 ^ P)) w f))
     \<and> f < 10 ^ w \<and> w \<le> P \<and> \<bar>v\<bar> = int (nat (\<bar>v\<bar> div 10 ^ P)) * 10 ^ P + int f * 10 ^ (P - w)"
proof -
  let ?b = "nat (\<bar>v\<bar> div 10 ^ P)" and ?a = "v smod kPow10 P"
  have b: "int ?b = \<bar>v\<bar> div 10 ^ P" by (simp add: pos_imp_zdiv_nonneg_iff)
  have sdiv: "v sdiv kPow10 P = sgn v * int ?b" unfolding b by (simp add: signed_divide_int_def kPow10_def)
  have smod: "?a = sgn v * (\<bar>v\<bar> mod 10 ^ P)" by (simp add: signed_modulo_int_def kPow10_def)
  have abs: "\<bar>v\<bar> = int ?b * 10 ^ P + \<bar>v\<bar> mod 10 ^ P" unfolding b by (simp only: div_mult_mod_eq)
  have before: "dec_int (- (v sdiv kPow10 P)) = dec ?b" if "v < 0" using that sdiv by (simp add: dec_int_def)
  have before': "dec_int (v sdiv kPow10 P) = dec ?b" if "\<not> v < 0" using that sdiv by (auto simp: dec_int_def sgn_if)
  show ?thesis
  proof (cases "?a = 0")
    case True
    then have rem: "\<bar>v\<bar> mod 10 ^ P = 0" using smod by (cases "v = 0") (auto simp: sgn_if split: if_splits)
    have "dec_int (v sdiv kPow10 P) = lit_text (printed_literal v ?b 0 0)"
    proof (cases "v < 0")
      case neg: True
      then have "0 < int ?b" using abs rem by (cases "?b = 0") auto
      then show ?thesis using neg sdiv by (simp add: dec_int_def lit_text_def printed_literal_def)
    qed (use before' in \<open>simp add: lit_text_def printed_literal_def\<close>)
    then have "Decimal_ToString P pol v = Inr (lit_text (printed_literal v ?b 0 0))"
      using True by (simp add: Decimal_ToString_def format_decimal_def AsUnpacked_prec_def AsUnpacked_def TrimTrailingZeros_def)
    then show ?thesis using abs rem by (intro exI [of _ 0] exI [of _ "0 :: nat"]) simp
  next
    case False
    obtain a' j where trim: "TrimTrailingZeros (?a, int P) = (a', int P - int j)" "?a = a' * 10 ^ j"
      using TrimTrailingZeros_moves [OF False, of "int P"] unfolding moved_zeros_def by (metis fst_conv prod.collapse snd_conv)
    have "v \<noteq> 0" using False by auto
    then have "\<bar>?a\<bar> = \<bar>v\<bar> mod 10 ^ P" unfolding smod by (simp add: abs_mult abs_sgn_eq)
    moreover have "\<bar>?a\<bar> = \<bar>a'\<bar> * 10 ^ j" unfolding trim(2) by (simp add: abs_mult)
    ultimately have rem: "\<bar>v\<bar> mod 10 ^ P = \<bar>a'\<bar> * 10 ^ j" by simp
    have nz: "a' \<noteq> 0" using False trim(2) by auto
    have lt: "\<bar>a'\<bar> * 10 ^ j < 10 ^ P" unfolding rem [symmetric] by simp
    have "10 ^ j \<le> \<bar>a'\<bar> * (10 ^ j :: int)" using nz by (simp add: mult_le_cancel_right1)
    then have "(10 :: int) ^ j < 10 ^ P" using lt by linarith
    then have j: "j < P" by simp
    then have "\<bar>a'\<bar> * 10 ^ j < 10 ^ (P - j) * 10 ^ j" using lt by (simp flip: power_add)
    then have f: "nat \<bar>a'\<bar> < 10 ^ (P - j)" by (simp add: nat_less_iff)
    have "a' * 10 ^ j = (sgn v * \<bar>a'\<bar>) * 10 ^ j" using smod trim(2) rem by simp
    then have a': "a' = sgn v * \<bar>a'\<bar>" by simp
    have sign: "Sign v = -1 \<longleftrightarrow> v < 0" "v < 0 \<Longrightarrow> - a' = \<bar>a'\<bar>" "\<not> v < 0 \<Longrightarrow> a' = \<bar>a'\<bar>"
      using a' \<open>v \<noteq> 0\<close> by (auto simp: Sign_def)
    have "Decimal_ToString P pol v = Inr (lit_text (printed_literal v ?b (P - j) (nat \<bar>a'\<bar>)))"
      using trim(1) j before before' sign(1) sign(2,3) [symmetric]
      by (cases "v < 0") (simp_all add: Decimal_ToString_def format_decimal_def AsUnpacked_prec_def AsUnpacked_def lit_text_def
          printed_literal_def flip: of_nat_diff)
    moreover have "\<bar>v\<bar> = int ?b * 10 ^ P + int (nat \<bar>a'\<bar>) * 10 ^ (P - (P - j))" using abs rem j by simp
    ultimately show ?thesis using f by (intro exI [of _ "P - j"] exI [of _ "nat \<bar>a'\<bar>"]) simp
  qed
qed

text \<open>
  (C31) What is printed is read back: for every precision, policy and value whose whole part is
  below the limits of the parser, \<open>ToString\<close> succeeds and the strict constructor gives the same
  decimal.
\<close>

theorem decimal_roundtrip:
  assumes "P \<le> kMaxDecimalDigits" and "\<bar>v\<bar> div 10 ^ P < min (10 ^ 18) (kMaxInt64 div 10 ^ P)"
  shows "\<exists>txt. Decimal_ToString P pol v = Inr txt \<and> Decimal_ofString P pol txt = Inr v"
proof -
  let ?b = "nat (\<bar>v\<bar> div 10 ^ P)"
  obtain w f where wf: "Decimal_ToString P pol v = Inr (lit_text (printed_literal v ?b w f))" "f < 10 ^ w" "w \<le> P"
    "\<bar>v\<bar> = int ?b * 10 ^ P + int f * 10 ^ (P - w)"
    using Decimal_ToString_literal [OF assms(1), of pol v] by auto
  have b: "int ?b = \<bar>v\<bar> div 10 ^ P" by (simp add: pos_imp_zdiv_nonneg_iff)
  then have "int ?b < 10 ^ 18" using assms(2) by simp
  then have "?b < 10 ^ 18" by (metis of_nat_less_iff of_nat_numeral of_nat_power)
  note full = printed_literal_complete [OF this wf(2), of v]
  have "frac_accepted P (lit_frac (printed_literal v ?b w f))"
    using zero_padded_spec(1) [OF wf(2)] wf(3) by (auto simp: frac_accepted_def printed_literal_def)
  moreover have "int (undec (lit_int (printed_literal v ?b w f))) < kMaxInt64 div kPow10 P"
    using b assms(2) by (simp add: printed_literal_def kPow10_def)
  ultimately have "Decimal_ofString P pol (lit_text (printed_literal v ?b w f)) = Inr v"
    using Decimal_ofString_literal [OF assms(1) full, of pol v] printed_literal_scaled [OF wf(2-4)] wf(3) assms(1) by simp
  then show ?thesis using wf(1) by blast
qed

subsection \<open>Where the parser goes wrong\<close>

lemma permissive_exponents:
  "ParseUnpacked ''1e-255'' {kAllowSpaces, kAllowBoundaryDot, kAllowRounding, kAllowExponent} =
     \<lparr>pr_before = 1, pr_after = 0, pr_negative = False, pr_position = 5, pr_state = kExpDigits, pr_error = None, pr_before_digits = 1,
      pr_after_digits = 0, pr_negative_exp = True, pr_exponent = 255, pr_zeros = 0\<rparr>"
  "ParseUnpacked ''1e-256'' {kAllowSpaces, kAllowBoundaryDot, kAllowRounding, kAllowExponent} =
     \<lparr>pr_before = 1, pr_after = 0, pr_negative = False, pr_position = 5, pr_state = kExpDigits, pr_error = None, pr_before_digits = 1,
      pr_after_digits = 0, pr_negative_exp = True, pr_exponent = 0, pr_zeros = 0\<rparr>"
  by code_simp+

lemma one_fits:
  assumes "P \<le> kMaxDecimalDigits"
  shows "1 < kMaxInt64 div kPow10 P"
proof -
  have "kMaxInt64 div 10 ^ 18 \<le> kMaxInt64 div kPow10 P"
    using kPow10_bounds [OF assms] by (intro zdiv_mono2) (simp_all add: kMaxInt64_def)
  then show ?thesis by (simp add: kMaxInt64_def)
qed

text \<open>
  (C24) The exponent of the permissive parser wraps around: it has 8 bits, and a negative one that
  overflows is no error, since rounding is allowed.  So \<open>1e-255\<close> is zero at every precision, but
  \<open>1e-256\<close> is one.
\<close>

theorem decimal_exponent_wraps:
  assumes "P \<le> kMaxDecimalDigits"
  shows "FromStringPermissive P pol ''1e-255'' = Inr 0 \<and> FromStringPermissive P pol ''1e-256'' = Inr (10 ^ P)"
proof -
  have div: "kMaxInt64 sdiv kPow10 P = kMaxInt64 div kPow10 P"
    using kPow10_bounds [OF assms] by (intro signed_nonneg) (simp_all add: kMaxInt64_def)
  have "int P \<le> 18" using assms by (simp add: kMaxDecimalDigits_def)
  then have "FromUnpackedWithExponent P pol 1 0 0 255 True 0 = Inr 0"
    by (simp add: FromUnpackedWithExponent_def kMaxDecimalDigits_def Let_def)
  moreover have "int64 (kPow10 P)" using kPow10_bounds [OF assms] by (auto simp: int64_def kMinInt64_def kMaxInt64_def)
  then have "FromUnpacked_prec P pol 1 0 0 = Inr (10 ^ P)"
    using assms by (simp add: FromUnpacked_prec_def FromUnpacked_def Pow10_def checked_def) (simp add: kPow10_def)
  ultimately show ?thesis
    using one_fits [OF assms]
    by (simp add: FromStringPermissive_def Decimal_Parse_def permissive_exponents parsed_decimal_def div Let_def)
qed

text \<open>A NUL character ends the input, so that anything may follow it.\<close>

lemma decimal_ignores_after_nul:
  "Decimal_ofString P pol (s @ CHR 0x00 # junk) = Inr v \<longleftrightarrow> Decimal_ofString P pol s = Inr v"
proof -
  have "until_nul (s @ CHR 0x00 # junk) = until_nul s" by (simp add: until_nul_def takeWhile_tail)
  then show ?thesis using Decimal_ofString_until_nul by metis
qed

text \<open>Groups of one digit: the nineteenth is written behind the end of the arrays.\<close>

lemma grouping_overruns:
  "ToString_options 0 (DivRounded DefRoundPolicy)
     \<lparr>decimal_point = ''.'', thousands_sep = '','', grouping = [CHR 0x01], negative_sign = ''-'', positive_sign = [], precision = None,
      is_fixed = False\<rparr> kMaxInt64 = Inl ArrayOverrun"
  by code_simp

subsection \<open>Examples\<close>


theorem decimal_roundtrip_witness:
  "\<exists>txt. Decimal_ToString 6 (DivRounded DefRoundPolicy) (-1500000) = Inr txt \<and> Decimal_ofString 6 (DivRounded DefRoundPolicy) txt = Inr (-1500000)"
  by (rule decimal_roundtrip) (simp_all add: kMaxDecimalDigits_def kMaxInt64_def)

theorem decimal_exponent_wraps_witness:
  "FromStringPermissive 2 (DivRounded FloorRoundPolicy) ''1e-256'' = Inr 100"
  using decimal_exponent_wraps [of 2 "DivRounded FloorRoundPolicy"] by (simp add: kMaxDecimalDigits_def)

end
