(* ===== verification/Spec2Isabelle.thy ===== *)
theory Spec2Isabelle
  imports Request_Correct Services_Correct Pipeline_Correct Header_Map_Correct Congestion_Correct
    Multipart_Correct Cookie_Correct Decimal64_Text_Correct
begin

text \<open>
  \<^bold>\<open>What is verified.\<close>  The repository is a small social network: four C++ services
  (\<open>auth-service\<close>, \<open>user-service\<close>, \<open>chat-service\<close>, \<open>wall-service\<close>) over one PostgreSQL schema
  (\<open>db/schema.sql\<close>), built on the framework \<open>userver\<close>, whose sources are part of the repository.
  This development follows a request through a service: its bytes become a request, the request
  finds a handler, passes the middlewares, is handled over the database, and becomes the bytes of
  a response.

  \<^bold>\<open>Conventions.\<close>  A \<open>std::string\<close> is a list of bytes; an exception is a value of \<open>exn\<close> (in the
  pipeline of \<open>hexn\<close>, which adds the handler's own exceptions and those outside \<open>std::exception\<close>);
  a function that may throw returns \<open>exn + 'a\<close>; a member function that changes its object and may
  throw is an action \<open>'s \<Rightarrow> (exn + 'a) \<times> 's\<close> that keeps the state it had reached when it throws.
  \<open>std::map\<close> is a sorted list of pairs, an \<open>std::unordered_map\<close> a partial function or, where it
  is written out, a list; the header map of the framework is modelled as the table it is.  Hashes,
  counters and status codes are machine words, \<open>size_t\<close> arithmetic that can wrap is written out
  modulo \<open>2 ^ 64\<close>; a \<open>double\<close> is a rational number, rounded to 53 bits after every operation.
  All definitions are executable.  No fuel is used: loops over pointers and views are functions
  with a measure; the probe loops of the header map, which end only because the table keeps a
  free slot, and the one loop of the code that does not end (printing \<open>kInvalid\<close>) are
  \<open>partial_function\<close>s, and that the probe loops return is part of the theorems about them.

  \<^bold>\<open>Theories, in the order of the request.\<close>

  \<^item> \<open>Prelude\<close>: results, actions, byte strings, searching and splitting, ordered maps, decimal numbers.

  \<^item> \<open>Http_Types\<close> (\<open>http_method.cpp\<close>, \<open>status_code.cpp\<close>, \<open>exceptions.cpp\<close>, \<open>http_error.cpp\<close>): methods,
    statuses, error codes and how one becomes the other; the list of methods of a handler.

  \<^item> \<open>Hex_Codec\<close>, \<open>Url_Codec\<close> (\<open>encoding/hex.cpp\<close>, \<open>http/url.cpp\<close>, \<open>http/parser/http_request_parse_args.cpp\<close>):
    the vectorised encoder equals the scalar one; percent encoding and query strings round-trip;
    the pointer-based argument parser refines splitting at the separators; parts of a URL.

  \<^item> \<open>Handler_Index\<close>, \<open>Handler_Routing\<close>, \<open>Path_Trie\<close>, \<open>Routing_Correct\<close> (\<open>handler_method_index.cpp\<close>,
    \<open>fixed_path_index.cpp\<close>, \<open>wildcard_path_index.cpp\<close>, \<open>handler_info_index.cpp\<close>): registration of
    handlers and the search for one.  Routing is sound and complete with respect to the paths and
    methods of the registered handlers, and never throws in a state that registration reaches.

  \<^item> \<open>Json_Value\<close> (\<open>formats/json/value.cpp\<close>, \<open>value_builder.cpp\<close>): reading members and integers,
    building answers.  The text format is RapidJSON's and is an input.

  \<^item> \<open>Byte_Utils\<close>, \<open>Header_Hash\<close> (\<open>utils/impl/byte_utils.cpp\<close>, \<open>predefined_header.hpp\<close>,
    \<open>header_map/danger.cpp\<close>): the hashes of header names and the comparison up to case.  The
    vectorised hash that lower-cases while it reads is SipHash-1-3 of the lower-cased name.

  \<^item> \<open>Header_Map\<close>, \<open>Robin_Hood\<close>, \<open>Header_Map_Correct\<close> (\<open>header_map/map.cpp\<close>, \<open>header_map.cpp\<close>): the
    open-addressing table with Robin Hood hashing.  Its invariant is kept by insertion, growth,
    rebuilding and removal with backward shift; search, insertion and removal end and implement
    the operations on the plain list of headers that requests and responses are modelled with.

  \<^item> \<open>Http_Response\<close>, \<open>Http_Request\<close> (\<open>http_response.cpp\<close>, \<open>http_request.cpp\<close>,
    \<open>http_request_builder.cpp\<close>): headers as a list, the bytes of a response, arguments and cookies of
    a request.  No header can inject a line, system headers cannot be changed by a handler,
    chunked bodies read back.

  \<^item> \<open>Response_Cookie\<close>, \<open>Cookie_Correct\<close> (\<open>http_response_cookie.cpp\<close>): the cookies of a response,
    their text and its parser.  The text reads back; names and values stay in their line.

  \<^item> \<open>Multipart\<close>, \<open>Multipart_Correct\<close> (\<open>multipart_form_data_parser.cpp\<close>): the bodies of forms.  A form
    reads back as it was written, the search for a delimiter finds the first one, and no body
    makes a handler that reads an argument throw.

  \<^item> \<open>Request_Constructor\<close>, \<open>Request_Correct\<close> (\<open>http_request_constructor.cpp\<close>,
    \<open>http_request_parser.cpp\<close>): the callbacks of the parser.  A delivered request is within all limits
    and has a handler, or is already answered with a 4xx status; it does not matter in which
    pieces it arrives; every header arrives.

  \<^item> \<open>Token_Bucket\<close> (\<open>token_bucket.cpp\<close>), \<open>Handler_Stats\<close> (\<open>http_codes.cpp\<close>,
    \<open>http_handler_base_statistics.cpp\<close>), \<open>From_String\<close> (\<open>from_string.hpp\<close>): what the middlewares use.
    A bucket keeps its rate and, used by one thread at a time, its size.

  \<^item> \<open>Handler_Pipeline\<close> (\<open>http_handler_base.cpp\<close>, \<open>server/middlewares/\<close>), \<open>Request_Handler\<close>
    (\<open>http_request_handler.cpp\<close>, \<open>handler_config.cpp\<close>), \<open>Pipeline_Frame\<close>, \<open>Pipeline_Correct\<close>: the ten
    middlewares of the default pipeline, the task of a request, its throttling and its
    configuration.  Every request is answered, whatever the handler throws; what the handler
    answers is what is sent; throttled and expired requests do not reach the handler.

  \<^item> \<open>Double_Arith\<close>, \<open>Congestion_Control\<close>, \<open>Congestion_Correct\<close> (\<open>congestion_control/controller.cpp\<close>,
    \<open>sensor.cpp\<close>, \<open>limiter.cpp\<close>, \<open>watchdog.cpp\<close>, \<open>component.cpp\<close>): the loop that sets the rate limit
    of the server once a second.  The limit stays between the configured minimum and a bound
    without overflow, reaches the minimum under lasting overload, goes away after it, and is what
    the token bucket of the server enforces.

  \<^item> \<open>Pg_Result\<close> (\<open>result_set.cpp\<close>, \<open>row.cpp\<close>, \<open>field.cpp\<close>, \<open>integral_types.hpp\<close>, \<open>numeric_cast.hpp\<close>):
    reading rows; integers round-trip through the binary format or are reported as too large.

  \<^item> \<open>Services\<close>, \<open>Social_Db\<close>, \<open>Services_Correct\<close> (\<open>auth.cpp\<close>, \<open>users.cpp\<close>, \<open>messages.cpp\<close>, \<open>posts.cpp\<close>,
    \<open>hello.cpp\<close>): the handlers over a database that is only known through the locale
    \<open>social_store\<close>, which says what each statement of the services does to the tables of the
    schema, and an executable database that fulfils it.  A user who registers is listed, a post
    appears on the wall, a message goes to the one private chat of its two users.

  \<^item> \<open>Decimal64\<close>, \<open>Decimal64_Correct\<close>, \<open>Decimal64_Text\<close>, \<open>Decimal64_Text_Correct\<close> (\<open>decimal64.hpp\<close>,
    \<open>decimal64.cpp\<close>): fixed-point decimals, the library's type for amounts of money, which no service
    uses so far.  Each of the eight rounding policies is what its name says on rational numbers,
    products are rounded once and never wrap, the strict parser accepts exactly the documented
    literals, and what is printed reads back.

  \<^bold>\<open>Interfaces.\<close>  \<open>social_store\<close> is what the services rely on; its interpretation on
  \<open>social_execute\<close> shows that the schema can fulfil it.  \<open>request_blind\<close> and \<open>service_blind\<close> are what
  the pipeline promises to leave alone, interpreted for the database and for the counters of
  requests in flight.  \<open>path_matcher\<close> is what the two path indices promise to routing,
  \<open>text_codec\<close> what encoders promise, \<open>lower_fetcher\<close> and \<open>lower_comparer\<close> what the
  templates for hashing and comparing expect of their instances, \<open>header_store\<close> what a store of
  headers promises (interpreted on the hash table), \<open>limitee\<close> what the congestion control
  expects of a server (interpreted on the rate limiter), and \<open>rounding\<close> what division expects of
  a rounding policy (interpreted on the seven policies of the library and its default).  Code that is not in the repository (libpq and the server behind it,
  RapidJSON, llhttp, zlib, clocks, the time zone library, the tracing manager) appears as arguments, gathered in the
  records \<open>SvcEnv\<close>, \<open>ParserEnv\<close>, \<open>PipeEnv\<close> and \<open>ServeEnv\<close>.

  \<^bold>\<open>What the proofs found.\<close>  A registration is two statements without a transaction, and one that
  fails half-way makes every listing fail; a message to oneself ends up in a chat with somebody
  else; bodies that are not JSON are answered with 500; two threads can overfill a token bucket; a
  client timeout of \<open>2 ^ 63\<close> or more counts as expired; the reply codes that should always be
  reported are shifted by 100; the length of a query wraps around when the question mark is in the
  fragment; printing an invalid status does not end; the header whose insertion switches a map to
  the safe hash is stored under the old one and cannot be found; with the default critical
  percentage the congestion control ignores how long an overload has to last; the path, domain
  and same-site policy of a cookie are not checked and can add lines to a response; the exponent
  of a decimal wraps around at 256; a NUL character hides what follows a decimal.

  \<^bold>\<open>Not modelled.\<close>  The coroutine engine, sockets, HTTP/2 and WebSocket, start-up and the reload
  of dynamic configuration, logging and spans, timings, the HTTP client, the drivers the services
  do not use, and the Python services.  What is left of the way of a request is input and output
  (sockets, libpq), third-party code (llhttp, RapidJSON, the time zone library) or has no effect
  on an answer (logs, spans, timings); the rest of the framework is used by none of the services.
  Cancellation and clocks are inputs; concurrency is modelled where the code relies on it, in the
  token bucket and the counters of requests in flight.
\<close>

end
